(* ===== verification/Rigel_Prelude.thy ===== *)
theory Rigel_Prelude
  imports Main "HOL-Library.Word"
begin

unbundle bit_operations_syntax

text \<open>
  Shared vocabulary of the development.

  \<^item> C integers: \<open>unsigned long\<close> and \<open>bfd_vma\<close> are 64 bits wide on the LP64 hosts the
    tool chain is built for, \<open>int\<close> and \<open>unsigned int\<close> are 32 bits wide, a byte has 8.
  \<^item> C strings: lists of characters without the terminating NUL; a test for the end of the
    string is a test for the empty list.
  \<^item> The functions of the C library (and of libiberty's \<open>safe-ctype.h\<close>) that the modelled code
    calls: \<open>strncmp\<close>, \<open>strcasecmp\<close>, character classes, and the conversions of \<open>printf\<close>.
  \<^item> Bit fields: \<open>INSERT_BITS\<close> and \<open>EXTRACT_BITS\<close> of \<open>gas/config/tc-mips.c\<close> and their
    algebra, which every component that touches an instruction word uses.
  \<^item> Array reads with a bounds check: a read that C leaves undefined is \<open>None\<close>.
\<close>

section \<open>Types and collections of facts\<close>

type_synonym ulong = "64 word"
type_synonym uint = "32 word"
type_synonym byte = "8 word"
type_synonym cstring = "char list"

named_theorems rigel_const \<open>definitions of numeric constants (masks, flags, ISA and CPU numbers)\<close>
named_theorems rigel_tab \<open>definitions of tables\<close>
named_theorems rigel_fmt \<open>definitions of the printf conversions\<close>

section \<open>The C library\<close>

text \<open>\<open>strncmp (a, b, n) == 0\<close> on NUL-free strings.\<close>

definition strncmp_eq :: "cstring \<Rightarrow> cstring \<Rightarrow> nat \<Rightarrow> bool" where
  "strncmp_eq a b n \<longleftrightarrow> take n a = take n b"

lemma strncmp_eq_whole:
  "strncmp_eq a b n \<and> length a = n \<and> n \<le> length b \<longleftrightarrow> a = take n b \<and> n \<le> length b"
  by (auto simp: strncmp_eq_def)

text \<open>\<open>TOLOWER\<close>, \<open>ISDIGIT\<close>, \<open>ISSPACE\<close> and \<open>ISLOWER\<close> of \<open>safe-ctype.h\<close>: ASCII only,
  whatever the locale.\<close>

definition char_code :: "char \<Rightarrow> nat" where
  "char_code c = of_char c"

definition tolower :: "char \<Rightarrow> char" where
  "tolower c = (if 65 \<le> char_code c \<and> char_code c \<le> 90 then char_of (char_code c + 32) else c)"

definition isdigit :: "char \<Rightarrow> bool" where
  "isdigit c \<longleftrightarrow> 48 \<le> char_code c \<and> char_code c \<le> 57"

definition isspace :: "char \<Rightarrow> bool" where
  "isspace c \<longleftrightarrow> char_code c = 32 \<or> 9 \<le> char_code c \<and> char_code c \<le> 13"

definition strcasecmp_eq :: "cstring \<Rightarrow> cstring \<Rightarrow> bool" where
  "strcasecmp_eq a b \<longleftrightarrow> map tolower a = map tolower b"

lemma char_code_char_of [simp]: "n < 256 \<Longrightarrow> char_code (char_of n) = n"
  by (simp add: char_code_def)

lemma char_code_bound: "char_code c < 256"
  by (simp add: char_code_def)

lemma char_code_inject: "char_code c = char_code d \<longleftrightarrow> c = d"
  by (metis char_code_def char_of_char)

lemma tolower_idem [simp]: "tolower (tolower c) = tolower c"
  by (auto simp: tolower_def)

lemma strcasecmp_eq_refl [simp]: "strcasecmp_eq a a"
  by (simp add: strcasecmp_eq_def)

lemma strcasecmp_eq_sym: "strcasecmp_eq a b \<longleftrightarrow> strcasecmp_eq b a"
  by (auto simp: strcasecmp_eq_def)

section \<open>Conversions of printf\<close>

definition digit_char :: "nat \<Rightarrow> char" where
  "digit_char d = (if d < 10 then char_of (48 + d) else char_of (87 + d))"

fun show_base :: "nat \<Rightarrow> nat \<Rightarrow> cstring" where
  "show_base b n =
     (if b < 2 \<or> n < b then [digit_char n] else show_base b (n div b) @ [digit_char (n mod b)])"

declare show_base.simps [simp del]

text \<open>\<open>%lu\<close>/\<open>%u\<close>, \<open>%lx\<close>/\<open>%x\<close>, and \<open>%ld\<close>/\<open>%d\<close> of the value given.\<close>

definition fmt_u :: "nat \<Rightarrow> cstring" where
  [rigel_fmt]: "fmt_u n = show_base 10 n"

definition fmt_x :: "nat \<Rightarrow> cstring" where
  [rigel_fmt]: "fmt_x n = show_base 16 n"

definition fmt_d :: "int \<Rightarrow> cstring" where
  [rigel_fmt]: "fmt_d i = (if i < 0 then CHR ''-'' # show_base 10 (nat (- i)) else show_base 10 (nat i))"

text \<open>The value a numeral denotes, the inverse of the conversions.\<close>

definition digit_value :: "char \<Rightarrow> nat" where
  "digit_value c = (if char_code c < 58 then char_code c - 48 else char_code c - 87)"

definition read_base :: "nat \<Rightarrow> cstring \<Rightarrow> nat" where
  "read_base b s = foldl (\<lambda>v c. v * b + digit_value c) 0 s"

lemma digit_value_char [simp]: "d < 16 \<Longrightarrow> digit_value (digit_char d) = d"
  by (auto simp: digit_value_def digit_char_def)

lemma read_show_base:
  assumes "2 \<le> b" "b \<le> 16"
  shows "read_base b (show_base b n) = n"
  using assms
proof (induction b n rule: show_base.induct)
  case (1 b n)
  show ?case
  proof (cases "n < b")
    case True
    with 1 show ?thesis by (simp add: show_base.simps [of b n] read_base_def)
  next
    case False
    with 1 have "read_base b (show_base b (n div b)) = n div b" by simp
    moreover have "n mod b < 16"
      using 1 by (meson less_le_trans mod_less_divisor not_less not_numeral_le_zero gr_zeroI le_trans)
    ultimately show ?thesis
      using False 1 by (simp add: show_base.simps [of b n] read_base_def)
  qed
qed

lemma show_base_nonempty [simp]: "show_base b n \<noteq> []"
  by (subst show_base.simps) simp

lemma show_base_inject:
  "2 \<le> b \<Longrightarrow> b \<le> 16 \<Longrightarrow> show_base b m = show_base b n \<longleftrightarrow> m = n"
  by (metis read_show_base)

section \<open>Array reads\<close>

definition nth_opt :: "'a list \<Rightarrow> nat \<Rightarrow> 'a option" where
  "nth_opt xs i = (if i < length xs then Some (xs ! i) else None)"

lemma nth_opt_in_range [simp]: "i < length xs \<Longrightarrow> nth_opt xs i = Some (xs ! i)"
  by (simp add: nth_opt_def)

lemma nth_opt_eq_None_iff: "nth_opt xs i = None \<longleftrightarrow> length xs \<le> i"
  by (simp add: nth_opt_def)

lemma nth_opt_SomeD: "nth_opt xs i = Some x \<Longrightarrow> i < length xs \<and> x = xs ! i"
  by (auto simp: nth_opt_def split: if_splits)

text \<open>The first element that satisfies a test together with its index: the shape of the table
  scans of the program.\<close>

fun find_index :: "('a \<Rightarrow> bool) \<Rightarrow> 'a list \<Rightarrow> nat option" where
  "find_index P [] = None"
| "find_index P (x # xs) = (if P x then Some 0 else map_option Suc (find_index P xs))"

lemma find_index_SomeD:
  "find_index P xs = Some i \<Longrightarrow> i < length xs \<and> P (xs ! i) \<and> (\<forall>j<i. \<not> P (xs ! j))"
proof (induction xs arbitrary: i)
  case (Cons x xs)
  show ?case
  proof (cases "P x")
    case False
    with Cons.prems obtain k where "find_index P xs = Some k" and i: "i = Suc k" by auto
    with Cons.IH have IH: "k < length xs \<and> P (xs ! k) \<and> (\<forall>j<k. \<not> P (xs ! j))" by blast
    have "\<forall>j<i. \<not> P ((x # xs) ! j)"
      using IH False i by (auto simp: less_Suc_eq_0_disj)
    with IH i show ?thesis by simp
  qed (use Cons.prems in simp)
qed simp

lemma find_index_None_iff: "find_index P xs = None \<longleftrightarrow> (\<forall>x\<in>set xs. \<not> P x)"
  by (induction xs) auto

lemma find_conv_find_index: "List.find P xs = map_option (\<lambda>i. xs ! i) (find_index P xs)"
  by (induction xs) (auto simp: option.map_comp o_def intro!: option.map_cong)

lemma find_drop_prefix:
  "\<forall>x\<in>set (take k xs). \<not> P x \<Longrightarrow> List.find P (drop k xs) = List.find P xs"
  by (induction xs arbitrary: k) (auto simp: take_Cons' drop_Cons' split: if_splits)

section \<open>Bit fields\<close>

text \<open>\<open>INSERT_BITS\<close> and \<open>EXTRACT_BITS\<close> (\<open>gas/config/tc-mips.c\<close>).\<close>

definition INSERT_BITS :: "ulong \<Rightarrow> ulong \<Rightarrow> ulong \<Rightarrow> nat \<Rightarrow> ulong" where
  "INSERT_BITS st v m sh = (st AND NOT (push_bit sh m)) OR push_bit sh (v AND m)"

definition EXTRACT_BITS :: "ulong \<Rightarrow> ulong \<Rightarrow> nat \<Rightarrow> ulong" where
  "EXTRACT_BITS st m sh = drop_bit sh st AND m"

lemma bit_INSERT_BITS:
  "bit (INSERT_BITS st v m sh) n \<longleftrightarrow>
     n < 64 \<and> (if sh \<le> n \<and> bit m (n - sh) then bit v (n - sh) else bit st n)"
  by (auto simp: INSERT_BITS_def bit_simps dest: bit_imp_le_length)

lemma bit_EXTRACT_BITS:
  "bit (EXTRACT_BITS st m sh) n \<longleftrightarrow> bit st (sh + n) \<and> bit m n"
  by (auto simp: EXTRACT_BITS_def bit_simps)

text \<open>A field fits a word when no bit of its mask is shifted out.\<close>

definition field_fits :: "ulong \<Rightarrow> nat \<Rightarrow> bool" where
  "field_fits m sh \<longleftrightarrow> drop_bit sh (push_bit sh m) = m"

lemma field_fits_bit: "field_fits m sh \<Longrightarrow> bit m n \<Longrightarrow> sh + n < 64"
proof -
  assume "field_fits m sh" and n: "bit m n"
  then have "bit (drop_bit sh (push_bit sh m)) n" by (simp add: field_fits_def)
  then show ?thesis by (auto simp: bit_simps)
qed

lemma extract_insert_same:
  "field_fits m sh \<Longrightarrow> EXTRACT_BITS (INSERT_BITS st v m sh) m sh = v AND m"
  by (rule bit_eqI) (auto simp: bit_EXTRACT_BITS bit_INSERT_BITS bit_and_iff dest: field_fits_bit)

lemma extract_insert_other:
  assumes "push_bit sh m AND push_bit sh' m' = 0"
  shows "EXTRACT_BITS (INSERT_BITS st v m' sh') m sh = EXTRACT_BITS st m sh"
proof (rule bit_eqI)
  fix n
  have "\<not> (sh' \<le> sh + n \<and> bit m' (sh + n - sh'))" if "bit m n" "sh + n < 64"
    using arg_cong [OF assms, of "\<lambda>w. bit w (sh + n)"] that by (auto simp: bit_simps)
  then show "bit (EXTRACT_BITS (INSERT_BITS st v m' sh') m sh) n \<longleftrightarrow> bit (EXTRACT_BITS st m sh) n"
    by (auto simp: bit_EXTRACT_BITS bit_INSERT_BITS dest: bit_imp_le_length)
qed

lemma insert_outside:
  assumes "k AND push_bit sh m = 0"
  shows "INSERT_BITS st v m sh AND k = st AND k"
proof (rule bit_eqI)
  fix n
  have "\<not> (sh \<le> n \<and> bit m (n - sh))" if "bit k n" "n < 64"
    using arg_cong [OF assms, of "\<lambda>w. bit w n"] that by (auto simp: bit_simps)
  then show "bit (INSERT_BITS st v m sh AND k) n \<longleftrightarrow> bit (st AND k) n"
    by (auto simp: bit_and_iff bit_INSERT_BITS dest: bit_imp_le_length)
qed

lemma insert_insert_same:
  "INSERT_BITS (INSERT_BITS st v m sh) v' m sh = INSERT_BITS st v' m sh"
  by (rule bit_eqI) (auto simp: bit_INSERT_BITS)

lemma insert_commute:
  assumes "push_bit sh m AND push_bit sh' m' = 0"
  shows "INSERT_BITS (INSERT_BITS st v m sh) v' m' sh' = INSERT_BITS (INSERT_BITS st v' m' sh') v m sh"
proof (rule bit_eqI)
  fix n
  have "\<not> (sh \<le> n \<and> bit m (n - sh) \<and> sh' \<le> n \<and> bit m' (n - sh'))" if "n < 64"
    using arg_cong [OF assms, of "\<lambda>w. bit w n"] that by (auto simp: bit_simps)
  then show "bit (INSERT_BITS (INSERT_BITS st v m sh) v' m' sh') n \<longleftrightarrow>
      bit (INSERT_BITS (INSERT_BITS st v' m' sh') v m sh) n"
    by (auto simp: bit_INSERT_BITS dest: bit_imp_le_length)
qed

lemma and_mask_bound: "unat (w AND m) \<le> unat (m :: ulong)"
  using word_and_le1 [of w m] by (simp add: word_le_nat_alt and.commute)

lemma extract_bound: "unat (EXTRACT_BITS st m sh) \<le> unat m"
  by (simp add: EXTRACT_BITS_def and_mask_bound)

lemma and_mask_id:
  fixes v :: ulong
  assumes "unat v < 2 ^ n"
  shows "v AND mask n = v"
proof -
  have "unat (v AND mask n) = unat v"
    using assms by (simp add: unsigned_take_bit_eq take_bit_nat_eq_self flip: take_bit_eq_mask)
  then show ?thesis by (rule unsigned_word_eqI)
qed

end
