(* ===== verification/Opcode_Mips.thy ===== *)
theory Opcode_Mips
  imports Rigel_Prelude
begin

text \<open>
  \<open>include/opcode/mips.h\<close>, as compiled for Rigel (\<open>RIGEL_32REG_CHANGES\<close> defined): the bit
  fields of an instruction word, the opcode table entry \<open>struct mips_opcode\<close>, the flag words
  \<open>pinfo\<close>, \<open>pinfo2\<close> and \<open>membership\<close>, the ISA levels, the CPU numbers and the membership test
  \<open>OPCODE_IS_MEMBER\<close>.

  The macros \<open>OP_MASK_FIELD\<close> and \<open>OP_SH_FIELD\<close> are always used through the name of a field
  (\<open>INSERT_OPERAND (FIELD, insn, value)\<close> pastes it), so a field is a record of its mask and
  its shift, \<open>F_FIELD\<close> for \<open>OP_\<close> and \<open>F16_FIELD\<close> for \<open>MIPS16OP_\<close>.
\<close>

section \<open>Fields of an instruction word\<close>

record op_field =
  op_mask :: ulong
  op_sh :: nat

definition F_OP :: op_field where [rigel_const]: "F_OP = \<lparr>op_mask = 0xf, op_sh = 28\<rparr>"
definition F_RS :: op_field where [rigel_const]: "F_RS = \<lparr>op_mask = 0x1f, op_sh = 13\<rparr>"
definition F_RT :: op_field where [rigel_const]: "F_RT = \<lparr>op_mask = 0x1f, op_sh = 18\<rparr>"
definition F_RD :: op_field where [rigel_const]: "F_RD = \<lparr>op_mask = 0x1f, op_sh = 23\<rparr>"
definition F_RA :: op_field where [rigel_const]: "F_RA = \<lparr>op_mask = 0x1f, op_sh = 8\<rparr>"
definition F_IMM5 :: op_field where [rigel_const]: "F_IMM5 = \<lparr>op_mask = 0x1f, op_sh = 13\<rparr>"
definition F_Ra :: op_field where [rigel_const]: "F_Ra = \<lparr>op_mask = 0x1, op_sh = 10\<rparr>"
definition F_FT :: op_field where [rigel_const]: "F_FT = \<lparr>op_mask = 0x1f, op_sh = 16\<rparr>"
definition F_CACHE :: op_field where [rigel_const]: "F_CACHE = \<lparr>op_mask = 0x1f, op_sh = 16\<rparr>"
definition F_WDimm :: op_field where [rigel_const]: "F_WDimm = \<lparr>op_mask = 0x3f, op_sh = 16\<rparr>"
definition F_RDspr :: op_field where [rigel_const]: "F_RDspr = \<lparr>op_mask = 0x3f, op_sh = 22\<rparr>"
definition F_RDspr2 :: op_field where [rigel_const]: "F_RDspr2 = \<lparr>op_mask = 0x3, op_sh = 0\<rparr>"
definition F_RSspr :: op_field where [rigel_const]: "F_RSspr = \<lparr>op_mask = 0x3, op_sh = 0\<rparr>"
definition F_FS :: op_field where [rigel_const]: "F_FS = \<lparr>op_mask = 0x1f, op_sh = 11\<rparr>"
definition F_PREFX :: op_field where [rigel_const]: "F_PREFX = \<lparr>op_mask = 0x1f, op_sh = 11\<rparr>"
definition F_CCC :: op_field where [rigel_const]: "F_CCC = \<lparr>op_mask = 0x7, op_sh = 8\<rparr>"
definition F_CODE20 :: op_field where [rigel_const]: "F_CODE20 = \<lparr>op_mask = 0xfffff, op_sh = 6\<rparr>"
definition F_SHAMT :: op_field where [rigel_const]: "F_SHAMT = \<lparr>op_mask = 0x1f, op_sh = 6\<rparr>"
definition F_FD :: op_field where [rigel_const]: "F_FD = \<lparr>op_mask = 0x1f, op_sh = 6\<rparr>"
definition F_TARGET :: op_field where [rigel_const]: "F_TARGET = \<lparr>op_mask = 0x3ffffff, op_sh = 0\<rparr>"
definition F_COPZ :: op_field where [rigel_const]: "F_COPZ = \<lparr>op_mask = 0x1ffffff, op_sh = 0\<rparr>"
definition F_RV :: op_field where [rigel_const]: "F_RV = \<lparr>op_mask = 0x3, op_sh = 6\<rparr>"
definition F_FR :: op_field where [rigel_const]: "F_FR = \<lparr>op_mask = 0x1f, op_sh = 21\<rparr>"
definition F_FMT :: op_field where [rigel_const]: "F_FMT = \<lparr>op_mask = 0x1f, op_sh = 21\<rparr>"
definition F_BCC :: op_field where [rigel_const]: "F_BCC = \<lparr>op_mask = 0x7, op_sh = 18\<rparr>"
definition F_CODE :: op_field where [rigel_const]: "F_CODE = \<lparr>op_mask = 0x3ff, op_sh = 16\<rparr>"
definition F_CODE2 :: op_field where [rigel_const]: "F_CODE2 = \<lparr>op_mask = 0x3ff, op_sh = 6\<rparr>"
definition F_IMMEDIATE :: op_field where [rigel_const]: "F_IMMEDIATE = \<lparr>op_mask = 0xffff, op_sh = 0\<rparr>"
definition F_DELTA :: op_field where [rigel_const]: "F_DELTA = \<lparr>op_mask = 0xffff, op_sh = 0\<rparr>"
definition F_FUNCT :: op_field where [rigel_const]: "F_FUNCT = \<lparr>op_mask = 0x3f, op_sh = 0\<rparr>"
definition F_SPEC :: op_field where [rigel_const]: "F_SPEC = \<lparr>op_mask = 0x3f, op_sh = 0\<rparr>"
definition F_COP1NORM :: op_field where [rigel_const]: "F_COP1NORM = \<lparr>op_mask = 0x1, op_sh = 25\<rparr>"
definition F_COP1SPEC :: op_field where [rigel_const]: "F_COP1SPEC = \<lparr>op_mask = 0xf, op_sh = 21\<rparr>"
definition F_COP1CMP :: op_field where [rigel_const]: "F_COP1CMP = \<lparr>op_mask = 0x3, op_sh = 4\<rparr>"
definition F_FORMAT :: op_field where [rigel_const]: "F_FORMAT = \<lparr>op_mask = 0x7, op_sh = 21\<rparr>"
definition F_TRUE :: op_field where [rigel_const]: "F_TRUE = \<lparr>op_mask = 0x1, op_sh = 16\<rparr>"
definition F_GE :: op_field where [rigel_const]: "F_GE = \<lparr>op_mask = 0x01, op_sh = 17\<rparr>"
definition F_UNSIGNED :: op_field where [rigel_const]: "F_UNSIGNED = \<lparr>op_mask = 0x1, op_sh = 16\<rparr>"
definition F_HINT :: op_field where [rigel_const]: "F_HINT = \<lparr>op_mask = 0x1f, op_sh = 16\<rparr>"
definition F_MMI :: op_field where [rigel_const]: "F_MMI = \<lparr>op_mask = 0x3f, op_sh = 0\<rparr>"
definition F_MMISUB :: op_field where [rigel_const]: "F_MMISUB = \<lparr>op_mask = 0x1f, op_sh = 6\<rparr>"
definition F_PERFREG :: op_field where [rigel_const]: "F_PERFREG = \<lparr>op_mask = 0x3f, op_sh = 1\<rparr>"
definition F_SEL :: op_field where [rigel_const]: "F_SEL = \<lparr>op_mask = 0x7, op_sh = 0\<rparr>"
definition F_CODE19 :: op_field where [rigel_const]: "F_CODE19 = \<lparr>op_mask = 0x7ffff, op_sh = 6\<rparr>"
definition F_ALN :: op_field where [rigel_const]: "F_ALN = \<lparr>op_mask = 0x7, op_sh = 21\<rparr>"
definition F_VSEL :: op_field where [rigel_const]: "F_VSEL = \<lparr>op_mask = 0x1f, op_sh = 21\<rparr>"
definition F_VECBYTE :: op_field where [rigel_const]: "F_VECBYTE = \<lparr>op_mask = 0x7, op_sh = 22\<rparr>"
definition F_VECALIGN :: op_field where [rigel_const]: "F_VECALIGN = \<lparr>op_mask = 0x7, op_sh = 21\<rparr>"
definition F_INSMSB :: op_field where [rigel_const]: "F_INSMSB = \<lparr>op_mask = 0x1f, op_sh = 11\<rparr>"
definition F_EXTMSBD :: op_field where [rigel_const]: "F_EXTMSBD = \<lparr>op_mask = 0x1f, op_sh = 11\<rparr>"
definition F_DSPACC :: op_field where [rigel_const]: "F_DSPACC = \<lparr>op_mask = 0x3, op_sh = 11\<rparr>"
definition F_DSPACC_S :: op_field where [rigel_const]: "F_DSPACC_S = \<lparr>op_mask = 0x3, op_sh = 21\<rparr>"
definition F_DSPSFT :: op_field where [rigel_const]: "F_DSPSFT = \<lparr>op_mask = 0x3f, op_sh = 20\<rparr>"
definition F_DSPSFT_7 :: op_field where [rigel_const]: "F_DSPSFT_7 = \<lparr>op_mask = 0x7f, op_sh = 19\<rparr>"
definition F_SA3 :: op_field where [rigel_const]: "F_SA3 = \<lparr>op_mask = 0x7, op_sh = 21\<rparr>"
definition F_SA4 :: op_field where [rigel_const]: "F_SA4 = \<lparr>op_mask = 0xf, op_sh = 21\<rparr>"
definition F_IMM8 :: op_field where [rigel_const]: "F_IMM8 = \<lparr>op_mask = 0xff, op_sh = 16\<rparr>"
definition F_IMM10 :: op_field where [rigel_const]: "F_IMM10 = \<lparr>op_mask = 0x3ff, op_sh = 16\<rparr>"
definition F_WRDSP :: op_field where [rigel_const]: "F_WRDSP = \<lparr>op_mask = 0x3f, op_sh = 11\<rparr>"
definition F_RDDSP :: op_field where [rigel_const]: "F_RDDSP = \<lparr>op_mask = 0x3f, op_sh = 16\<rparr>"
definition F_BP :: op_field where [rigel_const]: "F_BP = \<lparr>op_mask = 0x3, op_sh = 11\<rparr>"
definition F_MT_U :: op_field where [rigel_const]: "F_MT_U = \<lparr>op_mask = 0x1, op_sh = 5\<rparr>"
definition F_MT_H :: op_field where [rigel_const]: "F_MT_H = \<lparr>op_mask = 0x1, op_sh = 4\<rparr>"
definition F_MTACC_T :: op_field where [rigel_const]: "F_MTACC_T = \<lparr>op_mask = 0x3, op_sh = 18\<rparr>"
definition F_MTACC_D :: op_field where [rigel_const]: "F_MTACC_D = \<lparr>op_mask = 0x3, op_sh = 13\<rparr>"
definition F_UDI1 :: op_field where [rigel_const]: "F_UDI1 = \<lparr>op_mask = 0x1f, op_sh = 6\<rparr>"
definition F_UDI2 :: op_field where [rigel_const]: "F_UDI2 = \<lparr>op_mask = 0x3ff, op_sh = 6\<rparr>"
definition F_UDI3 :: op_field where [rigel_const]: "F_UDI3 = \<lparr>op_mask = 0x7fff, op_sh = 6\<rparr>"
definition F_UDI4 :: op_field where [rigel_const]: "F_UDI4 = \<lparr>op_mask = 0xfffff, op_sh = 6\<rparr>"

definition op_fields :: "op_field list" where [rigel_tab]:
  "op_fields = [
    F_OP, F_RS, F_RT, F_RD, F_RA, F_IMM5, F_Ra, F_FT, F_CACHE, F_WDimm, F_RDspr, F_RDspr2,
    F_RSspr, F_FS, F_PREFX, F_CCC, F_CODE20, F_SHAMT, F_FD, F_TARGET, F_COPZ, F_RV, F_FR,
    F_FMT, F_BCC, F_CODE, F_CODE2, F_IMMEDIATE, F_DELTA, F_FUNCT, F_SPEC, F_COP1NORM,
    F_COP1SPEC, F_COP1CMP, F_FORMAT, F_TRUE, F_GE, F_UNSIGNED, F_HINT, F_MMI, F_MMISUB,
    F_PERFREG, F_SEL, F_CODE19, F_ALN, F_VSEL, F_VECBYTE, F_VECALIGN, F_INSMSB, F_EXTMSBD,
    F_DSPACC, F_DSPACC_S, F_DSPSFT, F_DSPSFT_7, F_SA3, F_SA4, F_IMM8, F_IMM10, F_WRDSP,
    F_RDDSP, F_BP, F_MT_U, F_MT_H, F_MTACC_T, F_MTACC_D, F_UDI1, F_UDI2, F_UDI3, F_UDI4]"

text \<open>The fields of a mips16 instruction.\<close>

definition F16_OP :: op_field where [rigel_const]: "F16_OP = \<lparr>op_mask = 0xf, op_sh = 11\<rparr>"
definition F16_IMM11 :: op_field where [rigel_const]: "F16_IMM11 = \<lparr>op_mask = 0x7ff, op_sh = 0\<rparr>"
definition F16_RX :: op_field where [rigel_const]: "F16_RX = \<lparr>op_mask = 0x7, op_sh = 8\<rparr>"
definition F16_IMM8 :: op_field where [rigel_const]: "F16_IMM8 = \<lparr>op_mask = 0xff, op_sh = 0\<rparr>"
definition F16_RY :: op_field where [rigel_const]: "F16_RY = \<lparr>op_mask = 0x7, op_sh = 5\<rparr>"
definition F16_IMM5 :: op_field where [rigel_const]: "F16_IMM5 = \<lparr>op_mask = 0x1f, op_sh = 0\<rparr>"
definition F16_RZ :: op_field where [rigel_const]: "F16_RZ = \<lparr>op_mask = 0x7, op_sh = 2\<rparr>"
definition F16_IMM4 :: op_field where [rigel_const]: "F16_IMM4 = \<lparr>op_mask = 0xf, op_sh = 0\<rparr>"
definition F16_REGR32 :: op_field where [rigel_const]: "F16_REGR32 = \<lparr>op_mask = 0x1f, op_sh = 0\<rparr>"
definition F16_REG32R :: op_field where [rigel_const]: "F16_REG32R = \<lparr>op_mask = 0x1f, op_sh = 3\<rparr>"
definition F16_MOVE32Z :: op_field where [rigel_const]: "F16_MOVE32Z = \<lparr>op_mask = 0x7, op_sh = 0\<rparr>"
definition F16_IMM6 :: op_field where [rigel_const]: "F16_IMM6 = \<lparr>op_mask = 0x3f, op_sh = 5\<rparr>"

definition mips16_fields :: "op_field list" where [rigel_tab]:
  "mips16_fields = [
    F16_OP, F16_IMM11, F16_RX, F16_IMM8, F16_RY, F16_IMM5, F16_RZ, F16_IMM4, F16_REGR32,
    F16_REG32R, F16_MOVE32Z, F16_IMM6]"

text \<open>\<open>(l >> OP_SH_FIELD) & OP_MASK_FIELD\<close>, as every reader of a field writes it.\<close>

definition op_get :: "op_field \<Rightarrow> ulong \<Rightarrow> ulong" where
  "op_get f l = drop_bit (op_sh f) l AND op_mask f"

definition MIPS16OP_EXTRACT_REG32R :: "ulong \<Rightarrow> ulong" where
  "MIPS16OP_EXTRACT_REG32R i = (drop_bit 5 i AND 7) OR (i AND 0x18)"

section \<open>Opcode table entries\<close>

record mips_opcode =
  op_name :: cstring
  op_args :: cstring
  op_match :: ulong
  op_msk :: ulong
  op_pinfo :: ulong
  op_pinfo2 :: ulong
  op_membership :: ulong

section \<open>Flags\<close>

text \<open>The bits of \<open>pinfo\<close>. Rigel sets the flags that name register 31 and the floating point
  registers to zero.\<close>

definition INSN_WRITE_GPR_31 :: ulong where [rigel_const]: "INSN_WRITE_GPR_31 = 0x0"
definition INSN_WRITE_FPR_S :: ulong where [rigel_const]: "INSN_WRITE_FPR_S = 0x0"
definition INSN_WRITE_FPR_T :: ulong where [rigel_const]: "INSN_WRITE_FPR_T = 0x0"
definition INSN_READ_FPR_S :: ulong where [rigel_const]: "INSN_READ_FPR_S = 0x0"
definition INSN_READ_FPR_T :: ulong where [rigel_const]: "INSN_READ_FPR_T = 0x0"
definition INSN_READ_FPR_R :: ulong where [rigel_const]: "INSN_READ_FPR_R = 0x0"
definition INSN_WRITE_GPR_D :: ulong where [rigel_const]: "INSN_WRITE_GPR_D = 0x00000001"
definition INSN_WRITE_GPR_T :: ulong where [rigel_const]: "INSN_WRITE_GPR_T = 0x00000002"
definition INSN_WRITE_GPR_Dimm :: ulong where [rigel_const]: "INSN_WRITE_GPR_Dimm = 0x00000004"
definition INSN_WRITE_FPR_D :: ulong where [rigel_const]: "INSN_WRITE_FPR_D = 0x00000008"
definition INSN_READ_SPR_Sspr :: ulong where [rigel_const]: "INSN_READ_SPR_Sspr = 0x00000010"
definition INSN_WRITE_GPR_Dspr :: ulong where [rigel_const]: "INSN_WRITE_GPR_Dspr = 0x00000020"
definition INSN_READ_GPR_S :: ulong where [rigel_const]: "INSN_READ_GPR_S = 0x00000040"
definition INSN_READ_GPR_T :: ulong where [rigel_const]: "INSN_READ_GPR_T = 0x00000080"
definition INSN_WRITE_GPR_Dspr2 :: ulong where [rigel_const]: "INSN_WRITE_GPR_Dspr2 = 0x00000100"
definition INSN_WRITE_GPR_DVec :: ulong where [rigel_const]: "INSN_WRITE_GPR_DVec = 0x00000200"
definition INSN_WRITE_GPR_DAcc :: ulong where [rigel_const]: "INSN_WRITE_GPR_DAcc = 0x00000400"
definition INSN_WRITE_COND_CODE :: ulong where [rigel_const]: "INSN_WRITE_COND_CODE = 0x00000800"
definition INSN_READ_COND_CODE :: ulong where [rigel_const]: "INSN_READ_COND_CODE = 0x00001000"
definition INSN_TLB :: ulong where [rigel_const]: "INSN_TLB = 0x00002000"
definition INSN_COP :: ulong where [rigel_const]: "INSN_COP = 0x00004000"
definition INSN_LOAD_MEMORY_DELAY :: ulong where [rigel_const]: "INSN_LOAD_MEMORY_DELAY = 0x00008000"
definition INSN_LOAD_COPROC_DELAY :: ulong where [rigel_const]: "INSN_LOAD_COPROC_DELAY = 0x00010000"
definition INSN_UNCOND_BRANCH_DELAY :: ulong where [rigel_const]: "INSN_UNCOND_BRANCH_DELAY = 0x00020000"
definition INSN_COND_BRANCH_DELAY :: ulong where [rigel_const]: "INSN_COND_BRANCH_DELAY = 0x00040000"
definition INSN_COND_BRANCH_LIKELY :: ulong where [rigel_const]: "INSN_COND_BRANCH_LIKELY = 0x00080000"
definition INSN_COPROC_MOVE_DELAY :: ulong where [rigel_const]: "INSN_COPROC_MOVE_DELAY = 0x00100000"
definition INSN_COPROC_MEMORY_DELAY :: ulong where [rigel_const]: "INSN_COPROC_MEMORY_DELAY = 0x00200000"
definition INSN_READ_HI :: ulong where [rigel_const]: "INSN_READ_HI = 0x00400000"
definition INSN_READ_LO :: ulong where [rigel_const]: "INSN_READ_LO = 0x00800000"
definition INSN_WRITE_HI :: ulong where [rigel_const]: "INSN_WRITE_HI = 0x01000000"
definition INSN_WRITE_LO :: ulong where [rigel_const]: "INSN_WRITE_LO = 0x02000000"
definition INSN_TRAP :: ulong where [rigel_const]: "INSN_TRAP = 0x04000000"
definition INSN_STORE_MEMORY :: ulong where [rigel_const]: "INSN_STORE_MEMORY = 0x08000000"
definition FP_S :: ulong where [rigel_const]: "FP_S = 0x10000000"
definition FP_D :: ulong where [rigel_const]: "FP_D = 0x20000000"
definition INSN_MULT :: ulong where [rigel_const]: "INSN_MULT = 0x40000000"
definition INSN_SYNC :: ulong where [rigel_const]: "INSN_SYNC = 0x80000000"

text \<open>The bits of \<open>pinfo2\<close>, and the value of \<open>pinfo\<close> that marks a macro.\<close>

definition INSN2_ALIAS :: ulong where [rigel_const]: "INSN2_ALIAS = 0x00000001"
definition INSN2_READ_MDMX_ACC :: ulong where [rigel_const]: "INSN2_READ_MDMX_ACC = 0x00000002"
definition INSN2_WRITE_MDMX_ACC :: ulong where [rigel_const]: "INSN2_WRITE_MDMX_ACC = 0x00000004"
definition INSN_MACRO :: ulong where [rigel_const]: "INSN_MACRO = 0xffffffff"

text \<open>The bits of \<open>membership\<close>.\<close>

definition INSN_ISA_MASK :: ulong where [rigel_const]: "INSN_ISA_MASK = 0x00000fff"
definition INSN_ISA1 :: ulong where [rigel_const]: "INSN_ISA1 = 0x00000001"
definition INSN_ISA2 :: ulong where [rigel_const]: "INSN_ISA2 = 0x00000002"
definition INSN_ISA3 :: ulong where [rigel_const]: "INSN_ISA3 = 0x00000004"
definition INSN_ISA4 :: ulong where [rigel_const]: "INSN_ISA4 = 0x00000008"
definition INSN_ISA5 :: ulong where [rigel_const]: "INSN_ISA5 = 0x00000010"
definition INSN_ISA32 :: ulong where [rigel_const]: "INSN_ISA32 = 0x00000020"
definition INSN_ISA64 :: ulong where [rigel_const]: "INSN_ISA64 = 0x00000040"
definition INSN_ISA32R2 :: ulong where [rigel_const]: "INSN_ISA32R2 = 0x00000080"
definition INSN_ISA64R2 :: ulong where [rigel_const]: "INSN_ISA64R2 = 0x00000100"
definition INSN_RIGEL32 :: ulong where [rigel_const]: "INSN_RIGEL32 = 0x00000200"
definition INSN_ASE_MASK :: ulong where [rigel_const]: "INSN_ASE_MASK = 0x3c00f000"
definition INSN_DSP :: ulong where [rigel_const]: "INSN_DSP = 0x00001000"
definition INSN_DSP64 :: ulong where [rigel_const]: "INSN_DSP64 = 0x00002000"
definition INSN_MIPS16 :: ulong where [rigel_const]: "INSN_MIPS16 = 0x00004000"
definition INSN_MIPS3D :: ulong where [rigel_const]: "INSN_MIPS3D = 0x00008000"
definition INSN_4650 :: ulong where [rigel_const]: "INSN_4650 = 0x00010000"
definition INSN_4010 :: ulong where [rigel_const]: "INSN_4010 = 0x00020000"
definition INSN_4100 :: ulong where [rigel_const]: "INSN_4100 = 0x00040000"
definition INSN_3900 :: ulong where [rigel_const]: "INSN_3900 = 0x00080000"
definition INSN_10000 :: ulong where [rigel_const]: "INSN_10000 = 0x00100000"
definition INSN_SB1 :: ulong where [rigel_const]: "INSN_SB1 = 0x00200000"
definition INSN_4111 :: ulong where [rigel_const]: "INSN_4111 = 0x00400000"
definition INSN_4120 :: ulong where [rigel_const]: "INSN_4120 = 0x00800000"
definition INSN_5400 :: ulong where [rigel_const]: "INSN_5400 = 0x01000000"
definition INSN_5500 :: ulong where [rigel_const]: "INSN_5500 = 0x02000000"
definition INSN_MDMX :: ulong where [rigel_const]: "INSN_MDMX = 0x04000000"
definition INSN_MT :: ulong where [rigel_const]: "INSN_MT = 0x08000000"
definition INSN_SMARTMIPS :: ulong where [rigel_const]: "INSN_SMARTMIPS = 0x10000000"
definition INSN_DSPR2 :: ulong where [rigel_const]: "INSN_DSPR2 = 0x20000000"

text \<open>ISA levels and CPU numbers.\<close>

definition ISA_UNKNOWN :: ulong where [rigel_const]: "ISA_UNKNOWN = 0"
definition ISA_MIPS1 :: ulong where [rigel_const]: "ISA_MIPS1 = INSN_ISA1"
definition ISA_MIPS2 :: ulong where [rigel_const]: "ISA_MIPS2 = ISA_MIPS1 OR INSN_ISA2"
definition ISA_MIPS3 :: ulong where [rigel_const]: "ISA_MIPS3 = ISA_MIPS2 OR INSN_ISA3"
definition ISA_MIPS4 :: ulong where [rigel_const]: "ISA_MIPS4 = ISA_MIPS3 OR INSN_ISA4"
definition ISA_MIPS5 :: ulong where [rigel_const]: "ISA_MIPS5 = ISA_MIPS4 OR INSN_ISA5"
definition ISA_MIPS32 :: ulong where [rigel_const]: "ISA_MIPS32 = ISA_MIPS2 OR INSN_ISA32"
definition ISA_MIPS64 :: ulong where [rigel_const]: "ISA_MIPS64 = ISA_MIPS5 OR INSN_ISA32 OR INSN_ISA64"
definition ISA_MIPS32R2 :: ulong where [rigel_const]: "ISA_MIPS32R2 = ISA_MIPS32 OR INSN_ISA32R2"
definition ISA_MIPS64R2 :: ulong where [rigel_const]: "ISA_MIPS64R2 = ISA_MIPS64 OR INSN_ISA32R2 OR INSN_ISA64R2"
definition ISA_RIGEL32 :: ulong where [rigel_const]: "ISA_RIGEL32 = INSN_RIGEL32"

definition CPU_UNKNOWN :: int where [rigel_const]: "CPU_UNKNOWN = 0"
definition CPU_R3000 :: int where [rigel_const]: "CPU_R3000 = 3000"
definition CPU_R3900 :: int where [rigel_const]: "CPU_R3900 = 3900"
definition CPU_R4000 :: int where [rigel_const]: "CPU_R4000 = 4000"
definition CPU_R4010 :: int where [rigel_const]: "CPU_R4010 = 4010"
definition CPU_VR4100 :: int where [rigel_const]: "CPU_VR4100 = 4100"
definition CPU_R4111 :: int where [rigel_const]: "CPU_R4111 = 4111"
definition CPU_VR4120 :: int where [rigel_const]: "CPU_VR4120 = 4120"
definition CPU_R4300 :: int where [rigel_const]: "CPU_R4300 = 4300"
definition CPU_R4400 :: int where [rigel_const]: "CPU_R4400 = 4400"
definition CPU_R4600 :: int where [rigel_const]: "CPU_R4600 = 4600"
definition CPU_R4650 :: int where [rigel_const]: "CPU_R4650 = 4650"
definition CPU_R5000 :: int where [rigel_const]: "CPU_R5000 = 5000"
definition CPU_VR5400 :: int where [rigel_const]: "CPU_VR5400 = 5400"
definition CPU_VR5500 :: int where [rigel_const]: "CPU_VR5500 = 5500"
definition CPU_R6000 :: int where [rigel_const]: "CPU_R6000 = 6000"
definition CPU_RM7000 :: int where [rigel_const]: "CPU_RM7000 = 7000"
definition CPU_R8000 :: int where [rigel_const]: "CPU_R8000 = 8000"
definition CPU_RM9000 :: int where [rigel_const]: "CPU_RM9000 = 9000"
definition CPU_R10000 :: int where [rigel_const]: "CPU_R10000 = 10000"
definition CPU_R12000 :: int where [rigel_const]: "CPU_R12000 = 12000"
definition CPU_MIPS16 :: int where [rigel_const]: "CPU_MIPS16 = 16"
definition CPU_MIPS32 :: int where [rigel_const]: "CPU_MIPS32 = 32"
definition CPU_MIPS32R2 :: int where [rigel_const]: "CPU_MIPS32R2 = 33"
definition CPU_MIPS5 :: int where [rigel_const]: "CPU_MIPS5 = 5"
definition CPU_MIPS64 :: int where [rigel_const]: "CPU_MIPS64 = 64"
definition CPU_MIPS64R2 :: int where [rigel_const]: "CPU_MIPS64R2 = 65"
definition CPU_SB1 :: int where [rigel_const]: "CPU_SB1 = 12310201"
definition CPU_RIGEL32 :: int where [rigel_const]: "CPU_RIGEL32 = 1983"

text \<open>The flags of the mips16 table and the encodings of \<open>save\<close> and \<open>restore\<close>.\<close>

definition MIPS16_ALL_ARGS :: ulong where [rigel_const]: "MIPS16_ALL_ARGS = 0xe"
definition MIPS16_ALL_STATICS :: ulong where [rigel_const]: "MIPS16_ALL_STATICS = 0xb"
definition MIPS16_INSN_WRITE_X :: ulong where [rigel_const]: "MIPS16_INSN_WRITE_X = 0x00000001"
definition MIPS16_INSN_WRITE_Y :: ulong where [rigel_const]: "MIPS16_INSN_WRITE_Y = 0x00000002"
definition MIPS16_INSN_WRITE_Z :: ulong where [rigel_const]: "MIPS16_INSN_WRITE_Z = 0x00000004"
definition MIPS16_INSN_WRITE_T :: ulong where [rigel_const]: "MIPS16_INSN_WRITE_T = 0x00000008"
definition MIPS16_INSN_WRITE_SP :: ulong where [rigel_const]: "MIPS16_INSN_WRITE_SP = 0x00000010"
definition MIPS16_INSN_WRITE_31 :: ulong where [rigel_const]: "MIPS16_INSN_WRITE_31 = 0x00000020"
definition MIPS16_INSN_WRITE_GPR_Y :: ulong where [rigel_const]: "MIPS16_INSN_WRITE_GPR_Y = 0x00000040"
definition MIPS16_INSN_READ_X :: ulong where [rigel_const]: "MIPS16_INSN_READ_X = 0x00000080"
definition MIPS16_INSN_READ_Y :: ulong where [rigel_const]: "MIPS16_INSN_READ_Y = 0x00000100"
definition MIPS16_INSN_READ_Z :: ulong where [rigel_const]: "MIPS16_INSN_READ_Z = 0x00000200"
definition MIPS16_INSN_READ_T :: ulong where [rigel_const]: "MIPS16_INSN_READ_T = 0x00000400"
definition MIPS16_INSN_READ_SP :: ulong where [rigel_const]: "MIPS16_INSN_READ_SP = 0x00000800"
definition MIPS16_INSN_READ_31 :: ulong where [rigel_const]: "MIPS16_INSN_READ_31 = 0x00001000"
definition MIPS16_INSN_READ_PC :: ulong where [rigel_const]: "MIPS16_INSN_READ_PC = 0x00002000"
definition MIPS16_INSN_READ_GPR_X :: ulong where [rigel_const]: "MIPS16_INSN_READ_GPR_X = 0x00004000"
definition MIPS16_INSN_BRANCH :: ulong where [rigel_const]: "MIPS16_INSN_BRANCH = 0x00010000"

text \<open>The macro identifiers that the mips16 table mentions: their positions in the enumeration.\<close>

definition M_ABS :: ulong where [rigel_const]: "M_ABS = 0"
definition M_BEQ :: ulong where [rigel_const]: "M_BEQ = 5"
definition M_BEQ_I :: ulong where [rigel_const]: "M_BEQ_I = 6"
definition M_BGE :: ulong where [rigel_const]: "M_BGE = 8"
definition M_BGE_I :: ulong where [rigel_const]: "M_BGE_I = 10"
definition M_BGEU :: ulong where [rigel_const]: "M_BGEU = 12"
definition M_BGEU_I :: ulong where [rigel_const]: "M_BGEU_I = 14"
definition M_BGT :: ulong where [rigel_const]: "M_BGT = 16"
definition M_BGT_I :: ulong where [rigel_const]: "M_BGT_I = 18"
definition M_BGTU :: ulong where [rigel_const]: "M_BGTU = 20"
definition M_BGTU_I :: ulong where [rigel_const]: "M_BGTU_I = 22"
definition M_BLE :: ulong where [rigel_const]: "M_BLE = 24"
definition M_BLE_I :: ulong where [rigel_const]: "M_BLE_I = 26"
definition M_BLEU :: ulong where [rigel_const]: "M_BLEU = 28"
definition M_BLEU_I :: ulong where [rigel_const]: "M_BLEU_I = 30"
definition M_BLT :: ulong where [rigel_const]: "M_BLT = 32"
definition M_BLT_I :: ulong where [rigel_const]: "M_BLT_I = 34"
definition M_BLTU :: ulong where [rigel_const]: "M_BLTU = 36"
definition M_BLTU_I :: ulong where [rigel_const]: "M_BLTU_I = 38"
definition M_BNE :: ulong where [rigel_const]: "M_BNE = 40"
definition M_BNE_I :: ulong where [rigel_const]: "M_BNE_I = 41"
definition M_DDIV_3 :: ulong where [rigel_const]: "M_DDIV_3 = 47"
definition M_DDIVU_3 :: ulong where [rigel_const]: "M_DDIVU_3 = 49"
definition M_DIV_3 :: ulong where [rigel_const]: "M_DIV_3 = 53"
definition M_DIVU_3 :: ulong where [rigel_const]: "M_DIVU_3 = 55"
definition M_DMUL :: ulong where [rigel_const]: "M_DMUL = 60"
definition M_DREM_3 :: ulong where [rigel_const]: "M_DREM_3 = 66"
definition M_DREMU_3 :: ulong where [rigel_const]: "M_DREMU_3 = 68"
definition M_DSUBU_I :: ulong where [rigel_const]: "M_DSUBU_I = 71"
definition M_DSUBU_I_2 :: ulong where [rigel_const]: "M_DSUBU_I_2 = 72"
definition M_MUL :: ulong where [rigel_const]: "M_MUL = 121"
definition M_REM_3 :: ulong where [rigel_const]: "M_REM_3 = 129"
definition M_REMU_3 :: ulong where [rigel_const]: "M_REMU_3 = 131"
definition M_SUBU_I :: ulong where [rigel_const]: "M_SUBU_I = 192"
definition M_SUBU_I_2 :: ulong where [rigel_const]: "M_SUBU_I_2 = 193"

section \<open>Membership in an instruction set\<close>

definition OPCODE_IS_MEMBER :: "mips_opcode \<Rightarrow> ulong \<Rightarrow> int \<Rightarrow> bool" where
  "OPCODE_IS_MEMBER insn isa cpu \<longleftrightarrow>
     op_membership insn AND isa \<noteq> 0
     \<or> (cpu = CPU_R4650 \<and> op_membership insn AND INSN_4650 \<noteq> 0)
     \<or> (cpu = CPU_RM7000 \<and> op_membership insn AND INSN_4650 \<noteq> 0)
     \<or> (cpu = CPU_RM9000 \<and> op_membership insn AND INSN_4650 \<noteq> 0)
     \<or> (cpu = CPU_R4010 \<and> op_membership insn AND INSN_4010 \<noteq> 0)
     \<or> (cpu = CPU_VR4100 \<and> op_membership insn AND INSN_4100 \<noteq> 0)
     \<or> (cpu = CPU_R3900 \<and> op_membership insn AND INSN_3900 \<noteq> 0)
     \<or> ((cpu = CPU_R10000 \<or> cpu = CPU_R12000) \<and> op_membership insn AND INSN_10000 \<noteq> 0)
     \<or> (cpu = CPU_SB1 \<and> op_membership insn AND INSN_SB1 \<noteq> 0)
     \<or> (cpu = CPU_R4111 \<and> op_membership insn AND INSN_4111 \<noteq> 0)
     \<or> (cpu = CPU_VR4120 \<and> op_membership insn AND INSN_4120 \<noteq> 0)
     \<or> (cpu = CPU_VR5400 \<and> op_membership insn AND INSN_5400 \<noteq> 0)
     \<or> (cpu = CPU_VR5500 \<and> op_membership insn AND INSN_5500 \<noteq> 0)"

section \<open>Properties of the fields\<close>

lemma op_get_EXTRACT: "op_get f l = EXTRACT_BITS l (op_mask f) (op_sh f)"
  by (simp add: op_get_def EXTRACT_BITS_def)

text \<open>No field loses bits when its mask is shifted into place, none reaches bit 31 except the
  major opcode, and reading a field gives a number within its mask.\<close>

lemma op_fields_fit: "f \<in> set op_fields \<Longrightarrow> field_fits (op_mask f) (op_sh f)"
  by (auto simp: op_fields_def rigel_const field_fits_def)

lemma mips16_fields_fit: "f \<in> set mips16_fields \<Longrightarrow> field_fits (op_mask f) (op_sh f)"
  by (auto simp: mips16_fields_def rigel_const field_fits_def)

lemma op_fields_below_31:
  "f \<in> set op_fields \<Longrightarrow> f \<noteq> F_OP \<Longrightarrow> drop_bit 31 (push_bit (op_sh f) (op_mask f)) = 0"
  by (auto simp: op_fields_def rigel_const)

lemma op_get_bound: "unat (op_get f l) \<le> unat (op_mask f)"
  by (simp add: op_get_EXTRACT extract_bound)

text \<open>The four register fields of the 32-register Rigel encoding, and its shift amount, are five
  bits wide.\<close>

lemma op_get_reg_bound [simp]:
  "unat (op_get F_RS l) < 32" "unat (op_get F_RT l) < 32" "unat (op_get F_RD l) < 32"
  "unat (op_get F_RA l) < 32" "unat (op_get F_IMM5 l) < 32"
  using op_get_bound [of F_RS l] op_get_bound [of F_RT l] op_get_bound [of F_RD l]
    op_get_bound [of F_RA l] op_get_bound [of F_IMM5 l] by (simp_all add: rigel_const)

end
