(* ===== verification/Byte_Order.thy ===== *)
theory Byte_Order
  imports Rigel_Prelude
begin

text \<open>
  Instruction words as bytes. The assembler writes them with \<open>md_number_to_chars\<close>
  (\<open>gas/config/tc-mips.c\<close>), which dispatches on the byte order to
  \<open>number_to_chars_bigendian\<close> or \<open>number_to_chars_littleendian\<close> of \<open>gas/write.c\<close>; the
  disassembler and the linker read them with \<open>bfd_getb16\<close>, \<open>bfd_getl16\<close>, \<open>bfd_getb32\<close> and
  \<open>bfd_getl32\<close> of \<open>bfd/libbfd.c\<close>.

  The locale \<open>byte_order\<close> is the contract between a writer and a reader of the same size and
  order; each of the four pairs is an interpretation of it.
\<close>

section \<open>Writing\<close>

text \<open>The loops of \<open>gas/write.c\<close>; the bytes in the order of their addresses. Both functions abort
  when the number of bytes is not positive, which is \<open>None\<close>.\<close>

fun le_chars :: "ulong \<Rightarrow> nat \<Rightarrow> byte list" where
  "le_chars val 0 = []"
| "le_chars val (Suc n) = ucast (val AND 0xff) # le_chars (drop_bit 8 val) n"

fun be_chars :: "ulong \<Rightarrow> nat \<Rightarrow> byte list" where
  "be_chars val 0 = []"
| "be_chars val (Suc n) = be_chars (drop_bit 8 val) n @ [ucast (val AND 0xff)]"

definition number_to_chars_bigendian :: "ulong \<Rightarrow> nat \<Rightarrow> byte list option" where
  "number_to_chars_bigendian val n = (if n = 0 then None else Some (be_chars val n))"

definition number_to_chars_littleendian :: "ulong \<Rightarrow> nat \<Rightarrow> byte list option" where
  "number_to_chars_littleendian val n = (if n = 0 then None else Some (le_chars val n))"

definition md_number_to_chars :: "bool \<Rightarrow> ulong \<Rightarrow> nat \<Rightarrow> byte list option" where
  "md_number_to_chars target_big_endian val n =
     (if target_big_endian then number_to_chars_bigendian val n
      else number_to_chars_littleendian val n)"

section \<open>Reading\<close>

text \<open>The readers take a pointer; the model takes the bytes from there on, and reads the first
  two or four of them.\<close>

definition bfd_getb16 :: "byte list \<Rightarrow> ulong" where
  "bfd_getb16 p = push_bit 8 (ucast (p ! 0)) OR ucast (p ! 1)"

definition bfd_getl16 :: "byte list \<Rightarrow> ulong" where
  "bfd_getl16 p = push_bit 8 (ucast (p ! 1)) OR ucast (p ! 0)"

definition bfd_getb32 :: "byte list \<Rightarrow> ulong" where
  "bfd_getb32 p = ((push_bit 24 (ucast (p ! 0)) OR push_bit 16 (ucast (p ! 1)))
     OR push_bit 8 (ucast (p ! 2))) OR ucast (p ! 3)"

definition bfd_getl32 :: "byte list \<Rightarrow> ulong" where
  "bfd_getl32 p = ((ucast (p ! 0) OR push_bit 8 (ucast (p ! 1)))
     OR push_bit 16 (ucast (p ! 2))) OR push_bit 24 (ucast (p ! 3))"

section \<open>The contract of a writer and a reader\<close>

locale byte_order =
  fixes size :: nat
    and put :: "ulong \<Rightarrow> byte list"
    and get :: "byte list \<Rightarrow> ulong"
  assumes length_put: "length (put v) = size"
    and get_put: "get (put v) = take_bit (8 * size) v"
    and put_get: "length bs = size \<Longrightarrow> put (get bs) = bs"
begin

lemma get_put_small: "unat v < 2 ^ (8 * size) \<Longrightarrow> get (put v) = v"
  using and_mask_id [of v "8 * size"] by (simp add: get_put take_bit_eq_mask)

lemma get_inject: "length bs = size \<Longrightarrow> length cs = size \<Longrightarrow> get bs = get cs \<longleftrightarrow> bs = cs"
  using put_get by metis

lemma put_eq_iff: "put v = put w \<longleftrightarrow> take_bit (8 * size) v = take_bit (8 * size) w"
proof
  assume "put v = put w"
  then have "get (put v) = get (put w)" by simp
  then show "take_bit (8 * size) v = take_bit (8 * size) w" by (simp add: get_put)
next
  assume "take_bit (8 * size) v = take_bit (8 * size) w"
  then have "put (get (put v)) = put (get (put w))" by (simp add: get_put)
  then show "put v = put w" by (simp add: put_get length_put)
qed

end

text \<open>The bytes of two and four byte writes.\<close>

lemma byte_cast [simp]: "ucast ((w :: ulong) AND 0xff) = (ucast w :: byte)"
  by (rule bit_word_eqI) (auto simp: bit_simps numeral_eq_Suc less_Suc_eq)

lemma le_chars_2: "le_chars v 2 = [ucast v, ucast (drop_bit 8 v)]"
  by (simp add: numeral_eq_Suc)

lemma be_chars_2: "be_chars v 2 = [ucast (drop_bit 8 v), ucast v]"
  by (simp add: numeral_eq_Suc)

lemma le_chars_4:
  "le_chars v 4 = [ucast v, ucast (drop_bit 8 v), ucast (drop_bit 16 v), ucast (drop_bit 24 v)]"
  by (simp add: numeral_eq_Suc)

lemma be_chars_4:
  "be_chars v 4 = [ucast (drop_bit 24 v), ucast (drop_bit 16 v), ucast (drop_bit 8 v), ucast v]"
  by (simp add: numeral_eq_Suc)

section \<open>The four pairs satisfy the contract\<close>

lemma bit_byte_high [simp]: "8 \<le> n \<Longrightarrow> \<not> bit (b :: byte) n"
  by (auto dest: bit_imp_le_length)

lemma list_2: "length xs = 2 \<Longrightarrow> xs = [xs ! 0, xs ! 1]"
  by (auto simp: numeral_eq_Suc length_Suc_conv)

lemma list_4: "length xs = 4 \<Longrightarrow> xs = [xs ! 0, xs ! 1, xs ! 2, xs ! 3]"
  by (auto simp: numeral_eq_Suc length_Suc_conv)

lemma join_bytes_2:
  "push_bit 8 (ucast (a :: byte)) OR ucast (b :: byte) = (w :: ulong) \<Longrightarrow>
     ucast (drop_bit 8 w) = a \<and> ucast w = b"
  by (auto intro!: bit_word_eqI simp: bit_simps)

lemma split_bytes_2:
  "push_bit 8 (ucast (ucast (drop_bit 8 v) :: byte)) OR ucast (ucast v :: byte)
     = take_bit 16 (v :: ulong)"
  by (rule bit_word_eqI) (auto simp: bit_simps)

lemma join_bytes_4:
  "push_bit 24 (ucast (a :: byte)) OR push_bit 16 (ucast (b :: byte)) OR push_bit 8 (ucast (c :: byte))
     OR ucast (d :: byte) = (w :: ulong) \<Longrightarrow>
     ucast (drop_bit 24 w) = a \<and> ucast (drop_bit 16 w) = b \<and> ucast (drop_bit 8 w) = c \<and> ucast w = d"
  by (auto intro!: bit_word_eqI simp: bit_simps)

lemma split_bytes_4:
  "push_bit 24 (ucast (ucast (drop_bit 24 v) :: byte)) OR push_bit 16 (ucast (ucast (drop_bit 16 v) :: byte))
     OR push_bit 8 (ucast (ucast (drop_bit 8 v) :: byte)) OR ucast (ucast v :: byte)
     = take_bit 32 (v :: ulong)" (is "?l = ?r")
proof (rule bit_word_eqI)
  fix n :: nat
  consider "n < 8" | "8 \<le> n" "n < 16" | "16 \<le> n" "n < 24" | "24 \<le> n" "n < 32" | "32 \<le> n"
    by linarith
  then show "bit ?l n \<longleftrightarrow> bit ?r n"
    by cases (auto simp: bit_simps)
qed

interpretation be16: byte_order 2 "\<lambda>v. be_chars v 2" bfd_getb16
proof unfold_locales
  show "length bs = 2 \<Longrightarrow> be_chars (bfd_getb16 bs) 2 = bs" for bs
    using join_bytes_2 [OF refl, of "bs ! 0" "bs ! 1"] list_2 [of bs]
    by (simp add: be_chars_2 bfd_getb16_def)
qed (simp_all add: be_chars_2 bfd_getb16_def split_bytes_2)

interpretation le16: byte_order 2 "\<lambda>v. le_chars v 2" bfd_getl16
proof unfold_locales
  show "length bs = 2 \<Longrightarrow> le_chars (bfd_getl16 bs) 2 = bs" for bs
    using join_bytes_2 [OF refl, of "bs ! 1" "bs ! 0"] list_2 [of bs]
    by (simp add: le_chars_2 bfd_getl16_def)
qed (simp_all add: le_chars_2 bfd_getl16_def split_bytes_2)

interpretation be32: byte_order 4 "\<lambda>v. be_chars v 4" bfd_getb32
proof unfold_locales
  show "length bs = 4 \<Longrightarrow> be_chars (bfd_getb32 bs) 4 = bs" for bs
    using join_bytes_4 [OF refl, of "bs ! 0" "bs ! 1" "bs ! 2" "bs ! 3"] list_4 [of bs]
    by (simp add: be_chars_4 bfd_getb32_def or.assoc)
qed (simp_all add: be_chars_4 bfd_getb32_def split_bytes_4 or.assoc)

lemma bfd_getl32_order:
  "bfd_getl32 p = push_bit 24 (ucast (p ! 3)) OR push_bit 16 (ucast (p ! 2))
     OR push_bit 8 (ucast (p ! 1)) OR ucast (p ! 0)"
  by (simp add: bfd_getl32_def ac_simps)

interpretation le32: byte_order 4 "\<lambda>v. le_chars v 4" bfd_getl32
proof unfold_locales
  show "length bs = 4 \<Longrightarrow> le_chars (bfd_getl32 bs) 4 = bs" for bs
    using join_bytes_4 [OF refl, of "bs ! 3" "bs ! 2" "bs ! 1" "bs ! 0"] list_4 [of bs]
    by (simp add: le_chars_4 bfd_getl32_order)
qed (simp_all add: le_chars_4 bfd_getl32_order split_bytes_4)

end
