(* ===== verification/Gas_Insn.thy ===== *)
theory Gas_Insn
  imports Opcode_Mips Byte_Order
begin

text \<open>
  The assembler's view of one instruction (\<open>gas/config/tc-mips.c\<close>): the options a \<open>.set\<close>
  directive changes, what an ISA level offers, \<open>struct mips_cl_insn\<close> with the macros that read
  and write its operands, and the operations that create an instruction, measure it, write it
  into a frag, and move it together with its fixups. The frags' literal bytes and the fixups
  live in a store, since an instruction and its fixups share them.

  The \<open>subtype\<close> words of relaxable frags are packed bit fields; the lemmas show that what each
  reader extracts is what the encoder was given.
\<close>

section \<open>Options\<close>

text \<open>\<open>enum mips_abi_level\<close> and \<open>struct mips_set_options\<close>. The field \<open>isa\<close> is an \<open>int\<close> that
  holds the flag words of the ISA levels.\<close>

datatype mips_abi_level = NO_ABI | O32_ABI | O64_ABI | N32_ABI | N64_ABI | EABI_ABI

record mips_set_options =
  o_isa :: ulong
  o_ase_mips3d :: int
  o_ase_mdmx :: int
  o_ase_smartmips :: int
  o_ase_dsp :: int
  o_ase_dspr2 :: int
  o_ase_mt :: int
  o_mips16 :: int
  o_noreorder :: int
  o_noat :: int
  o_warn_about_macros :: int
  o_nomove :: int
  o_nobopt :: int
  o_noautoextend :: int
  o_gp32 :: int
  o_fp32 :: int
  o_arch :: int
  o_sym32 :: bool

text \<open>The static initialiser, by position: what it calls \<open>-1\<close> (not initialised) and zero.\<close>

definition initial_mips_opts :: mips_set_options where
  "initial_mips_opts = \<lparr>o_isa = ISA_UNKNOWN, o_ase_mips3d = -1, o_ase_mdmx = -1,
     o_ase_smartmips = 0, o_ase_dsp = -1, o_ase_dspr2 = -1, o_ase_mt = -1, o_mips16 = -1,
     o_noreorder = 0, o_noat = 0, o_warn_about_macros = 0, o_nomove = 0, o_nobopt = 0,
     o_noautoextend = 0, o_gp32 = 0, o_fp32 = 0, o_arch = CPU_UNKNOWN, o_sym32 = False\<rparr>"

section \<open>What an ISA level offers\<close>

definition ISA_SUPPORTS_MIPS16E :: "mips_set_options \<Rightarrow> bool" where
  "ISA_SUPPORTS_MIPS16E opts \<longleftrightarrow>
     o_isa opts = ISA_MIPS32 \<or> o_isa opts = ISA_MIPS32R2
     \<or> o_isa opts = ISA_MIPS64 \<or> o_isa opts = ISA_MIPS64R2"

definition ISA_SUPPORTS_SMARTMIPS :: "mips_set_options \<Rightarrow> bool" where
  "ISA_SUPPORTS_SMARTMIPS opts \<longleftrightarrow> o_isa opts = ISA_MIPS32 \<or> o_isa opts = ISA_MIPS32R2"

definition ISA_SUPPORTS_DSP_ASE :: "mips_set_options \<Rightarrow> bool" where
  "ISA_SUPPORTS_DSP_ASE opts \<longleftrightarrow> o_isa opts = ISA_MIPS32R2 \<or> o_isa opts = ISA_MIPS64R2"

definition ISA_SUPPORTS_DSP64_ASE :: "mips_set_options \<Rightarrow> bool" where
  "ISA_SUPPORTS_DSP64_ASE opts \<longleftrightarrow> o_isa opts = ISA_MIPS64R2"

definition ISA_SUPPORTS_MT_ASE :: "mips_set_options \<Rightarrow> bool" where
  "ISA_SUPPORTS_MT_ASE opts \<longleftrightarrow> o_isa opts = ISA_MIPS32R2 \<or> o_isa opts = ISA_MIPS64R2"

definition ABI_NEEDS_32BIT_REGS :: "mips_abi_level \<Rightarrow> bool" where
  "ABI_NEEDS_32BIT_REGS abi \<longleftrightarrow> abi = O32_ABI"

definition ABI_NEEDS_64BIT_REGS :: "mips_abi_level \<Rightarrow> bool" where
  "ABI_NEEDS_64BIT_REGS abi \<longleftrightarrow> abi = N32_ABI \<or> abi = N64_ABI \<or> abi = O64_ABI"

definition ISA_HAS_64BIT_REGS :: "ulong \<Rightarrow> bool" where
  "ISA_HAS_64BIT_REGS isa \<longleftrightarrow>
     isa = ISA_MIPS3 \<or> isa = ISA_MIPS4 \<or> isa = ISA_MIPS5 \<or> isa = ISA_MIPS64 \<or> isa = ISA_MIPS64R2"

definition ISA_HAS_64BIT_FPRS :: "ulong \<Rightarrow> bool" where
  "ISA_HAS_64BIT_FPRS isa \<longleftrightarrow>
     isa = ISA_MIPS3 \<or> isa = ISA_MIPS4 \<or> isa = ISA_MIPS5 \<or> isa = ISA_MIPS32R2
     \<or> isa = ISA_MIPS64 \<or> isa = ISA_MIPS64R2"

definition ISA_HAS_DROR :: "ulong \<Rightarrow> bool" where
  "ISA_HAS_DROR isa \<longleftrightarrow> isa = ISA_MIPS64R2"

definition ISA_HAS_ROR :: "mips_set_options \<Rightarrow> ulong \<Rightarrow> bool" where
  "ISA_HAS_ROR opts isa \<longleftrightarrow>
     isa = ISA_MIPS32R2 \<or> isa = ISA_MIPS64R2 \<or> o_ase_smartmips opts \<noteq> 0"

definition ISA_HAS_ODD_SINGLE_FPR :: "ulong \<Rightarrow> bool" where
  "ISA_HAS_ODD_SINGLE_FPR isa \<longleftrightarrow>
     isa = ISA_MIPS32 \<or> isa = ISA_MIPS32R2 \<or> isa = ISA_MIPS64 \<or> isa = ISA_MIPS64R2"

definition ISA_HAS_MXHC1 :: "ulong \<Rightarrow> bool" where
  "ISA_HAS_MXHC1 isa \<longleftrightarrow> isa = ISA_MIPS32R2 \<or> isa = ISA_MIPS64R2"

definition HAVE_32BIT_GPRS :: "mips_set_options \<Rightarrow> bool" where
  "HAVE_32BIT_GPRS opts \<longleftrightarrow> o_gp32 opts \<noteq> 0 \<or> \<not> ISA_HAS_64BIT_REGS (o_isa opts)"

definition HAVE_32BIT_FPRS :: "mips_set_options \<Rightarrow> bool" where
  "HAVE_32BIT_FPRS opts \<longleftrightarrow> o_fp32 opts \<noteq> 0 \<or> \<not> ISA_HAS_64BIT_FPRS (o_isa opts)"

definition HAVE_NEWABI :: "mips_abi_level \<Rightarrow> bool" where
  "HAVE_NEWABI abi \<longleftrightarrow> abi = N32_ABI \<or> abi = N64_ABI"

definition HAVE_64BIT_OBJECTS :: "mips_abi_level \<Rightarrow> bool" where
  "HAVE_64BIT_OBJECTS abi \<longleftrightarrow> abi = N64_ABI"

definition HAVE_64BIT_ADDRESSES :: "mips_set_options \<Rightarrow> mips_abi_level \<Rightarrow> bool" where
  "HAVE_64BIT_ADDRESSES opts abi \<longleftrightarrow>
     \<not> HAVE_32BIT_GPRS opts \<and> (abi = EABI_ABI \<or> abi = N64_ABI)"

definition HAVE_32BIT_SYMBOLS :: "mips_set_options \<Rightarrow> mips_abi_level \<Rightarrow> bool" where
  "HAVE_32BIT_SYMBOLS opts abi \<longleftrightarrow>
     \<not> HAVE_64BIT_ADDRESSES opts abi \<or> \<not> HAVE_64BIT_OBJECTS abi \<or> o_sym32 opts"

definition hilo_interlocks :: "mips_set_options \<Rightarrow> bool" where
  "hilo_interlocks opts \<longleftrightarrow>
     o_isa opts = ISA_MIPS32 \<or> o_isa opts = ISA_MIPS32R2 \<or> o_isa opts = ISA_MIPS64
     \<or> o_isa opts = ISA_MIPS64R2 \<or> o_arch opts = CPU_R4010 \<or> o_arch opts = CPU_R10000
     \<or> o_arch opts = CPU_R12000 \<or> o_arch opts = CPU_RM7000 \<or> o_arch opts = CPU_VR5500"

definition gpr_interlocks :: "mips_set_options \<Rightarrow> bool" where
  "gpr_interlocks opts \<longleftrightarrow> o_isa opts \<noteq> ISA_MIPS1 \<or> o_arch opts = CPU_R3900"

definition cop_interlocks :: "mips_set_options \<Rightarrow> bool" where
  "cop_interlocks opts \<longleftrightarrow>
     (o_isa opts \<noteq> ISA_MIPS1 \<and> o_isa opts \<noteq> ISA_MIPS2 \<and> o_isa opts \<noteq> ISA_MIPS3)
     \<or> o_arch opts = CPU_R4300"

definition cop_mem_interlocks :: "mips_set_options \<Rightarrow> bool" where
  "cop_mem_interlocks opts \<longleftrightarrow> o_isa opts \<noteq> ISA_MIPS1"

definition MF_HILO_INSN :: "ulong \<Rightarrow> bool" where
  "MF_HILO_INSN pinfo \<longleftrightarrow> pinfo AND INSN_READ_HI \<noteq> 0 \<or> pinfo AND INSN_READ_LO \<noteq> 0"

text \<open>The options under which Rigel code is assembled: the Rigel ISA, no mips16.\<close>

definition rigel_opts :: "mips_set_options \<Rightarrow> bool" where
  "rigel_opts opts \<longleftrightarrow> o_isa opts = ISA_RIGEL32 \<and> o_arch opts = CPU_RIGEL32 \<and> o_mips16 opts = 0"

lemma rigel_isa_offers:
  assumes "rigel_opts opts"
  shows "gpr_interlocks opts" "cop_interlocks opts" "cop_mem_interlocks opts"
    "\<not> hilo_interlocks opts" "HAVE_32BIT_GPRS opts" "HAVE_32BIT_FPRS opts"
    "\<not> ISA_SUPPORTS_MIPS16E opts" "\<not> ISA_SUPPORTS_SMARTMIPS opts" "\<not> ISA_SUPPORTS_DSP_ASE opts"
    "\<not> ISA_SUPPORTS_DSP64_ASE opts" "\<not> ISA_SUPPORTS_MT_ASE opts"
  using assms
  by (simp_all add: rigel_opts_def gpr_interlocks_def cop_interlocks_def cop_mem_interlocks_def
      hilo_interlocks_def HAVE_32BIT_GPRS_def HAVE_32BIT_FPRS_def ISA_HAS_64BIT_REGS_def
      ISA_HAS_64BIT_FPRS_def ISA_SUPPORTS_MIPS16E_def ISA_SUPPORTS_SMARTMIPS_def
      ISA_SUPPORTS_DSP_ASE_def ISA_SUPPORTS_DSP64_ASE_def ISA_SUPPORTS_MT_ASE_def
      ISA_RIGEL32_def INSN_RIGEL32_def ISA_MIPS1_def ISA_MIPS2_def ISA_MIPS3_def ISA_MIPS4_def
      ISA_MIPS5_def ISA_MIPS32_def ISA_MIPS64_def ISA_MIPS32R2_def ISA_MIPS64R2_def INSN_ISA1_def
      INSN_ISA2_def INSN_ISA3_def INSN_ISA4_def INSN_ISA5_def INSN_ISA32_def INSN_ISA64_def
      INSN_ISA32R2_def INSN_ISA64R2_def CPU_RIGEL32_def CPU_R3900_def CPU_R4300_def CPU_R4010_def
      CPU_R10000_def CPU_R12000_def CPU_RM7000_def CPU_VR5500_def)

section \<open>Instructions\<close>

text \<open>\<open>struct mips_cl_insn\<close>. Frags and fixups are named by numbers, their addresses; \<open>None\<close> is
  the null pointer.\<close>

record mips_cl_insn =
  insn_mo :: mips_opcode
  use_extend :: bool
  insn_extend :: "16 word"
  insn_opcode :: ulong
  insn_frag :: "nat option"
  insn_where :: nat
  insn_fixp :: "nat option list"
  fixed_p :: bool
  noreorder_p :: bool
  mips16_absolute_jump_p :: bool

definition INSERT_OPERAND :: "op_field \<Rightarrow> mips_cl_insn \<Rightarrow> ulong \<Rightarrow> mips_cl_insn" where
  "INSERT_OPERAND f ip v =
     ip\<lparr>insn_opcode := INSERT_BITS (insn_opcode ip) v (op_mask f) (op_sh f)\<rparr>"

definition EXTRACT_OPERAND :: "op_field \<Rightarrow> mips_cl_insn \<Rightarrow> ulong" where
  "EXTRACT_OPERAND f ip = EXTRACT_BITS (insn_opcode ip) (op_mask f) (op_sh f)"

definition create_insn :: "mips_set_options \<Rightarrow> mips_opcode \<Rightarrow> mips_cl_insn" where
  "create_insn opts mo = \<lparr>insn_mo = mo, use_extend = False, insn_extend = 0,
     insn_opcode = op_match mo, insn_frag = None, insn_where = 0,
     insn_fixp = [None, None, None], fixed_p = o_noreorder opts > 0,
     noreorder_p = o_noreorder opts > 0, mips16_absolute_jump_p = False\<rparr>"

definition insn_length :: "mips_set_options \<Rightarrow> mips_cl_insn \<Rightarrow> nat" where
  "insn_length opts insn =
     (if o_mips16 opts = 0 then 4
      else if mips16_absolute_jump_p insn \<or> use_extend insn then 4 else 2)"

section \<open>Writing an instruction into its frag\<close>

text \<open>The store: the literal bytes of each frag, and the fixups. A write that does not fit the
  frag, or through a null pointer, is \<open>None\<close>.\<close>

record fixS =
  fx_frag :: nat
  fx_where :: nat

record frag_store =
  fr_literal :: "nat \<Rightarrow> byte list option"
  fixes_of :: "nat \<Rightarrow> fixS option"

definition put_bytes :: "nat \<Rightarrow> byte list \<Rightarrow> byte list \<Rightarrow> byte list option" where
  "put_bytes at bs mem =
     (if at + length bs \<le> length mem then Some (take at mem @ bs @ drop (at + length bs) mem)
      else None)"

text \<open>\<open>md_number_to_chars\<close> at an address.\<close>

definition store_number :: "bool \<Rightarrow> nat \<Rightarrow> ulong \<Rightarrow> nat \<Rightarrow> byte list \<Rightarrow> byte list option" where
  "store_number big at val n mem =
     Option.bind (md_number_to_chars big val n) (\<lambda>bs. put_bytes at bs mem)"

definition install_bytes ::
    "mips_set_options \<Rightarrow> bool \<Rightarrow> mips_cl_insn \<Rightarrow> byte list \<Rightarrow> byte list option" where
  "install_bytes opts big insn mem =
     (let f = insn_where insn in
      if o_mips16 opts = 0 then store_number big f (insn_opcode insn) 4 mem
      else if mips16_absolute_jump_p insn then
        Option.bind (store_number big f (drop_bit 16 (insn_opcode insn)) 2 mem)
          (store_number big (f + 2) (insn_opcode insn AND 0xffff) 2)
      else if use_extend insn then
        Option.bind (store_number big f (0xf000 OR ucast (insn_extend insn)) 2 mem)
          (store_number big (f + 2) (insn_opcode insn) 2)
      else store_number big f (insn_opcode insn) 2 mem)"

definition install_insn ::
    "mips_set_options \<Rightarrow> bool \<Rightarrow> mips_cl_insn \<Rightarrow> frag_store \<Rightarrow> frag_store option" where
  "install_insn opts big insn st =
     Option.bind (insn_frag insn) (\<lambda>fr.
     Option.bind (fr_literal st fr) (\<lambda>mem.
     Option.bind (install_bytes opts big insn mem) (\<lambda>mem'.
       Some (st\<lparr>fr_literal := (fr_literal st)(fr := Some mem')\<rparr>))))"

text \<open>The loop of \<open>move_insn\<close> over the instruction's fixups.\<close>

fun move_fixups :: "nat \<Rightarrow> nat \<Rightarrow> nat option list \<Rightarrow> (nat \<Rightarrow> fixS option) \<Rightarrow> (nat \<Rightarrow> fixS option)" where
  "move_fixups fr at [] fx = fx"
| "move_fixups fr at (None # ps) fx = move_fixups fr at ps fx"
| "move_fixups fr at (Some p # ps) fx = move_fixups fr at ps
     (fx(p := map_option (\<lambda>f. f\<lparr>fx_frag := fr, fx_where := at\<rparr>) (fx p)))"

definition move_insn :: "mips_set_options \<Rightarrow> bool \<Rightarrow> mips_cl_insn \<Rightarrow> nat \<Rightarrow> nat \<Rightarrow> frag_store
    \<Rightarrow> (mips_cl_insn \<times> frag_store) option" where
  "move_insn opts big insn fr at st =
     (let insn' = insn\<lparr>insn_frag := Some fr, insn_where := at\<rparr>;
          st' = st\<lparr>fixes_of := move_fixups fr at (insn_fixp insn) (fixes_of st)\<rparr>
      in map_option (\<lambda>s. (insn', s)) (install_insn opts big insn' st'))"

text \<open>\<open>add_fixed_insn\<close>: \<open>frag_more\<close> (of \<open>gas/frags.c\<close>) makes room at the end of the current
  frag; what the new bytes hold before they are written is not specified, and is zero here.\<close>

definition frag_more :: "nat \<Rightarrow> nat \<Rightarrow> frag_store \<Rightarrow> (nat \<times> frag_store) option" where
  "frag_more fr n st = map_option (\<lambda>mem.
     (length mem, st\<lparr>fr_literal := (fr_literal st)(fr := Some (mem @ replicate n 0))\<rparr>))
     (fr_literal st fr)"

definition add_fixed_insn :: "mips_set_options \<Rightarrow> bool \<Rightarrow> nat \<Rightarrow> mips_cl_insn \<Rightarrow> frag_store
    \<Rightarrow> (mips_cl_insn \<times> frag_store) option" where
  "add_fixed_insn opts big frag_now insn st =
     Option.bind (frag_more frag_now (insn_length opts insn) st)
       (\<lambda>(at, st'). move_insn opts big insn frag_now at st')"

section \<open>Properties of creation and installation\<close>

text \<open>The reader that matches the assembler's byte order.\<close>

definition bfd_get_32 :: "bool \<Rightarrow> byte list \<Rightarrow> ulong" where
  "bfd_get_32 big p = (if big then bfd_getb32 p else bfd_getl32 p)"

definition bfd_get_16 :: "bool \<Rightarrow> byte list \<Rightarrow> ulong" where
  "bfd_get_16 big p = (if big then bfd_getb16 p else bfd_getl16 p)"

lemma put_bytes_length: "put_bytes at bs mem = Some mem' \<Longrightarrow> length mem' = length mem"
  by (auto simp: put_bytes_def split: if_splits)

lemma put_bytes_read:
  "put_bytes at bs mem = Some mem' \<Longrightarrow> take (length bs) (drop at mem') = bs"
  by (auto simp: put_bytes_def split: if_splits)

lemma put_bytes_other:
  "put_bytes at bs mem = Some mem' \<Longrightarrow> i < at \<or> at + length bs \<le> i \<Longrightarrow> mem' ! i = mem ! i"
  by (auto simp: put_bytes_def nth_append split: if_splits)

lemma md_number_to_chars_32:
  "\<exists>bs. md_number_to_chars big v 4 = Some bs \<and> length bs = 4 \<and> bfd_get_32 big bs = take_bit 32 v"
  using be32.length_put [of v] le32.length_put [of v] be32.get_put [of v] le32.get_put [of v]
  by (cases big) (simp_all add: md_number_to_chars_def number_to_chars_bigendian_def
      number_to_chars_littleendian_def bfd_get_32_def)

lemma md_number_to_chars_16:
  "\<exists>bs. md_number_to_chars big v 2 = Some bs \<and> length bs = 2 \<and> bfd_get_16 big bs = take_bit 16 v"
  using be16.length_put [of v] le16.length_put [of v] be16.get_put [of v] le16.get_put [of v]
  by (cases big) (simp_all add: md_number_to_chars_def number_to_chars_bigendian_def
      number_to_chars_littleendian_def bfd_get_16_def)

lemma store_number_32:
  assumes "at + 4 \<le> length mem"
  obtains mem' where "store_number big at v 4 mem = Some mem'" "length mem' = length mem"
    "bfd_get_32 big (take 4 (drop at mem')) = take_bit 32 v"
    "\<And>i. i < at \<or> at + 4 \<le> i \<Longrightarrow> mem' ! i = mem ! i"
proof -
  obtain bs where bs: "md_number_to_chars big v 4 = Some bs" "length bs = 4"
      "bfd_get_32 big bs = take_bit 32 v"
    using md_number_to_chars_32 by blast
  with assms obtain mem' where m: "put_bytes at bs mem = Some mem'"
    by (simp add: put_bytes_def)
  show thesis
  proof
    show "store_number big at v 4 mem = Some mem'" using bs m by (simp add: store_number_def)
    show "length mem' = length mem" using m by (rule put_bytes_length)
    show "bfd_get_32 big (take 4 (drop at mem')) = take_bit 32 v"
      using put_bytes_read [OF m] bs by simp
    show "mem' ! i = mem ! i" if "i < at \<or> at + 4 \<le> i" for i
      using put_bytes_other [OF m] that bs by simp
  qed
qed

lemma take_append_zeros:
  "length ys = length xs + n \<Longrightarrow> (\<And>i. i < length xs \<Longrightarrow> ys ! i = xs ! i) \<Longrightarrow> take (length xs) ys = xs"
  by (auto intro: nth_equalityI)

lemma add_fixed_insn_appends:
  assumes "o_mips16 opts = 0" and "fr_literal st fr = Some mem"
  shows "\<exists>insn' st' bs. add_fixed_insn opts big fr insn st = Some (insn', st')
    \<and> fr_literal st' fr = Some (mem @ bs) \<and> length bs = 4
    \<and> bfd_get_32 big bs = take_bit 32 (insn_opcode insn)
    \<and> (\<forall>fr'. fr' \<noteq> fr \<longrightarrow> fr_literal st' fr' = fr_literal st fr')
    \<and> insn' = insn\<lparr>insn_frag := Some fr, insn_where := length mem\<rparr>"
proof -
  let ?mem = "mem @ replicate 4 0"
  obtain mem' where m: "store_number big (length mem) (insn_opcode insn) 4 ?mem = Some mem'"
      "length mem' = length ?mem"
      "bfd_get_32 big (take 4 (drop (length mem) mem')) = take_bit 32 (insn_opcode insn)"
      "\<And>i. i < length mem \<or> length mem + 4 \<le> i \<Longrightarrow> mem' ! i = ?mem ! i"
    by (rule store_number_32 [of "length mem" ?mem big "insn_opcode insn"]) auto
  have "take (length mem) mem' = mem"
    using m(2,4) by (intro take_append_zeros [of _ _ 4]) (auto simp: nth_append)
  then have "mem' = mem @ drop (length mem) mem'" by (metis append_take_drop_id)
  moreover have "length (drop (length mem) mem') = 4" using m(2) by simp
  ultimately show ?thesis
    using m assms by (auto simp: add_fixed_insn_def frag_more_def insn_length_def move_insn_def
        install_insn_def install_bytes_def Let_def intro!: exI [of _ "drop (length mem) mem'"])
qed

text \<open>Emitting an instruction in Rigel mode. \<open>add_fixed_insn\<close> on an existing frag always succeeds,
  appends four bytes to it, leaves the bytes before them and every other frag alone, and whoever
  reads the four bytes back in the byte order of the target gets the low 32 bits of the
  instruction word.\<close>

theorem add_fixed_insn_reads_back:
  assumes "o_mips16 opts = 0" and "fr_literal st fr = Some mem"
  shows "\<exists>insn' st' bs. add_fixed_insn opts big fr insn st = Some (insn', st')
    \<and> fr_literal st' fr = Some (mem @ bs) \<and> length bs = 4
    \<and> bfd_get_32 big bs = take_bit 32 (insn_opcode insn)
    \<and> (\<forall>fr'. fr' \<noteq> fr \<longrightarrow> fr_literal st' fr' = fr_literal st fr')
    \<and> insn' = insn\<lparr>insn_frag := Some fr, insn_where := length mem\<rparr>"
  using assms by (rule add_fixed_insn_appends)

theorem add_fixed_insn_reads_back_witness:
  "\<exists>insn' st' bs. add_fixed_insn (initial_mips_opts\<lparr>o_mips16 := 0\<rparr>) True 7
       (create_insn initial_mips_opts \<lparr>op_name = ''x'', op_args = '''', op_match = 0x12345678,
          op_msk = 0, op_pinfo = 0, op_pinfo2 = 0, op_membership = 0\<rparr>)
       \<lparr>fr_literal = [7 \<mapsto> [0xff]], fixes_of = Map.empty\<rparr> = Some (insn', st')
     \<and> fr_literal st' 7 = Some (0xff # bs) \<and> bfd_get_32 True bs = 0x12345678"
  using add_fixed_insn_reads_back [of "initial_mips_opts\<lparr>o_mips16 := 0\<rparr>"
      "\<lparr>fr_literal = [7 \<mapsto> [0xff]], fixes_of = Map.empty\<rparr>" 7 "[0xff]" True
      "create_insn initial_mips_opts \<lparr>op_name = ''x'', op_args = '''', op_match = 0x12345678,
          op_msk = 0, op_pinfo = 0, op_pinfo2 = 0, op_membership = 0\<rparr>"]
  by (auto simp: create_insn_def)

text \<open>Moving an instruction relocates exactly its own fixups.\<close>

lemma move_fixups_eq:
  "move_fixups fr at ps fx p =
     (if Some p \<in> set ps then map_option (\<lambda>f. f\<lparr>fx_frag := fr, fx_where := at\<rparr>) (fx p) else fx p)"
proof (induction ps arbitrary: fx)
  case (Cons q ps)
  then show ?case by (cases q) (simp_all add: option.map_comp o_def)
qed simp

end
