(* ===== verification/Rigel_Isa.thy ===== *)
theory Rigel_Isa
  imports Opcode_Mips
begin

text \<open>
  The Rigel instruction set: \<open>mips_builtin_opcodes\<close> of \<open>include/rigel-isa.h\<close>, which
  \<open>opcodes/mips-opc.c\<close> includes for the 32-register machine, entry by entry and in the source's
  order, under the short names for flags that \<open>mips-opc.c\<close> defines.

  The lemmas decide the facts about the table that the assembler and the disassembler rest on:
  every pattern lies within its mask, no instruction word matches two entries, no two entries
  share a name, and there are neither macros nor aliases.
\<close>

section \<open>Short names of the flags\<close>

definition WR_d :: ulong where [rigel_const]: "WR_d = INSN_WRITE_GPR_D"
definition RD_s :: ulong where [rigel_const]: "RD_s = INSN_READ_GPR_S"
definition RD_t :: ulong where [rigel_const]: "RD_t = INSN_READ_GPR_T"
definition WR_A :: ulong where [rigel_const]: "WR_A = INSN_WRITE_GPR_DAcc"
definition IR32 :: ulong where [rigel_const]: "IR32 = INSN_RIGEL32"

section \<open>The table\<close>

text \<open>An initialiser of \<open>struct mips_opcode\<close>.\<close>

definition opcode ::
    "cstring \<Rightarrow> cstring \<Rightarrow> ulong \<Rightarrow> ulong \<Rightarrow> ulong \<Rightarrow> ulong \<Rightarrow> ulong \<Rightarrow> mips_opcode" where
  "opcode nm ar mt mk pi pi2 me = \<lparr>op_name = nm, op_args = ar, op_match = mt, op_msk = mk,
     op_pinfo = pi, op_pinfo2 = pi2, op_membership = me\<rparr>"

lemma opcode_sel [simp]:
  "op_name (opcode nm ar mt mk pi pi2 me) = nm" "op_args (opcode nm ar mt mk pi pi2 me) = ar"
  "op_match (opcode nm ar mt mk pi pi2 me) = mt" "op_msk (opcode nm ar mt mk pi pi2 me) = mk"
  "op_pinfo (opcode nm ar mt mk pi pi2 me) = pi" "op_pinfo2 (opcode nm ar mt mk pi pi2 me) = pi2"
  "op_membership (opcode nm ar mt mk pi pi2 me) = me"
  by (simp_all add: opcode_def)

definition mips_builtin_opcodes :: "mips_opcode list" where [rigel_tab]:
  "mips_builtin_opcodes = [
    opcode ''add'' ''d,s,t'' 0x00001c00 0xf0001fff (RD_t OR RD_s OR WR_d) 0 IR32,
    opcode ''sub'' ''d,s,t'' 0x00001c01 0xf0001fff (RD_t OR RD_s OR WR_d) 0 IR32,
    opcode ''addu'' ''d,s,t'' 0x00001c02 0xf0001fff (RD_t OR RD_s OR WR_d) 0 IR32,
    opcode ''subu'' ''d,s,t'' 0x00001c03 0xf0001fff (RD_t OR RD_s OR WR_d) 0 IR32,
    opcode ''addi'' ''d,t,j'' 0x10000000 0xf0030000 (RD_s OR WR_d) 0 IR32,
    opcode ''subi'' ''d,t,j'' 0x10010000 0xf0030000 (RD_s OR WR_d) 0 IR32,
    opcode ''addiu'' ''d,t,i'' 0x10020000 0xf0030000 (RD_s OR WR_d) 0 IR32,
    opcode ''subiu'' ''d,t,i'' 0x10030000 0xf0030000 (RD_s OR WR_d) 0 IR32,
    opcode ''addc'' ''d,s,t'' 0x00001c04 0xf0001fff (RD_t OR RD_s OR WR_d) 0 IR32,
    opcode ''addg'' ''d,s,t'' 0x00001c05 0xf0001fff (RD_t OR RD_s OR WR_d) 0 IR32,
    opcode ''addcu'' ''d,s,t'' 0x00001c06 0xf0001fff (RD_t OR RD_s OR WR_d) 0 IR32,
    opcode ''addgu'' ''d,s,t'' 0x00001c07 0xf0001fff (RD_t OR RD_s OR WR_d) 0 IR32,
    opcode ''and'' ''d,s,t'' 0x00001c08 0xf0001fff (RD_t OR RD_s OR WR_d) 0 IR32,
    opcode ''or'' ''d,s,t'' 0x00001c09 0xf0001fff (RD_t OR RD_s OR WR_d) 0 IR32,
    opcode ''xor'' ''d,s,t'' 0x00001c0a 0xf0001fff (RD_t OR RD_s OR WR_d) 0 IR32,
    opcode ''nor'' ''d,s,t'' 0x00001c0b 0xf0001fff (RD_t OR RD_s OR WR_d) 0 IR32,
    opcode ''andi'' ''d,t,i'' 0x20000000 0xf0030000 (RD_s OR WR_d) 0 IR32,
    opcode ''ori'' ''d,t,i'' 0x20010000 0xf0030000 (RD_s OR WR_d) 0 IR32,
    opcode ''xori'' ''d,t,i'' 0x20020000 0xf0030000 (RD_s OR WR_d) 0 IR32,
    opcode ''sll'' ''d,s,t'' 0x00001c0c 0xf0001fff (RD_t OR RD_s OR WR_d) 0 IR32,
    opcode ''srl'' ''d,s,t'' 0x00001c0d 0xf0001fff (RD_t OR RD_s OR WR_d) 0 IR32,
    opcode ''sra'' ''d,s,t'' 0x00001c0e 0xf0001fff (RD_t OR RD_s OR WR_d) 0 IR32,
    opcode ''slli'' ''d,t,5'' 0x00001a0f 0xf0001fff (RD_t OR WR_d) 0 IR32,
    opcode ''srli'' ''d,t,5'' 0x00001a10 0xf0001fff (RD_t OR WR_d) 0 IR32,
    opcode ''srai'' ''d,t,5'' 0x00001a11 0xf0001fff (RD_t OR WR_d) 0 IR32,
    opcode ''ceq'' ''d,s,t'' 0x00001c12 0xf0001fff (RD_t OR RD_s OR WR_d) 0 IR32,
    opcode ''clt'' ''d,s,t'' 0x00001c13 0xf0001fff (RD_t OR RD_s OR WR_d) 0 IR32,
    opcode ''cle'' ''d,s,t'' 0x00001c14 0xf0001fff (RD_t OR RD_s OR WR_d) 0 IR32,
    opcode ''cltu'' ''d,s,t'' 0x00001c15 0xf0001fff (RD_t OR RD_s OR WR_d) 0 IR32,
    opcode ''cleu'' ''d,s,t'' 0x00001c16 0xf0001fff (RD_t OR RD_s OR WR_d) 0 IR32,
    opcode ''ceqf'' ''d,s,t'' 0x00001c17 0xf0001fff (RD_t OR RD_s OR WR_d) 0 IR32,
    opcode ''cltf'' ''d,s,t'' 0x00001c18 0xf0001fff (RD_t OR RD_s OR WR_d) 0 IR32,
    opcode ''cltef'' ''d,s,t'' 0x00001c19 0xf0001fff (RD_t OR RD_s OR WR_d) 0 IR32,
    opcode ''cmov.eq'' ''d,s,t'' 0x00001c1a 0xf0001fff (RD_t OR RD_s OR WR_d) 0 IR32,
    opcode ''cmov.neq'' ''d,s,t'' 0x00001c1b 0xf0001fff (RD_t OR RD_s OR WR_d) 0 IR32,
    opcode ''mfsr'' ''d,t'' 0x0000181c 0xf003ffff (0) 0 IR32,
    opcode ''mtsr'' ''d,t'' 0x0000181d 0xf003ffff (0) 0 IR32,
    opcode ''mvui'' ''d,i'' 0x30000000 0xf07f0000 (0) 0 IR32,
    opcode ''beq'' ''d,t,p'' 0x20030000 0xf0030000 (RD_s OR WR_d) 0 IR32,
    opcode ''bne'' ''d,t,p'' 0x40000000 0xf0030000 (RD_s OR WR_d) 0 IR32,
    opcode ''be'' ''t,p'' 0x50000000 0xff830000 (0) 0 IR32,
    opcode ''bnz'' ''t,p'' 0x50010000 0xff830000 (0) 0 IR32,
    opcode ''blt'' ''t,p'' 0x50020000 0xff830000 (0) 0 IR32,
    opcode ''bgt'' ''t,p'' 0x50030000 0xff830000 (0) 0 IR32,
    opcode ''ble'' ''t,p'' 0x60000000 0xff830000 (0) 0 IR32,
    opcode ''bge'' ''t,p'' 0x60010000 0xff830000 (0) 0 IR32,
    opcode ''lj'' ''a'' 0x70000000 0xfc000000 (0) 0 IR32,
    opcode ''ljl'' ''a'' 0x74000000 0xfc000000 (0) 0 IR32,
    opcode ''jmp'' ''p'' 0x60020000 0xffff0000 (0) 0 IR32,
    opcode ''jal'' ''p'' 0x3f810000 0xffff0000 (0) 0 IR32,
    opcode ''jmpr'' ''t'' 0x0000081e 0xff83ffff (RD_t) 0 IR32,
    opcode ''jalr'' ''t'' 0x0f80181f 0xff83ffff (RD_t OR WR_d) 0 IR32,
    opcode ''ldl'' ''d,t'' 0x00001820 0xf003ffff (0) 0 IR32,
    opcode ''stc'' ''d,s,t'' 0x00001c21 0xf0001fff (RD_t OR RD_s OR WR_d) 0 IR32,
    opcode ''pref.l'' ''d,i'' 0x30020000 0xf07f0000 (0) 0 IR32,
    opcode ''pref.b.gc'' ''d,t,j'' 0x40010000 0xf0030000 (RD_s OR WR_d) 0 IR32,
    opcode ''pref.b.cc'' ''d,t,j'' 0x40020000 0xf0030000 (RD_s OR WR_d) 0 IR32,
    opcode ''pref.nga'' ''d,i'' 0x30030000 0xf07f0000 (0) 0 IR32,
    opcode ''pldw'' ''d,t,j'' 0x40030000 0xf0030000 (RD_s OR WR_d) 0 IR32,
    opcode ''bcast.i'' ''d,i'' 0x80000000 0xf07f0000 (0) 0 IR32,
    opcode ''bcast.u'' ''d,t,j'' 0x90000000 0xf0030000 (RD_s OR WR_d) 0 IR32,
    opcode ''ldw'' ''d,t,j'' 0x90010000 0xf0030000 (RD_s OR WR_d) 0 IR32,
    opcode ''stw'' ''d,t,j'' 0x90020000 0xf0030000 (RD_s OR WR_d) 0 IR32,
    opcode ''g.ldw'' ''d,t,j'' 0x90030000 0xf0030000 (RD_s OR WR_d) 0 IR32,
    opcode ''g.stw'' ''d,t,j'' 0xa0000000 0xf0030000 (RD_s OR WR_d) 0 IR32,
    opcode ''atom.dec'' ''d,t,j'' 0xa0010000 0xf0030000 (RD_s OR WR_d) 0 IR32,
    opcode ''atom.inc'' ''d,t,j'' 0xa0020000 0xf0030000 (RD_s OR WR_d) 0 IR32,
    opcode ''atom.xchg'' ''d,t,j'' 0xa0030000 0xf0030000 (RD_s OR WR_d) 0 IR32,
    opcode ''atom.cas'' ''d,s,t'' 0x00001c22 0xf0001fff (RD_t OR RD_s OR WR_d) 0 IR32,
    opcode ''atom.addu'' ''d,s,t'' 0x00001c23 0xf0001fff (RD_t OR RD_s OR WR_d) 0 IR32,
    opcode ''atom.xor'' ''d,s,t'' 0x00001c24 0xf0001fff (RD_t OR RD_s OR WR_d) 0 IR32,
    opcode ''atom.or'' ''d,s,t'' 0x00001c25 0xf0001fff (RD_t OR RD_s OR WR_d) 0 IR32,
    opcode ''atom.and'' ''d,s,t'' 0x00001c26 0xf0001fff (RD_t OR RD_s OR WR_d) 0 IR32,
    opcode ''atom.max'' ''d,s,t'' 0x00001c27 0xf0001fff (RD_t OR RD_s OR WR_d) 0 IR32,
    opcode ''atom.min'' ''d,s,t'' 0x00001c28 0xf0001fff (RD_t OR RD_s OR WR_d) 0 IR32,
    opcode ''tbloffset'' ''d,t'' 0x00001829 0xf003ffff (0) 0 IR32,
    opcode ''nop'' '''' 0x0000002a 0xffffffff (0) 0 IR32,
    opcode ''brk'' '''' 0x0000002b 0xffffffff (0) 0 IR32,
    opcode ''hlt'' '''' 0x0000002c 0xffffffff (0) 0 IR32,
    opcode ''sync'' '''' 0x0000002d 0xffffffff (0) 0 IR32,
    opcode ''undef'' '''' 0x0000002e 0xffffffff (0) 0 IR32,
    opcode ''cc.wb'' '''' 0x0000002f 0xffffffff (0) 0 IR32,
    opcode ''cc.inv'' '''' 0x00000030 0xffffffff (0) 0 IR32,
    opcode ''cc.flush'' '''' 0x00000031 0xffffffff (0) 0 IR32,
    opcode ''ic.inv'' '''' 0x00000032 0xffffffff (0) 0 IR32,
    opcode ''mb'' '''' 0x00000033 0xffffffff (0) 0 IR32,
    opcode ''rfe'' '''' 0x00000034 0xffffffff (0) 0 IR32,
    opcode ''abort'' '''' 0x00000035 0xffffffff (0) 0 IR32,
    opcode ''syscall'' ''d'' 0x00001036 0xf07fffff (RD_s OR WR_d) 0 IR32,
    opcode ''printreg'' ''d'' 0x00001037 0xf07fffff (RD_s OR WR_d) 0 IR32,
    opcode ''timer.start'' ''d'' 0x00001038 0xf07fffff (RD_s OR WR_d) 0 IR32,
    opcode ''timer.stop'' ''d'' 0x00001039 0xf07fffff (RD_s OR WR_d) 0 IR32,
    opcode ''strtof'' ''d,i'' 0x80010000 0xf07f0000 (0) 0 IR32,
    opcode ''flush.bcast'' ''t'' 0x0000083a 0xff83ffff (RD_t) 0 IR32,
    opcode ''line.wb'' ''t'' 0x0000083b 0xff83ffff (RD_t) 0 IR32,
    opcode ''line.inv'' ''t'' 0x0000083c 0xff83ffff (RD_t) 0 IR32,
    opcode ''line.flush'' ''t'' 0x0000083d 0xff83ffff (RD_t) 0 IR32,
    opcode ''tq.enq'' '''' 0x0000003e 0xffffffff (0) 0 IR32,
    opcode ''tq.deq'' '''' 0x0000003f 0xffffffff (0) 0 IR32,
    opcode ''tq.loop'' '''' 0x00000040 0xffffffff (0) 0 IR32,
    opcode ''tq.init'' '''' 0x00000041 0xffffffff (0) 0 IR32,
    opcode ''tq.end'' '''' 0x00000042 0xffffffff (0) 0 IR32,
    opcode ''fadd'' ''d,s,t'' 0x00001c43 0xf0001fff (RD_t OR RD_s OR WR_d) 0 IR32,
    opcode ''fsub'' ''d,s,t'' 0x00001c44 0xf0001fff (RD_t OR RD_s OR WR_d) 0 IR32,
    opcode ''fmul'' ''d,s,t'' 0x00001c45 0xf0001fff (RD_t OR RD_s OR WR_d) 0 IR32,
    opcode ''fmadd'' ''d,s,t,A'' 0xb0000000 0xf00000ff (RD_t OR RD_s OR WR_d OR WR_A) 0 IR32,
    opcode ''fmsub'' ''d,s,t,A'' 0xb0000001 0xf00000ff (RD_t OR RD_s OR WR_d OR WR_A) 0 IR32,
    opcode ''frcp'' ''d,t'' 0x00001846 0xf003ffff (0) 0 IR32,
    opcode ''frsq'' ''d,t'' 0x00001847 0xf003ffff (0) 0 IR32,
    opcode ''fabs'' ''d,t'' 0x00001848 0xf003ffff (0) 0 IR32,
    opcode ''fmrs'' ''d,t'' 0x00001849 0xf003ffff (0) 0 IR32,
    opcode ''fmov'' ''d,t'' 0x0000184a 0xf003ffff (0) 0 IR32,
    opcode ''fa2r'' ''d,A'' 0xb0000002 0xf07fe0ff (WR_d OR WR_A) 0 IR32,
    opcode ''fr2a'' ''d,t'' 0x0000184b 0xf003ffff (0) 0 IR32,
    opcode ''f2i'' ''d,t'' 0x0000184c 0xf003ffff (0) 0 IR32,
    opcode ''i2f'' ''d,t'' 0x0000184d 0xf003ffff (0) 0 IR32,
    opcode ''mul'' ''d,s,t'' 0x00001c4e 0xf0001fff (RD_t OR RD_s OR WR_d) 0 IR32,
    opcode ''mul32'' ''d,s,t'' 0x00001c4f 0xf0001fff (RD_t OR RD_s OR WR_d) 0 IR32,
    opcode ''mul16'' ''d,s,t'' 0x00001c50 0xf0001fff (RD_t OR RD_s OR WR_d) 0 IR32,
    opcode ''mul16.c'' ''d,s,t'' 0x00001c51 0xf0001fff (RD_t OR RD_s OR WR_d) 0 IR32,
    opcode ''mul16.g'' ''d,s,t'' 0x00001c52 0xf0001fff (RD_t OR RD_s OR WR_d) 0 IR32,
    opcode ''clz'' ''d,t'' 0x00001853 0xf003ffff (0) 0 IR32,
    opcode ''zext8'' ''d,t'' 0x00001854 0xf003ffff (0) 0 IR32,
    opcode ''sext8'' ''d,t'' 0x00001855 0xf003ffff (0) 0 IR32,
    opcode ''zext16'' ''d,t'' 0x00001856 0xf003ffff (0) 0 IR32,
    opcode ''sext16'' ''d,t'' 0x00001857 0xf003ffff (0) 0 IR32,
    opcode ''vadd'' ''d,s,t'' 0x00001c58 0xf0001fff (RD_t OR RD_s OR WR_d) 0 IR32,
    opcode ''vsub'' ''d,s,t'' 0x00001c59 0xf0001fff (RD_t OR RD_s OR WR_d) 0 IR32,
    opcode ''vaddi'' ''d,t,j'' 0xc0000000 0xf0030000 (RD_s OR WR_d) 0 IR32,
    opcode ''vsubi'' ''d,t,j'' 0xc0010000 0xf0030000 (RD_s OR WR_d) 0 IR32,
    opcode ''vfadd'' ''d,s,t'' 0x00001c5a 0xf0001fff (RD_t OR RD_s OR WR_d) 0 IR32,
    opcode ''vfsub'' ''d,s,t'' 0x00001c5b 0xf0001fff (RD_t OR RD_s OR WR_d) 0 IR32,
    opcode ''vfmul'' ''d,s,t'' 0x00001c5c 0xf0001fff (RD_t OR RD_s OR WR_d) 0 IR32,
    opcode ''vldw'' ''d,t,j'' 0xc0020000 0xf0030000 (RD_s OR WR_d) 0 IR32,
    opcode ''vstw'' ''d,t,j'' 0xc0030000 0xf0030000 (RD_s OR WR_d) 0 IR32,
    opcode ''event'' ''d,i'' 0x80020000 0xf07f0000 (0) 0 IR32,
    opcode ''prio'' ''d,i'' 0x80030000 0xf07f0000 (0) 0 IR32,
    opcode ''sleep'' ''d,t,5'' 0x00001a5d 0xf0001fff (RD_t OR WR_d) 0 IR32]"

section \<open>Decoding is unambiguous\<close>

text \<open>An entry describes a word when the word agrees with the pattern on the mask: the test
  \<open>(word & op->mask) == op->match\<close> of the disassembler.\<close>

definition opcode_matches :: "mips_opcode \<Rightarrow> ulong \<Rightarrow> bool" where
  "opcode_matches insn w \<longleftrightarrow> w AND op_msk insn = op_match insn"

text \<open>The bits that tell the entries of one major opcode apart: the low byte for the opcodes 0
  (three register operations) and 11 (accumulator operations), bit 26 for the long jumps, bits 16
  and 17 for the rest.\<close>

definition decode_mask :: "ulong \<Rightarrow> ulong" where
  "decode_mask nib =
     (if nib = 0 \<or> nib = 0xb then 0xf00000ff
      else if nib = 7 then 0xf4000000 else 0xf0030000)"

definition decode_key :: "ulong \<Rightarrow> nat" where
  "decode_key w = unat (w AND decode_mask (op_get F_OP w))"

definition key_covered :: "mips_opcode \<Rightarrow> bool" where
  "key_covered insn \<longleftrightarrow>
     (let m = decode_mask (op_get F_OP (op_match insn)) in op_msk insn AND m = m)"

lemma rigel_keys_covered: "list_all key_covered mips_builtin_opcodes"
  unfolding mips_builtin_opcodes_def
  by (simp add: key_covered_def decode_mask_def op_get_def F_OP_def)

lemma rigel_keys_distinct:
  "distinct (map (\<lambda>insn. decode_key (op_match insn)) mips_builtin_opcodes)"
  unfolding mips_builtin_opcodes_def
  by (simp add: decode_key_def decode_mask_def op_get_def F_OP_def)

lemma rigel_names_distinct: "distinct (map op_name mips_builtin_opcodes)"
  unfolding mips_builtin_opcodes_def by simp

lemma decode_mask_covers_op: "decode_mask nib AND push_bit 28 0xf = push_bit 28 (0xf :: ulong)"
  by (simp add: decode_mask_def)

lemma matches_on_submask:
  assumes "opcode_matches insn w" and "op_msk insn AND m = m"
  shows "w AND m = op_match insn AND m"
proof -
  have "w AND m = w AND (op_msk insn AND m)" using assms(2) by simp
  also have "\<dots> = (w AND op_msk insn) AND m" by (simp only: and.assoc)
  also have "\<dots> = op_match insn AND m" using assms(1) by (simp add: opcode_matches_def)
  finally show ?thesis .
qed

lemma submask_trans:
  fixes a :: ulong
  assumes "a AND b = b" and "b AND c = c"
  shows "a AND c = c"
proof -
  have "a AND c = a AND (b AND c)" using assms(2) by simp
  also have "\<dots> = (a AND b) AND c" by (simp only: and.assoc)
  finally show ?thesis using assms by simp
qed

lemma matches_same_op:
  assumes "opcode_matches insn w" and "op_msk insn AND push_bit 28 0xf = push_bit 28 0xf"
  shows "op_get F_OP w = op_get F_OP (op_match insn)"
proof -
  have *: "op_get F_OP v = drop_bit 28 (v AND push_bit 28 0xf)" for v
    by (rule bit_eqI) (auto simp: op_get_def F_OP_def bit_simps)
  have "w AND push_bit 28 0xf = op_match insn AND push_bit 28 0xf"
    using assms by (rule matches_on_submask)
  then show ?thesis by (simp only: *)
qed

lemma key_covered_op: "key_covered insn \<Longrightarrow> op_msk insn AND push_bit 28 0xf = push_bit 28 0xf"
  using submask_trans [OF _ decode_mask_covers_op] by (simp add: key_covered_def Let_def)

lemma matches_same_key:
  assumes "opcode_matches insn w" and "key_covered insn"
  shows "decode_key w = decode_key (op_match insn)"
proof -
  have op: "op_get F_OP w = op_get F_OP (op_match insn)"
    using assms matches_same_op key_covered_op by blast
  let ?m = "decode_mask (op_get F_OP (op_match insn))"
  have "w AND ?m = op_match insn AND ?m"
    using assms by (intro matches_on_submask) (simp_all add: key_covered_def Let_def)
  then show ?thesis by (simp only: decode_key_def op)
qed

lemma rigel_entries_apart:
  assumes "a \<in> set mips_builtin_opcodes" and "b \<in> set mips_builtin_opcodes"
    and "opcode_matches a w" and "opcode_matches b w"
  shows "a = b"
proof -
  have "key_covered a" "key_covered b"
    using assms(1,2) rigel_keys_covered by (auto simp: list_all_iff)
  with assms(3,4) have "decode_key (op_match a) = decode_key (op_match b)"
    using matches_same_key by metis
  with assms(1,2) rigel_keys_distinct show ?thesis
    by (auto simp: distinct_map inj_on_def)
qed

text \<open>C17: no instruction word has two readings. Whatever 64-bit word is looked up, at most one of the
  138 entries of the Rigel table matches it, so the order in which the disassembler scans the table
  does not matter.\<close>

theorem rigel_decode_unique:
  assumes "a \<in> set mips_builtin_opcodes" and "b \<in> set mips_builtin_opcodes"
    and "opcode_matches a w" and "opcode_matches b w"
  shows "a = b"
  using assms by (rule rigel_entries_apart)

lemma rigel_length: "length mips_builtin_opcodes = 138"
  unfolding mips_builtin_opcodes_def by simp

lemma rigel_nth_mem [simp]: "i < 138 \<Longrightarrow> mips_builtin_opcodes ! i \<in> set mips_builtin_opcodes"
  by (simp add: rigel_length)

text \<open>A few entries by their index, for concrete runs.\<close>

lemma rigel_entry_add:
  "mips_builtin_opcodes ! 0 = opcode ''add'' ''d,s,t'' 0x00001c00 0xf0001fff (RD_t OR RD_s OR WR_d) 0 IR32"
  unfolding mips_builtin_opcodes_def by simp

lemma rigel_entry_addi:
  "mips_builtin_opcodes ! 4 = opcode ''addi'' ''d,t,j'' 0x10000000 0xf0030000 (RD_s OR WR_d) 0 IR32"
  unfolding mips_builtin_opcodes_def by simp

lemma rigel_entry_be:
  "mips_builtin_opcodes ! 40 = opcode ''be'' ''t,p'' 0x50000000 0xff830000 0 0 IR32"
  unfolding mips_builtin_opcodes_def by simp

theorem rigel_decode_unique_witness:
  "{b \<in> set mips_builtin_opcodes. opcode_matches b 0x01083c00} = {mips_builtin_opcodes ! 0}"
proof -
  have m: "opcode_matches (mips_builtin_opcodes ! 0) 0x01083c00"
    unfolding rigel_entry_add by (simp add: opcode_matches_def)
  show ?thesis
    using m rigel_decode_unique [OF _ _ _ m] by (auto simp: rigel_length)
qed

text \<open>Every entry is a plain instruction of the Rigel instruction set: no macro, no alias.\<close>

definition plain_rigel :: "mips_opcode \<Rightarrow> bool" where
  "plain_rigel insn \<longleftrightarrow> op_pinfo insn \<noteq> INSN_MACRO \<and> op_pinfo2 insn AND INSN2_ALIAS = 0
     \<and> op_membership insn = INSN_RIGEL32"

lemma plain_rigel_opcode:
  "plain_rigel (opcode nm ar mt mk pi pi2 me) \<longleftrightarrow>
     pi \<noteq> 0xffffffff \<and> pi2 AND 1 = 0 \<and> me = IR32"
  by (simp add: plain_rigel_def INSN_MACRO_def INSN2_ALIAS_def IR32_def)

lemma rigel_plain_all: "list_all plain_rigel mips_builtin_opcodes"
  unfolding mips_builtin_opcodes_def list.pred_inject plain_rigel_opcode
  by (simp add: RD_t_def RD_s_def WR_d_def WR_A_def INSN_READ_GPR_T_def INSN_READ_GPR_S_def
      INSN_WRITE_GPR_D_def INSN_WRITE_GPR_DAcc_def)

lemma rigel_plain: "insn \<in> set mips_builtin_opcodes \<Longrightarrow> plain_rigel insn"
  using rigel_plain_all by (simp add: list_all_iff)

lemma rigel_op_covered:
  "insn \<in> set mips_builtin_opcodes \<Longrightarrow> op_msk insn AND push_bit 28 0xf = push_bit 28 0xf"
  using rigel_keys_covered key_covered_op by (auto simp: list_all_iff)

end
