(* ===== verification/Opcode_Check.thy ===== *)
theory Opcode_Check
  imports Gas_Insn Rigel_Isa
begin

text \<open>
  The consistency check of the opcode table that the assembler runs when it starts,
  \<open>validate_mips_insn\<close> (\<open>gas/config/tc-mips.c\<close>): every bit of an instruction must be given by the
  entry's match and mask or by one of its operands. The switch over the operand letters is a
  table from letters to the fields they fill.

  The lemmas show what the check is for. When an entry passes it and its fields do not overlap,
  filling in operands and reading them back are inverse to each other, and every 32 bit word that
  the entry matches is the encoding of exactly one choice of operand values. All entries of the
  Rigel table pass, so the Rigel encoding is a bijection between instructions and the words that
  decode.
\<close>

section \<open>The switch\<close>

definition ext_operand_bits :: "(char \<times> op_field list) list" where [rigel_tab]:
  "ext_operand_bits = [
    (CHR ''1'', [F_UDI1]),
    (CHR ''2'', [F_UDI2]),
    (CHR ''3'', [F_UDI3]),
    (CHR ''4'', [F_UDI4]),
    (CHR ''B'', [F_INSMSB]),
    (CHR ''C'', [F_EXTMSBD]),
    (CHR ''D'', [F_RD, F_SEL]),
    (CHR ''E'', [F_SHAMT]),
    (CHR ''F'', [F_INSMSB]),
    (CHR ''G'', [F_EXTMSBD]),
    (CHR ''H'', [F_EXTMSBD]),
    (CHR ''I'', []),
    (CHR ''t'', [F_RT]),
    (CHR ''S'', [F_RSspr]),
    (CHR ''T'', [F_RT, F_SEL])]"

definition operand_bits :: "(char \<times> op_field list) list" where [rigel_tab]:
  "operand_bits = [
    (CHR '','', []),
    (CHR ''('', []),
    (CHR '')'', []),
    (CHR ''<'', [F_SHAMT]),
    (CHR ''>'', [F_SHAMT]),
    (CHR ''B'', [F_CODE20]),
    (CHR ''C'', [F_COPZ]),
    (CHR ''D'', [F_WDimm]),
    (CHR ''E'', [F_RT]),
    (CHR ''F'', []),
    (CHR ''G'', [F_RD]),
    (CHR ''H'', [F_SEL]),
    (CHR ''I'', []),
    (CHR ''J'', [F_CODE19]),
    (CHR ''K'', [F_RD]),
    (CHR ''L'', []),
    (CHR ''M'', [F_CCC]),
    (CHR ''N'', [F_BCC]),
    (CHR ''O'', [F_ALN]),
    (CHR ''R'', [F_FR]),
    (CHR ''S'', [F_RSspr]),
    (CHR ''T'', [F_FT]),
    (CHR ''W'', [F_FT]),
    (CHR ''X'', [F_FD]),
    (CHR ''Y'', [F_FS]),
    (CHR ''Z'', [F_FT]),
    (CHR ''a'', [F_TARGET]),
    (CHR ''b'', [F_RS]),
    (CHR ''c'', [F_CODE]),
    (CHR ''d'', [F_RD]),
    (CHR ''f'', []),
    (CHR ''h'', [F_PREFX]),
    (CHR ''i'', [F_IMMEDIATE]),
    (CHR ''j'', [F_DELTA]),
    (CHR ''k'', [F_CACHE]),
    (CHR ''l'', []),
    (CHR ''o'', [F_DELTA]),
    (CHR ''p'', [F_DELTA]),
    (CHR ''q'', [F_RDspr]),
    (CHR ''Q'', [F_RDspr2, F_RS]),
    (CHR ''r'', [F_RS]),
    (CHR ''s'', [F_RS]),
    (CHR ''A'', [F_RA]),
    (CHR ''V'', [F_RV]),
    (CHR ''t'', [F_RT]),
    (CHR ''u'', [F_IMMEDIATE]),
    (CHR ''v'', [F_RS]),
    (CHR ''w'', [F_RT]),
    (CHR ''x'', []),
    (CHR ''z'', []),
    (CHR ''P'', [F_PERFREG]),
    (CHR ''U'', [F_RD, F_RT]),
    (CHR ''e'', [F_VECBYTE]),
    (CHR ''%'', [F_VECALIGN]),
    (CHR ''['', []),
    (CHR '']'', []),
    (CHR ''2'', [F_BP]),
    (CHR ''3'', [F_SA3]),
    (CHR ''4'', [F_SA4]),
    (CHR ''5'', [F_IMM5]),
    (CHR ''6'', [F_RS]),
    (CHR ''7'', [F_DSPACC]),
    (CHR ''8'', [F_WRDSP]),
    (CHR ''9'', [F_DSPACC_S]),
    (CHR ''0'', [F_DSPSFT]),
    (CHR 0x27, [F_RDDSP]),
    (CHR '':'', [F_DSPSFT_7]),
    (CHR ''@'', [F_IMM10]),
    (CHR ''!'', [F_MT_U]),
    (CHR ''$'', [F_MT_H]),
    (CHR ''*'', [F_MTACC_T]),
    (CHR ''&'', [F_MTACC_D]),
    (CHR ''g'', [F_RD])]"

section \<open>The check\<close>

text \<open>The messages, and what they report.\<close>

datatype validate_error = Mask_Error | Unknown_Ext_Operand char | Unknown_Operand char
  | Bits_Undefined ulong

definition USE_BITS :: "ulong \<Rightarrow> op_field \<Rightarrow> ulong" where
  "USE_BITS used f = used OR push_bit (op_sh f) (op_mask f)"

text \<open>The loop over the argument string. A \<open>+\<close> at its end makes the inner switch see the
  terminating NUL.\<close>

fun use_operands :: "cstring \<Rightarrow> ulong \<Rightarrow> validate_error + ulong" where
  "use_operands [] used = Inr used"
| "use_operands (c # p) used =
     (if c = CHR ''+'' then
        (case p of
           [] \<Rightarrow> Inl (Unknown_Ext_Operand (CHR 0x00))
         | c' # p' \<Rightarrow>
             (case map_of ext_operand_bits c' of
                None \<Rightarrow> Inl (Unknown_Ext_Operand c')
              | Some fs \<Rightarrow> use_operands p' (foldl USE_BITS used fs)))
      else
        (case map_of operand_bits c of
           None \<Rightarrow> Inl (Unknown_Operand c)
         | Some fs \<Rightarrow> use_operands p (foldl USE_BITS used fs)))"

definition validate_mips_insn :: "mips_opcode \<Rightarrow> validate_error + unit" where
  "validate_mips_insn opc =
     (if op_msk opc AND op_match opc \<noteq> op_match opc then Inl Mask_Error
      else case use_operands (op_args opc) (op_msk opc) of
        Inl e \<Rightarrow> Inl e
      | Inr used \<Rightarrow>
          if used \<noteq> 0xffffffff then Inl (Bits_Undefined (NOT used AND 0xffffffff)) else Inr ())"

section \<open>The fields of an argument string\<close>

text \<open>The fields the operands of an entry fill, in the order of the argument string.\<close>

fun args_fields :: "cstring \<Rightarrow> op_field list option" where
  "args_fields [] = Some []"
| "args_fields (c # p) =
     (if c = CHR ''+'' then
        (case p of
           [] \<Rightarrow> None
         | c' # p' \<Rightarrow>
             (case map_of ext_operand_bits c' of
                None \<Rightarrow> None
              | Some fs \<Rightarrow> map_option (\<lambda>gs. fs @ gs) (args_fields p')))
      else
        (case map_of operand_bits c of
           None \<Rightarrow> None
         | Some fs \<Rightarrow> map_option (\<lambda>gs. fs @ gs) (args_fields p)))"

lemma use_operands_fields:
  "use_operands args used = Inr u \<longleftrightarrow>
     (\<exists>fs. args_fields args = Some fs \<and> u = foldl USE_BITS used fs)"
proof (induction args arbitrary: used u rule: args_fields.induct)
  case (2 c p)
  show ?case
  proof (cases "c = CHR ''+''")
    case True
    show ?thesis
    proof (cases p)
      case (Cons c' p')
      show ?thesis
      proof (cases "map_of ext_operand_bits c'")
        case (Some fs)
        then show ?thesis using 2(1) [OF True Cons Some] True Cons by auto
      qed (use True Cons in simp)
    qed (use True in simp)
  next
    case False
    show ?thesis
    proof (cases "map_of operand_bits c")
      case (Some fs)
      then show ?thesis using 2(2) [OF False Some] False by auto
    qed (use False in simp)
  qed
qed auto

lemma validate_iff:
  "validate_mips_insn opc = Inr () \<longleftrightarrow>
     op_msk opc AND op_match opc = op_match opc
     \<and> (\<exists>fs. args_fields (op_args opc) = Some fs \<and> foldl USE_BITS (op_msk opc) fs = 0xffffffff)"
  using use_operands_fields [of "op_args opc" "op_msk opc"]
  by (auto simp: validate_mips_insn_def split: sum.splits)

section \<open>Filling in operands\<close>

definition field_mask :: "op_field \<Rightarrow> ulong" where
  "field_mask f = push_bit (op_sh f) (op_mask f)"

text \<open>What the assembler does with an entry and the values of its operands: \<open>create_insn\<close>, then
  \<open>INSERT_OPERAND\<close> from left to right.\<close>

definition fill_operands :: "mips_cl_insn \<Rightarrow> op_field list \<Rightarrow> ulong list \<Rightarrow> mips_cl_insn" where
  "fill_operands ip fs vs = foldl (\<lambda>ip (f, v). INSERT_OPERAND f ip v) ip (zip fs vs)"

definition encode_insn :: "mips_set_options \<Rightarrow> mips_opcode \<Rightarrow> ulong list \<Rightarrow> ulong" where
  "encode_insn opts mo vs =
     insn_opcode (fill_operands (create_insn opts mo) (the (args_fields (op_args mo))) vs)"

fun insert_fields :: "op_field list \<Rightarrow> ulong list \<Rightarrow> ulong \<Rightarrow> ulong" where
  "insert_fields (f # fs) (v # vs) w = insert_fields fs vs (INSERT_BITS w v (op_mask f) (op_sh f))"
| "insert_fields _ _ w = w"

lemma fill_operands_opcode:
  "insn_opcode (fill_operands ip fs vs) = insert_fields fs vs (insn_opcode ip)"
  by (induction fs vs "insn_opcode ip" arbitrary: ip rule: insert_fields.induct)
     (simp_all add: fill_operands_def INSERT_OPERAND_def)

lemma encode_insn_fields:
  "args_fields (op_args mo) = Some fs \<Longrightarrow> encode_insn opts mo vs = insert_fields fs vs (op_match mo)"
  by (simp add: encode_insn_def fill_operands_opcode create_insn_def)

text \<open>Fields that overlap neither each other nor a mask.\<close>

fun disjoint_fields :: "ulong \<Rightarrow> op_field list \<Rightarrow> bool" where
  "disjoint_fields m [] \<longleftrightarrow> True"
| "disjoint_fields m (f # fs) \<longleftrightarrow> m AND field_mask f = 0 \<and> field_fits (op_mask f) (op_sh f)
     \<and> disjoint_fields (USE_BITS m f) fs"

lemma USE_BITS_mask: "USE_BITS m f = m OR field_mask f"
  by (simp add: USE_BITS_def field_mask_def)

lemma and_or_zero: "(a OR b) AND c = 0 \<longleftrightarrow> a AND c = 0 \<and> b AND (c :: ulong) = 0"
  by (auto simp: bit_eq_iff bit_simps)

lemma disjoint_fields_subset: "disjoint_fields m fs \<Longrightarrow> k AND m = k \<Longrightarrow> disjoint_fields k fs"
proof (induction fs arbitrary: m k)
  case (Cons f fs)
  have "k AND field_mask f = k AND (m AND field_mask f)"
    using Cons.prems(2) by (simp add: and.assoc [symmetric])
  then have "k AND field_mask f = 0" using Cons.prems(1) by simp
  moreover have "USE_BITS k f AND USE_BITS m f = USE_BITS k f"
    using Cons.prems(2) by (auto simp: USE_BITS_mask bit_eq_iff bit_simps)
  then have "disjoint_fields (USE_BITS k f) fs" using Cons by auto
  ultimately show ?case using Cons.prems(1) by simp
qed simp

lemma insert_fields_outside:
  "disjoint_fields m fs \<Longrightarrow> insert_fields fs vs w AND m = w AND m"
proof (induction fs vs w arbitrary: m rule: insert_fields.induct)
  case (1 f fs v vs w)
  have sub: "disjoint_fields m fs"
    using 1(2) disjoint_fields_subset [of "USE_BITS m f" fs m]
    by (simp add: USE_BITS_mask bit.conj_disj_distrib bit_eq_iff bit_simps)
  have "insert_fields fs vs (INSERT_BITS w v (op_mask f) (op_sh f)) AND m
      = INSERT_BITS w v (op_mask f) (op_sh f) AND m"
    using 1(1) [OF sub] .
  also have "\<dots> = w AND m" using 1(2) by (intro insert_outside) (simp add: field_mask_def)
  finally show ?case by simp
qed simp_all

lemma op_get_masked:
  "w AND field_mask f = w' AND field_mask f \<Longrightarrow> op_get f w = op_get f w'"
proof -
  have *: "op_get f x = drop_bit (op_sh f) (x AND field_mask f) AND op_mask f" for x
    by (auto simp: op_get_def field_mask_def bit_eq_iff bit_simps dest: bit_imp_le_length)
  show "w AND field_mask f = w' AND field_mask f \<Longrightarrow> op_get f w = op_get f w'" by (simp only: *)
qed

lemma insert_fields_read:
  "disjoint_fields m fs \<Longrightarrow> length vs = length fs \<Longrightarrow>
     map (\<lambda>f. op_get f (insert_fields fs vs w)) fs = map2 (\<lambda>f v. v AND op_mask f) fs vs"
proof (induction fs vs w arbitrary: m rule: insert_fields.induct)
  case (1 f fs v vs w)
  have fits: "field_fits (op_mask f) (op_sh f)" and dis: "disjoint_fields (USE_BITS m f) fs"
    using 1(2) by simp_all
  have "disjoint_fields (field_mask f) fs"
    using dis by (rule disjoint_fields_subset) (auto simp: USE_BITS_mask bit_eq_iff bit_simps)
  then have "insert_fields fs vs (INSERT_BITS w v (op_mask f) (op_sh f)) AND field_mask f
      = INSERT_BITS w v (op_mask f) (op_sh f) AND field_mask f"
    by (rule insert_fields_outside)
  then have "op_get f (insert_fields fs vs (INSERT_BITS w v (op_mask f) (op_sh f)))
      = op_get f (INSERT_BITS w v (op_mask f) (op_sh f))"
    by (rule op_get_masked)
  also have "\<dots> = v AND op_mask f" using fits by (simp add: op_get_EXTRACT extract_insert_same)
  finally show ?case using 1(1) [OF dis] 1(3) by simp
qed simp_all

text \<open>Filling in the operands that a word already holds gives the word.\<close>

lemma insert_own_field:
  assumes "st AND m = w AND m"
  shows "INSERT_BITS st (op_get f w) (op_mask f) (op_sh f) AND USE_BITS m f = w AND USE_BITS m f"
proof (rule bit_eqI)
  fix n
  have "bit m n \<Longrightarrow> bit st n = bit w n"
    using arg_cong [OF assms, of "\<lambda>x. bit x n"] by (simp add: bit_and_iff)
  then show "bit (INSERT_BITS st (op_get f w) (op_mask f) (op_sh f) AND USE_BITS m f) n
      = bit (w AND USE_BITS m f) n"
    by (auto simp: bit_INSERT_BITS op_get_def USE_BITS_def bit_simps dest: bit_imp_le_length)
qed

lemma insert_own_fields:
  "st AND m = w AND m \<Longrightarrow>
     insert_fields fs (map (\<lambda>f. op_get f w) fs) st AND foldl USE_BITS m fs = w AND foldl USE_BITS m fs"
  by (induction fs arbitrary: st m) (simp_all add: insert_own_field)

lemma USE_BITS_grows: "bit m n \<Longrightarrow> bit (foldl USE_BITS m fs) n"
  by (induction fs arbitrary: m) (simp_all add: USE_BITS_mask bit_or_iff)

lemma foldl_USE_BITS_covers: "f \<in> set fs \<Longrightarrow> bit (field_mask f) n \<Longrightarrow> bit (foldl USE_BITS m fs) n"
proof (induction fs arbitrary: m)
  case (Cons g fs)
  show ?case
  proof (cases "f = g")
    case True
    then have "bit (USE_BITS m g) n" using Cons.prems(2) by (simp add: USE_BITS_mask bit_or_iff)
    then show ?thesis using USE_BITS_grows [of "USE_BITS m g" n fs] by simp
  qed (use Cons in simp)
qed simp

lemma insert_fields_high:
  "\<forall>f\<in>set fs. k AND field_mask f = 0 \<Longrightarrow> insert_fields fs vs w AND k = w AND k"
  by (induction fs vs w rule: insert_fields.induct)
     (simp_all add: insert_outside field_mask_def)

lemma fields_within:
  assumes "foldl USE_BITS m fs = k" and "f \<in> set fs"
  shows "NOT k AND field_mask f = 0"
  using foldl_USE_BITS_covers [OF assms(2), of _ m] assms(1)
  by (auto simp: bit_eq_iff bit_and_iff bit_not_iff)

lemma match_within:
  assumes "foldl USE_BITS m fs = k" and "m AND st = st"
  shows "st AND NOT k = 0"
proof (rule bit_eqI)
  fix n
  have "bit st n \<Longrightarrow> bit m n"
    using arg_cong [OF assms(2), of "\<lambda>x. bit x n"] by (simp add: bit_and_iff)
  then have "bit st n \<Longrightarrow> bit k n"
    using USE_BITS_grows [of m n fs] assms(1) by simp
  then show "bit (st AND NOT k) n = bit 0 n" by (auto simp: bit_and_iff bit_not_iff)
qed

lemma and_split: "(w :: ulong) = (w AND k) OR (w AND NOT k)"
  by (auto simp: bit_eq_iff bit_simps)

lemma high_half:
  fixes w :: ulong
  shows "drop_bit 32 w = 0 \<longleftrightarrow> w AND NOT 0xffffffff = 0"
proof -
  have "w AND NOT (mask k) = push_bit k (drop_bit k w)" for k
    by (rule bit_eqI)
       (auto simp: bit_and_iff bit_not_iff bit_mask_iff bit_push_bit_iff bit_drop_bit_eq
         dest: bit_imp_le_length)
  from this [of 32] have *: "w AND NOT 0xffffffff = push_bit 32 (drop_bit 32 w)"
    by (simp add: mask_eq_exp_minus_1)
  show ?thesis
  proof
    assume "drop_bit 32 w = 0"
    then show "w AND NOT 0xffffffff = 0" by (simp only: * push_bit_of_0)
  next
    assume "w AND NOT 0xffffffff = 0"
    then have "w = w AND 0xffffffff" using and_split [of w "0xffffffff"] by simp
    then have "drop_bit 32 w = drop_bit 32 (w AND 0xffffffff)" by (rule arg_cong)
    then show "drop_bit 32 w = 0" by (simp add: drop_bit_and)
  qed
qed

lemma low_half_word:
  fixes w :: ulong
  assumes "drop_bit 32 w = 0"
  shows "take_bit 32 w = w"
proof -
  have "take_bit 32 w = w AND 0xffffffff" by (simp add: take_bit_eq_mask mask_eq_exp_minus_1)
  then show ?thesis using assms and_split [of w "0xffffffff"] by (simp add: high_half)
qed

text \<open>C16: what the start-up check of the assembler guarantees. If \<open>validate_mips_insn\<close> accepts an
  entry, then every 32 bit word that the entry matches is obtained by assembling the entry with
  the operand values read out of the word: nothing is lost between the two directions.\<close>

theorem validated_reassembles:
  assumes "validate_mips_insn mo = Inr ()" and "opcode_matches mo w" and "drop_bit 32 w = 0"
  shows "\<exists>fs. args_fields (op_args mo) = Some fs
    \<and> encode_insn opts mo (map (\<lambda>f. op_get f w) fs) = w"
proof -
  obtain fs where fs: "args_fields (op_args mo) = Some fs"
      "foldl USE_BITS (op_msk mo) fs = 0xffffffff" "op_msk mo AND op_match mo = op_match mo"
    using assms(1) by (auto simp: validate_iff)
  let ?k = "0xffffffff :: ulong"
  let ?w = "insert_fields fs (map (\<lambda>f. op_get f w) fs) (op_match mo)"
  have "op_match mo AND op_msk mo = w AND op_msk mo"
    using assms(2) fs(3) by (simp add: opcode_matches_def and.commute)
  then have low: "?w AND ?k = w AND ?k"
    using insert_own_fields [of "op_match mo" "op_msk mo" w fs] fs(2) by simp
  have "?w AND NOT ?k = op_match mo AND NOT ?k"
    using fields_within [OF fs(2)] by (intro insert_fields_high) blast
  also have "\<dots> = w AND NOT ?k"
    using match_within [OF fs(2,3)] assms(3) by (simp only: high_half)
  finally have "?w = w" using low and_split [of ?w ?k] and_split [of w ?k] by (simp only:)
  then show ?thesis using fs(1) by (simp add: encode_insn_fields)
qed

section \<open>The Rigel table passes the check\<close>

text \<open>The operand letters and argument strings of the table.\<close>

lemma operand_letters:
  "map_of operand_bits (CHR '','') = Some []" "map_of operand_bits (CHR ''d'') = Some [F_RD]"
  "map_of operand_bits (CHR ''s'') = Some [F_RS]" "map_of operand_bits (CHR ''t'') = Some [F_RT]"
  "map_of operand_bits (CHR ''A'') = Some [F_RA]" "map_of operand_bits (CHR ''5'') = Some [F_IMM5]"
  "map_of operand_bits (CHR ''i'') = Some [F_IMMEDIATE]"
  "map_of operand_bits (CHR ''j'') = Some [F_DELTA]"
  "map_of operand_bits (CHR ''p'') = Some [F_DELTA]"
  "map_of operand_bits (CHR ''a'') = Some [F_TARGET]"
  by (simp_all add: operand_bits_def)

lemma rigel_args_fields:
  "args_fields '''' = Some []" "args_fields ''a'' = Some [F_TARGET]"
  "args_fields ''d'' = Some [F_RD]" "args_fields ''d,A'' = Some [F_RD, F_RA]"
  "args_fields ''d,i'' = Some [F_RD, F_IMMEDIATE]"
  "args_fields ''d,s,t'' = Some [F_RD, F_RS, F_RT]"
  "args_fields ''d,s,t,A'' = Some [F_RD, F_RS, F_RT, F_RA]"
  "args_fields ''d,t'' = Some [F_RD, F_RT]" "args_fields ''d,t,5'' = Some [F_RD, F_RT, F_IMM5]"
  "args_fields ''d,t,i'' = Some [F_RD, F_RT, F_IMMEDIATE]"
  "args_fields ''d,t,j'' = Some [F_RD, F_RT, F_DELTA]"
  "args_fields ''d,t,p'' = Some [F_RD, F_RT, F_DELTA]"
  "args_fields ''p'' = Some [F_DELTA]" "args_fields ''t'' = Some [F_RT]"
  "args_fields ''t,p'' = Some [F_RT, F_DELTA]"
  by (simp_all add: operand_letters)

text \<open>A well-formed entry: accepted by the check, with fields that do not overlap.\<close>

definition well_formed_entry :: "mips_opcode \<Rightarrow> bool" where
  "well_formed_entry mo \<longleftrightarrow> op_msk mo AND op_match mo = op_match mo
     \<and> (case args_fields (op_args mo) of
          None \<Rightarrow> False
        | Some fs \<Rightarrow> disjoint_fields (op_msk mo) fs \<and> foldl USE_BITS (op_msk mo) fs = 0xffffffff)"

lemma well_formed_opcode:
  "well_formed_entry (opcode nm ar mt mk pi pi2 me) \<longleftrightarrow> mk AND mt = mt
     \<and> (case args_fields ar of
          None \<Rightarrow> False
        | Some fs \<Rightarrow> disjoint_fields mk fs \<and> foldl USE_BITS mk fs = 0xffffffff)"
  by (simp only: well_formed_entry_def opcode_sel)

lemma rigel_well_formed_all: "list_all well_formed_entry mips_builtin_opcodes"
  unfolding mips_builtin_opcodes_def list.pred_inject well_formed_opcode
  by (simp add: rigel_args_fields USE_BITS_def field_mask_def field_fits_def F_RD_def F_RS_def
      F_RT_def F_RA_def F_IMM5_def F_IMMEDIATE_def F_DELTA_def F_TARGET_def del: args_fields.simps(2))

lemma rigel_well_formed: "mo \<in> set mips_builtin_opcodes \<Longrightarrow> well_formed_entry mo"
  using rigel_well_formed_all by (simp add: list_all_iff)

lemma well_formed_validates: "well_formed_entry mo \<Longrightarrow> validate_mips_insn mo = Inr ()"
  by (auto simp: validate_iff well_formed_entry_def split: option.splits)

text \<open>The assembler accepts its own Rigel table: \<open>validate_mips_insn\<close> finds every bit of all 138
  entries accounted for, so \<open>md_begin\<close> never stops with a broken assembler.\<close>

theorem rigel_table_validates:
  "list_all (\<lambda>mo. validate_mips_insn mo = Inr ()) mips_builtin_opcodes"
  using rigel_well_formed well_formed_validates by (auto simp: list_all_iff)

theorem validated_reassembles_witness:
  "\<exists>fs. args_fields (op_args (mips_builtin_opcodes ! 4)) = Some fs
     \<and> encode_insn initial_mips_opts (mips_builtin_opcodes ! 4)
         (map (\<lambda>f. op_get f 0x10882345) fs) = 0x10882345"
proof (rule validated_reassembles)
  show "validate_mips_insn (mips_builtin_opcodes ! 4) = Inr ()"
    by (rule well_formed_validates [OF rigel_well_formed]) simp
  show "opcode_matches (mips_builtin_opcodes ! 4) 0x10882345"
    unfolding rigel_entry_addi by (simp add: opcode_matches_def)
qed simp

section \<open>Assembling and decoding operands\<close>

lemma encode_matches:
  assumes "well_formed_entry mo" and "args_fields (op_args mo) = Some fs"
  shows "opcode_matches mo (encode_insn opts mo vs)" "drop_bit 32 (encode_insn opts mo vs) = 0"
proof -
  have wf: "disjoint_fields (op_msk mo) fs" "foldl USE_BITS (op_msk mo) fs = 0xffffffff"
      "op_msk mo AND op_match mo = op_match mo"
    using assms by (auto simp: well_formed_entry_def)
  show "opcode_matches mo (encode_insn opts mo vs)"
    using insert_fields_outside [OF wf(1), of vs "op_match mo"] wf(3)
    by (simp add: opcode_matches_def encode_insn_fields [OF assms(2)] and.commute)
  have "insert_fields fs vs (op_match mo) AND NOT 0xffffffff = op_match mo AND NOT 0xffffffff"
    using fields_within [OF wf(2)] by (intro insert_fields_high) blast
  also have "\<dots> = 0" using match_within [OF wf(2,3)] .
  finally show "drop_bit 32 (encode_insn opts mo vs) = 0"
    by (simp only: high_half encode_insn_fields [OF assms(2)])
qed

lemma encode_reads:
  assumes "well_formed_entry mo" and "args_fields (op_args mo) = Some fs" and "length vs = length fs"
  shows "map (\<lambda>f. op_get f (encode_insn opts mo vs)) fs = map2 (\<lambda>f v. v AND op_mask f) fs vs"
  using assms insert_fields_read [of "op_msk mo" fs vs "op_match mo"]
  by (simp add: encode_insn_fields well_formed_entry_def)

text \<open>C15: assembling is the inverse of decoding on the Rigel table. For each entry and any operand
  values, the word assembled fits 32 bits, is matched by that entry and by no other, and each of its
  fields reads back the value filled in, cut to the width of the field.\<close>

theorem rigel_encode_decodes:
  assumes "mo \<in> set mips_builtin_opcodes" and "args_fields (op_args mo) = Some fs"
    and "length vs = length fs"
  shows "drop_bit 32 (encode_insn opts mo vs) = 0
    \<and> (\<forall>mo'\<in>set mips_builtin_opcodes. opcode_matches mo' (encode_insn opts mo vs) \<longleftrightarrow> mo' = mo)
    \<and> map (\<lambda>f. op_get f (encode_insn opts mo vs)) fs = map2 (\<lambda>f v. v AND op_mask f) fs vs"
  using encode_matches [OF rigel_well_formed [OF assms(1)] assms(2)]
    encode_reads [OF rigel_well_formed [OF assms(1)] assms(2,3)]
    rigel_entries_apart [OF _ assms(1)] by auto

theorem rigel_encode_decodes_witness:
  "map (\<lambda>f. op_get f (encode_insn initial_mips_opts (mips_builtin_opcodes ! 4) [1, 2, 0x12345]))
     [F_RD, F_RT, F_DELTA] = [1, 2, 0x2345]"
proof -
  have a: "args_fields (op_args (mips_builtin_opcodes ! 4)) = Some [F_RD, F_RT, F_DELTA]"
    unfolding rigel_entry_addi by (simp only: opcode_sel rigel_args_fields)
  show ?thesis
    using rigel_encode_decodes [OF rigel_nth_mem a, of "[1, 2, 0x12345]" initial_mips_opts]
    by (simp add: F_RD_def F_RT_def F_DELTA_def)
qed

end
