(* ===== verification/Bfd_Reloc.thy ===== *)
theory Bfd_Reloc
  imports Rigel_Prelude
begin

text \<open>
  The relocation codes (\<open>bfd_reloc_code_real_type\<close> of \<open>bfd/bfd-in2.h\<close>) that
  \<open>gas/config/tc-mips.c\<close> names. The assembler also makes codes of its own by adding the letter
  of a mips16 immediate operand to the last code of the enumeration,
  \<open>(int) BFD_RELOC_UNUSED + c\<close>: the constructor \<open>BFD_RELOC_UNUSED_PLUS\<close>. The codes that
  compare greater than \<open>BFD_RELOC_UNUSED\<close> are exactly those.
\<close>

datatype (plugins only:) bfd_reloc =
    BFD_RELOC_UNUSED
  | BFD_RELOC_UNUSED_PLUS char
  | BFD_RELOC_16 | BFD_RELOC_16_PCREL_S2 | BFD_RELOC_32 | BFD_RELOC_64 | BFD_RELOC_CTOR
  | BFD_RELOC_GPREL16 | BFD_RELOC_GPREL32 | BFD_RELOC_HI16 | BFD_RELOC_HI16_S | BFD_RELOC_LO16
  | BFD_RELOC_MIPS16_GPREL | BFD_RELOC_MIPS16_HI16 | BFD_RELOC_MIPS16_HI16_S
  | BFD_RELOC_MIPS16_JMP | BFD_RELOC_MIPS16_LO16 | BFD_RELOC_MIPS_CALL16
  | BFD_RELOC_MIPS_CALL_HI16 | BFD_RELOC_MIPS_CALL_LO16 | BFD_RELOC_MIPS_DELETE
  | BFD_RELOC_MIPS_GOT16 | BFD_RELOC_MIPS_GOT_DISP | BFD_RELOC_MIPS_GOT_HI16
  | BFD_RELOC_MIPS_GOT_LO16 | BFD_RELOC_MIPS_GOT_OFST | BFD_RELOC_MIPS_GOT_PAGE
  | BFD_RELOC_MIPS_HIGHER | BFD_RELOC_MIPS_HIGHEST | BFD_RELOC_MIPS_INSERT_A
  | BFD_RELOC_MIPS_INSERT_B | BFD_RELOC_MIPS_JALR | BFD_RELOC_MIPS_JMP | BFD_RELOC_MIPS_LITERAL
  | BFD_RELOC_MIPS_REL16 | BFD_RELOC_MIPS_RELGOT | BFD_RELOC_MIPS_SCN_DISP
  | BFD_RELOC_MIPS_SHIFT5 | BFD_RELOC_MIPS_SHIFT6 | BFD_RELOC_MIPS_SUB
  | BFD_RELOC_MIPS_TLS_DTPREL32 | BFD_RELOC_MIPS_TLS_DTPREL64 | BFD_RELOC_MIPS_TLS_DTPREL_HI16
  | BFD_RELOC_MIPS_TLS_DTPREL_LO16 | BFD_RELOC_MIPS_TLS_GD | BFD_RELOC_MIPS_TLS_GOTTPREL
  | BFD_RELOC_MIPS_TLS_LDM | BFD_RELOC_MIPS_TLS_TPREL_HI16 | BFD_RELOC_MIPS_TLS_TPREL_LO16
  | BFD_RELOC_RVA | BFD_RELOC_VTABLE_ENTRY | BFD_RELOC_VTABLE_INHERIT

text \<open>The position of a relocation relative to \<open>BFD_RELOC_UNUSED\<close>, the last code.\<close>

definition reloc_above_unused :: "bfd_reloc \<Rightarrow> bool" where
  "reloc_above_unused r \<longleftrightarrow> (case r of BFD_RELOC_UNUSED_PLUS c \<Rightarrow> True | _ \<Rightarrow> False)"

definition reloc_below_unused :: "bfd_reloc \<Rightarrow> bool" where
  "reloc_below_unused r \<longleftrightarrow>
     (case r of BFD_RELOC_UNUSED_PLUS c \<Rightarrow> False | BFD_RELOC_UNUSED \<Rightarrow> False | _ \<Rightarrow> True)"

lemma reloc_trichotomy:
  "r = BFD_RELOC_UNUSED \<or> reloc_above_unused r \<or> reloc_below_unused r"
  by (cases r) (simp_all add: reloc_above_unused_def reloc_below_unused_def)

end
