(* ===== verification/Gas_Relax.thy ===== *)
theory Gas_Relax
  imports Gas_Insn Bfd_Reloc
begin

text \<open>
  Relaxable frags of the assembler (\<open>gas/config/tc-mips.c\<close>). The word \<open>fr_subtype\<close> of such a frag
  is packed three ways: two macro expansions (\<open>RELAX_ENCODE\<close>), a branch (\<open>RELAX_BRANCH_ENCODE\<close>) or
  a mips16 immediate (\<open>RELAX_MIPS16_ENCODE\<close>). The first group of lemmas shows that the three can
  always be told apart and that each reader gives back what was packed.

  The second part is branch relaxation: \<open>relaxed_branch_length\<close> decides the size of a branch,
  \<open>mips_relax_frag\<close> iterates it, and the branch case of \<open>md_convert_frag\<close> writes the
  instructions. They must agree on the length, which \<open>md_convert_frag\<close> asserts.
\<close>

section \<open>Subtype words\<close>

definition RELAX_ENCODE :: "uint \<Rightarrow> uint \<Rightarrow> uint" where
  "RELAX_ENCODE first second = push_bit 8 first OR second"

definition RELAX_FIRST :: "uint \<Rightarrow> uint" where
  "RELAX_FIRST x = drop_bit 8 x AND 0xff"

definition RELAX_SECOND :: "uint \<Rightarrow> uint" where
  "RELAX_SECOND x = x AND 0xff"

definition RELAX_USE_SECOND :: uint where [rigel_const]: "RELAX_USE_SECOND = 0x10000"
definition RELAX_SECOND_LONGER :: uint where [rigel_const]: "RELAX_SECOND_LONGER = 0x20000"
definition RELAX_NOMACRO :: uint where [rigel_const]: "RELAX_NOMACRO = 0x40000"
definition RELAX_DELAY_SLOT :: uint where [rigel_const]: "RELAX_DELAY_SLOT = 0x80000"

definition RELAX_BRANCH_ENCODE :: "bool \<Rightarrow> bool \<Rightarrow> bool \<Rightarrow> bool \<Rightarrow> uint" where
  "RELAX_BRANCH_ENCODE uncond likely link toofar =
     0xc0000000 OR (if toofar then 1 else 0) OR (if link then 2 else 0)
     OR (if likely then 4 else 0) OR (if uncond then 8 else 0)"

definition RELAX_BRANCH_P :: "uint \<Rightarrow> bool" where
  "RELAX_BRANCH_P i \<longleftrightarrow> i AND 0xf0000000 = 0xc0000000"

definition RELAX_BRANCH_UNCOND :: "uint \<Rightarrow> bool" where "RELAX_BRANCH_UNCOND i \<longleftrightarrow> i AND 8 \<noteq> 0"
definition RELAX_BRANCH_LIKELY :: "uint \<Rightarrow> bool" where "RELAX_BRANCH_LIKELY i \<longleftrightarrow> i AND 4 \<noteq> 0"
definition RELAX_BRANCH_LINK :: "uint \<Rightarrow> bool" where "RELAX_BRANCH_LINK i \<longleftrightarrow> i AND 2 \<noteq> 0"
definition RELAX_BRANCH_TOOFAR :: "uint \<Rightarrow> bool" where "RELAX_BRANCH_TOOFAR i \<longleftrightarrow> i AND 1 \<noteq> 0"

definition RELAX_MIPS16_ENCODE :: "uint \<Rightarrow> bool \<Rightarrow> bool \<Rightarrow> bool \<Rightarrow> bool \<Rightarrow> uint" where
  "RELAX_MIPS16_ENCODE type small ext dslot jal_dslot =
     0x80000000 OR (type AND 0xff) OR (if small then 0x100 else 0) OR (if ext then 0x200 else 0)
     OR (if dslot then 0x400 else 0) OR (if jal_dslot then 0x800 else 0)"

definition RELAX_MIPS16_P :: "uint \<Rightarrow> bool" where
  "RELAX_MIPS16_P i \<longleftrightarrow> i AND 0xc0000000 = 0x80000000"

definition RELAX_MIPS16_TYPE :: "uint \<Rightarrow> uint" where "RELAX_MIPS16_TYPE i = i AND 0xff"
definition RELAX_MIPS16_USER_SMALL :: "uint \<Rightarrow> bool" where
  "RELAX_MIPS16_USER_SMALL i \<longleftrightarrow> i AND 0x100 \<noteq> 0"
definition RELAX_MIPS16_USER_EXT :: "uint \<Rightarrow> bool" where
  "RELAX_MIPS16_USER_EXT i \<longleftrightarrow> i AND 0x200 \<noteq> 0"
definition RELAX_MIPS16_DSLOT :: "uint \<Rightarrow> bool" where
  "RELAX_MIPS16_DSLOT i \<longleftrightarrow> i AND 0x400 \<noteq> 0"
definition RELAX_MIPS16_JAL_DSLOT :: "uint \<Rightarrow> bool" where
  "RELAX_MIPS16_JAL_DSLOT i \<longleftrightarrow> i AND 0x800 \<noteq> 0"
definition RELAX_MIPS16_EXTENDED :: "uint \<Rightarrow> bool" where
  "RELAX_MIPS16_EXTENDED i \<longleftrightarrow> i AND 0x1000 \<noteq> 0"
definition RELAX_MIPS16_MARK_EXTENDED :: "uint \<Rightarrow> uint" where
  "RELAX_MIPS16_MARK_EXTENDED i = i OR 0x1000"
definition RELAX_MIPS16_CLEAR_EXTENDED :: "uint \<Rightarrow> uint" where
  "RELAX_MIPS16_CLEAR_EXTENDED i = i AND NOT 0x1000"
definition RELAX_MIPS16_LONG_BRANCH :: "uint \<Rightarrow> bool" where
  "RELAX_MIPS16_LONG_BRANCH i \<longleftrightarrow> i AND 0x2000 \<noteq> 0"
definition RELAX_MIPS16_MARK_LONG_BRANCH :: "uint \<Rightarrow> uint" where
  "RELAX_MIPS16_MARK_LONG_BRANCH i = i OR 0x2000"
definition RELAX_MIPS16_CLEAR_LONG_BRANCH :: "uint \<Rightarrow> uint" where
  "RELAX_MIPS16_CLEAR_LONG_BRANCH i = i AND NOT 0x2000"

text \<open>A one bit mask selects that bit.\<close>

lemma and_1_bit: "(w :: uint) AND 1 \<noteq> 0 \<longleftrightarrow> bit w 0"
  and and_2_bit: "(w :: uint) AND 2 \<noteq> 0 \<longleftrightarrow> bit w 1"
  and and_4_bit: "(w :: uint) AND 4 \<noteq> 0 \<longleftrightarrow> bit w 2"
  and and_8_bit: "(w :: uint) AND 8 \<noteq> 0 \<longleftrightarrow> bit w 3"
  and and_256_bit: "(w :: uint) AND 0x100 \<noteq> 0 \<longleftrightarrow> bit w 8"
  and and_512_bit: "(w :: uint) AND 0x200 \<noteq> 0 \<longleftrightarrow> bit w 9"
  and and_1024_bit: "(w :: uint) AND 0x400 \<noteq> 0 \<longleftrightarrow> bit w 10"
  and and_2048_bit: "(w :: uint) AND 0x800 \<noteq> 0 \<longleftrightarrow> bit w 11"
  and and_4096_bit: "(w :: uint) AND 0x1000 \<noteq> 0 \<longleftrightarrow> bit w 12"
  and and_8192_bit: "(w :: uint) AND 0x2000 \<noteq> 0 \<longleftrightarrow> bit w 13"
  by (simp_all add: bit_iff_and_push_bit_not_eq_0)

lemmas relax_bits = and_1_bit and_2_bit and_4_bit and_8_bit and_256_bit and_512_bit
  and_1024_bit and_2048_bit and_4096_bit and_8192_bit

section \<open>The three encodings can be told apart and read back\<close>

lemma branch_encode_read:
  "RELAX_BRANCH_UNCOND (RELAX_BRANCH_ENCODE u l k t) = u"
  "RELAX_BRANCH_LIKELY (RELAX_BRANCH_ENCODE u l k t) = l"
  "RELAX_BRANCH_LINK (RELAX_BRANCH_ENCODE u l k t) = k"
  "RELAX_BRANCH_TOOFAR (RELAX_BRANCH_ENCODE u l k t) = t"
  "RELAX_BRANCH_P (RELAX_BRANCH_ENCODE u l k t)"
  "\<not> RELAX_MIPS16_P (RELAX_BRANCH_ENCODE u l k t)"
  by (cases u; cases l; cases k; cases t;
      simp add: RELAX_BRANCH_UNCOND_def RELAX_BRANCH_LIKELY_def RELAX_BRANCH_LINK_def
        RELAX_BRANCH_TOOFAR_def RELAX_BRANCH_P_def RELAX_MIPS16_P_def RELAX_BRANCH_ENCODE_def)+

lemma mips16_encode_alt:
  "RELAX_MIPS16_ENCODE ty sm ext ds jal =
     (0x80000000 OR (if sm then 0x100 else 0) OR (if ext then 0x200 else 0)
     OR (if ds then 0x400 else 0) OR (if jal then 0x800 else 0)) OR (ty AND 0xff)"
  by (simp add: RELAX_MIPS16_ENCODE_def ac_simps)

lemma and_or_low:
  fixes k w ty :: uint
  assumes "k AND 0xff = 0"
  shows "(w OR (ty AND 0xff)) AND k = w AND k"
proof (rule bit_eqI)
  fix n
  have "\<not> (bit k n \<and> bit (0xff :: uint) n)"
    using arg_cong [OF assms, of "\<lambda>v. bit v n"] by (simp add: bit_and_iff)
  then show "bit ((w OR (ty AND 0xff)) AND k) n \<longleftrightarrow> bit (w AND k) n"
    by (auto simp: bit_and_iff bit_or_iff)
qed

lemma mips16_encode_read:
  "RELAX_MIPS16_TYPE (RELAX_MIPS16_ENCODE ty sm ext ds jal) = ty AND 0xff"
  "RELAX_MIPS16_USER_SMALL (RELAX_MIPS16_ENCODE ty sm ext ds jal) = sm"
  "RELAX_MIPS16_USER_EXT (RELAX_MIPS16_ENCODE ty sm ext ds jal) = ext"
  "RELAX_MIPS16_DSLOT (RELAX_MIPS16_ENCODE ty sm ext ds jal) = ds"
  "RELAX_MIPS16_JAL_DSLOT (RELAX_MIPS16_ENCODE ty sm ext ds jal) = jal"
  "\<not> RELAX_MIPS16_EXTENDED (RELAX_MIPS16_ENCODE ty sm ext ds jal)"
  "\<not> RELAX_MIPS16_LONG_BRANCH (RELAX_MIPS16_ENCODE ty sm ext ds jal)"
  "RELAX_MIPS16_P (RELAX_MIPS16_ENCODE ty sm ext ds jal)"
  "\<not> RELAX_BRANCH_P (RELAX_MIPS16_ENCODE ty sm ext ds jal)"
          apply (cases sm; cases ext; cases ds; cases jal;
      simp add: RELAX_MIPS16_TYPE_def mips16_encode_alt bit.conj_disj_distrib2 and.assoc)
         apply (unfold RELAX_MIPS16_USER_SMALL_def RELAX_MIPS16_USER_EXT_def RELAX_MIPS16_DSLOT_def
      RELAX_MIPS16_JAL_DSLOT_def RELAX_MIPS16_EXTENDED_def RELAX_MIPS16_LONG_BRANCH_def
      RELAX_MIPS16_P_def RELAX_BRANCH_P_def mips16_encode_alt)
  by (subst and_or_low, simp, cases sm; cases ext; cases ds; cases jal; simp)+

lemma less_256_bit: "w < 0x100 \<Longrightarrow> bit (w :: uint) n \<Longrightarrow> n < 8"
  using less_mask_eq [of w 8] bit_and_iff [of w "mask 8" n] by (simp add: bit_mask_iff)

lemma macro_encode_read:
  assumes "first < 0x100" "second < 0x100"
  shows "RELAX_FIRST (RELAX_ENCODE first second) = first"
    "RELAX_SECOND (RELAX_ENCODE first second) = second"
    "\<not> RELAX_BRANCH_P (RELAX_ENCODE first second)" "\<not> RELAX_MIPS16_P (RELAX_ENCODE first second)"
proof -
  have b: "bit first n \<Longrightarrow> n < 8" "bit second n \<Longrightarrow> n < 8" for n
    using assms less_256_bit by auto
  have ff: "(0xff :: uint) = mask 8" by (simp add: mask_eq_exp_minus_1)
  show "RELAX_FIRST (RELAX_ENCODE first second) = first"
    unfolding RELAX_FIRST_def RELAX_ENCODE_def ff
    by (rule bit_eqI) (auto simp: bit_simps dest: b)
  show "RELAX_SECOND (RELAX_ENCODE first second) = second"
    unfolding RELAX_SECOND_def RELAX_ENCODE_def ff
    by (rule bit_eqI) (auto simp: bit_simps dest: b)
  have hi: "\<not> bit (RELAX_ENCODE first second AND k) 31" for k
    by (auto simp: RELAX_ENCODE_def bit_simps dest: b)
  show "\<not> RELAX_BRANCH_P (RELAX_ENCODE first second)"
    using hi [of "0xf0000000"] by (auto simp: RELAX_BRANCH_P_def)
  show "\<not> RELAX_MIPS16_P (RELAX_ENCODE first second)"
    using hi [of "0xc0000000"] by (auto simp: RELAX_MIPS16_P_def)
qed

text \<open>C20: a relaxable frag can carry three kinds of subtype word in the same field. Reading the kind
  and every field back from a packed word gives what was packed: the two lengths of a macro (when
  they are the byte sized lengths of the format), the four flags of a branch, the letter and the
  four flags of a mips16 immediate; and no word of one kind is taken for another.\<close>

theorem relax_subtypes_read_back:
  "(first < 0x100 \<and> second < 0x100 \<longrightarrow>
      RELAX_FIRST (RELAX_ENCODE first second) = first
    \<and> RELAX_SECOND (RELAX_ENCODE first second) = second
    \<and> \<not> RELAX_BRANCH_P (RELAX_ENCODE first second) \<and> \<not> RELAX_MIPS16_P (RELAX_ENCODE first second))
   \<and> RELAX_BRANCH_UNCOND (RELAX_BRANCH_ENCODE u l k t) = u
   \<and> RELAX_BRANCH_LIKELY (RELAX_BRANCH_ENCODE u l k t) = l
   \<and> RELAX_BRANCH_LINK (RELAX_BRANCH_ENCODE u l k t) = k
   \<and> RELAX_BRANCH_TOOFAR (RELAX_BRANCH_ENCODE u l k t) = t
   \<and> RELAX_BRANCH_P (RELAX_BRANCH_ENCODE u l k t) \<and> \<not> RELAX_MIPS16_P (RELAX_BRANCH_ENCODE u l k t)
   \<and> RELAX_MIPS16_TYPE (RELAX_MIPS16_ENCODE ty sm ext ds jal) = ty AND 0xff
   \<and> RELAX_MIPS16_USER_SMALL (RELAX_MIPS16_ENCODE ty sm ext ds jal) = sm
   \<and> RELAX_MIPS16_USER_EXT (RELAX_MIPS16_ENCODE ty sm ext ds jal) = ext
   \<and> RELAX_MIPS16_DSLOT (RELAX_MIPS16_ENCODE ty sm ext ds jal) = ds
   \<and> RELAX_MIPS16_JAL_DSLOT (RELAX_MIPS16_ENCODE ty sm ext ds jal) = jal
   \<and> RELAX_MIPS16_P (RELAX_MIPS16_ENCODE ty sm ext ds jal)
   \<and> \<not> RELAX_BRANCH_P (RELAX_MIPS16_ENCODE ty sm ext ds jal)"
  using macro_encode_read [of first second] by (simp add: branch_encode_read mips16_encode_read)

theorem relax_subtypes_read_back_witness:
  "RELAX_FIRST (RELAX_ENCODE 8 12) = 8 \<and> RELAX_SECOND (RELAX_ENCODE 8 12) = 12
   \<and> RELAX_MIPS16_TYPE (RELAX_MIPS16_ENCODE 0x170 True False True False) = 0x70"
  using relax_subtypes_read_back [where first = 8 and second = 12 and ty = "0x170" and sm = True
      and ext = False and ds = True and jal = False]
  by simp

section \<open>The length of a branch\<close>

datatype mips_pic_level = NO_PIC | SVR4_PIC | VXWORKS_PIC

record relax_symbol =
  sy_defined :: bool
  sy_segment :: nat
  sy_value :: ulong

record relax_frag =
  fr_subtype :: uint
  fr_symbol :: relax_symbol
  fr_offset :: ulong
  fr_address :: ulong
  fr_fix :: ulong
  fr_var :: int

text \<open>Whether the target is out of reach of a 16 bit word offset. \<open>None\<close> for the frag is the null
  pointer.\<close>

definition branch_toofar :: "relax_frag option \<Rightarrow> nat \<Rightarrow> bool" where
  "branch_toofar fragp sec = (case fragp of
     None \<Rightarrow> True
   | Some f \<Rightarrow>
       if sy_defined (fr_symbol f) \<and> sec = sy_segment (fr_symbol f) then
         (let val = sint ((sy_value (fr_symbol f) + fr_offset f) - (fr_address f + fr_fix f + 4))
          in val < - 0x20000 \<or> val \<ge> 0x20000)
       else False)"

definition relaxed_branch_length :: "mips_set_options \<Rightarrow> mips_pic_level \<Rightarrow> relax_frag option
    \<Rightarrow> nat \<Rightarrow> int \<Rightarrow> int \<times> relax_frag option" where
  "relaxed_branch_length opts pic fragp sec update =
     (let toofar = branch_toofar fragp sec;
          fragp' = map_option (\<lambda>f.
            if update \<noteq> 0 \<and> toofar \<noteq> RELAX_BRANCH_TOOFAR (fr_subtype f) then
              f\<lparr>fr_subtype := RELAX_BRANCH_ENCODE (RELAX_BRANCH_UNCOND (fr_subtype f))
                 (RELAX_BRANCH_LIKELY (fr_subtype f)) (RELAX_BRANCH_LINK (fr_subtype f)) toofar\<rparr>
            else f) fragp;
          likely = (case fragp' of Some f \<Rightarrow> RELAX_BRANCH_LIKELY (fr_subtype f) | None \<Rightarrow> update > 0);
          cond = (case fragp' of Some f \<Rightarrow> \<not> RELAX_BRANCH_UNCOND (fr_subtype f) | None \<Rightarrow> update \<ge> 0)
      in (if toofar then
            4 + (if likely then 8 else 0)
              + (if pic \<noteq> NO_PIC then 8 + (if o_isa opts = ISA_MIPS1 then 4 else 0) else 0)
              + (if cond then 8 else 0)
          else 4, fragp'))"

text \<open>The branch cases of \<open>md_estimate_size_before_relax\<close> and \<open>mips_relax_frag\<close>: the estimate
  leaves the subtype alone, the relaxation step records what it decides and returns the growth.\<close>

definition estimate_branch :: "mips_set_options \<Rightarrow> mips_pic_level \<Rightarrow> nat \<Rightarrow> relax_frag
    \<Rightarrow> int \<times> relax_frag" where
  "estimate_branch opts pic segtype f =
     (let n = fst (relaxed_branch_length opts pic (Some f) segtype 0) in (n, f\<lparr>fr_var := n\<rparr>))"

definition relax_branch_frag :: "mips_set_options \<Rightarrow> mips_pic_level \<Rightarrow> nat \<Rightarrow> relax_frag
    \<Rightarrow> int \<times> relax_frag" where
  "relax_branch_frag opts pic sec f =
     (case relaxed_branch_length opts pic (Some f) sec 1 of
        (n, Some f') \<Rightarrow> (n - fr_var f, f'\<lparr>fr_var := n\<rparr>)
      | (n, None) \<Rightarrow> (n - fr_var f, f))"

section \<open>Writing the branch\<close>

text \<open>The switch that reverses a branch; the failed assertions and the \<open>abort\<close> are \<open>None\<close>.\<close>

definition reverse_branch :: "ulong \<Rightarrow> ulong option" where
  "reverse_branch insn =
     (let op = drop_bit 28 insn AND 0xf in
      if op = 4 then
        (if insn AND 0xf1000000 = 0x41000000 then Some (insn XOR 0x00010000) else None)
      else if op = 0 then
        (if insn AND 0xfc0e0000 = 0x04000000 then Some (insn XOR 0x00010000) else None)
      else if op = 1 then Some (insn XOR 0x04000000)
      else None)"

text \<open>What \<open>md_convert_frag\<close> writes for a branch: the words in order, each with the relocation of
  the fixup made at its address, whose target is the frag's symbol and offset.\<close>

type_synonym emitted = "ulong \<times> bfd_reloc option"

definition branch_jump :: "mips_set_options \<Rightarrow> mips_abi_level \<Rightarrow> mips_pic_level \<Rightarrow> bool
    \<Rightarrow> emitted list" where
  "branch_jump opts abi pic link =
     (if pic = NO_PIC then [(if link then 0x0c000000 else 0x08000000, Some BFD_RELOC_MIPS_JMP)]
      else
        [(if HAVE_64BIT_ADDRESSES opts abi then 0xdf810000 else 0x8f810000, Some BFD_RELOC_MIPS_GOT16)]
        @ (if o_isa opts = ISA_MIPS1 then [(0, None)] else [])
        @ [(if HAVE_64BIT_ADDRESSES opts abi then 0x64210000 else 0x24210000, Some BFD_RELOC_LO16),
           (if link then 0x0020f809 else 0x00200008, None)])"

definition branch_over :: "bool \<Rightarrow> bool \<Rightarrow> int \<Rightarrow> ulong \<Rightarrow> emitted list option" where
  "branch_over likely link var insn =
     (case (if likely then Some insn else reverse_branch insn) of
        None \<Rightarrow> None
      | Some insn1 \<Rightarrow>
          if link \<and> insn1 AND 0xfc1c0000 \<noteq> 0x04100000 then None
          else
            (let insn2 = (if link then insn1 AND NOT 0x00100000 else insn1);
                 i = (if likely then 16 else var)
             in Some ([(insn2 OR word_of_int (i div 4 - 1), None), (0, None)]
                  @ (if likely then [(0x50000000 OR word_of_int ((var - 8) div 4), None), (0, None)]
                     else []))))"

text \<open>The last assertion of the branch case compares the bytes written with \<open>fr_var\<close>.\<close>

definition md_convert_branch :: "mips_set_options \<Rightarrow> mips_abi_level \<Rightarrow> mips_pic_level \<Rightarrow> relax_frag
    \<Rightarrow> ulong \<Rightarrow> emitted list option" where
  "md_convert_branch opts abi pic f insn =
     (let st = fr_subtype f;
          out = (if \<not> RELAX_BRANCH_TOOFAR st then Some [(insn, Some BFD_RELOC_16_PCREL_S2)]
                 else if RELAX_BRANCH_UNCOND st then Some (branch_jump opts abi pic (RELAX_BRANCH_LINK st))
                 else map_option (\<lambda>o1. o1 @ branch_jump opts abi pic (RELAX_BRANCH_LINK st))
                   (branch_over (RELAX_BRANCH_LIKELY st) (RELAX_BRANCH_LINK st) (fr_var f) insn))
      in case out of None \<Rightarrow> None
         | Some ws \<Rightarrow> if 4 * int (length ws) = fr_var f then Some ws else None)"

section \<open>The length decided and the bytes written agree\<close>

lemma toofar_unchanged [simp]:
  "branch_toofar (Some (f\<lparr>fr_subtype := s\<rparr>)) sec = branch_toofar (Some f) sec"
  "branch_toofar (Some (f\<lparr>fr_var := v\<rparr>)) sec = branch_toofar (Some f) sec"
  by (simp_all add: branch_toofar_def)

text \<open>What one relaxation step does to the subtype and the length.\<close>

definition settled_subtype :: "relax_frag \<Rightarrow> nat \<Rightarrow> uint" where
  "settled_subtype f sec =
     (if branch_toofar (Some f) sec = RELAX_BRANCH_TOOFAR (fr_subtype f) then fr_subtype f
      else RELAX_BRANCH_ENCODE (RELAX_BRANCH_UNCOND (fr_subtype f))
         (RELAX_BRANCH_LIKELY (fr_subtype f)) (RELAX_BRANCH_LINK (fr_subtype f))
         (branch_toofar (Some f) sec))"

lemma settled_subtype_read:
  "RELAX_BRANCH_UNCOND (settled_subtype f sec) = RELAX_BRANCH_UNCOND (fr_subtype f)"
  "RELAX_BRANCH_LIKELY (settled_subtype f sec) = RELAX_BRANCH_LIKELY (fr_subtype f)"
  "RELAX_BRANCH_LINK (settled_subtype f sec) = RELAX_BRANCH_LINK (fr_subtype f)"
  "RELAX_BRANCH_TOOFAR (settled_subtype f sec) = branch_toofar (Some f) sec"
  by (simp_all add: settled_subtype_def branch_encode_read)

definition branch_length :: "mips_set_options \<Rightarrow> mips_pic_level \<Rightarrow> bool \<Rightarrow> bool \<Rightarrow> bool \<Rightarrow> int" where
  "branch_length opts pic uncond likely toofar =
     (if toofar then
        4 + (if likely then 8 else 0)
          + (if pic \<noteq> NO_PIC then 8 + (if o_isa opts = ISA_MIPS1 then 4 else 0) else 0)
          + (if uncond then 0 else 8)
      else 4)"

lemma relax_branch_frag_eq:
  "relax_branch_frag opts pic sec f =
     (let n = branch_length opts pic (RELAX_BRANCH_UNCOND (fr_subtype f))
            (RELAX_BRANCH_LIKELY (fr_subtype f)) (branch_toofar (Some f) sec)
      in (n - fr_var f, f\<lparr>fr_subtype := settled_subtype f sec, fr_var := n\<rparr>))"
  by (auto simp: relax_branch_frag_def relaxed_branch_length_def branch_length_def Let_def
      settled_subtype_def branch_encode_read)

text \<open>The conditions under which the conversion of a far branch does not abort: an opcode the switch
  can reverse, and the and-link encoding where the branch links.\<close>

definition convertible :: "uint \<Rightarrow> ulong \<Rightarrow> bool" where
  "convertible st insn \<longleftrightarrow> RELAX_BRANCH_UNCOND st
     \<or> ((\<not> RELAX_BRANCH_LIKELY st \<longrightarrow> reverse_branch insn \<noteq> None)
        \<and> (RELAX_BRANCH_LINK st \<longrightarrow> insn AND 0xfc1c0000 = 0x04100000))"

lemma reverse_keeps_link:
  assumes "insn AND 0xfc1c0000 = 0x04100000" and "reverse_branch insn = Some insn'"
  shows "insn' AND 0xfc1c0000 = 0x04100000"
proof -
  have "drop_bit 28 insn AND 0xf = drop_bit 28 (insn AND 0xfc1c0000) AND 0xf"
    by (simp add: drop_bit_and and.assoc)
  then have "drop_bit 28 insn AND 0xf = 0" by (simp add: assms(1))
  then have "insn' = insn XOR 0x00010000"
    using assms(2) by (auto simp: reverse_branch_def split: if_splits)
  moreover have "(insn XOR 0x00010000) AND 0xfc1c0000 = insn AND 0xfc1c0000"
    by (simp add: bit.conj_xor_distrib2)
  ultimately show ?thesis using assms(1) by simp
qed

lemma branch_over_length:
  assumes "convertible st insn" "\<not> RELAX_BRANCH_UNCOND st"
  shows "\<exists>ws. branch_over (RELAX_BRANCH_LIKELY st) (RELAX_BRANCH_LINK st) var insn = Some ws
    \<and> length ws = (if RELAX_BRANCH_LIKELY st then 4 else 2)"
  using assms reverse_keeps_link [of insn]
  by (auto simp: branch_over_def convertible_def Let_def split: option.split)

lemma branch_jump_length:
  "4 * int (length (branch_jump opts abi pic link)) =
     4 + (if pic \<noteq> NO_PIC then 8 + (if o_isa opts = ISA_MIPS1 then 4 else 0) else 0)"
  by (simp add: branch_jump_def)

text \<open>C18: branch relaxation is consistent. Once \<open>mips_relax_frag\<close> has fixed the length of a branch,
  \<open>md_convert_frag\<close> succeeds for every branch instruction it can reverse, and writes exactly the
  length that was decided, near or far, likely or not, position independent or not: its final
  assertion cannot fail.\<close>

theorem relaxed_branch_converts:
  assumes "convertible (fr_subtype f) insn"
    and "\<not> (RELAX_BRANCH_UNCOND (fr_subtype f) \<and> RELAX_BRANCH_LIKELY (fr_subtype f))"
  shows "\<exists>ws. md_convert_branch opts abi pic (snd (relax_branch_frag opts pic sec f)) insn = Some ws
    \<and> 4 * int (length ws) = fr_var (snd (relax_branch_frag opts pic sec f))"
proof -
  let ?st = "settled_subtype f sec"
  have "convertible ?st insn" using assms(1) by (simp add: convertible_def settled_subtype_read)
  then show ?thesis
    using assms(2) branch_over_length [of ?st insn
        "branch_length opts pic (RELAX_BRANCH_UNCOND ?st) (RELAX_BRANCH_LIKELY ?st) True"]
      branch_jump_length [of opts abi pic "RELAX_BRANCH_LINK ?st"]
    by (auto simp: relax_branch_frag_eq Let_def md_convert_branch_def settled_subtype_read
        branch_length_def)
qed

text \<open>A far conditional branch of a frag at address 0: \<open>beq $1,$2\<close> becomes \<open>bne\<close>, a filler and a
  jump.\<close>

definition far_frag :: relax_frag where
  "far_frag = \<lparr>fr_subtype = RELAX_BRANCH_ENCODE False False False False,
     fr_symbol = \<lparr>sy_defined = True, sy_segment = 1, sy_value = 0x40000\<rparr>, fr_offset = 0,
     fr_address = 0, fr_fix = 0, fr_var = 4\<rparr>"

lemma far_frag_toofar: "branch_toofar (Some far_frag) 1"
  by (simp add: branch_toofar_def far_frag_def)

theorem relaxed_branch_converts_witness:
  "\<exists>ws. md_convert_branch initial_mips_opts O32_ABI NO_PIC
       (snd (relax_branch_frag initial_mips_opts NO_PIC 1 far_frag)) 0x10220000 = Some ws
     \<and> length ws = 3"
proof -
  have "convertible (fr_subtype far_frag) 0x10220000"
    by (simp add: convertible_def far_frag_def branch_encode_read reverse_branch_def)
  moreover have "\<not> RELAX_BRANCH_UNCOND (fr_subtype far_frag)"
    "\<not> RELAX_BRANCH_LIKELY (fr_subtype far_frag)"
    by (simp_all add: far_frag_def branch_encode_read)
  moreover from this have "fr_var (snd (relax_branch_frag initial_mips_opts NO_PIC 1 far_frag)) = 12"
    using far_frag_toofar by (simp add: relax_branch_frag_eq branch_length_def Let_def)
  ultimately show ?thesis
    using relaxed_branch_converts [of far_frag "0x10220000" initial_mips_opts O32_ABI NO_PIC 1]
    by auto
qed

text \<open>C19: relaxation of a branch settles. Repeating the step with the addresses unchanged neither
  grows the frag nor changes its subtype, whatever the first step decided; and the length never
  exceeds the worst case that \<open>append_insn\<close> asks for with a null frag when it reserves the bytes.\<close>

theorem relax_branch_settles:
  assumes "\<not> (RELAX_BRANCH_UNCOND (fr_subtype f) \<and> RELAX_BRANCH_LIKELY (fr_subtype f))"
  shows "relax_branch_frag opts pic sec (snd (relax_branch_frag opts pic sec f))
      = (0, snd (relax_branch_frag opts pic sec f))
    \<and> fr_var (snd (relax_branch_frag opts pic sec f)) \<le>
        fst (relaxed_branch_length opts pic None sec
          (if RELAX_BRANCH_UNCOND (fr_subtype f) then -1
           else if RELAX_BRANCH_LIKELY (fr_subtype f) then 1 else 0))"
proof -
  let ?g = "snd (relax_branch_frag opts pic sec f)"
  have g: "?g = f\<lparr>fr_subtype := settled_subtype f sec, fr_var := branch_length opts pic
      (RELAX_BRANCH_UNCOND (fr_subtype f)) (RELAX_BRANCH_LIKELY (fr_subtype f))
      (branch_toofar (Some f) sec)\<rparr>"
    by (simp add: relax_branch_frag_eq Let_def)
  have "settled_subtype ?g sec = fr_subtype ?g"
    by (simp add: g settled_subtype_def branch_encode_read)
  then have "relax_branch_frag opts pic sec ?g = (0, ?g)"
    by (subst relax_branch_frag_eq) (simp add: g Let_def settled_subtype_read)
  moreover have "fr_var ?g \<le> fst (relaxed_branch_length opts pic None sec
      (if RELAX_BRANCH_UNCOND (fr_subtype f) then -1
       else if RELAX_BRANCH_LIKELY (fr_subtype f) then 1 else 0))"
    using assms
    by (simp add: g branch_length_def relaxed_branch_length_def branch_toofar_def [of None])
  ultimately show ?thesis by blast
qed

theorem relax_branch_settles_witness:
  "fr_var (snd (relax_branch_frag initial_mips_opts SVR4_PIC 1 far_frag)) \<le> 20"
  using relax_branch_settles [of far_frag initial_mips_opts SVR4_PIC 1]
  by (simp add: far_frag_def branch_encode_read relaxed_branch_length_def
      branch_toofar_def [of None] initial_mips_opts_def ISA_UNKNOWN_def ISA_MIPS1_def INSN_ISA1_def)

end
