(* ===== verification/Gas_Hazards.thy ===== *)
theory Gas_Hazards
  imports Gas_Insn Rigel_Isa "HOL-Library.Monad_Syntax"
begin

text \<open>
  Hazards between instructions (\<open>gas/config/tc-mips.c\<close>): which registers an instruction reads,
  how many instructions must separate two others, how many nops the assembler must therefore
  insert after the history of recent instructions, and the history itself.

  An assertion that fails and an array read out of bounds are \<open>None\<close>. The lemmas show that neither
  happens where the program calls these functions, that the counts are bounded by the sizes of the
  buffers that depend on them, and that Rigel code never gets a nop.
\<close>

section \<open>Registers an instruction reads\<close>

datatype mips_regclass = MIPS_GR_REG | MIPS_FP_REG | MIPS16_REG

definition TREG :: ulong where [rigel_const]: "TREG = 24"
definition SP :: ulong where [rigel_const]: "SP = 29"
definition RA :: ulong where [rigel_const]: "RA = 31"

definition mips16_to_32_reg_map :: "ulong list" where
  "mips16_to_32_reg_map = [16, 17, 2, 3, 4, 5, 6, 7]"

definition reg16 :: "ulong \<Rightarrow> ulong option" where
  "reg16 r = nth_opt mips16_to_32_reg_map (unat r)"

definition flag :: "ulong \<Rightarrow> ulong \<Rightarrow> bool" where
  "flag w m \<longleftrightarrow> w AND m \<noteq> 0"

text \<open>The last branch of \<open>insn_uses_reg\<close>. The fields read have three bits, so the map is read in
  bounds.\<close>

definition mips16_uses_reg :: "mips_cl_insn \<Rightarrow> ulong \<Rightarrow> bool" where
  "mips16_uses_reg ip reg \<longleftrightarrow>
     (let pinfo = op_pinfo (insn_mo ip) in
       (flag pinfo MIPS16_INSN_READ_X \<and> reg16 (EXTRACT_OPERAND F16_RX ip) = Some reg)
     \<or> (flag pinfo MIPS16_INSN_READ_Y \<and> reg16 (EXTRACT_OPERAND F16_RY ip) = Some reg)
     \<or> (flag pinfo MIPS16_INSN_READ_Z \<and> reg16 (EXTRACT_OPERAND F16_MOVE32Z ip) = Some reg)
     \<or> (flag pinfo MIPS16_INSN_READ_T \<and> reg = TREG)
     \<or> (flag pinfo MIPS16_INSN_READ_SP \<and> reg = SP)
     \<or> (flag pinfo MIPS16_INSN_READ_31 \<and> reg = RA)
     \<or> (flag pinfo MIPS16_INSN_READ_GPR_X \<and> EXTRACT_OPERAND F16_REGR32 ip = reg))"

definition insn_uses_reg ::
    "mips_set_options \<Rightarrow> mips_cl_insn \<Rightarrow> ulong \<Rightarrow> mips_regclass \<Rightarrow> bool option" where
  "insn_uses_reg opts ip reg0 cls0 =
     (if cls0 = MIPS16_REG \<and> o_mips16 opts = 0 then None
      else
        case (if cls0 = MIPS16_REG then reg16 reg0 else Some reg0) of
          None \<Rightarrow> None
        | Some reg \<Rightarrow>
            (let cls = (if cls0 = MIPS16_REG then MIPS_GR_REG else cls0);
                 pinfo = op_pinfo (insn_mo ip)
             in if cls = MIPS_GR_REG \<and> reg = 0 then Some False
                else if cls = MIPS_FP_REG then
                  (if o_mips16 opts \<noteq> 0 then None
                   else Some
                     ((flag pinfo INSN_READ_FPR_S
                       \<and> EXTRACT_OPERAND F_FS ip AND 0xfffffffe = reg AND 0xfffffffe)
                    \<or> (flag pinfo INSN_READ_FPR_T
                       \<and> EXTRACT_OPERAND F_FT ip AND 0xfffffffe = reg AND 0xfffffffe)))
                else if o_mips16 opts = 0 then
                  Some ((flag pinfo INSN_READ_GPR_S \<and> EXTRACT_OPERAND F_RS ip = reg)
                      \<or> (flag pinfo INSN_READ_GPR_T \<and> EXTRACT_OPERAND F_RT ip = reg))
                else Some (mips16_uses_reg ip reg)))"

definition reg_needs_delay :: "mips_set_options \<Rightarrow> mips_cl_insn list \<Rightarrow> ulong \<Rightarrow> bool option" where
  "reg_needs_delay opts history reg =
     map_option (\<lambda>prev. let prev_pinfo = op_pinfo (insn_mo prev) in
       o_noreorder opts = 0
       \<and> ((flag prev_pinfo INSN_LOAD_MEMORY_DELAY \<and> \<not> gpr_interlocks opts)
          \<or> (flag prev_pinfo INSN_LOAD_COPROC_DELAY \<and> \<not> cop_interlocks opts))
       \<and> reg = EXTRACT_OPERAND F_RT prev) (nth_opt history 0)"

section \<open>The VR4120 errata\<close>

datatype fix_vr4120_class = FIX_VR4120_MACC | FIX_VR4120_DMACC | FIX_VR4120_MULT
  | FIX_VR4120_DMULT | FIX_VR4120_DIV | FIX_VR4120_MTHILO

text \<open>\<open>strstr (hay, needle) != NULL\<close>.\<close>

fun strstr :: "cstring \<Rightarrow> cstring \<Rightarrow> bool" where
  "strstr [] needle \<longleftrightarrow> needle = []"
| "strstr (c # cs) needle \<longleftrightarrow> take (length needle) (c # cs) = needle \<or> strstr cs needle"

text \<open>\<open>NUM_FIX_VR4120_CLASSES\<close> is \<open>None\<close>.\<close>

definition classify_vr4120_insn :: "cstring \<Rightarrow> fix_vr4120_class option" where
  "classify_vr4120_insn name =
     (if strncmp_eq name ''macc'' 4 then Some FIX_VR4120_MACC
      else if strncmp_eq name ''dmacc'' 5 then Some FIX_VR4120_DMACC
      else if strncmp_eq name ''mult'' 4 then Some FIX_VR4120_MULT
      else if strncmp_eq name ''dmult'' 5 then Some FIX_VR4120_DMULT
      else if strstr name ''div'' then Some FIX_VR4120_DIV
      else if name = ''mtlo'' \<or> name = ''mthi'' then Some FIX_VR4120_MTHILO
      else None)"

text \<open>The array of bit sets \<open>vr4120_conflicts\<close>, as the function from a class to the set of classes
  whose bit is set, and the \<open>CONFLICT\<close> macro.\<close>

type_synonym conflicts = "fix_vr4120_class \<Rightarrow> fix_vr4120_class set"

definition CONFLICT :: "fix_vr4120_class \<Rightarrow> fix_vr4120_class \<Rightarrow> conflicts \<Rightarrow> conflicts" where
  "CONFLICT a b c = c(a := insert b (c a))"

definition init_vr4120_conflicts :: "conflicts \<Rightarrow> conflicts" where
  "init_vr4120_conflicts =
     CONFLICT FIX_VR4120_DIV FIX_VR4120_DMACC \<circ> CONFLICT FIX_VR4120_DIV FIX_VR4120_MACC
     \<circ> CONFLICT FIX_VR4120_DMULT FIX_VR4120_DMACC \<circ> CONFLICT FIX_VR4120_DMULT FIX_VR4120_MACC
     \<circ> CONFLICT FIX_VR4120_DMACC FIX_VR4120_DMULT \<circ> CONFLICT FIX_VR4120_DMACC FIX_VR4120_MULT
     \<circ> CONFLICT FIX_VR4120_MACC FIX_VR4120_DMULT \<circ> CONFLICT FIX_VR4120_MACC FIX_VR4120_MULT
     \<circ> CONFLICT FIX_VR4120_DMACC FIX_VR4120_MTHILO \<circ> CONFLICT FIX_VR4120_MACC FIX_VR4120_MTHILO
     \<circ> CONFLICT FIX_VR4120_DMACC FIX_VR4120_DMACC \<circ> CONFLICT FIX_VR4120_DMACC FIX_VR4120_DMULT
     \<circ> CONFLICT FIX_VR4120_DMULT FIX_VR4120_DMACC \<circ> CONFLICT FIX_VR4120_DMULT FIX_VR4120_DMULT
     \<circ> CONFLICT FIX_VR4120_DMACC FIX_VR4120_DIV \<circ> CONFLICT FIX_VR4120_MACC FIX_VR4120_DIV"

section \<open>Instructions that must separate two others\<close>

text \<open>The flags the assembler was started with.\<close>

record fix_flags =
  mips_7000_hilo_fix :: bool
  mips_fix_vr4120 :: bool
  mips_fix_vr4130 :: bool
  vr4120_conflicts :: conflicts

text \<open>The macro \<open>INSN2_USES_REG\<close>: with no second instruction, the worst case.\<close>

definition INSN2_USES_REG ::
    "mips_set_options \<Rightarrow> mips_cl_insn option \<Rightarrow> ulong \<Rightarrow> mips_regclass \<Rightarrow> bool option" where
  "INSN2_USES_REG opts insn2 reg cls =
     (case insn2 of None \<Rightarrow> Some True | Some i2 \<Rightarrow> insn_uses_reg opts i2 reg cls)"

definition vr4120_gap :: "fix_flags \<Rightarrow> mips_cl_insn \<Rightarrow> mips_cl_insn option \<Rightarrow> bool" where
  "vr4120_gap fl insn1 insn2 \<longleftrightarrow> mips_fix_vr4120 fl \<and>
     (case classify_vr4120_insn (op_name (insn_mo insn1)) of
        None \<Rightarrow> False
      | Some class1 \<Rightarrow>
          vr4120_conflicts fl class1 \<noteq> {} \<and>
          (case insn2 of
             None \<Rightarrow> True
           | Some i2 \<Rightarrow>
               (case classify_vr4120_insn (op_name (insn_mo i2)) of
                  None \<Rightarrow> False
                | Some class2 \<Rightarrow> class2 \<in> vr4120_conflicts fl class1)))"

text \<open>The part of \<open>insns_between\<close> that is not for mips16.\<close>

definition delay_gap ::
    "mips_set_options \<Rightarrow> mips_cl_insn \<Rightarrow> mips_cl_insn option \<Rightarrow> ulong \<Rightarrow> nat option" where
  "delay_gap opts insn1 insn2 pinfo2 =
     (let pinfo1 = op_pinfo (insn_mo insn1) in
      if (\<not> gpr_interlocks opts \<and> flag pinfo1 INSN_LOAD_MEMORY_DELAY)
         \<or> (\<not> cop_interlocks opts \<and> flag pinfo1 INSN_LOAD_COPROC_DELAY) then
        do {
          u \<leftarrow> INSN2_USES_REG opts insn2 (EXTRACT_OPERAND F_RT insn1) MIPS_GR_REG;
          Some (if u then 1 else 0)
        }
      else if (\<not> cop_interlocks opts \<and> flag pinfo1 INSN_COPROC_MOVE_DELAY)
         \<or> (\<not> cop_mem_interlocks opts \<and> flag pinfo1 INSN_COPROC_MEMORY_DELAY) then
        (if flag pinfo1 INSN_WRITE_FPR_T then
           do {
             u \<leftarrow> INSN2_USES_REG opts insn2 (EXTRACT_OPERAND F_FT insn1) MIPS_FP_REG;
             Some (if u then 1 else 0)
           }
         else if flag pinfo1 INSN_WRITE_FPR_S then
           do {
             u \<leftarrow> INSN2_USES_REG opts insn2 (EXTRACT_OPERAND F_FS insn1) MIPS_FP_REG;
             Some (if u then 1 else 0)
           }
         else if flag pinfo1 INSN_WRITE_COND_CODE \<and> flag pinfo2 INSN_READ_COND_CODE then Some 2
         else if flag pinfo2 INSN_COP then Some 1
         else Some 0)
      else if \<not> cop_interlocks opts \<and> flag pinfo1 INSN_WRITE_COND_CODE
         \<and> flag pinfo2 INSN_READ_COND_CODE then Some 1
      else Some 0)"

definition insns_between ::
    "mips_set_options \<Rightarrow> fix_flags \<Rightarrow> mips_cl_insn \<Rightarrow> mips_cl_insn option \<Rightarrow> nat option" where
  "insns_between opts fl insn1 insn2 =
     (let pinfo1 = op_pinfo (insn_mo insn1);
          pinfo2 = (case insn2 of Some i2 \<Rightarrow> op_pinfo (insn_mo i2) | None \<Rightarrow> 0xffffffff)
      in
      if \<not> hilo_interlocks opts \<and> flag pinfo1 INSN_READ_LO \<and> flag pinfo2 INSN_WRITE_LO then Some 2
      else if \<not> hilo_interlocks opts \<and> flag pinfo1 INSN_READ_HI \<and> flag pinfo2 INSN_WRITE_HI
      then Some 2
      else do {
        r7 \<leftarrow> (if mips_7000_hilo_fix fl \<and> MF_HILO_INSN pinfo1
               then INSN2_USES_REG opts insn2 (EXTRACT_OPERAND F_RD insn1) MIPS_GR_REG
               else Some False);
        if r7 then Some 2
        else if vr4120_gap fl insn1 insn2 then Some 1
        else if o_mips16 opts = 0 then delay_gap opts insn1 insn2 pinfo2
        else Some 0
      })"

section \<open>Nops after a history\<close>

definition MAX_VR4130_NOPS :: nat where [rigel_const]: "MAX_VR4130_NOPS = 4"
definition MAX_DELAY_NOPS :: nat where [rigel_const]: "MAX_DELAY_NOPS = 2"
definition MAX_NOPS :: nat where [rigel_const]: "MAX_NOPS = 4"

text \<open>The inner loop of \<open>nops_for_vr4130\<close>: does any of the first instructions read the register?\<close>

fun any_uses_reg :: "mips_set_options \<Rightarrow> mips_cl_insn list \<Rightarrow> ulong \<Rightarrow> bool option" where
  "any_uses_reg opts [] reg = Some False"
| "any_uses_reg opts (h # hs) reg =
     do { u \<leftarrow> insn_uses_reg opts h reg MIPS_GR_REG;
          if u then Some True else any_uses_reg opts hs reg }"

text \<open>The outer loop, with the number of iterations left.\<close>

fun vr4130_scan :: "mips_set_options \<Rightarrow> mips_cl_insn list \<Rightarrow> mips_cl_insn option \<Rightarrow> nat \<Rightarrow> nat
    \<Rightarrow> int option" where
  "vr4130_scan opts history insn i 0 = Some 0"
| "vr4130_scan opts history insn i (Suc left) =
     do {
       h \<leftarrow> nth_opt history i;
       if \<not> noreorder_p h \<and> MF_HILO_INSN (op_pinfo (insn_mo h)) then
         do {
           reg \<leftarrow> (if o_mips16 opts \<noteq> 0 then reg16 (EXTRACT_OPERAND F16_RX h)
                  else Some (EXTRACT_OPERAND F_RD h));
           u \<leftarrow> (case insn of None \<Rightarrow> Some False | Some ip \<Rightarrow> insn_uses_reg opts ip reg MIPS_GR_REG);
           v \<leftarrow> (if u then Some True else any_uses_reg opts (take i history) reg);
           Some (if v then 0 else int MAX_VR4130_NOPS - int i)
         }
       else vr4130_scan opts history insn (Suc i) left
     }"

definition nops_for_vr4130 ::
    "mips_set_options \<Rightarrow> mips_cl_insn list \<Rightarrow> mips_cl_insn option \<Rightarrow> int option" where
  "nops_for_vr4130 opts history insn =
     (if (case insn of None \<Rightarrow> False | Some ip \<Rightarrow>
            op_pinfo (insn_mo ip) AND (INSN_WRITE_HI OR INSN_WRITE_LO) = 0
            \<or> op_name (insn_mo ip) = ''mtlo'' \<or> op_name (insn_mo ip) = ''mthi'')
      then Some 0
      else vr4130_scan opts history insn 0 MAX_VR4130_NOPS)"

text \<open>The loop of \<open>nops_for_insn\<close> over the last instructions.\<close>

fun delay_nops :: "mips_set_options \<Rightarrow> fix_flags \<Rightarrow> mips_cl_insn list \<Rightarrow> mips_cl_insn option
    \<Rightarrow> nat \<Rightarrow> nat \<Rightarrow> int \<Rightarrow> int option" where
  "delay_nops opts fl history insn i 0 nops = Some nops"
| "delay_nops opts fl history insn i (Suc left) nops =
     do {
       h \<leftarrow> nth_opt history i;
       if noreorder_p h then delay_nops opts fl history insn (Suc i) left nops
       else do {
         b \<leftarrow> insns_between opts fl h insn;
         (let tmp_nops = int b - int i in
          delay_nops opts fl history insn (Suc i) left (if tmp_nops > nops then tmp_nops else nops))
       }
     }"

definition nops_for_insn :: "mips_set_options \<Rightarrow> fix_flags \<Rightarrow> mips_cl_insn list
    \<Rightarrow> mips_cl_insn option \<Rightarrow> int option" where
  "nops_for_insn opts fl history insn =
     do {
       nops \<leftarrow> delay_nops opts fl history insn 0 MAX_DELAY_NOPS 0;
       if mips_fix_vr4130 fl then
         do { tmp_nops \<leftarrow> nops_for_vr4130 opts history insn;
              Some (if tmp_nops > nops then tmp_nops else nops) }
       else Some nops
     }"

text \<open>The extra instructions of \<open>nops_for_sequence\<close> come latest first, so the buffer starts with
  them reversed.\<close>

definition nops_for_sequence :: "mips_set_options \<Rightarrow> fix_flags \<Rightarrow> mips_cl_insn list
    \<Rightarrow> mips_cl_insn list \<Rightarrow> int option" where
  "nops_for_sequence opts fl history extra =
     (if length extra \<le> MAX_NOPS \<and> MAX_NOPS - length extra \<le> length history then
        nops_for_insn opts fl (rev extra @ take (MAX_NOPS - length extra) history) None
      else None)"

definition nops_for_insn_or_target :: "mips_set_options \<Rightarrow> fix_flags \<Rightarrow> mips_cl_insn
    \<Rightarrow> mips_cl_insn list \<Rightarrow> mips_cl_insn \<Rightarrow> int option" where
  "nops_for_insn_or_target opts fl NOP_INSN history insn =
     do {
       nops \<leftarrow> nops_for_insn opts fl history (Some insn);
       (let pinfo = op_pinfo (insn_mo insn) in
        if flag pinfo (INSN_UNCOND_BRANCH_DELAY OR INSN_COND_BRANCH_DELAY OR INSN_COND_BRANCH_LIKELY)
        then do { tmp_nops \<leftarrow> nops_for_sequence opts fl history [insn, NOP_INSN];
                  Some (if tmp_nops > nops then tmp_nops else nops) }
        else if o_mips16 opts \<noteq> 0 \<and> flag pinfo MIPS16_INSN_BRANCH
        then do { tmp_nops \<leftarrow> nops_for_sequence opts fl history [insn];
                  Some (if tmp_nops > nops then tmp_nops else nops) }
        else Some nops)
     }"

section \<open>The history buffer\<close>

text \<open>The loop of \<open>insert_into_history\<close>, from the last index down to \<open>first\<close>.\<close>

fun shift_history :: "nat \<Rightarrow> nat \<Rightarrow> mips_cl_insn \<Rightarrow> nat \<Rightarrow> mips_cl_insn list \<Rightarrow> mips_cl_insn list" where
  "shift_history first n insn 0 history = history"
| "shift_history first n insn (Suc i) history =
     (if i < first then history
      else shift_history first n insn i
        (history[i := (if i \<ge> first + n then history ! (i - n) else insn)]))"

definition insert_into_history ::
    "nat \<Rightarrow> nat \<Rightarrow> nat \<Rightarrow> mips_cl_insn \<Rightarrow> mips_cl_insn list \<Rightarrow> mips_cl_insn list" where
  "insert_into_history sequence first n insn history =
     (if sequence = 2 then history else shift_history first n insn (length history) history)"

lemma length_shift_history [simp]:
  "length (shift_history first n insn i history) = length history"
  by (induction first n insn i history rule: shift_history.induct) (simp_all add: Let_def)

lemma shift_history_nth:
  "i \<le> length history \<Longrightarrow> k < length history \<Longrightarrow>
     shift_history first n insn i history ! k =
       (if k < first \<or> i \<le> k then history ! k
        else if k < first + n then insn else history ! (k - n))"
proof (induction first n insn i history rule: shift_history.induct)
  case (2 first n insn i history)
  show ?case
  proof (cases "i < first")
    case False
    let ?h = "history[i := (if i \<ge> first + n then history ! (i - n) else insn)]"
    have "shift_history first n insn (Suc i) history ! k = shift_history first n insn i ?h ! k"
      using False by simp
    also have "\<dots> = (if k < first \<or> i \<le> k then ?h ! k
        else if k < first + n then insn else ?h ! (k - n))"
      using 2 False by simp
    also have "\<dots> = (if k < first \<or> Suc i \<le> k then history ! k
        else if k < first + n then insn else history ! (k - n))"
      using False 2(2,3) by (cases "k = i") (auto simp: nth_list_update)
    finally show ?thesis .
  qed (use 2 in auto)
qed simp

text \<open>The history shifts. Outside the second half of a relaxed macro, \<open>insert_into_history\<close> puts
  the copies at the position given, moves what was there towards the old end by their number
  (although it updates the array in place), drops what falls off the end, and keeps the length.\<close>

theorem insert_into_history_shifts:
  assumes "sequence \<noteq> 2"
  shows "insert_into_history sequence first n insn history =
    take (length history) (take first history @ replicate n insn @ drop first history)"
proof (rule nth_equalityI)
  show "length (insert_into_history sequence first n insn history) =
      length (take (length history) (take first history @ replicate n insn @ drop first history))"
    by (simp add: insert_into_history_def)
next
  fix k
  assume k: "k < length (insert_into_history sequence first n insn history)"
  then have "k < length history" by (simp add: insert_into_history_def split: if_splits)
  with assms show "insert_into_history sequence first n insn history ! k =
      take (length history) (take first history @ replicate n insn @ drop first history) ! k"
    by (auto simp: insert_into_history_def shift_history_nth nth_append)
qed

text \<open>A nop, for concrete runs.\<close>

definition sample_nop :: mips_cl_insn where
  "sample_nop = create_insn initial_mips_opts (mips_builtin_opcodes ! 76)"

definition sample_add :: mips_cl_insn where
  "sample_add = create_insn initial_mips_opts (mips_builtin_opcodes ! 0)"

theorem insert_into_history_shifts_witness:
  "insert_into_history 0 1 2 sample_nop [sample_add, sample_nop, sample_add, sample_add, sample_add]
   = [sample_add, sample_nop, sample_nop, sample_nop, sample_add]"
  using insert_into_history_shifts [of 0 1 2 sample_nop
      "[sample_add, sample_nop, sample_add, sample_add, sample_add]"]
  by (simp add: numeral_2_eq_2)

section \<open>No failure, and bounds\<close>

lemma insn_uses_gr_reg: "insn_uses_reg opts ip reg MIPS_GR_REG \<noteq> None"
  by (auto simp: insn_uses_reg_def Let_def)

lemma uses_gr_reg_cases [case_names uses]:
  obtains u where "insn_uses_reg opts ip reg MIPS_GR_REG = Some u"
  using insn_uses_gr_reg [of opts ip reg] by blast

lemma insn2_uses_gr_reg: "\<exists>u. INSN2_USES_REG opts insn2 reg MIPS_GR_REG = Some u"
  using insn_uses_gr_reg by (auto simp: INSN2_USES_REG_def split: option.split)

lemma insn2_uses_fp_reg:
  "o_mips16 opts = 0 \<Longrightarrow> \<exists>u. INSN2_USES_REG opts insn2 reg MIPS_FP_REG = Some u"
  by (auto simp: INSN2_USES_REG_def insn_uses_reg_def Let_def ex_bool_eq split: option.split)

lemma delay_gap_total:
  assumes "o_mips16 opts = 0"
  shows "\<exists>n. delay_gap opts i1 i2 p = Some n \<and> n \<le> 2"
  using insn2_uses_gr_reg [of opts i2 "EXTRACT_OPERAND F_RT i1"]
    insn2_uses_fp_reg [OF assms, of i2 "EXTRACT_OPERAND F_FT i1"]
    insn2_uses_fp_reg [OF assms, of i2 "EXTRACT_OPERAND F_FS i1"]
  by (auto simp: delay_gap_def Let_def)

lemma insns_between_total: "\<exists>n. insns_between opts fl i1 i2 = Some n \<and> n \<le> 2"
proof -
  obtain u where "INSN2_USES_REG opts i2 (EXTRACT_OPERAND F_RD i1) MIPS_GR_REG = Some u"
    using insn2_uses_gr_reg by blast
  then show ?thesis
    using delay_gap_total [of opts i1 i2] by (auto simp: insns_between_def Let_def)
qed

lemma any_uses_reg_total: "any_uses_reg opts hs reg \<noteq> None"
proof (induction hs)
  case (Cons h hs)
  obtain u where "insn_uses_reg opts h reg MIPS_GR_REG = Some u"
    using uses_gr_reg_cases by blast
  with Cons show ?case by (cases u) simp_all
qed simp

lemma reg16_field:
  "op_mask f = 7 \<Longrightarrow> \<exists>r. reg16 (EXTRACT_OPERAND f h) = Some r"
  using extract_bound [of "insn_opcode h" 7 "op_sh f"]
  by (simp add: reg16_def EXTRACT_OPERAND_def nth_opt_def mips16_to_32_reg_map_def)

lemma F16_RX_bits: "op_mask F16_RX = 7"
  by (simp add: F16_RX_def)

lemma vr4130_reg:
  "\<exists>reg. (if o_mips16 opts \<noteq> 0 then reg16 (EXTRACT_OPERAND F16_RX h)
      else Some (EXTRACT_OPERAND F_RD h)) = Some reg"
  using reg16_field [OF F16_RX_bits, of h] by (cases "o_mips16 opts = 0") simp_all

lemma vr4130_insn_reads:
  "\<exists>u. (case insn of None \<Rightarrow> Some False
      | Some ip \<Rightarrow> insn_uses_reg opts ip reg MIPS_GR_REG) = Some u"
proof (cases insn)
  case (Some ip)
  then show ?thesis using insn_uses_gr_reg [of opts ip reg] by simp
qed auto

lemma vr4130_scan_total:
  "length history = n \<Longrightarrow> i + left \<le> n \<Longrightarrow> i + left \<le> 4 \<Longrightarrow>
     \<exists>k. vr4130_scan opts history insn i left = Some k \<and> 0 \<le> k \<and> k \<le> 4"
proof (induction left arbitrary: i)
  case (Suc left)
  then obtain h where h: "nth_opt history i = Some h" by simp
  obtain reg where reg: "(if o_mips16 opts \<noteq> 0 then reg16 (EXTRACT_OPERAND F16_RX h)
      else Some (EXTRACT_OPERAND F_RD h)) = Some reg"
    using vr4130_reg [of opts h] by (rule exE)
  obtain u where u: "(case insn of None \<Rightarrow> Some False
      | Some ip \<Rightarrow> insn_uses_reg opts ip reg MIPS_GR_REG) = Some u"
    using vr4130_insn_reads [of opts reg insn] by (rule exE)
  obtain v where v: "(if u then Some True else any_uses_reg opts (take i history) reg) = Some v"
    using any_uses_reg_total [of opts "take i history" reg] by (cases u) auto
  show ?case
  proof (cases "\<not> noreorder_p h \<and> MF_HILO_INSN (op_pinfo (insn_mo h))")
    case True
    then have "vr4130_scan opts history insn i (Suc left)
        = Some (if v then 0 else int MAX_VR4130_NOPS - int i)"
      by (simp only: vr4130_scan.simps h reg u v Option.bind.bind_lunit simp_thms if_True)
    then show ?thesis using Suc.prems by (simp add: MAX_VR4130_NOPS_def)
  next
    case False
    then have "vr4130_scan opts history insn i (Suc left) = vr4130_scan opts history insn (Suc i) left"
      by (simp only: vr4130_scan.simps h Option.bind.bind_lunit if_False)
    then show ?thesis using Suc.IH [of "Suc i"] Suc.prems by simp
  qed
qed simp

lemma delay_nops_total:
  "i + left \<le> length history \<Longrightarrow> 0 \<le> nops \<Longrightarrow> nops \<le> 2 \<Longrightarrow>
     \<exists>k. delay_nops opts fl history insn i left nops = Some k \<and> 0 \<le> k \<and> k \<le> 2"
proof (induction left arbitrary: i nops)
  case (Suc left)
  then obtain h where h: "nth_opt history i = Some h" by simp
  obtain b where b: "insns_between opts fl h insn = Some b" "b \<le> 2"
    using insns_between_total by blast
  show ?case
    using Suc.IH [of "Suc i"] Suc.prems h b by (auto simp: Let_def)
qed simp

text \<open>The most nops the assembler ever has to insert: what the size of its history is made for.\<close>

definition nop_limit :: "fix_flags \<Rightarrow> int" where
  "nop_limit fl = int (if mips_fix_vr4130 fl then MAX_VR4130_NOPS else MAX_DELAY_NOPS)"

lemma nops_for_vr4130_total:
  assumes "MAX_NOPS \<le> length history"
  shows "\<exists>m. nops_for_vr4130 opts history insn = Some m \<and> 0 \<le> m \<and> m \<le> 4"
proof -
  have "\<exists>m. vr4130_scan opts history insn 0 MAX_VR4130_NOPS = Some m \<and> 0 \<le> m \<and> m \<le> 4"
    using vr4130_scan_total [OF refl, of 0 MAX_VR4130_NOPS history opts insn] assms
    by (simp add: MAX_VR4130_NOPS_def MAX_NOPS_def)
  then show ?thesis by (simp add: nops_for_vr4130_def)
qed

lemma nops_for_insn_total:
  assumes "MAX_NOPS \<le> length history"
  shows "\<exists>k. nops_for_insn opts fl history insn = Some k \<and> 0 \<le> k \<and> k \<le> nop_limit fl"
proof -
  have le: "0 + MAX_DELAY_NOPS \<le> length history"
    using assms by (simp add: MAX_DELAY_NOPS_def MAX_NOPS_def)
  obtain k where k: "delay_nops opts fl history insn 0 MAX_DELAY_NOPS 0 = Some k" "0 \<le> k" "k \<le> 2"
    using delay_nops_total [OF le, of 0 opts fl insn] by auto
  obtain m where m: "nops_for_vr4130 opts history insn = Some m" "0 \<le> m" "m \<le> 4"
    using nops_for_vr4130_total [OF assms] by blast
  show ?thesis
    using k m by (simp add: nops_for_insn_def nop_limit_def MAX_VR4130_NOPS_def MAX_DELAY_NOPS_def)
qed

lemma nops_for_sequence_total:
  assumes "MAX_NOPS \<le> length history" and "length extra \<le> MAX_NOPS"
  shows "\<exists>k. nops_for_sequence opts fl history extra = Some k \<and> 0 \<le> k \<and> k \<le> nop_limit fl"
  using assms nops_for_insn_total [of "rev extra @ take (MAX_NOPS - length extra) history" opts fl None]
  by (simp add: nops_for_sequence_def)

text \<open>C22: the hazard analysis never fails and its answer is bounded. With a history of \<open>MAX_NOPS\<close>
  instructions, no assertion of it fails and no array is read out of bounds, whatever the
  instructions and options; the number of nops is between 0 and 2, or 4 when the VR4130
  work-around is on, which is the size the history buffer allows for.\<close>

theorem nops_for_insn_or_target_bound:
  assumes "MAX_NOPS \<le> length history"
  shows "\<exists>k. nops_for_insn_or_target opts fl nop history insn = Some k \<and> 0 \<le> k \<and> k \<le> nop_limit fl"
proof -
  obtain k where k: "nops_for_insn opts fl history (Some insn) = Some k" "0 \<le> k" "k \<le> nop_limit fl"
    using nops_for_insn_total [OF assms] by blast
  obtain m where m: "nops_for_sequence opts fl history [insn, nop] = Some m" "m \<le> nop_limit fl"
    using nops_for_sequence_total [OF assms, of "[insn, nop]" opts fl] by (auto simp: MAX_NOPS_def)
  obtain n where n: "nops_for_sequence opts fl history [insn] = Some n" "n \<le> nop_limit fl"
    using nops_for_sequence_total [OF assms, of "[insn]" opts fl] by (auto simp: MAX_NOPS_def)
  show ?thesis using k m n by (simp add: nops_for_insn_or_target_def Let_def)
qed

theorem nops_for_insn_or_target_bound_witness:
  "\<exists>k. nops_for_insn_or_target initial_mips_opts
       \<lparr>mips_7000_hilo_fix = True, mips_fix_vr4120 = True, mips_fix_vr4130 = False,
        vr4120_conflicts = init_vr4120_conflicts (\<lambda>_. {})\<rparr> sample_nop
       (replicate 5 sample_nop) sample_nop = Some k \<and> 0 \<le> k \<and> k \<le> 2"
  using nops_for_insn_or_target_bound [of "replicate 5 sample_nop" initial_mips_opts
      "\<lparr>mips_7000_hilo_fix = True, mips_fix_vr4120 = True, mips_fix_vr4130 = False,
        vr4120_conflicts = init_vr4120_conflicts (\<lambda>_. {})\<rparr>" sample_nop sample_nop]
  by (simp add: nop_limit_def MAX_NOPS_def MAX_DELAY_NOPS_def)

section \<open>The null instruction is the worst case\<close>

text \<open>The flags of an instruction fit the 32 bits of \<open>~0U\<close>; all constants tested are nonzero.\<close>

lemma flag_all_ones:
  "flag 0xffffffff INSN_WRITE_LO" "flag 0xffffffff INSN_WRITE_HI" "flag 0xffffffff INSN_READ_COND_CODE"
  "flag 0xffffffff INSN_COP"
  by (simp_all add: flag_def INSN_WRITE_LO_def INSN_WRITE_HI_def INSN_READ_COND_CODE_def INSN_COP_def)

lemma delay_gap_worst:
  assumes "delay_gap opts i1 (Some i2) p = Some n" "o_mips16 opts = 0"
  shows "\<exists>m. delay_gap opts i1 None 0xffffffff = Some m \<and> n \<le> m"
proof -
  have b: "n \<le> 1" if "Option.bind X (\<lambda>u. Some (if u then 1 else 0)) = Some n" for X
    using that by (cases X) (auto split: if_splits)
  show ?thesis
    using assms(1) unfolding delay_gap_def Let_def INSN2_USES_REG_def
    by (auto simp: flag_all_ones dest!: b split: if_splits)
qed

text \<open>The one exception: an instruction with a VR4120 erratum counts 1 for an unknown successor,
  even if it should also need a two instruction gap for its condition code.\<close>

definition vr4120_simple :: "fix_flags \<Rightarrow> mips_cl_insn \<Rightarrow> bool" where
  "vr4120_simple fl i1 \<longleftrightarrow> mips_fix_vr4120 fl \<longrightarrow>
     classify_vr4120_insn (op_name (insn_mo i1)) = None
     \<or> \<not> flag (op_pinfo (insn_mo i1)) INSN_WRITE_COND_CODE"

lemma delay_gap_one:
  "\<not> flag (op_pinfo (insn_mo i1)) INSN_WRITE_COND_CODE \<Longrightarrow> delay_gap opts i1 i2 p = Some n \<Longrightarrow> n \<le> 1"
  by (auto simp: delay_gap_def Let_def bind_eq_Some_conv split: if_splits)

lemma insns_between_worst:
  assumes "vr4120_simple fl i1"
    and i2: "insns_between opts fl i1 (Some i2) = Some n" 
    and none: "insns_between opts fl i1 None = Some m"
  shows "n \<le> m"
proof (cases "m = 2")
  case True
  then show ?thesis using insns_between_total [of opts fl i1 "Some i2"] i2 by simp
next
  case False
  let ?p1 = "op_pinfo (insn_mo i1)"
  have hl: "\<not> (\<not> hilo_interlocks opts \<and> flag ?p1 INSN_READ_LO)"
    "\<not> (\<not> hilo_interlocks opts \<and> flag ?p1 INSN_READ_HI)"
    "\<not> (mips_7000_hilo_fix fl \<and> MF_HILO_INSN ?p1)"
    using none False
    by (auto simp: insns_between_def Let_def flag_all_ones INSN2_USES_REG_def split: if_splits)
  then have n: "(if vr4120_gap fl i1 (Some i2) then Some 1
      else if o_mips16 opts = 0 then delay_gap opts i1 (Some i2) (op_pinfo (insn_mo i2)) else Some 0) = Some n"
    and m: "(if vr4120_gap fl i1 None then Some 1
      else if o_mips16 opts = 0 then delay_gap opts i1 None 0xffffffff else Some 0) = Some m"
    using i2 none by (auto simp: insns_between_def Let_def split: if_splits)
  show ?thesis
  proof (cases "vr4120_gap fl i1 None")
    case True
    then have "\<not> flag ?p1 INSN_WRITE_COND_CODE"
      using assms(1) by (auto simp: vr4120_gap_def vr4120_simple_def)
    then have "n \<le> 1" using n delay_gap_one by (auto split: if_splits)
    with True m show ?thesis by simp
  next
    case False
    then have "\<not> vr4120_gap fl i1 (Some i2)" by (auto simp: vr4120_gap_def split: option.splits)
    with False n m show ?thesis
      using delay_gap_worst [of opts i1 i2 "op_pinfo (insn_mo i2)" n] by (auto split: if_splits)
  qed
qed

lemma delay_nops_worst:
  assumes "\<forall>h\<in>set history. vr4120_simple fl h"
  shows "delay_nops opts fl history (Some ip) i left a = Some n \<Longrightarrow>
    delay_nops opts fl history None i left b = Some m \<Longrightarrow> a \<le> b \<Longrightarrow> n \<le> m"
proof (induction left arbitrary: i a b)
  case (Suc left)
  then obtain h where h: "nth_opt history i = Some h" by (cases "nth_opt history i") simp_all
  then have s: "vr4120_simple fl h" using assms by (auto dest!: nth_opt_SomeD)
  show ?case
  proof (cases "noreorder_p h")
    case True
    with Suc h show ?thesis by simp
  next
    case False
    obtain x where x: "insns_between opts fl h (Some ip) = Some x" using insns_between_total by blast
    obtain y where y: "insns_between opts fl h None = Some y" using insns_between_total by blast
    have "x \<le> y" using insns_between_worst [OF s x y] .
    then show ?thesis
      using Suc.IH [of "Suc i" "if int x - int i > a then int x - int i else a"
          "if int y - int i > b then int y - int i else b"] Suc.prems h x y False
      by (auto simp: Let_def split: if_splits)
  qed
qed simp

lemma vr4130_scan_worst:
  "vr4130_scan opts history (Some ip) i left = Some n \<Longrightarrow>
     vr4130_scan opts history None i left = Some m \<Longrightarrow> i + left \<le> 4 \<Longrightarrow> n \<le> m"
  by (induction left arbitrary: i)
     (auto simp: bind_eq_Some_conv MAX_VR4130_NOPS_def split: if_splits)

text \<open>With no optimisation the assembler asks how many nops an unknown next instruction could
  need, by passing the null pointer. That answer is an upper bound for every actual instruction
  (leaving aside instructions with a VR4120 erratum that also write a condition code).\<close>

theorem nops_for_null_is_worst_case:
  assumes "MAX_NOPS \<le> length history" and "\<forall>h\<in>set history. vr4120_simple fl h"
  shows "\<exists>n m. nops_for_insn opts fl history (Some ip) = Some n
    \<and> nops_for_insn opts fl history None = Some m \<and> n \<le> m"
proof -
  have len: "0 + MAX_DELAY_NOPS \<le> length history"
    using assms(1) by (simp add: MAX_DELAY_NOPS_def MAX_NOPS_def)
  obtain a where a: "delay_nops opts fl history (Some ip) 0 MAX_DELAY_NOPS 0 = Some a"
    using delay_nops_total [OF len, of 0 opts fl "Some ip"] by auto
  obtain b where b: "delay_nops opts fl history None 0 MAX_DELAY_NOPS 0 = Some b"
    using delay_nops_total [OF len, of 0 opts fl None] by auto
  have ab: "a \<le> b" using delay_nops_worst [OF assms(2) a b] by simp
  obtain c where c: "nops_for_vr4130 opts history (Some ip) = Some c"
    using nops_for_vr4130_total [OF assms(1)] by blast
  obtain d where d: "nops_for_vr4130 opts history None = Some d" "0 \<le> d"
    using nops_for_vr4130_total [OF assms(1)] by blast
  have "c \<le> d"
    using c d vr4130_scan_worst [of opts history ip 0 MAX_VR4130_NOPS]
    by (auto simp: nops_for_vr4130_def MAX_VR4130_NOPS_def split: if_splits)
  then show ?thesis using a b c d ab by (simp add: nops_for_insn_def)
qed

theorem nops_for_null_is_worst_case_witness:
  "\<exists>n m. nops_for_insn initial_mips_opts
       \<lparr>mips_7000_hilo_fix = True, mips_fix_vr4120 = False, mips_fix_vr4130 = True,
        vr4120_conflicts = init_vr4120_conflicts (\<lambda>_. {})\<rparr>
       (replicate 5 sample_nop) (Some sample_nop) = Some n
     \<and> nops_for_insn initial_mips_opts
       \<lparr>mips_7000_hilo_fix = True, mips_fix_vr4120 = False, mips_fix_vr4130 = True,
        vr4120_conflicts = init_vr4120_conflicts (\<lambda>_. {})\<rparr>
       (replicate 5 sample_nop) None = Some m \<and> n \<le> m"
  by (rule nops_for_null_is_worst_case) (simp_all add: MAX_NOPS_def vr4120_simple_def)

section \<open>Rigel code needs no nops\<close>

text \<open>No entry of the Rigel table touches HI, LO, a coprocessor or a condition code, loads with a
  delay, branches with a delay, or has the name of a VR4120 erratum.\<close>

definition delay_flags :: ulong where
  "delay_flags = INSN_READ_HI OR INSN_READ_LO OR INSN_WRITE_HI OR INSN_WRITE_LO
     OR INSN_LOAD_MEMORY_DELAY OR INSN_LOAD_COPROC_DELAY OR INSN_COPROC_MOVE_DELAY
     OR INSN_COPROC_MEMORY_DELAY OR INSN_WRITE_COND_CODE OR INSN_READ_COND_CODE
     OR INSN_UNCOND_BRANCH_DELAY OR INSN_COND_BRANCH_DELAY OR INSN_COND_BRANCH_LIKELY"

lemma delay_flags_value: "delay_flags = 0x03FF9800"
  by (simp add: delay_flags_def INSN_READ_HI_def INSN_READ_LO_def INSN_WRITE_HI_def
      INSN_WRITE_LO_def INSN_LOAD_MEMORY_DELAY_def INSN_LOAD_COPROC_DELAY_def
      INSN_COPROC_MOVE_DELAY_def INSN_COPROC_MEMORY_DELAY_def INSN_WRITE_COND_CODE_def
      INSN_READ_COND_CODE_def INSN_UNCOND_BRANCH_DELAY_def INSN_COND_BRANCH_DELAY_def
      INSN_COND_BRANCH_LIKELY_def)

definition no_hazard :: "mips_opcode \<Rightarrow> bool" where
  "no_hazard mo \<longleftrightarrow> op_pinfo mo AND delay_flags = 0 \<and> classify_vr4120_insn (op_name mo) = None"

lemma no_hazard_opcode:
  "no_hazard (opcode nm ar mt mk pi pi2 me) \<longleftrightarrow>
     pi AND delay_flags = 0 \<and> classify_vr4120_insn nm = None"
  by (simp add: no_hazard_def)

lemma rigel_no_hazard_all: "list_all no_hazard mips_builtin_opcodes"
  unfolding mips_builtin_opcodes_def list.pred_inject no_hazard_opcode
  by (simp add: RD_t_def RD_s_def WR_d_def WR_A_def INSN_READ_GPR_T_def INSN_READ_GPR_S_def
      INSN_WRITE_GPR_D_def INSN_WRITE_GPR_DAcc_def delay_flags_value classify_vr4120_insn_def
      strncmp_eq_def)

lemma rigel_no_hazard: "mo \<in> set mips_builtin_opcodes \<Longrightarrow> no_hazard mo"
  using rigel_no_hazard_all by (simp add: list_all_iff)

lemma no_hazard_flag:
  assumes "no_hazard mo" "delay_flags AND m = m"
  shows "\<not> flag (op_pinfo mo) m"
proof -
  have "op_pinfo mo AND m = op_pinfo mo AND (delay_flags AND m)" using assms(2) by simp
  also have "\<dots> = (op_pinfo mo AND delay_flags) AND m" by (simp only: and.assoc)
  also have "\<dots> = 0" using assms(1) by (simp add: no_hazard_def)
  finally show ?thesis by (simp add: flag_def)
qed

lemma no_hazard_flags:
  assumes "no_hazard mo"
  shows "\<not> flag (op_pinfo mo) INSN_READ_LO" "\<not> flag (op_pinfo mo) INSN_READ_HI"
    "\<not> flag (op_pinfo mo) INSN_LOAD_MEMORY_DELAY" "\<not> flag (op_pinfo mo) INSN_LOAD_COPROC_DELAY"
    "\<not> flag (op_pinfo mo) INSN_COPROC_MOVE_DELAY" "\<not> flag (op_pinfo mo) INSN_COPROC_MEMORY_DELAY"
    "\<not> flag (op_pinfo mo) INSN_WRITE_COND_CODE"
    "\<not> flag (op_pinfo mo)
       (INSN_UNCOND_BRANCH_DELAY OR INSN_COND_BRANCH_DELAY OR INSN_COND_BRANCH_LIKELY)"
  by (rule no_hazard_flag [OF assms]; simp add: delay_flags_value rigel_const)+

lemma no_hazard_hilo: "no_hazard mo \<Longrightarrow> \<not> MF_HILO_INSN (op_pinfo mo)"
  using no_hazard_flags(1,2) [of mo] by (simp add: MF_HILO_INSN_def flag_def)

lemma no_hazard_between:
  assumes "no_hazard (insn_mo i1)"
  shows "insns_between opts fl i1 i2 = Some 0"
  using no_hazard_flags [OF assms] no_hazard_hilo [OF assms] assms
  by (simp add: insns_between_def vr4120_gap_def no_hazard_def delay_gap_def Let_def)

lemma no_hazard_delay_nops:
  "\<forall>h\<in>set history. no_hazard (insn_mo h) \<Longrightarrow> i + left \<le> length history \<Longrightarrow>
     delay_nops opts fl history insn i left 0 = Some 0"
  by (induction left arbitrary: i) (simp_all add: no_hazard_between)

lemma no_hazard_scan:
  "\<forall>h\<in>set history. no_hazard (insn_mo h) \<Longrightarrow> i + left \<le> length history \<Longrightarrow>
     vr4130_scan opts history insn i left = Some 0"
  by (induction left arbitrary: i) (simp_all add: no_hazard_hilo)

lemma no_hazard_nops_for_insn:
  assumes "\<forall>h\<in>set history. no_hazard (insn_mo h)" "MAX_NOPS \<le> length history"
  shows "nops_for_insn opts fl history insn = Some 0"
  using assms no_hazard_delay_nops [of history 0 MAX_DELAY_NOPS opts fl insn]
    no_hazard_scan [of history 0 MAX_VR4130_NOPS opts insn]
  by (simp add: nops_for_insn_def nops_for_vr4130_def MAX_NOPS_def MAX_DELAY_NOPS_def
      MAX_VR4130_NOPS_def)

text \<open>C21: Rigel code is emitted as written. Whatever errata work-arounds are switched on, in any
  mode, after a history of Rigel instructions the assembler computes that no nop is needed before
  the next Rigel instruction, a branch target included, and none in the worst case either; it
  never inserts one.\<close>

theorem rigel_needs_no_nops:
  assumes "\<forall>h\<in>set history. insn_mo h \<in> set mips_builtin_opcodes"
    and "MAX_NOPS \<le> length history" and "insn_mo insn \<in> set mips_builtin_opcodes"
    and "o_mips16 opts = 0"
  shows "nops_for_insn_or_target opts fl nop history insn = Some 0
    \<and> nops_for_insn opts fl history None = Some 0"
  using assms rigel_no_hazard no_hazard_flags(8) [of "insn_mo insn"]
    no_hazard_nops_for_insn [of history opts fl]
  by (simp add: nops_for_insn_or_target_def Let_def)

theorem rigel_needs_no_nops_witness:
  "nops_for_insn_or_target (initial_mips_opts\<lparr>o_mips16 := 0\<rparr>)
     \<lparr>mips_7000_hilo_fix = True, mips_fix_vr4120 = True, mips_fix_vr4130 = True,
      vr4120_conflicts = init_vr4120_conflicts (\<lambda>_. {})\<rparr>
     sample_nop (replicate 5 sample_nop) sample_nop = Some 0"
  by (rule rigel_needs_no_nops [THEN conjunct1])
     (simp_all add: sample_nop_def create_insn_def MAX_NOPS_def)

end
