(* ===== verification/Dis_Names.thy ===== *)
theory Dis_Names
  imports Opcode_Mips
begin

text \<open>
  The tables of the disassembler (\<open>opcodes/mips-dis.c\<close>): the names it prints for general,
  floating point, coprocessor 0 and hardware registers under each convention, and the choices of
  ABI and architecture that select among them. An array of names is a list; \<open>NULL\<close> with length 0
  for the names of coprocessor registers with a select field is the empty list.
\<close>

record mips_cp0sel_name =
  cp0reg :: ulong
  cp0sel :: ulong
  cp0sel_text :: cstring

definition mips16_dis_reg_map :: "nat list" where [rigel_tab]:
  "mips16_dis_reg_map = [16, 17, 2, 3, 4, 5, 6, 7]"

definition mips_gpr_names_rigel :: "cstring list" where [rigel_tab]:
  "mips_gpr_names_rigel = [
    ''$zero'', ''$r1'', ''$r2'', ''$r3'', ''$r4'', ''$r5'', ''$r6'', ''$r7'', ''$r8'', ''$r9'',
    ''$r10'', ''$r11'', ''$r12'', ''$r13'', ''$r14'', ''$r15'', ''$r16'', ''$r17'', ''$r18'',
    ''$r19'', ''$r20'', ''$r21'', ''$r22'', ''$r23'', ''$r24'', ''$r25'', ''$r26'', ''$r27'',
    ''$gp'', ''$sp'', ''$fp'', ''$ra'']"

definition mips_gpr_names_numeric :: "cstring list" where [rigel_tab]:
  "mips_gpr_names_numeric = [
    ''$zero'', ''$r1'', ''$r2'', ''$r3'', ''$r4'', ''$r5'', ''$r6'', ''$r7'', ''$r8'', ''$r9'',
    ''$r10'', ''$r11'', ''$r12'', ''$r13'', ''$r14'', ''$r15'', ''$r16'', ''$r17'', ''$r18'',
    ''$r19'', ''$r20'', ''$r21'', ''$r22'', ''$r23'', ''$r24'', ''$r25'', ''$r26'', ''$r27'',
    ''$r28'', ''$r29'', ''$r30'', ''$r31'', ''$r32'', ''$r33'', ''$r34'', ''$r35'', ''$r36'',
    ''$r37'', ''$r38'', ''$r39'', ''$r40'', ''$r41'', ''$r42'', ''$r43'', ''$r44'', ''$r45'',
    ''$r46'', ''$r47'', ''$r48'', ''$r49'', ''$r50'', ''$r51'', ''$r52'', ''$r53'', ''$r54'',
    ''$r55'', ''$r56'', ''$r57'', ''$r58'', ''$r59'', ''$r60'', ''$r61'', ''$r62'', ''$r63'']"

definition mips_gpr_names_oldabi :: "cstring list" where [rigel_tab]:
  "mips_gpr_names_oldabi = [
    ''zero'', ''at'', ''v0'', ''v1'', ''a0'', ''a1'', ''a2'', ''a3'', ''t0'', ''t1'', ''t2'',
    ''t3'', ''t4'', ''t5'', ''t6'', ''t7'', ''s0'', ''s1'', ''s2'', ''s3'', ''s4'', ''s5'',
    ''s6'', ''s7'', ''t8'', ''t9'', ''k0'', ''k1'', ''gp'', ''sp'', ''s8'', ''ra'']"

definition mips_gpr_names_newabi :: "cstring list" where [rigel_tab]:
  "mips_gpr_names_newabi = [
    ''zero'', ''at'', ''v0'', ''v1'', ''a0'', ''a1'', ''a2'', ''a3'', ''a4'', ''a5'', ''a6'',
    ''a7'', ''t0'', ''t1'', ''t2'', ''t3'', ''s0'', ''s1'', ''s2'', ''s3'', ''s4'', ''s5'',
    ''s6'', ''s7'', ''t8'', ''t9'', ''k0'', ''k1'', ''gp'', ''sp'', ''s8'', ''ra'']"

definition mips_fpr_names_numeric :: "cstring list" where [rigel_tab]:
  "mips_fpr_names_numeric = [
    ''$f0'', ''$f1'', ''$f2'', ''$f3'', ''$f4'', ''$f5'', ''$f6'', ''$f7'', ''$f8'', ''$f9'',
    ''$f10'', ''$f11'', ''$f12'', ''$f13'', ''$f14'', ''$f15'', ''$f16'', ''$f17'', ''$f18'',
    ''$f19'', ''$f20'', ''$f21'', ''$f22'', ''$f23'', ''$f24'', ''$f25'', ''$f26'', ''$f27'',
    ''$f28'', ''$f29'', ''$f30'', ''$f31'']"

definition mips_fpr_names_32 :: "cstring list" where [rigel_tab]:
  "mips_fpr_names_32 = [
    ''fv0'', ''fv0f'', ''fv1'', ''fv1f'', ''ft0'', ''ft0f'', ''ft1'', ''ft1f'', ''ft2'',
    ''ft2f'', ''ft3'', ''ft3f'', ''fa0'', ''fa0f'', ''fa1'', ''fa1f'', ''ft4'', ''ft4f'',
    ''ft5'', ''ft5f'', ''fs0'', ''fs0f'', ''fs1'', ''fs1f'', ''fs2'', ''fs2f'', ''fs3'',
    ''fs3f'', ''fs4'', ''fs4f'', ''fs5'', ''fs5f'']"

definition mips_fpr_names_n32 :: "cstring list" where [rigel_tab]:
  "mips_fpr_names_n32 = [
    ''fv0'', ''ft14'', ''fv1'', ''ft15'', ''ft0'', ''ft1'', ''ft2'', ''ft3'', ''ft4'', ''ft5'',
    ''ft6'', ''ft7'', ''fa0'', ''fa1'', ''fa2'', ''fa3'', ''fa4'', ''fa5'', ''fa6'', ''fa7'',
    ''fs0'', ''ft8'', ''fs1'', ''ft9'', ''fs2'', ''ft10'', ''fs3'', ''ft11'', ''fs4'', ''ft12'',
    ''fs5'', ''ft13'']"

definition mips_fpr_names_64 :: "cstring list" where [rigel_tab]:
  "mips_fpr_names_64 = [
    ''fv0'', ''ft12'', ''fv1'', ''ft13'', ''ft0'', ''ft1'', ''ft2'', ''ft3'', ''ft4'', ''ft5'',
    ''ft6'', ''ft7'', ''fa0'', ''fa1'', ''fa2'', ''fa3'', ''fa4'', ''fa5'', ''fa6'', ''fa7'',
    ''ft8'', ''ft9'', ''ft10'', ''ft11'', ''fs0'', ''fs1'', ''fs2'', ''fs3'', ''fs4'', ''fs5'',
    ''fs6'', ''fs7'']"

definition mips_cp0_names_numeric :: "cstring list" where [rigel_tab]:
  "mips_cp0_names_numeric = [
    ''$0'', ''$1'', ''$2'', ''$3'', ''$4'', ''$5'', ''$6'', ''$7'', ''$8'', ''$9'', ''$10'',
    ''$11'', ''$12'', ''$13'', ''$14'', ''$15'', ''$16'', ''$17'', ''$18'', ''$19'', ''$20'',
    ''$21'', ''$22'', ''$23'', ''$24'', ''$25'', ''$26'', ''$27'', ''$28'', ''$29'', ''$30'',
    ''$31'']"

definition mips_cp0_names_mips3264 :: "cstring list" where [rigel_tab]:
  "mips_cp0_names_mips3264 = [
    ''c0_index'', ''c0_random'', ''c0_entrylo0'', ''c0_entrylo1'', ''c0_context'',
    ''c0_pagemask'', ''c0_wired'', ''$7'', ''c0_badvaddr'', ''c0_count'', ''c0_entryhi'',
    ''c0_compare'', ''c0_status'', ''c0_cause'', ''c0_epc'', ''c0_prid'', ''c0_config'',
    ''c0_lladdr'', ''c0_watchlo'', ''c0_watchhi'', ''c0_xcontext'', ''$21'', ''$22'',
    ''c0_debug'', ''c0_depc'', ''c0_perfcnt'', ''c0_errctl'', ''c0_cacheerr'', ''c0_taglo'',
    ''c0_taghi'', ''c0_errorepc'', ''c0_desave'']"

definition mips_cp0sel_names_mips3264 :: "mips_cp0sel_name list" where [rigel_tab]:
  "mips_cp0sel_names_mips3264 = [
    \<lparr>cp0reg = 16, cp0sel = 1, cp0sel_text = ''c0_config1''\<rparr>,
    \<lparr>cp0reg = 16, cp0sel = 2, cp0sel_text = ''c0_config2''\<rparr>,
    \<lparr>cp0reg = 16, cp0sel = 3, cp0sel_text = ''c0_config3''\<rparr>,
    \<lparr>cp0reg = 18, cp0sel = 1, cp0sel_text = ''c0_watchlo,1''\<rparr>,
    \<lparr>cp0reg = 18, cp0sel = 2, cp0sel_text = ''c0_watchlo,2''\<rparr>,
    \<lparr>cp0reg = 18, cp0sel = 3, cp0sel_text = ''c0_watchlo,3''\<rparr>,
    \<lparr>cp0reg = 18, cp0sel = 4, cp0sel_text = ''c0_watchlo,4''\<rparr>,
    \<lparr>cp0reg = 18, cp0sel = 5, cp0sel_text = ''c0_watchlo,5''\<rparr>,
    \<lparr>cp0reg = 18, cp0sel = 6, cp0sel_text = ''c0_watchlo,6''\<rparr>,
    \<lparr>cp0reg = 18, cp0sel = 7, cp0sel_text = ''c0_watchlo,7''\<rparr>,
    \<lparr>cp0reg = 19, cp0sel = 1, cp0sel_text = ''c0_watchhi,1''\<rparr>,
    \<lparr>cp0reg = 19, cp0sel = 2, cp0sel_text = ''c0_watchhi,2''\<rparr>,
    \<lparr>cp0reg = 19, cp0sel = 3, cp0sel_text = ''c0_watchhi,3''\<rparr>,
    \<lparr>cp0reg = 19, cp0sel = 4, cp0sel_text = ''c0_watchhi,4''\<rparr>,
    \<lparr>cp0reg = 19, cp0sel = 5, cp0sel_text = ''c0_watchhi,5''\<rparr>,
    \<lparr>cp0reg = 19, cp0sel = 6, cp0sel_text = ''c0_watchhi,6''\<rparr>,
    \<lparr>cp0reg = 19, cp0sel = 7, cp0sel_text = ''c0_watchhi,7''\<rparr>,
    \<lparr>cp0reg = 25, cp0sel = 1, cp0sel_text = ''c0_perfcnt,1''\<rparr>,
    \<lparr>cp0reg = 25, cp0sel = 2, cp0sel_text = ''c0_perfcnt,2''\<rparr>,
    \<lparr>cp0reg = 25, cp0sel = 3, cp0sel_text = ''c0_perfcnt,3''\<rparr>,
    \<lparr>cp0reg = 25, cp0sel = 4, cp0sel_text = ''c0_perfcnt,4''\<rparr>,
    \<lparr>cp0reg = 25, cp0sel = 5, cp0sel_text = ''c0_perfcnt,5''\<rparr>,
    \<lparr>cp0reg = 25, cp0sel = 6, cp0sel_text = ''c0_perfcnt,6''\<rparr>,
    \<lparr>cp0reg = 25, cp0sel = 7, cp0sel_text = ''c0_perfcnt,7''\<rparr>,
    \<lparr>cp0reg = 27, cp0sel = 1, cp0sel_text = ''c0_cacheerr,1''\<rparr>,
    \<lparr>cp0reg = 27, cp0sel = 2, cp0sel_text = ''c0_cacheerr,2''\<rparr>,
    \<lparr>cp0reg = 27, cp0sel = 3, cp0sel_text = ''c0_cacheerr,3''\<rparr>,
    \<lparr>cp0reg = 28, cp0sel = 1, cp0sel_text = ''c0_datalo''\<rparr>,
    \<lparr>cp0reg = 29, cp0sel = 1, cp0sel_text = ''c0_datahi''\<rparr>]"

definition mips_cp0_names_mips3264r2 :: "cstring list" where [rigel_tab]:
  "mips_cp0_names_mips3264r2 = [
    ''c0_index'', ''c0_random'', ''c0_entrylo0'', ''c0_entrylo1'', ''c0_context'',
    ''c0_pagemask'', ''c0_wired'', ''c0_hwrena'', ''c0_badvaddr'', ''c0_count'', ''c0_entryhi'',
    ''c0_compare'', ''c0_status'', ''c0_cause'', ''c0_epc'', ''c0_prid'', ''c0_config'',
    ''c0_lladdr'', ''c0_watchlo'', ''c0_watchhi'', ''c0_xcontext'', ''$21'', ''$22'',
    ''c0_debug'', ''c0_depc'', ''c0_perfcnt'', ''c0_errctl'', ''c0_cacheerr'', ''c0_taglo'',
    ''c0_taghi'', ''c0_errorepc'', ''c0_desave'']"

definition mips_cp0sel_names_mips3264r2 :: "mips_cp0sel_name list" where [rigel_tab]:
  "mips_cp0sel_names_mips3264r2 = [
    \<lparr>cp0reg = 4, cp0sel = 1, cp0sel_text = ''c0_contextconfig''\<rparr>,
    \<lparr>cp0reg = 0, cp0sel = 1, cp0sel_text = ''c0_mvpcontrol''\<rparr>,
    \<lparr>cp0reg = 0, cp0sel = 2, cp0sel_text = ''c0_mvpconf0''\<rparr>,
    \<lparr>cp0reg = 0, cp0sel = 3, cp0sel_text = ''c0_mvpconf1''\<rparr>,
    \<lparr>cp0reg = 1, cp0sel = 1, cp0sel_text = ''c0_vpecontrol''\<rparr>,
    \<lparr>cp0reg = 1, cp0sel = 2, cp0sel_text = ''c0_vpeconf0''\<rparr>,
    \<lparr>cp0reg = 1, cp0sel = 3, cp0sel_text = ''c0_vpeconf1''\<rparr>,
    \<lparr>cp0reg = 1, cp0sel = 4, cp0sel_text = ''c0_yqmask''\<rparr>,
    \<lparr>cp0reg = 1, cp0sel = 5, cp0sel_text = ''c0_vpeschedule''\<rparr>,
    \<lparr>cp0reg = 1, cp0sel = 6, cp0sel_text = ''c0_vpeschefback''\<rparr>,
    \<lparr>cp0reg = 2, cp0sel = 1, cp0sel_text = ''c0_tcstatus''\<rparr>,
    \<lparr>cp0reg = 2, cp0sel = 2, cp0sel_text = ''c0_tcbind''\<rparr>,
    \<lparr>cp0reg = 2, cp0sel = 3, cp0sel_text = ''c0_tcrestart''\<rparr>,
    \<lparr>cp0reg = 2, cp0sel = 4, cp0sel_text = ''c0_tchalt''\<rparr>,
    \<lparr>cp0reg = 2, cp0sel = 5, cp0sel_text = ''c0_tccontext''\<rparr>,
    \<lparr>cp0reg = 2, cp0sel = 6, cp0sel_text = ''c0_tcschedule''\<rparr>,
    \<lparr>cp0reg = 2, cp0sel = 7, cp0sel_text = ''c0_tcschefback''\<rparr>,
    \<lparr>cp0reg = 5, cp0sel = 1, cp0sel_text = ''c0_pagegrain''\<rparr>,
    \<lparr>cp0reg = 6, cp0sel = 1, cp0sel_text = ''c0_srsconf0''\<rparr>,
    \<lparr>cp0reg = 6, cp0sel = 2, cp0sel_text = ''c0_srsconf1''\<rparr>,
    \<lparr>cp0reg = 6, cp0sel = 3, cp0sel_text = ''c0_srsconf2''\<rparr>,
    \<lparr>cp0reg = 6, cp0sel = 4, cp0sel_text = ''c0_srsconf3''\<rparr>,
    \<lparr>cp0reg = 6, cp0sel = 5, cp0sel_text = ''c0_srsconf4''\<rparr>,
    \<lparr>cp0reg = 12, cp0sel = 1, cp0sel_text = ''c0_intctl''\<rparr>,
    \<lparr>cp0reg = 12, cp0sel = 2, cp0sel_text = ''c0_srsctl''\<rparr>,
    \<lparr>cp0reg = 12, cp0sel = 3, cp0sel_text = ''c0_srsmap''\<rparr>,
    \<lparr>cp0reg = 15, cp0sel = 1, cp0sel_text = ''c0_ebase''\<rparr>,
    \<lparr>cp0reg = 16, cp0sel = 1, cp0sel_text = ''c0_config1''\<rparr>,
    \<lparr>cp0reg = 16, cp0sel = 2, cp0sel_text = ''c0_config2''\<rparr>,
    \<lparr>cp0reg = 16, cp0sel = 3, cp0sel_text = ''c0_config3''\<rparr>,
    \<lparr>cp0reg = 18, cp0sel = 1, cp0sel_text = ''c0_watchlo,1''\<rparr>,
    \<lparr>cp0reg = 18, cp0sel = 2, cp0sel_text = ''c0_watchlo,2''\<rparr>,
    \<lparr>cp0reg = 18, cp0sel = 3, cp0sel_text = ''c0_watchlo,3''\<rparr>,
    \<lparr>cp0reg = 18, cp0sel = 4, cp0sel_text = ''c0_watchlo,4''\<rparr>,
    \<lparr>cp0reg = 18, cp0sel = 5, cp0sel_text = ''c0_watchlo,5''\<rparr>,
    \<lparr>cp0reg = 18, cp0sel = 6, cp0sel_text = ''c0_watchlo,6''\<rparr>,
    \<lparr>cp0reg = 18, cp0sel = 7, cp0sel_text = ''c0_watchlo,7''\<rparr>,
    \<lparr>cp0reg = 19, cp0sel = 1, cp0sel_text = ''c0_watchhi,1''\<rparr>,
    \<lparr>cp0reg = 19, cp0sel = 2, cp0sel_text = ''c0_watchhi,2''\<rparr>,
    \<lparr>cp0reg = 19, cp0sel = 3, cp0sel_text = ''c0_watchhi,3''\<rparr>,
    \<lparr>cp0reg = 19, cp0sel = 4, cp0sel_text = ''c0_watchhi,4''\<rparr>,
    \<lparr>cp0reg = 19, cp0sel = 5, cp0sel_text = ''c0_watchhi,5''\<rparr>,
    \<lparr>cp0reg = 19, cp0sel = 6, cp0sel_text = ''c0_watchhi,6''\<rparr>,
    \<lparr>cp0reg = 19, cp0sel = 7, cp0sel_text = ''c0_watchhi,7''\<rparr>,
    \<lparr>cp0reg = 23, cp0sel = 1, cp0sel_text = ''c0_tracecontrol''\<rparr>,
    \<lparr>cp0reg = 23, cp0sel = 2, cp0sel_text = ''c0_tracecontrol2''\<rparr>,
    \<lparr>cp0reg = 23, cp0sel = 3, cp0sel_text = ''c0_usertracedata''\<rparr>,
    \<lparr>cp0reg = 23, cp0sel = 4, cp0sel_text = ''c0_tracebpc''\<rparr>,
    \<lparr>cp0reg = 25, cp0sel = 1, cp0sel_text = ''c0_perfcnt,1''\<rparr>,
    \<lparr>cp0reg = 25, cp0sel = 2, cp0sel_text = ''c0_perfcnt,2''\<rparr>,
    \<lparr>cp0reg = 25, cp0sel = 3, cp0sel_text = ''c0_perfcnt,3''\<rparr>,
    \<lparr>cp0reg = 25, cp0sel = 4, cp0sel_text = ''c0_perfcnt,4''\<rparr>,
    \<lparr>cp0reg = 25, cp0sel = 5, cp0sel_text = ''c0_perfcnt,5''\<rparr>,
    \<lparr>cp0reg = 25, cp0sel = 6, cp0sel_text = ''c0_perfcnt,6''\<rparr>,
    \<lparr>cp0reg = 25, cp0sel = 7, cp0sel_text = ''c0_perfcnt,7''\<rparr>,
    \<lparr>cp0reg = 27, cp0sel = 1, cp0sel_text = ''c0_cacheerr,1''\<rparr>,
    \<lparr>cp0reg = 27, cp0sel = 2, cp0sel_text = ''c0_cacheerr,2''\<rparr>,
    \<lparr>cp0reg = 27, cp0sel = 3, cp0sel_text = ''c0_cacheerr,3''\<rparr>,
    \<lparr>cp0reg = 28, cp0sel = 1, cp0sel_text = ''c0_datalo''\<rparr>,
    \<lparr>cp0reg = 28, cp0sel = 2, cp0sel_text = ''c0_taglo1''\<rparr>,
    \<lparr>cp0reg = 28, cp0sel = 3, cp0sel_text = ''c0_datalo1''\<rparr>,
    \<lparr>cp0reg = 28, cp0sel = 4, cp0sel_text = ''c0_taglo2''\<rparr>,
    \<lparr>cp0reg = 28, cp0sel = 5, cp0sel_text = ''c0_datalo2''\<rparr>,
    \<lparr>cp0reg = 28, cp0sel = 6, cp0sel_text = ''c0_taglo3''\<rparr>,
    \<lparr>cp0reg = 28, cp0sel = 7, cp0sel_text = ''c0_datalo3''\<rparr>,
    \<lparr>cp0reg = 29, cp0sel = 1, cp0sel_text = ''c0_datahi''\<rparr>,
    \<lparr>cp0reg = 29, cp0sel = 2, cp0sel_text = ''c0_taghi1''\<rparr>,
    \<lparr>cp0reg = 29, cp0sel = 3, cp0sel_text = ''c0_datahi1''\<rparr>,
    \<lparr>cp0reg = 29, cp0sel = 4, cp0sel_text = ''c0_taghi2''\<rparr>,
    \<lparr>cp0reg = 29, cp0sel = 5, cp0sel_text = ''c0_datahi2''\<rparr>,
    \<lparr>cp0reg = 29, cp0sel = 6, cp0sel_text = ''c0_taghi3''\<rparr>,
    \<lparr>cp0reg = 29, cp0sel = 7, cp0sel_text = ''c0_datahi3''\<rparr>]"

definition mips_cp0_names_sb1 :: "cstring list" where [rigel_tab]:
  "mips_cp0_names_sb1 = [
    ''c0_index'', ''c0_random'', ''c0_entrylo0'', ''c0_entrylo1'', ''c0_context'',
    ''c0_pagemask'', ''c0_wired'', ''$7'', ''c0_badvaddr'', ''c0_count'', ''c0_entryhi'',
    ''c0_compare'', ''c0_status'', ''c0_cause'', ''c0_epc'', ''c0_prid'', ''c0_config'',
    ''c0_lladdr'', ''c0_watchlo'', ''c0_watchhi'', ''c0_xcontext'', ''$21'', ''$22'',
    ''c0_debug'', ''c0_depc'', ''c0_perfcnt'', ''c0_errctl'', ''c0_cacheerr_i'', ''c0_taglo_i'',
    ''c0_taghi_i'', ''c0_errorepc'', ''c0_desave'']"

definition mips_cp0sel_names_sb1 :: "mips_cp0sel_name list" where [rigel_tab]:
  "mips_cp0sel_names_sb1 = [
    \<lparr>cp0reg = 16, cp0sel = 1, cp0sel_text = ''c0_config1''\<rparr>,
    \<lparr>cp0reg = 18, cp0sel = 1, cp0sel_text = ''c0_watchlo,1''\<rparr>,
    \<lparr>cp0reg = 19, cp0sel = 1, cp0sel_text = ''c0_watchhi,1''\<rparr>,
    \<lparr>cp0reg = 22, cp0sel = 0, cp0sel_text = ''c0_perftrace''\<rparr>,
    \<lparr>cp0reg = 23, cp0sel = 3, cp0sel_text = ''c0_edebug''\<rparr>,
    \<lparr>cp0reg = 25, cp0sel = 1, cp0sel_text = ''c0_perfcnt,1''\<rparr>,
    \<lparr>cp0reg = 25, cp0sel = 2, cp0sel_text = ''c0_perfcnt,2''\<rparr>,
    \<lparr>cp0reg = 25, cp0sel = 3, cp0sel_text = ''c0_perfcnt,3''\<rparr>,
    \<lparr>cp0reg = 25, cp0sel = 4, cp0sel_text = ''c0_perfcnt,4''\<rparr>,
    \<lparr>cp0reg = 25, cp0sel = 5, cp0sel_text = ''c0_perfcnt,5''\<rparr>,
    \<lparr>cp0reg = 25, cp0sel = 6, cp0sel_text = ''c0_perfcnt,6''\<rparr>,
    \<lparr>cp0reg = 25, cp0sel = 7, cp0sel_text = ''c0_perfcnt,7''\<rparr>,
    \<lparr>cp0reg = 26, cp0sel = 1, cp0sel_text = ''c0_buserr_pa''\<rparr>,
    \<lparr>cp0reg = 27, cp0sel = 1, cp0sel_text = ''c0_cacheerr_d''\<rparr>,
    \<lparr>cp0reg = 27, cp0sel = 3, cp0sel_text = ''c0_cacheerr_d_pa''\<rparr>,
    \<lparr>cp0reg = 28, cp0sel = 1, cp0sel_text = ''c0_datalo_i''\<rparr>,
    \<lparr>cp0reg = 28, cp0sel = 2, cp0sel_text = ''c0_taglo_d''\<rparr>,
    \<lparr>cp0reg = 28, cp0sel = 3, cp0sel_text = ''c0_datalo_d''\<rparr>,
    \<lparr>cp0reg = 29, cp0sel = 1, cp0sel_text = ''c0_datahi_i''\<rparr>,
    \<lparr>cp0reg = 29, cp0sel = 2, cp0sel_text = ''c0_taghi_d''\<rparr>,
    \<lparr>cp0reg = 29, cp0sel = 3, cp0sel_text = ''c0_datahi_d''\<rparr>]"

definition mips_hwr_names_numeric :: "cstring list" where [rigel_tab]:
  "mips_hwr_names_numeric = [
    ''$0'', ''$1'', ''$2'', ''$3'', ''$4'', ''$5'', ''$6'', ''$7'', ''$8'', ''$9'', ''$10'',
    ''$11'', ''$12'', ''$13'', ''$14'', ''$15'', ''$16'', ''$17'', ''$18'', ''$19'', ''$20'',
    ''$21'', ''$22'', ''$23'', ''$24'', ''$25'', ''$26'', ''$27'', ''$28'', ''$29'', ''$30'',
    ''$31'']"

definition mips_hwr_names_mips3264r2 :: "cstring list" where [rigel_tab]:
  "mips_hwr_names_mips3264r2 = [
    ''hwr_cpunum'', ''hwr_synci_step'', ''hwr_cc'', ''hwr_ccres'', ''$4'', ''$5'', ''$6'',
    ''$7'', ''$8'', ''$9'', ''$10'', ''$11'', ''$12'', ''$13'', ''$14'', ''$15'', ''$16'',
    ''$17'', ''$18'', ''$19'', ''$20'', ''$21'', ''$22'', ''$23'', ''$24'', ''$25'', ''$26'',
    ''$27'', ''$28'', ''$29'', ''$30'', ''$31'']"

section \<open>Choices\<close>

record mips_abi_choice =
  abi_name :: cstring
  abi_gpr_names :: "cstring list"
  abi_fpr_names :: "cstring list"

definition mips_abi_choices :: "mips_abi_choice list" where [rigel_tab]:
  "mips_abi_choices = [
    \<lparr>abi_name = ''numeric'', abi_gpr_names = mips_gpr_names_numeric,
      abi_fpr_names = mips_fpr_names_numeric\<rparr>,
    \<lparr>abi_name = ''32'', abi_gpr_names = mips_gpr_names_numeric,
      abi_fpr_names = mips_fpr_names_32\<rparr>,
    \<lparr>abi_name = ''n32'', abi_gpr_names = mips_gpr_names_newabi,
      abi_fpr_names = mips_fpr_names_n32\<rparr>]"

record mips_arch_choice =
  ac_name :: cstring
  ac_mach_valid :: bool
  ac_mach :: ulong
  ac_processor :: int
  ac_isa :: ulong
  ac_cp0_names :: "cstring list"
  ac_cp0sel_names :: "mips_cp0sel_name list"
  ac_hwr_names :: "cstring list"

definition mips_arch_choices :: "mips_arch_choice list" where [rigel_tab]:
  "mips_arch_choices = [
    \<lparr>ac_name = ''numeric'', ac_mach_valid = False, ac_mach = 0, ac_processor = 0,
      ac_isa = 0,
      ac_cp0_names = mips_cp0_names_numeric, ac_cp0sel_names = [],
      ac_hwr_names = mips_hwr_names_numeric\<rparr>,
    \<lparr>ac_name = ''r3000'', ac_mach_valid = True, ac_mach = 3000, ac_processor = CPU_R3000,
      ac_isa = ISA_MIPS1,
      ac_cp0_names = mips_cp0_names_numeric, ac_cp0sel_names = [],
      ac_hwr_names = mips_hwr_names_numeric\<rparr>,
    \<lparr>ac_name = ''r3900'', ac_mach_valid = True, ac_mach = 3900, ac_processor = CPU_R3900,
      ac_isa = ISA_MIPS1,
      ac_cp0_names = mips_cp0_names_numeric, ac_cp0sel_names = [],
      ac_hwr_names = mips_hwr_names_numeric\<rparr>,
    \<lparr>ac_name = ''r4000'', ac_mach_valid = True, ac_mach = 4000, ac_processor = CPU_R4000,
      ac_isa = ISA_MIPS3,
      ac_cp0_names = mips_cp0_names_numeric, ac_cp0sel_names = [],
      ac_hwr_names = mips_hwr_names_numeric\<rparr>,
    \<lparr>ac_name = ''r4010'', ac_mach_valid = True, ac_mach = 4010, ac_processor = CPU_R4010,
      ac_isa = ISA_MIPS2,
      ac_cp0_names = mips_cp0_names_numeric, ac_cp0sel_names = [],
      ac_hwr_names = mips_hwr_names_numeric\<rparr>,
    \<lparr>ac_name = ''vr4100'', ac_mach_valid = True, ac_mach = 4100, ac_processor = CPU_VR4100,
      ac_isa = ISA_MIPS3,
      ac_cp0_names = mips_cp0_names_numeric, ac_cp0sel_names = [],
      ac_hwr_names = mips_hwr_names_numeric\<rparr>,
    \<lparr>ac_name = ''vr4111'', ac_mach_valid = True, ac_mach = 4111, ac_processor = CPU_R4111,
      ac_isa = ISA_MIPS3,
      ac_cp0_names = mips_cp0_names_numeric, ac_cp0sel_names = [],
      ac_hwr_names = mips_hwr_names_numeric\<rparr>,
    \<lparr>ac_name = ''vr4120'', ac_mach_valid = True, ac_mach = 4120, ac_processor = CPU_VR4120,
      ac_isa = ISA_MIPS3,
      ac_cp0_names = mips_cp0_names_numeric, ac_cp0sel_names = [],
      ac_hwr_names = mips_hwr_names_numeric\<rparr>,
    \<lparr>ac_name = ''r4300'', ac_mach_valid = True, ac_mach = 4300, ac_processor = CPU_R4300,
      ac_isa = ISA_MIPS3,
      ac_cp0_names = mips_cp0_names_numeric, ac_cp0sel_names = [],
      ac_hwr_names = mips_hwr_names_numeric\<rparr>,
    \<lparr>ac_name = ''r4400'', ac_mach_valid = True, ac_mach = 4400, ac_processor = CPU_R4400,
      ac_isa = ISA_MIPS3,
      ac_cp0_names = mips_cp0_names_numeric, ac_cp0sel_names = [],
      ac_hwr_names = mips_hwr_names_numeric\<rparr>,
    \<lparr>ac_name = ''r4600'', ac_mach_valid = True, ac_mach = 4600, ac_processor = CPU_R4600,
      ac_isa = ISA_MIPS3,
      ac_cp0_names = mips_cp0_names_numeric, ac_cp0sel_names = [],
      ac_hwr_names = mips_hwr_names_numeric\<rparr>,
    \<lparr>ac_name = ''r4650'', ac_mach_valid = True, ac_mach = 4650, ac_processor = CPU_R4650,
      ac_isa = ISA_MIPS3,
      ac_cp0_names = mips_cp0_names_numeric, ac_cp0sel_names = [],
      ac_hwr_names = mips_hwr_names_numeric\<rparr>,
    \<lparr>ac_name = ''r5000'', ac_mach_valid = True, ac_mach = 5000, ac_processor = CPU_R5000,
      ac_isa = ISA_MIPS4,
      ac_cp0_names = mips_cp0_names_numeric, ac_cp0sel_names = [],
      ac_hwr_names = mips_hwr_names_numeric\<rparr>,
    \<lparr>ac_name = ''vr5400'', ac_mach_valid = True, ac_mach = 5400, ac_processor = CPU_VR5400,
      ac_isa = ISA_MIPS4,
      ac_cp0_names = mips_cp0_names_numeric, ac_cp0sel_names = [],
      ac_hwr_names = mips_hwr_names_numeric\<rparr>,
    \<lparr>ac_name = ''vr5500'', ac_mach_valid = True, ac_mach = 5500, ac_processor = CPU_VR5500,
      ac_isa = ISA_MIPS4,
      ac_cp0_names = mips_cp0_names_numeric, ac_cp0sel_names = [],
      ac_hwr_names = mips_hwr_names_numeric\<rparr>,
    \<lparr>ac_name = ''r6000'', ac_mach_valid = True, ac_mach = 6000, ac_processor = CPU_R6000,
      ac_isa = ISA_MIPS2,
      ac_cp0_names = mips_cp0_names_numeric, ac_cp0sel_names = [],
      ac_hwr_names = mips_hwr_names_numeric\<rparr>,
    \<lparr>ac_name = ''rm7000'', ac_mach_valid = True, ac_mach = 7000, ac_processor = CPU_RM7000,
      ac_isa = ISA_MIPS4,
      ac_cp0_names = mips_cp0_names_numeric, ac_cp0sel_names = [],
      ac_hwr_names = mips_hwr_names_numeric\<rparr>,
    \<lparr>ac_name = ''rm9000'', ac_mach_valid = True, ac_mach = 7000, ac_processor = CPU_RM7000,
      ac_isa = ISA_MIPS4,
      ac_cp0_names = mips_cp0_names_numeric, ac_cp0sel_names = [],
      ac_hwr_names = mips_hwr_names_numeric\<rparr>,
    \<lparr>ac_name = ''r8000'', ac_mach_valid = True, ac_mach = 8000, ac_processor = CPU_R8000,
      ac_isa = ISA_MIPS4,
      ac_cp0_names = mips_cp0_names_numeric, ac_cp0sel_names = [],
      ac_hwr_names = mips_hwr_names_numeric\<rparr>,
    \<lparr>ac_name = ''r10000'', ac_mach_valid = True, ac_mach = 10000, ac_processor = CPU_R10000,
      ac_isa = ISA_MIPS4,
      ac_cp0_names = mips_cp0_names_numeric, ac_cp0sel_names = [],
      ac_hwr_names = mips_hwr_names_numeric\<rparr>,
    \<lparr>ac_name = ''r12000'', ac_mach_valid = True, ac_mach = 12000, ac_processor = CPU_R12000,
      ac_isa = ISA_MIPS4,
      ac_cp0_names = mips_cp0_names_numeric, ac_cp0sel_names = [],
      ac_hwr_names = mips_hwr_names_numeric\<rparr>,
    \<lparr>ac_name = ''mips5'', ac_mach_valid = True, ac_mach = 5, ac_processor = CPU_MIPS5,
      ac_isa = ISA_MIPS5,
      ac_cp0_names = mips_cp0_names_numeric, ac_cp0sel_names = [],
      ac_hwr_names = mips_hwr_names_numeric\<rparr>,
    \<lparr>ac_name = ''mips32'', ac_mach_valid = True, ac_mach = 32, ac_processor = CPU_MIPS32,
      ac_isa = ISA_MIPS32 OR INSN_MIPS16 OR INSN_SMARTMIPS,
      ac_cp0_names = mips_cp0_names_mips3264, ac_cp0sel_names = mips_cp0sel_names_mips3264,
      ac_hwr_names = mips_hwr_names_numeric\<rparr>,
    \<lparr>ac_name = ''mips32r2'', ac_mach_valid = True, ac_mach = 33, ac_processor = CPU_MIPS32R2,
      ac_isa = ISA_MIPS32R2 OR INSN_MIPS16 OR INSN_SMARTMIPS OR INSN_DSP OR INSN_DSPR2 OR INSN_MIPS3D OR INSN_MT,
      ac_cp0_names = mips_cp0_names_mips3264r2, ac_cp0sel_names = mips_cp0sel_names_mips3264r2,
      ac_hwr_names = mips_hwr_names_mips3264r2\<rparr>,
    \<lparr>ac_name = ''mips64'', ac_mach_valid = True, ac_mach = 64, ac_processor = CPU_MIPS64,
      ac_isa = ISA_MIPS64 OR INSN_MIPS16 OR INSN_MIPS3D OR INSN_MDMX,
      ac_cp0_names = mips_cp0_names_mips3264, ac_cp0sel_names = mips_cp0sel_names_mips3264,
      ac_hwr_names = mips_hwr_names_numeric\<rparr>,
    \<lparr>ac_name = ''mips64r2'', ac_mach_valid = True, ac_mach = 65, ac_processor = CPU_MIPS64R2,
      ac_isa = ISA_MIPS64R2 OR INSN_MIPS16 OR INSN_MIPS3D OR INSN_DSP OR INSN_DSPR2 OR INSN_DSP64 OR INSN_MT OR INSN_MDMX,
      ac_cp0_names = mips_cp0_names_mips3264r2, ac_cp0sel_names = mips_cp0sel_names_mips3264r2,
      ac_hwr_names = mips_hwr_names_mips3264r2\<rparr>,
    \<lparr>ac_name = ''mipsrigel32'', ac_mach_valid = True, ac_mach = 1983, ac_processor = CPU_RIGEL32,
      ac_isa = ISA_RIGEL32,
      ac_cp0_names = mips_cp0_names_numeric, ac_cp0sel_names = [],
      ac_hwr_names = mips_hwr_names_numeric\<rparr>,
    \<lparr>ac_name = ''sb1'', ac_mach_valid = True, ac_mach = 12310201, ac_processor = CPU_SB1,
      ac_isa = ISA_MIPS64 OR INSN_MIPS3D OR INSN_SB1,
      ac_cp0_names = mips_cp0_names_sb1, ac_cp0sel_names = mips_cp0sel_names_sb1,
      ac_hwr_names = mips_hwr_names_numeric\<rparr>,
    \<lparr>ac_name = '''', ac_mach_valid = True, ac_mach = 16, ac_processor = CPU_MIPS16,
      ac_isa = ISA_MIPS3 OR INSN_MIPS16,
      ac_cp0_names = mips_cp0_names_numeric, ac_cp0sel_names = [],
      ac_hwr_names = mips_hwr_names_numeric\<rparr>]"

end
