(* ===== verification/Dis_Options.thy ===== *)
theory Dis_Options
  imports Dis_Names
begin

text \<open>
  The static state of the disassembler (\<open>opcodes/mips-dis.c\<close>) and the options that set it: the
  processor and ISA, the register names in use, the cache of the last architecture looked up, and
  the table of first entries that \<open>print_insn_mips\<close> builds once. The operations are
  \<open>choose_abi_by_name\<close>, \<open>choose_arch_by_name\<close>, \<open>choose_arch_by_number\<close>,
  \<open>set_default_mips_dis_options\<close>, \<open>parse_mips_dis_option\<close> and \<open>parse_mips_dis_options\<close>.

  The lemmas show the invariant that keeps every later read of a name in bounds, that the cache
  never changes an answer, and that the parser, which walks over the whole option string with
  pointers, does what an option by option specification says.
\<close>

section \<open>State\<close>

record dis_state =
  mips_processor :: int
  mips_isa :: ulong
  mips_gpr_names :: "cstring list"
  mips_fpr_names :: "cstring list"
  mips_cp0_names :: "cstring list"
  mips_cp0sel_names :: "mips_cp0sel_name list"
  mips_hwr_names :: "cstring list"
  no_aliases :: bool
  hint_bfd_mach :: ulong
  hint_arch_choice :: "mips_arch_choice option"
  mips_hash :: "nat option list option"

text \<open>What \<open>struct disassemble_info\<close> tells about the file: its flavour, the ELF header of the
  section's owner (\<open>None\<close> when there is no section), the machine and the options.\<close>

datatype bfd_flavour = bfd_target_unknown_flavour | bfd_target_elf_flavour | bfd_target_other_flavour

record elf_header =
  e_class64 :: bool
  e_flags :: uint

record dis_file =
  di_flavour :: bfd_flavour
  di_header :: "elf_header option"
  di_mach :: ulong
  di_options :: "cstring option"

section \<open>Choices\<close>

definition choose_abi_by_name :: "cstring \<Rightarrow> nat \<Rightarrow> mips_abi_choice option" where
  "choose_abi_by_name name namelen =
     List.find (\<lambda>c. strncmp_eq (abi_name c) name namelen \<and> length (abi_name c) = namelen)
       mips_abi_choices"

definition choose_arch_by_name :: "cstring \<Rightarrow> nat \<Rightarrow> mips_arch_choice option" where
  "choose_arch_by_name name namelen =
     List.find (\<lambda>c. strncmp_eq (ac_name c) name namelen \<and> length (ac_name c) = namelen)
       mips_arch_choices"

text \<open>The loop of \<open>choose_arch_by_number\<close> without its cache.\<close>

definition scan_arch_by_number :: "ulong \<Rightarrow> mips_arch_choice option" where
  "scan_arch_by_number mach =
     List.find (\<lambda>c. ac_mach_valid c \<and> ac_mach c = mach) mips_arch_choices"

definition choose_arch_by_number ::
    "ulong \<Rightarrow> dis_state \<Rightarrow> mips_arch_choice option \<times> dis_state" where
  "choose_arch_by_number mach st =
     (case hint_arch_choice st of
        Some h \<Rightarrow>
          if hint_bfd_mach st = mach \<and> ac_mach h = hint_bfd_mach st then (Some h, st)
          else (case scan_arch_by_number mach of
                  None \<Rightarrow> (None, st)
                | Some c \<Rightarrow> (Some c, st\<lparr>hint_bfd_mach := mach, hint_arch_choice := Some c\<rparr>))
      | None \<Rightarrow>
          (case scan_arch_by_number mach of
             None \<Rightarrow> (None, st)
           | Some c \<Rightarrow> (Some c, st\<lparr>hint_bfd_mach := mach, hint_arch_choice := Some c\<rparr>)))"

definition EF_MIPS_ABI2 :: uint where [rigel_const]: "EF_MIPS_ABI2 = 0x00000020"

definition is_newabi :: "elf_header \<Rightarrow> bool" where
  "is_newabi header \<longleftrightarrow> e_class64 header \<or> e_flags header AND EF_MIPS_ABI2 \<noteq> 0"

section \<open>Defaults\<close>

definition set_default_mips_dis_options :: "dis_file \<Rightarrow> dis_state \<Rightarrow> dis_state" where
  "set_default_mips_dis_options info st =
     (let st1 = st\<lparr>mips_isa := ISA_MIPS3, mips_processor := CPU_R3000,
            mips_gpr_names := mips_gpr_names_rigel, mips_fpr_names := mips_fpr_names_numeric,
            mips_cp0_names := mips_cp0_names_numeric, mips_cp0sel_names := [],
            mips_hwr_names := mips_hwr_names_numeric, no_aliases := False\<rparr>;
          st2 = (case di_header info of
             Some header \<Rightarrow>
               if di_flavour info = bfd_target_elf_flavour \<and> is_newabi header
               then st1\<lparr>mips_gpr_names := mips_gpr_names_newabi\<rparr> else st1
           | None \<Rightarrow> st1)
      in case choose_arch_by_number (di_mach info) st2 of
           (None, st3) \<Rightarrow> st3
         | (Some c, st3) \<Rightarrow> st3\<lparr>mips_processor := ac_processor c, mips_isa := ac_isa c,
              mips_cp0_names := ac_cp0_names c, mips_cp0sel_names := ac_cp0sel_names c,
              mips_hwr_names := ac_hwr_names c\<rparr>)"

section \<open>The option parser\<close>

text \<open>The five settings that take a value. \<open>val\<close> points into the option string, which goes on
  after the \<open>vallen\<close> characters of the value.\<close>

definition set_gpr_names :: "cstring \<Rightarrow> nat \<Rightarrow> dis_state \<Rightarrow> dis_state" where
  "set_gpr_names val vallen st = (case choose_abi_by_name val vallen of
     None \<Rightarrow> st | Some c \<Rightarrow> st\<lparr>mips_gpr_names := abi_gpr_names c\<rparr>)"

definition set_fpr_names :: "cstring \<Rightarrow> nat \<Rightarrow> dis_state \<Rightarrow> dis_state" where
  "set_fpr_names val vallen st = (case choose_abi_by_name val vallen of
     None \<Rightarrow> st | Some c \<Rightarrow> st\<lparr>mips_fpr_names := abi_fpr_names c\<rparr>)"

definition set_cp0_names :: "cstring \<Rightarrow> nat \<Rightarrow> dis_state \<Rightarrow> dis_state" where
  "set_cp0_names val vallen st = (case choose_arch_by_name val vallen of
     None \<Rightarrow> st
   | Some c \<Rightarrow> st\<lparr>mips_cp0_names := ac_cp0_names c, mips_cp0sel_names := ac_cp0sel_names c\<rparr>)"

definition set_hwr_names :: "cstring \<Rightarrow> nat \<Rightarrow> dis_state \<Rightarrow> dis_state" where
  "set_hwr_names val vallen st = (case choose_arch_by_name val vallen of
     None \<Rightarrow> st | Some c \<Rightarrow> st\<lparr>mips_hwr_names := ac_hwr_names c\<rparr>)"

definition set_reg_names :: "cstring \<Rightarrow> nat \<Rightarrow> dis_state \<Rightarrow> dis_state" where
  "set_reg_names val vallen st =
     (let st1 = (case choose_abi_by_name val vallen of
            None \<Rightarrow> st
          | Some c \<Rightarrow> st\<lparr>mips_gpr_names := abi_gpr_names c, mips_fpr_names := abi_fpr_names c\<rparr>)
      in case choose_arch_by_name val vallen of
           None \<Rightarrow> st1
         | Some c \<Rightarrow> st1\<lparr>mips_cp0_names := ac_cp0_names c,
             mips_cp0sel_names := ac_cp0sel_names c, mips_hwr_names := ac_hwr_names c\<rparr>)"

text \<open>\<open>strncmp (name, option, optionlen) == 0 && strlen (name) == optionlen\<close>.\<close>

definition option_is :: "cstring \<Rightarrow> cstring \<Rightarrow> nat \<Rightarrow> bool" where
  "option_is name opt optionlen \<longleftrightarrow> strncmp_eq name opt optionlen \<and> length name = optionlen"

text \<open>The name, if any, ends before the first \<open>=\<close> of the \<open>len\<close> characters.\<close>

definition parse_mips_dis_option :: "cstring \<Rightarrow> nat \<Rightarrow> dis_state \<Rightarrow> dis_state" where
  "parse_mips_dis_option opt len st =
     (if strncmp_eq opt ''no-aliases'' 10 then st\<lparr>no_aliases := True\<rparr>
      else
        (case find_index (\<lambda>c. c = CHR ''='') (take len opt) of
           None \<Rightarrow> st
         | Some i \<Rightarrow>
             if i = 0 \<or> i = len - 1 then st
             else
               (let val = drop (i + 1) opt; vallen = len - (i + 1) in
                if option_is ''gpr-names'' opt i then set_gpr_names val vallen st
                else if option_is ''fpr-names'' opt i then set_fpr_names val vallen st
                else if option_is ''cp0-names'' opt i then set_cp0_names val vallen st
                else if option_is ''hwr-names'' opt i then set_hwr_names val vallen st
                else if option_is ''reg-names'' opt i then set_reg_names val vallen st
                else st)))"

lemma rest_shorter [termination_simp]: "length (dropWhile P cs) < Suc (length cs)"
  by (rule le_imp_less_Suc [OF length_dropWhile_le])

fun parse_options_loop :: "cstring \<Rightarrow> dis_state \<Rightarrow> dis_state" where
  "parse_options_loop [] st = st"
| "parse_options_loop (c # cs) st =
     (if c = CHR '','' then parse_options_loop cs st
      else
        (let rest = dropWhile (\<lambda>d. d \<noteq> CHR '','') cs;
             len = length (c # cs) - length rest
         in parse_options_loop rest (parse_mips_dis_option (c # cs) len st)))"

definition parse_mips_dis_options :: "cstring option \<Rightarrow> dis_state \<Rightarrow> dis_state" where
  "parse_mips_dis_options options st =
     (case options of None \<Rightarrow> st | Some s \<Rightarrow> parse_options_loop s st)"

definition lookup_mips_cp0sel_name ::
    "mips_cp0sel_name list \<Rightarrow> ulong \<Rightarrow> ulong \<Rightarrow> mips_cp0sel_name option" where
  "lookup_mips_cp0sel_name names reg sel =
     List.find (\<lambda>n. cp0reg n = reg \<and> cp0sel n = sel) names"

section \<open>The tables are large enough\<close>

definition names_ok :: "dis_state \<Rightarrow> bool" where
  "names_ok st \<longleftrightarrow> 32 \<le> length (mips_gpr_names st) \<and> length (mips_fpr_names st) = 32
     \<and> length (mips_cp0_names st) = 32 \<and> length (mips_hwr_names st) = 32"

lemma find_member: "List.find P xs = Some x \<Longrightarrow> x \<in> set xs \<and> P x"
  by (auto simp: find_Some_iff)

lemma abi_tables:
  "c \<in> set mips_abi_choices \<Longrightarrow> 32 \<le> length (abi_gpr_names c) \<and> length (abi_fpr_names c) = 32"
  by (auto simp: mips_abi_choices_def mips_gpr_names_numeric_def mips_gpr_names_newabi_def
      mips_fpr_names_numeric_def mips_fpr_names_32_def mips_fpr_names_n32_def)

lemma cp0_tables:
  "length mips_cp0_names_numeric = 32" "length mips_cp0_names_mips3264 = 32"
  "length mips_cp0_names_mips3264r2 = 32" "length mips_cp0_names_sb1 = 32"
  "length mips_hwr_names_numeric = 32" "length mips_hwr_names_mips3264r2 = 32"
  "length mips_gpr_names_rigel = 32" "length mips_gpr_names_newabi = 32"
  "length mips_fpr_names_numeric = 32"
  by (simp_all add: mips_cp0_names_numeric_def mips_cp0_names_mips3264_def
      mips_cp0_names_mips3264r2_def mips_cp0_names_sb1_def mips_hwr_names_numeric_def
      mips_hwr_names_mips3264r2_def mips_gpr_names_rigel_def mips_gpr_names_newabi_def
      mips_fpr_names_numeric_def)

definition arch_ok :: "mips_arch_choice \<Rightarrow> bool" where
  "arch_ok c \<longleftrightarrow> length (ac_cp0_names c) = 32 \<and> length (ac_hwr_names c) = 32"

lemma arch_tables: "list_all arch_ok mips_arch_choices"
  unfolding mips_arch_choices_def list.pred_inject arch_ok_def
  by (simp add: cp0_tables)

lemma choose_abi_ok:
  "choose_abi_by_name n k = Some c \<Longrightarrow> 32 \<le> length (abi_gpr_names c) \<and> length (abi_fpr_names c) = 32"
  using find_member [of _ mips_abi_choices c] abi_tables [of c] by (simp add: choose_abi_by_name_def)

lemma choose_arch_ok: "choose_arch_by_name n k = Some c \<Longrightarrow> arch_ok c"
  using find_member [of _ mips_arch_choices c] arch_tables
  by (simp add: choose_arch_by_name_def list_all_iff)

lemma scan_arch_ok: "scan_arch_by_number m = Some c \<Longrightarrow> arch_ok c \<and> ac_mach c = m"
  using arch_tables
  by (auto dest!: find_member simp: scan_arch_by_number_def list_all_iff)

section \<open>The cache never changes an answer\<close>

definition hint_ok :: "dis_state \<Rightarrow> bool" where
  "hint_ok st \<longleftrightarrow> (case hint_arch_choice st of None \<Rightarrow> True
     | Some h \<Rightarrow> scan_arch_by_number (hint_bfd_mach st) = Some h)"

lemma choose_arch_by_number_scan:
  assumes "hint_ok st"
  shows "fst (choose_arch_by_number mach st) = scan_arch_by_number mach"
    "hint_ok (snd (choose_arch_by_number mach st))"
    "names_ok st \<Longrightarrow> names_ok (snd (choose_arch_by_number mach st))"
  using assms
  by (auto simp: choose_arch_by_number_def hint_ok_def names_ok_def split: option.splits)

text \<open>C31: the cache of \<open>choose_arch_by_number\<close> is transparent. Whenever the remembered choice is the
  one the scan finds for the remembered machine, a lookup of any machine returns what the scan of
  the table returns, and leaves the cache in that condition.\<close>

theorem arch_cache_transparent:
  assumes "hint_ok st"
  shows "fst (choose_arch_by_number mach st) = scan_arch_by_number mach
    \<and> hint_ok (snd (choose_arch_by_number mach st))"
  using choose_arch_by_number_scan [OF assms] by blast

text \<open>The state before the first call: static variables are zero.\<close>

definition initial_dis_state :: dis_state where
  "initial_dis_state = \<lparr>mips_processor = 0, mips_isa = 0, mips_gpr_names = [],
     mips_fpr_names = [], mips_cp0_names = [], mips_cp0sel_names = [], mips_hwr_names = [],
     no_aliases = False, hint_bfd_mach = 0, hint_arch_choice = None, mips_hash = None\<rparr>"

lemma initial_hint_ok: "hint_ok initial_dis_state"
  by (simp add: hint_ok_def initial_dis_state_def)

theorem arch_cache_transparent_witness:
  "fst (choose_arch_by_number 1983 (snd (choose_arch_by_number 1983 initial_dis_state)))
   = scan_arch_by_number 1983"
  using arch_cache_transparent [of "snd (choose_arch_by_number 1983 initial_dis_state)" 1983]
    choose_arch_by_number_scan(2) [OF initial_hint_ok, of 1983] by blast

section \<open>Invariants of the operations\<close>

lemmas set_names_defs = set_gpr_names_def set_fpr_names_def set_cp0_names_def set_hwr_names_def
  set_reg_names_def

lemma set_names_ok:
  assumes "names_ok st"
  shows "names_ok (set_gpr_names v n st)" "names_ok (set_fpr_names v n st)"
    "names_ok (set_cp0_names v n st)" "names_ok (set_hwr_names v n st)"
    "names_ok (set_reg_names v n st)"
  using assms choose_abi_ok [of v n] choose_arch_ok [of v n]
  by (cases "choose_abi_by_name v n"; cases "choose_arch_by_name v n";
      simp add: set_names_defs names_ok_def arch_ok_def Let_def)+

lemma hint_ok_cong:
  "hint_arch_choice s = hint_arch_choice t \<Longrightarrow> hint_bfd_mach s = hint_bfd_mach t \<Longrightarrow> hint_ok s = hint_ok t"
  by (simp add: hint_ok_def split: option.split)

lemma set_names_hint:
  "hint_ok (set_gpr_names v n st) = hint_ok st" "hint_ok (set_fpr_names v n st) = hint_ok st"
  "hint_ok (set_cp0_names v n st) = hint_ok st" "hint_ok (set_hwr_names v n st) = hint_ok st"
  "hint_ok (set_reg_names v n st) = hint_ok st"
  by (rule hint_ok_cong; simp add: set_names_defs Let_def split: option.split)+

lemma no_aliases_irrelevant [simp]:
  "names_ok (st\<lparr>no_aliases := b\<rparr>) = names_ok st" "hint_ok (st\<lparr>no_aliases := b\<rparr>) = hint_ok st"
  by (simp_all add: names_ok_def hint_ok_def split: option.split)

lemma parse_option_ok:
  "names_ok st \<Longrightarrow> names_ok (parse_mips_dis_option opt len st)"
  "hint_ok (parse_mips_dis_option opt len st) = hint_ok st"
   apply (simp add: parse_mips_dis_option_def Let_def set_names_ok split: option.split)
  by (simp add: parse_mips_dis_option_def Let_def set_names_hint split: option.split)

lemma parse_loop_ok:
  "names_ok st \<Longrightarrow> names_ok (parse_options_loop s st)"
  "hint_ok (parse_options_loop s st) = hint_ok st"
  by (induction s st rule: parse_options_loop.induct) (simp_all add: Let_def parse_option_ok)

lemma set_default_ok:
  assumes "hint_ok st"
  shows "names_ok (set_default_mips_dis_options info st)"
    "hint_ok (set_default_mips_dis_options info st)"
proof -
  let ?st1 = "st\<lparr>mips_isa := ISA_MIPS3, mips_processor := CPU_R3000,
            mips_gpr_names := mips_gpr_names_rigel, mips_fpr_names := mips_fpr_names_numeric,
            mips_cp0_names := mips_cp0_names_numeric, mips_cp0sel_names := [],
            mips_hwr_names := mips_hwr_names_numeric, no_aliases := False\<rparr>"
  define st2 where "st2 = (case di_header info of
             Some header \<Rightarrow>
               if di_flavour info = bfd_target_elf_flavour \<and> is_newabi header
               then ?st1\<lparr>mips_gpr_names := mips_gpr_names_newabi\<rparr> else ?st1
           | None \<Rightarrow> ?st1)"
  have st2: "hint_ok st2" "names_ok st2"
    using assms by (auto simp: st2_def hint_ok_def names_ok_def cp0_tables split: option.split)
  obtain c st3 where c: "choose_arch_by_number (di_mach info) st2 = (c, st3)" by fastforce
  then have "c = scan_arch_by_number (di_mach info)" "hint_ok st3" "names_ok st3"
    using choose_arch_by_number_scan [OF st2(1), of "di_mach info"] st2(2) by auto
  then show "names_ok (set_default_mips_dis_options info st)"
    "hint_ok (set_default_mips_dis_options info st)"
    using c scan_arch_ok [of "di_mach info"]
    by (auto simp: set_default_mips_dis_options_def Let_def st2_def [symmetric] arch_ok_def
        names_ok_def hint_ok_def split: option.split)
qed

text \<open>C29: after the defaults are set and any options are parsed, whatever the file and whatever the
  option string, every table of register names in use has at least the 32 names that a five bit
  field can select, and the architecture cache is sound; so no name is ever read out of bounds.\<close>

theorem dis_options_invariant:
  assumes "hint_ok st"
  shows "names_ok (parse_mips_dis_options options (set_default_mips_dis_options info st))
    \<and> hint_ok (parse_mips_dis_options options (set_default_mips_dis_options info st))"
  using set_default_ok [OF assms] by (simp add: parse_mips_dis_options_def parse_loop_ok split: option.split)

theorem dis_options_invariant_witness:
  "names_ok (parse_mips_dis_options (Some ''reg-names=n32,,cp0-names=sb1'')
     (set_default_mips_dis_options \<lparr>di_flavour = bfd_target_elf_flavour, di_header = None,
        di_mach = 1983, di_options = None\<rparr> initial_dis_state))"
  using dis_options_invariant [OF initial_hint_ok] by blast

lemma rigel_default_state:
  assumes "hint_ok st" and "di_mach info = 1983"
    and "\<forall>h. di_header info = Some h \<longrightarrow> \<not> is_newabi h"
  shows "mips_isa (set_default_mips_dis_options info st) = ISA_RIGEL32
    \<and> mips_processor (set_default_mips_dis_options info st) = CPU_RIGEL32
    \<and> mips_gpr_names (set_default_mips_dis_options info st) = mips_gpr_names_rigel
    \<and> no_aliases (set_default_mips_dis_options info st) = False"
proof -
  let ?st1 = "st\<lparr>mips_isa := ISA_MIPS3, mips_processor := CPU_R3000,
            mips_gpr_names := mips_gpr_names_rigel, mips_fpr_names := mips_fpr_names_numeric,
            mips_cp0_names := mips_cp0_names_numeric, mips_cp0sel_names := [],
            mips_hwr_names := mips_hwr_names_numeric, no_aliases := False\<rparr>"
  have h: "hint_ok ?st1" using assms(1) by (rule hint_ok_cong [THEN iffD2, rotated 2]) simp_all
  obtain c st3 where c: "choose_arch_by_number 1983 ?st1 = (c, st3)" by fastforce
  then have "c = scan_arch_by_number 1983" using choose_arch_by_number_scan(1) [OF h, of 1983] by simp
  moreover have "\<exists>a. scan_arch_by_number 1983 = Some a \<and> ac_isa a = ISA_RIGEL32
      \<and> ac_processor a = CPU_RIGEL32"
    by (simp add: scan_arch_by_number_def mips_arch_choices_def)
  moreover have "mips_gpr_names st3 = mips_gpr_names_rigel \<and> no_aliases st3 = False"
    using c by (auto simp: choose_arch_by_number_def split: option.splits if_splits)
  ultimately show ?thesis
    using assms(2,3) c
    by (auto simp: set_default_mips_dis_options_def Let_def split: option.split)
qed

text \<open>An object for the machine \<open>bfd_mach_mipsrigel32\<close> that does not follow a new ABI is
  disassembled as Rigel code: the Rigel ISA and processor, the Rigel register names, and aliases
  allowed.\<close>

theorem rigel_defaults:
  assumes "hint_ok st" and "di_mach info = 1983"
    and "\<forall>h. di_header info = Some h \<longrightarrow> \<not> is_newabi h"
  shows "mips_isa (set_default_mips_dis_options info st) = ISA_RIGEL32
    \<and> mips_processor (set_default_mips_dis_options info st) = CPU_RIGEL32
    \<and> mips_gpr_names (set_default_mips_dis_options info st) = mips_gpr_names_rigel
    \<and> no_aliases (set_default_mips_dis_options info st) = False"
  using assms by (rule rigel_default_state)

theorem rigel_defaults_witness:
  "mips_isa (set_default_mips_dis_options \<lparr>di_flavour = bfd_target_elf_flavour,
     di_header = Some \<lparr>e_class64 = False, e_flags = 0x70000000\<rparr>, di_mach = 1983,
     di_options = None\<rparr> initial_dis_state) = ISA_RIGEL32"
  by (rule rigel_defaults [THEN conjunct1])
     (simp_all add: initial_hint_ok is_newabi_def EF_MIPS_ABI2_def)

text \<open>The entry \<open>rm9000\<close> of the architecture table carries the machine number of \<open>rm7000\<close>, so
  no object for machine 9000 selects it, and the objects for machine 7000 get the entry
  \<open>rm7000\<close>; only its name reaches it.\<close>

theorem rm9000_unreachable_by_number:
  "scan_arch_by_number 9000 = None \<and> map_option ac_name (scan_arch_by_number 7000) = Some ''rm7000''
   \<and> map_option ac_mach (choose_arch_by_name ''rm9000'' 6) = Some 7000"
  by (simp add: scan_arch_by_number_def choose_arch_by_name_def strncmp_eq_def mips_arch_choices_def)

section \<open>The parser refines an option by option specification\<close>

text \<open>One option on its own, and a list of options joined by commas.\<close>

definition apply_option :: "cstring \<Rightarrow> dis_state \<Rightarrow> dis_state" where
  "apply_option tok st = parse_mips_dis_option tok (length tok) st"

fun join_options :: "cstring list \<Rightarrow> cstring" where
  "join_options [] = []"
| "join_options [t] = t"
| "join_options (t # ts) = t @ CHR '','' # join_options ts"

text \<open>Reading on after the option, up to a comma, makes no difference.\<close>

definition stops :: "cstring \<Rightarrow> bool" where
  "stops rest \<longleftrightarrow> rest = [] \<or> hd rest = CHR '',''"

lemma choose_abi_rest: "choose_abi_by_name (v @ r) (length v) = choose_abi_by_name v (length v)"
  by (simp add: choose_abi_by_name_def strncmp_eq_def)

lemma choose_arch_rest: "choose_arch_by_name (v @ r) (length v) = choose_arch_by_name v (length v)"
  by (simp add: choose_arch_by_name_def strncmp_eq_def)

lemma set_names_rest:
  "set_gpr_names (v @ r) (length v) st = set_gpr_names v (length v) st"
  "set_fpr_names (v @ r) (length v) st = set_fpr_names v (length v) st"
  "set_cp0_names (v @ r) (length v) st = set_cp0_names v (length v) st"
  "set_hwr_names (v @ r) (length v) st = set_hwr_names v (length v) st"
  "set_reg_names (v @ r) (length v) st = set_reg_names v (length v) st"
  by (simp_all add: set_names_defs choose_abi_rest choose_arch_rest)

lemma prefix_rest:
  assumes "stops rest" and "CHR '','' \<notin> set p"
  shows "take (length p) (t @ rest) = p \<longleftrightarrow> take (length p) t = p"
proof (cases "length p \<le> length t")
  case False
  have "take (length p) (t @ rest) \<noteq> p"
  proof
    assume eq: "take (length p) (t @ rest) = p"
    then have "rest \<noteq> []" using False by auto
    then have "hd rest = CHR '',''" using assms(1) by (simp add: stops_def)
    moreover have "p ! length t = (t @ rest) ! length t" using eq False by (metis not_le nth_take)
    ultimately have "p ! length t = CHR '',''" using \<open>rest \<noteq> []\<close> by (simp add: nth_append hd_conv_nth)
    then show False using assms(2) False by (metis not_le nth_mem)
  qed
  then show ?thesis using False by auto
qed simp

lemma parse_option_rest:
  assumes "stops rest"
  shows "parse_mips_dis_option (t @ rest) (length t) st = apply_option t st"
proof -
  have na: "strncmp_eq (t @ rest) ''no-aliases'' 10 \<longleftrightarrow> strncmp_eq t ''no-aliases'' 10"
  proof -
    have len: "(10 :: nat) = length ''no-aliases''" by simp
    have "CHR '','' \<notin> set ''no-aliases''" by simp
    from prefix_rest [OF assms this, of t] show ?thesis
      unfolding strncmp_eq_def len by (simp only: take_all [OF le_refl])
  qed
  show ?thesis
  proof (cases "find_index (\<lambda>c. c = CHR ''='') t")
    case None
    then show ?thesis by (simp add: apply_option_def parse_mips_dis_option_def na)
  next
    case (Some i)
    then have i: "i < length t" using find_index_SomeD by blast
    then have d: "drop (i + 1) (t @ rest) = drop (i + 1) t @ rest" by simp
    have o: "option_is nm (t @ rest) i = option_is nm t i" for nm
      using i by (simp add: option_is_def strncmp_eq_def)
    have l: "length t - (i + 1) = length (drop (i + 1) t)" by simp
    show ?thesis
      unfolding apply_option_def parse_mips_dis_option_def na o d Let_def
      by (simp only: take_all_iff append_eq_conv_conj take_append take_all le_refl Some option.case
          l diff_self_eq_0 take_0 append_Nil2) (simp only: o d set_names_rest)
  qed
qed

lemma parse_loop_token:
  assumes "t \<noteq> []" and "CHR '','' \<notin> set t" and "stops rest"
  shows "parse_options_loop (t @ rest) st = parse_options_loop rest (apply_option t st)"
proof -
  obtain c cs where t: "t = c # cs" using assms(1) by (cases t) auto
  have "dropWhile (\<lambda>d. d \<noteq> CHR '','') (cs @ rest) = rest"
    using assms(2,3) t by (cases rest) (auto simp: dropWhile_append3 stops_def dropWhile_eq_Nil_conv)
  moreover have "c \<noteq> CHR '',''" using assms(2) t by auto
  ultimately show ?thesis
    using t parse_option_rest [OF assms(3), of t st] by (simp add: Let_def)
qed

text \<open>C30: the option parser of the disassembler implements its option by option specification. On
  any list of strings without commas, joined by commas, the walk over the whole string has the
  effect of applying the non-empty strings one after the other, each on its own: it splits the
  options correctly, skips the empty ones, and what follows an option never influences it.\<close>

theorem parse_options_refines:
  assumes "\<forall>t\<in>set toks. CHR '','' \<notin> set t"
  shows "parse_mips_dis_options (Some (join_options toks)) st
    = fold apply_option (filter (\<lambda>t. t \<noteq> []) toks) st"
proof -
  have "parse_options_loop (join_options toks) st = fold apply_option (filter (\<lambda>t. t \<noteq> []) toks) st"
    using assms
  proof (induction toks arbitrary: st rule: join_options.induct)
    case (2 t)
    then show ?case using parse_loop_token [of t "[]" st] by (cases t) (simp_all add: stops_def)
  next
    case (3 t u ts)
    have rest: "stops (CHR '','' # join_options (u # ts))" by (simp add: stops_def)
    show ?case
    proof (cases "t = []")
      case True
      with 3 show ?thesis by simp
    next
      case False
      have "parse_options_loop (join_options (t # u # ts)) st
          = parse_options_loop (CHR '','' # join_options (u # ts)) (apply_option t st)"
        using parse_loop_token [OF False _ rest, of st] 3(2) by simp
      with False 3 show ?thesis by simp
    qed
  qed simp
  then show ?thesis by (simp add: parse_mips_dis_options_def)
qed

theorem parse_options_refines_witness:
  "parse_mips_dis_options (Some '',no-aliases,,gpr-names=n32'') initial_dis_state
   = fold apply_option [''no-aliases'', ''gpr-names=n32''] initial_dis_state"
  using parse_options_refines [of "[[], ''no-aliases'', [], ''gpr-names=n32'']" initial_dis_state]
  by simp

section \<open>What an option sets\<close>

lemma find_name: "List.find (\<lambda>c. strncmp_eq (nm c) v (length v) \<and> length (nm c) = length v) cs
    = List.find (\<lambda>c. nm c = v) cs"
  by (rule arg_cong [of _ _ "\<lambda>P. List.find P cs"]) (auto simp: strncmp_eq_def fun_eq_iff)

text \<open>The choices by name, as the specification has them: the entry of that name.\<close>

definition abi_named :: "cstring \<Rightarrow> mips_abi_choice option" where
  "abi_named v = List.find (\<lambda>c. abi_name c = v) mips_abi_choices"

definition arch_named :: "cstring \<Rightarrow> mips_arch_choice option" where
  "arch_named v = List.find (\<lambda>c. ac_name c = v) mips_arch_choices"

lemma choose_named:
  "choose_abi_by_name v (length v) = abi_named v"
  "choose_arch_by_name v (length v) = arch_named v"
  by (simp_all add: choose_abi_by_name_def choose_arch_by_name_def abi_named_def arch_named_def find_name)

lemma find_index_first: "x \<notin> set xs \<Longrightarrow> find_index (\<lambda>c. c = x) (xs @ x # ys) = Some (length xs)"
  by (induction xs) auto

lemma apply_option_setting:
  assumes "CHR ''='' \<notin> set nm" "nm \<noteq> []" "v \<noteq> []" and "\<not> strncmp_eq (nm @ CHR ''='' # v) ''no-aliases'' 10"
  shows "apply_option (nm @ CHR ''='' # v) st =
    (if nm = ''gpr-names'' then set_gpr_names v (length v) st
     else if nm = ''fpr-names'' then set_fpr_names v (length v) st
     else if nm = ''cp0-names'' then set_cp0_names v (length v) st
     else if nm = ''hwr-names'' then set_hwr_names v (length v) st
     else if nm = ''reg-names'' then set_reg_names v (length v) st
     else st)"
proof -
  have o: "option_is n (nm @ CHR ''='' # v) (length nm) \<longleftrightarrow> nm = n" for n
    by (auto simp: option_is_def strncmp_eq_def)
  show ?thesis
    unfolding apply_option_def parse_mips_dis_option_def
    using assms by (simp add: find_index_first o Let_def)
qed

text \<open>A setting selects the entry of the table that bears exactly the name given, and changes
  exactly the fields of that setting; \<open>reg-names\<close> selects by ABI and by architecture name; an
  unknown value leaves the state alone.\<close>

theorem option_selects_named_entry:
  assumes "v \<noteq> []"
  shows "apply_option (''gpr-names='' @ v) st = (case abi_named v of
        None \<Rightarrow> st | Some c \<Rightarrow> st\<lparr>mips_gpr_names := abi_gpr_names c\<rparr>)
    \<and> apply_option (''fpr-names='' @ v) st = (case abi_named v of
        None \<Rightarrow> st | Some c \<Rightarrow> st\<lparr>mips_fpr_names := abi_fpr_names c\<rparr>)
    \<and> apply_option (''cp0-names='' @ v) st = (case arch_named v of
        None \<Rightarrow> st
      | Some c \<Rightarrow> st\<lparr>mips_cp0_names := ac_cp0_names c, mips_cp0sel_names := ac_cp0sel_names c\<rparr>)
    \<and> apply_option (''hwr-names='' @ v) st = (case arch_named v of
        None \<Rightarrow> st | Some c \<Rightarrow> st\<lparr>mips_hwr_names := ac_hwr_names c\<rparr>)
    \<and> apply_option (''reg-names='' @ v) st =
        apply_option (''hwr-names='' @ v) (apply_option (''cp0-names='' @ v)
          (apply_option (''fpr-names='' @ v) (apply_option (''gpr-names='' @ v) st)))"
proof -
  note s = apply_option_setting [OF _ _ assms]
  have g: "apply_option (''gpr-names='' @ v) st = set_gpr_names v (length v) st"
    and f: "apply_option (''fpr-names='' @ v) st = set_fpr_names v (length v) st"
    and c: "apply_option (''cp0-names='' @ v) st = set_cp0_names v (length v) st"
    and h: "apply_option (''hwr-names='' @ v) st = set_hwr_names v (length v) st"
    and r: "apply_option (''reg-names='' @ v) st = set_reg_names v (length v) st" for st
    using s [of "''gpr-names''" st] s [of "''fpr-names''" st] s [of "''cp0-names''" st]
      s [of "''hwr-names''" st] s [of "''reg-names''" st]
    by (simp_all add: strncmp_eq_def)
  show ?thesis
    unfolding g f c h r
    by (cases "abi_named v"; cases "arch_named v"; simp add: set_names_defs choose_named)
qed

theorem option_selects_named_entry_witness:
  "apply_option ''gpr-names=nosuch'' initial_dis_state = initial_dis_state"
  using option_selects_named_entry [of "''nosuch''" initial_dis_state]
  by (simp add: abi_named_def mips_abi_choices_def)

end
