(* ===== verification/Dis_Insn.thy ===== *)
theory Dis_Insn
  imports Dis_Options Rigel_Isa
begin

text \<open>
  The disassembler for 32 bit instructions (\<open>opcodes/mips-dis.c\<close>): \<open>print_insn_args\<close>, whose switch
  over the operand letters is a table from letters to what they print, and \<open>print_insn_mips\<close>, which
  finds the entry of the opcode table that a word matches, starting at the first entry with the
  word's major opcode.

  What the disassembler prints through its callbacks is a list of events: text, and addresses
  (\<open>print_address_func\<close>). A read of a register name beyond the end of its table is \<open>Fault\<close>.
\<close>

section \<open>The information block\<close>

datatype dis_insn_type = dis_noninsn | dis_nonbranch | dis_branch | dis_condbranch | dis_jsr
  | dis_condjsr | dis_dref | dis_dref2

datatype bfd_endian = BFD_ENDIAN_BIG | BFD_ENDIAN_LITTLE | BFD_ENDIAN_UNKNOWN

datatype dis_event = Put cstring | Put_address ulong | Memory_error int ulong

record dis_info =
  i_file :: dis_file
  i_endian :: bfd_endian
  bytes_per_chunk :: int
  display_endian :: bfd_endian
  insn_info_valid :: bool
  branch_delay_insns :: int
  data_size :: int
  insn_type :: dis_insn_type
  i_target :: ulong
  i_target2 :: ulong
  i_stream :: "dis_event list"

definition put :: "cstring \<Rightarrow> dis_info \<Rightarrow> dis_info" where
  "put s info = info\<lparr>i_stream := i_stream info @ [Put s]\<rparr>"

definition put_address :: "ulong \<Rightarrow> dis_info \<Rightarrow> dis_info" where
  "put_address a info = info\<lparr>i_stream := i_stream info @ [Put_address a]\<rparr>"

text \<open>The conversions \<open>%lx\<close>, \<open>%ld\<close> of a field, \<open>%x\<close> and \<open>%d\<close> of an \<open>int\<close>.\<close>

definition fmt_lx :: "ulong \<Rightarrow> cstring" where "fmt_lx w = fmt_x (unat w)"
definition fmt_ld :: "ulong \<Rightarrow> cstring" where "fmt_ld w = fmt_d (sint w)"
definition fmt_int_x :: "uint \<Rightarrow> cstring" where "fmt_int_x w = fmt_x (unat w)"
definition fmt_int_d :: "uint \<Rightarrow> cstring" where "fmt_int_d w = fmt_d (sint w)"

section \<open>What the operand letters print\<close>

datatype dis_operand =
    D_punct                             \<comment> \<open>the letter itself\<close>
  | D_hex op_field                      \<comment> \<open>\<open>0x%lx\<close>\<close>
  | D_num cstring op_field              \<comment> \<open>a prefix and \<open>%ld\<close>\<close>
  | D_signed op_field uint uint         \<comment> \<open>\<open>%d\<close>, with the sign bit and the bits above the field\<close>
  | D_gpr op_field
  | D_gpr0
  | D_fpr op_field
  | D_hwr op_field
  | D_target
  | D_relative
  | D_rd_or_rt
  | D_cop_reg
  | D_cond_code

definition OP_OP_COP0 :: ulong where [rigel_const]: "OP_OP_COP0 = 0x10"

text \<open>The cases before, and after, the one for branch targets.\<close>

definition dis_operands_1 :: "(char \<times> dis_operand) list" where [rigel_tab]:
  "dis_operands_1 = [
    (CHR '','', D_punct), (CHR ''('', D_punct), (CHR '')'', D_punct),
    (CHR ''['', D_punct), (CHR '']'', D_punct),
    (CHR ''2'', D_hex F_BP), (CHR ''3'', D_hex F_SA3), (CHR ''4'', D_hex F_SA4),
    (CHR ''6'', D_hex F_RS), (CHR ''7'', D_num ''$ac'' F_DSPACC),
    (CHR ''8'', D_hex F_WRDSP), (CHR ''9'', D_num ''$ac'' F_DSPACC_S),
    (CHR ''0'', D_signed F_DSPSFT 0x20 (NOT 0x3f)),
    (CHR '':'', D_signed F_DSPSFT_7 0x40 (NOT 0x7f)),
    (CHR 0x27, D_hex F_RDDSP),
    (CHR ''@'', D_signed F_IMM10 0x200 (NOT 0x3ff)),
    (CHR ''!'', D_num '''' F_MT_U), (CHR ''$'', D_num '''' F_MT_H),
    (CHR ''*'', D_num ''$ac'' F_MTACC_T), (CHR ''&'', D_num ''$ac'' F_MTACC_D),
    (CHR ''g'', D_num ''$'' F_RD), (CHR ''V'', D_gpr F_RV),
    (CHR ''s'', D_gpr F_RS), (CHR ''b'', D_gpr F_RS), (CHR ''r'', D_gpr F_RS),
    (CHR ''t'', D_gpr F_RT), (CHR ''w'', D_gpr F_RT),
    (CHR ''q'', D_gpr F_RDspr), (CHR ''Q'', D_gpr F_RDspr2),
    (CHR ''i'', D_hex F_IMMEDIATE), (CHR ''u'', D_hex F_IMMEDIATE), (CHR ''5'', D_hex F_IMM5),
    (CHR ''j'', D_signed F_DELTA 0x8000 (NOT 0xffff)),
    (CHR ''o'', D_signed F_DELTA 0x8000 (NOT 0xffff)),
    (CHR ''h'', D_hex F_PREFX), (CHR ''k'', D_hex F_CACHE)]"

definition dis_operands_2 :: "(char \<times> dis_operand) list" where [rigel_tab]:
  "dis_operands_2 = [
    (CHR ''a'', D_target), (CHR ''p'', D_relative), (CHR ''d'', D_gpr F_RD),
    (CHR ''U'', D_rd_or_rt), (CHR ''z'', D_gpr0),
    (CHR ''<'', D_hex F_SHAMT), (CHR ''c'', D_hex F_CODE), (CHR ''C'', D_hex F_COPZ),
    (CHR ''B'', D_hex F_CODE20), (CHR ''J'', D_hex F_CODE19),
    (CHR ''S'', D_gpr F_RSspr), (CHR ''A'', D_gpr F_RA),
    (CHR ''T'', D_fpr F_FT), (CHR ''W'', D_fpr F_FT), (CHR ''D'', D_gpr F_WDimm),
    (CHR ''R'', D_fpr F_FR), (CHR ''E'', D_num ''$'' F_RT), (CHR ''G'', D_cop_reg),
    (CHR ''K'', D_hwr F_RD), (CHR ''N'', D_cond_code), (CHR ''M'', D_num ''$fcc'' F_CCC),
    (CHR ''P'', D_num '''' F_PERFREG), (CHR ''e'', D_num '''' F_VECBYTE),
    (CHR ''%'', D_num '''' F_VECALIGN), (CHR ''H'', D_num '''' F_SEL),
    (CHR ''O'', D_num '''' F_ALN), (CHR ''X'', D_num ''$v'' F_FD),
    (CHR ''Y'', D_num ''$v'' F_FS), (CHR ''Z'', D_num ''$v'' F_FT)]"

definition dis_operand_of :: "char \<Rightarrow> dis_operand option" where
  "dis_operand_of c = (case map_of dis_operands_1 c of
     Some d \<Rightarrow> Some d | None \<Rightarrow> map_of dis_operands_2 c)"

text \<open>\<open>delta\<close>, an \<open>int\<close>: the field, with all higher bits set when its sign bit is.\<close>

definition signed_field :: "op_field \<Rightarrow> uint \<Rightarrow> uint \<Rightarrow> ulong \<Rightarrow> uint" where
  "signed_field f sign high l =
     (let delta = ucast (op_get f l) in if delta AND sign \<noteq> 0 then delta OR high else delta)"

definition branch_target :: "ulong \<Rightarrow> ulong \<Rightarrow> ulong" where
  "branch_target l pc =
     scast (push_bit 2 (signed_field F_DELTA 0x8000 (NOT 0xffff) l)) + pc + 4"

definition jump_target :: "ulong \<Rightarrow> ulong \<Rightarrow> ulong" where
  "jump_target l pc = ((pc + 4) AND NOT 0x0fffffff) OR push_bit 2 (op_get F_TARGET l)"

definition put_name :: "cstring list \<Rightarrow> ulong \<Rightarrow> dis_info \<Rightarrow> dis_info option" where
  "put_name names r info = map_option (\<lambda>s. put s info) (nth_opt names (unat r))"

text \<open>The case \<open>'U'\<close>, for destinations that may be given in either of two fields.\<close>

definition print_rd_or_rt :: "dis_state \<Rightarrow> ulong \<Rightarrow> dis_info \<Rightarrow> dis_info option" where
  "print_rd_or_rt st l info =
     (let rd = op_get F_RD l; rt = op_get F_RT l; names = mips_gpr_names st in
      if rd = rt then put_name names rd info
      else if rd = 0 then put_name names rt info
      else if rt = 0 then put_name names rd info
      else Option.bind (nth_opt names (unat rd)) (\<lambda>a.
             map_option (\<lambda>b. put (a @ '' or '' @ b) info) (nth_opt names (unat rt))))"

definition print_operand ::
    "dis_state \<Rightarrow> mips_opcode \<Rightarrow> ulong \<Rightarrow> ulong \<Rightarrow> char \<Rightarrow> dis_operand \<Rightarrow> dis_info \<Rightarrow> dis_info option"
  where
  "print_operand st opp l pc c d info = (case d of
     D_punct \<Rightarrow> Some (put [c] info)
   | D_hex f \<Rightarrow> Some (put (''0x'' @ fmt_lx (op_get f l)) info)
   | D_num pre f \<Rightarrow> Some (put (pre @ fmt_ld (op_get f l)) info)
   | D_signed f sign high \<Rightarrow> Some (put (fmt_int_d (signed_field f sign high l)) info)
   | D_gpr f \<Rightarrow> put_name (mips_gpr_names st) (op_get f l) info
   | D_gpr0 \<Rightarrow> put_name (mips_gpr_names st) 0 info
   | D_fpr f \<Rightarrow> put_name (mips_fpr_names st) (op_get f l) info
   | D_hwr f \<Rightarrow> put_name (mips_hwr_names st) (op_get f l) info
   | D_target \<Rightarrow>
       (let t = (if di_flavour (i_file info) = bfd_target_unknown_flavour \<and> op_name opp = ''jalx''
                 then jump_target l pc OR 1 else jump_target l pc)
        in Some (put_address t (info\<lparr>i_target := t\<rparr>)))
   | D_relative \<Rightarrow>
       (let t = branch_target l pc in Some (put_address t (info\<lparr>i_target := t\<rparr>)))
   | D_rd_or_rt \<Rightarrow> print_rd_or_rt st l info
   | D_cop_reg \<Rightarrow>
       if op_get F_OP l = OP_OP_COP0 then put_name (mips_cp0_names st) (op_get F_RD l) info
       else Some (put (''$'' @ fmt_ld (op_get F_RD l)) info)
   | D_cond_code \<Rightarrow>
       Some (put ((if op_pinfo opp AND (FP_D OR FP_S) \<noteq> 0 then ''$fcc'' else ''$cc'')
         @ fmt_ld (op_get F_BCC l)) info))"

section \<open>Extension letters\<close>

text \<open>The cases of the inner switch, after a \<open>+\<close>. One of them sets \<open>lsb\<close> for later ones.\<close>

datatype dis_ext_operand =
    X_msb uint             \<comment> \<open>size from the most significant bit, plus an offset\<close>
  | X_hex op_field
  | X_msbd uint            \<comment> \<open>size from \<open>msbd\<close>, plus an offset\<close>
  | X_none
  | X_lsb
  | X_cp0
  | X_cp0sel

definition dis_ext_operands :: "(char \<times> dis_ext_operand) list" where [rigel_tab]:
  "dis_ext_operands = [
    (CHR ''B'', X_msb 0), (CHR ''1'', X_hex F_UDI1), (CHR ''2'', X_hex F_UDI2),
    (CHR ''3'', X_hex F_UDI3), (CHR ''4'', X_hex F_UDI4),
    (CHR ''C'', X_msbd 0), (CHR ''H'', X_msbd 0), (CHR ''D'', X_none),
    (CHR ''E'', X_lsb), (CHR ''F'', X_msb 32), (CHR ''G'', X_msbd 32),
    (CHR ''t'', X_cp0), (CHR ''T'', X_cp0sel)]"

definition print_ext_operand :: "dis_state \<Rightarrow> ulong \<Rightarrow> uint \<Rightarrow> dis_ext_operand \<Rightarrow> dis_info
    \<Rightarrow> (uint \<times> dis_info) option" where
  "print_ext_operand st l lsb x info = (case x of
     X_msb n \<Rightarrow> Some (lsb, put (''0x'' @ fmt_int_x (ucast (op_get F_INSMSB l) + n - lsb + 1)) info)
   | X_hex f \<Rightarrow> Some (lsb, put (''0x'' @ fmt_lx (op_get f l)) info)
   | X_msbd n \<Rightarrow> Some (lsb, put (''0x'' @ fmt_int_x (ucast (op_get F_EXTMSBD l) + n + 1)) info)
   | X_none \<Rightarrow> Some (lsb, info)
   | X_lsb \<Rightarrow>
       (let lsb' = ucast (op_get F_SHAMT l) + 32 in Some (lsb', put (''0x'' @ fmt_int_x lsb') info))
   | X_cp0 \<Rightarrow> map_option (\<lambda>i. (lsb, i)) (put_name (mips_cp0_names st) (op_get F_RT l) info)
   | X_cp0sel \<Rightarrow>
       (let reg = op_get F_RT l; sel = op_get F_SEL l in
        case lookup_mips_cp0sel_name (mips_cp0sel_names st) reg sel of
          Some n \<Rightarrow> Some (lsb, put (cp0sel_text n) info)
        | None \<Rightarrow> Some (lsb, put (''$'' @ fmt_ld reg @ '','' @ fmt_ld sel) info)))"

section \<open>The operands of an instruction\<close>

fun print_insn_args :: "dis_state \<Rightarrow> mips_opcode \<Rightarrow> ulong \<Rightarrow> ulong \<Rightarrow> cstring \<Rightarrow> uint \<Rightarrow> dis_info
    \<Rightarrow> dis_info option" where
  "print_insn_args st opp l pc [] lsb info = Some info"
| "print_insn_args st opp l pc (c # d) lsb info =
     (if c = CHR ''+'' then
        (case d of
           [] \<Rightarrow> Some (put ''# internal error, incomplete extension sequence (+)'' info)
         | c' # d' \<Rightarrow>
             (case map_of dis_ext_operands c' of
                None \<Rightarrow> Some (put (''# internal error, undefined extension sequence (+''
                  @ [c'] @ '')'') info)
              | Some x \<Rightarrow>
                  (case print_ext_operand st l lsb x info of
                     None \<Rightarrow> None
                   | Some (lsb', info') \<Rightarrow> print_insn_args st opp l pc d' lsb' info')))
      else
        (case dis_operand_of c of
           None \<Rightarrow> Some (put (''# internal error, undefined modifier('' @ [c] @ '')'') info)
         | Some x \<Rightarrow>
             (case print_operand st opp l pc c x info of
                None \<Rightarrow> None
              | Some info' \<Rightarrow> print_insn_args st opp l pc d lsb info')))"

section \<open>One instruction\<close>

text \<open>The entries the scans consider, and the table of first entries by major opcode.\<close>

definition dis_candidate :: "bool \<Rightarrow> mips_opcode \<Rightarrow> bool" where
  "dis_candidate na opc \<longleftrightarrow> op_pinfo opc \<noteq> INSN_MACRO \<and> \<not> (na \<and> op_pinfo2 opc AND INSN2_ALIAS \<noteq> 0)"

definition build_mips_hash :: "mips_opcode list \<Rightarrow> bool \<Rightarrow> nat option list" where
  "build_mips_hash tab na =
     map (\<lambda>i. find_index (\<lambda>opc. dis_candidate na opc \<and> word_of_nat i = op_get F_OP (op_match opc)) tab)
       [0..<16]"

definition dis_selects :: "dis_state \<Rightarrow> ulong \<Rightarrow> mips_opcode \<Rightarrow> bool" where
  "dis_selects st w opc \<longleftrightarrow> dis_candidate (no_aliases st) opc \<and> opcode_matches opc w
     \<and> (OPCODE_IS_MEMBER opc (mips_isa st) (mips_processor st) \<or> op_name opc = ''jalx'')"

definition reset_info :: "int \<Rightarrow> dis_info \<Rightarrow> dis_info" where
  "reset_info chunk info = info\<lparr>bytes_per_chunk := chunk, display_endian := i_endian info,
     insn_info_valid := True, branch_delay_insns := 0, data_size := 0, insn_type := dis_nonbranch,
     i_target := 0, i_target2 := 0\<rparr>"

text \<open>The value of \<open>insn_type\<close> as the \<open>int\<close> of the enumeration, which the code tests for
  \<open>INSN_WRITE_GPR_31\<close>.\<close>

definition insn_type_value :: "dis_insn_type \<Rightarrow> ulong" where
  "insn_type_value t = (case t of dis_noninsn \<Rightarrow> 0 | dis_nonbranch \<Rightarrow> 1 | dis_branch \<Rightarrow> 2
     | dis_condbranch \<Rightarrow> 3 | dis_jsr \<Rightarrow> 4 | dis_condjsr \<Rightarrow> 5 | dis_dref \<Rightarrow> 6 | dis_dref2 \<Rightarrow> 7)"

definition classify_insn :: "mips_opcode \<Rightarrow> dis_info \<Rightarrow> dis_info" where
  "classify_insn opc info =
     (let p = op_pinfo opc; link = insn_type_value (insn_type info) AND INSN_WRITE_GPR_31 \<noteq> 0 in
      if p AND INSN_UNCOND_BRANCH_DELAY \<noteq> 0 then
        info\<lparr>insn_type := (if link then dis_jsr else dis_branch), branch_delay_insns := 1\<rparr>
      else if p AND (INSN_COND_BRANCH_DELAY OR INSN_COND_BRANCH_LIKELY) \<noteq> 0 then
        info\<lparr>insn_type := (if link then dis_condjsr else dis_condbranch), branch_delay_insns := 1\<rparr>
      else if p AND (INSN_STORE_MEMORY OR INSN_LOAD_MEMORY_DELAY) \<noteq> 0 then
        info\<lparr>insn_type := dis_dref\<rparr>
      else info)"

text \<open>The length is always \<open>INSNLEN\<close>; the second component is the result.\<close>

definition INSNLEN :: int where "INSNLEN = 4"

definition print_insn_mips :: "mips_opcode list \<Rightarrow> ulong \<Rightarrow> ulong \<Rightarrow> dis_state \<Rightarrow> dis_info
    \<Rightarrow> (int \<times> dis_state \<times> dis_info) option" where
  "print_insn_mips mips_opcodes memaddr w st0 info0 =
     (let hash = (case mips_hash st0 of None \<Rightarrow> build_mips_hash mips_opcodes (no_aliases st0)
                  | Some h \<Rightarrow> h);
          st = st0\<lparr>mips_hash := Some hash\<rparr>;
          info = reset_info INSNLEN info0;
          found = (case hash ! unat (op_get F_OP w) of
                     None \<Rightarrow> None
                   | Some k \<Rightarrow> List.find (dis_selects st w) (drop k mips_opcodes))
      in case found of
           None \<Rightarrow> Some (INSNLEN, st, put (''0x'' @ fmt_lx w) (info\<lparr>insn_type := dis_noninsn\<rparr>))
         | Some opc \<Rightarrow>
             (let info1 = put (op_name opc) (classify_insn opc info) in
              if op_args opc = [] then Some (INSNLEN, st, info1)
              else map_option (\<lambda>info2. (INSNLEN, st, info2))
                (print_insn_args st opc w memaddr (op_args opc) 0 (put '' '' info1))))"

end
