(* ===== verification/Dis_Rigel.thy ===== *)
theory Dis_Rigel
  imports Dis_Insn Opcode_Check
begin

text \<open>
  The disassembler of \<open>Dis_Insn\<close> on the Rigel table: it never reads a name out of bounds, its table
  of first entries loses no entry, every word is disassembled, and what the assembler encodes is
  printed back.
\<close>

section \<open>Names are read in bounds\<close>

text \<open>The operands whose field can select no more names than the smallest table has.\<close>

definition operand_in_bounds :: "dis_operand \<Rightarrow> bool" where
  "operand_in_bounds d \<longleftrightarrow> (case d of
     D_gpr f \<Rightarrow> unat (op_mask f) < 32 | D_fpr f \<Rightarrow> unat (op_mask f) < 32
   | D_hwr f \<Rightarrow> unat (op_mask f) < 32 | _ \<Rightarrow> True)"

lemma put_name_in_bounds: "unat r < length names \<Longrightarrow> \<exists>i. put_name names r info = Some i"
  by (simp add: put_name_def)

lemma field_in_bounds: "unat (op_mask f) < 32 \<Longrightarrow> unat (op_get f l) < 32"
  using op_get_bound [of f l] by simp

lemma print_operand_in_bounds:
  assumes "names_ok st" and "operand_in_bounds d"
  shows "print_operand st opp l pc c d info \<noteq> None"
proof -
  have n: "32 \<le> length (mips_gpr_names st)" "length (mips_fpr_names st) = 32"
    "length (mips_cp0_names st) = 32" "length (mips_hwr_names st) = 32"
    using assms(1) by (simp_all add: names_ok_def)
  have g: "unat r < 32 \<Longrightarrow> put_name (mips_gpr_names st) r i \<noteq> None" for r i
    using n by (simp add: put_name_def nth_opt_def)
  have rd: "print_rd_or_rt st l info \<noteq> None"
    using g n op_get_reg_bound [of l]
    by (simp add: print_rd_or_rt_def Let_def less_le_trans [OF _ n(1)])
  show ?thesis
  proof (cases d)
    case (D_gpr f)
    then show ?thesis
      using assms(2) g [OF field_in_bounds, of f] by (simp add: print_operand_def operand_in_bounds_def)
  next
    case (D_fpr f)
    then show ?thesis using assms(2) n field_in_bounds [of f l]
      by (simp add: print_operand_def operand_in_bounds_def put_name_def nth_opt_def)
  next
    case (D_hwr f)
    then show ?thesis using assms(2) n field_in_bounds [of f l]
      by (simp add: print_operand_def operand_in_bounds_def put_name_def nth_opt_def)
  next
    case D_cop_reg
    then show ?thesis using n op_get_reg_bound [of l]
      by (simp add: print_operand_def put_name_def nth_opt_def)
  next
    case D_gpr0
    then show ?thesis using g [of 0] by (simp add: print_operand_def)
  next
    case D_rd_or_rt
    then show ?thesis using rd by (simp add: print_operand_def)
  qed (simp_all add: print_operand_def Let_def)
qed

lemma print_ext_operand_in_bounds:
  assumes "names_ok st"
  shows "print_ext_operand st l lsb x info \<noteq> None"
  using assms op_get_reg_bound [of l]
  by (cases x) (simp_all add: print_ext_operand_def names_ok_def put_name_def nth_opt_def Let_def
      split: option.split)

text \<open>Every letter but \<open>D\<close> and \<open>q\<close>, whose fields have six bits.\<close>

lemma operands_in_bounds:
  assumes "dis_operand_of c = Some d" and "c \<noteq> CHR ''D''" and "c \<noteq> CHR ''q''"
  shows "operand_in_bounds d"
proof -
  have "list_all (\<lambda>(c, d). c \<noteq> CHR ''D'' \<and> c \<noteq> CHR ''q'' \<longrightarrow> operand_in_bounds d) dis_operands_1"
    "list_all (\<lambda>(c, d). c \<noteq> CHR ''D'' \<and> c \<noteq> CHR ''q'' \<longrightarrow> operand_in_bounds d) dis_operands_2"
    by (simp_all add: dis_operands_1_def dis_operands_2_def operand_in_bounds_def F_RV_def F_RS_def
        F_RT_def F_RDspr2_def F_RD_def F_RSspr_def F_RA_def F_FT_def F_FR_def)
  then show ?thesis
    using assms by (auto simp: dis_operand_of_def list_all_iff split: option.splits dest!: map_of_SomeD)
qed

lemma print_args_in_bounds:
  "names_ok st \<Longrightarrow> CHR ''D'' \<notin> set args \<Longrightarrow> CHR ''q'' \<notin> set args \<Longrightarrow>
     print_insn_args st opp l pc args lsb info \<noteq> None"
proof (induction st opp l pc args lsb info rule: print_insn_args.induct)
  case (2 st opp l pc c d lsb info)
  show ?case
  proof (cases "c = CHR ''+''")
    case True
    show ?thesis
    proof (cases d)
      case (Cons c' d')
      show ?thesis
      proof (cases "map_of dis_ext_operands c'")
        case (Some x)
        obtain y where y: "print_ext_operand st l lsb x info = Some y"
          using print_ext_operand_in_bounds [OF 2(3)] by blast
        then show ?thesis using 2(1) [OF True Cons Some y] 2(3-5) True Cons Some
          by (cases y) simp
      qed (use True Cons in simp)
    qed (use True in simp)
  next
    case False
    show ?thesis
    proof (cases "dis_operand_of c")
      case (Some x)
      then have "operand_in_bounds x" using operands_in_bounds [of c x] 2(4,5) by auto
      then obtain i where i: "print_operand st opp l pc c x info = Some i"
        using print_operand_in_bounds [OF 2(3)] by blast
      then show ?thesis using 2(2) [OF False Some i] 2(3-5) False Some by simp
    qed (use False in simp)
  qed
qed simp

section \<open>The table of first entries loses nothing\<close>

lemma nibble_range: "unat (op_get F_OP w) < 16"
  using op_get_bound [of F_OP w] by (simp add: F_OP_def)

definition covers_op :: "mips_opcode \<Rightarrow> bool" where
  "covers_op opc \<longleftrightarrow> op_msk opc AND push_bit 28 0xf = push_bit 28 0xf"

text \<open>The scan of \<open>print_insn_mips\<close> that starts at the table's first entry for the major opcode.\<close>

definition hashed_find :: "nat option list \<Rightarrow> mips_opcode list \<Rightarrow> dis_state \<Rightarrow> ulong \<Rightarrow> mips_opcode option" where
  "hashed_find hash tab st w = (case hash ! unat (op_get F_OP w) of
     None \<Rightarrow> None | Some k \<Rightarrow> List.find (dis_selects st w) (drop k tab))"

lemma hashed_find_linear:
  assumes "\<forall>opc\<in>set tab. covers_op opc" and "na \<longrightarrow> no_aliases st"
  shows "hashed_find (build_mips_hash tab na) tab st w = List.find (dis_selects st w) tab"
proof -
  let ?Q = "\<lambda>opc. dis_candidate na opc \<and> op_get F_OP w = op_get F_OP (op_match opc)"
  have h: "build_mips_hash tab na ! unat (op_get F_OP w) = find_index ?Q tab"
    using nibble_range [of w] by (simp add: build_mips_hash_def del: upt_rec_numeral)
  have sel: "?Q opc" if "opc \<in> set tab" "dis_selects st w opc" for opc
  proof -
    have "op_get F_OP w = op_get F_OP (op_match opc)"
      using that assms(1) by (intro matches_same_op) (simp_all add: dis_selects_def covers_op_def)
    then show ?thesis using that(2) assms(2) by (auto simp: dis_selects_def dis_candidate_def)
  qed
  show ?thesis
  proof (cases "find_index ?Q tab")
    case None
    then have "\<forall>opc\<in>set tab. \<not> dis_selects st w opc" using sel by (auto simp: find_index_None_iff)
    then have "List.find (dis_selects st w) tab = None" by (simp add: find_None_iff)
    with None show ?thesis by (simp add: hashed_find_def h)
  next
    case (Some k)
    note k = find_index_SomeD [OF Some]
    have "\<forall>opc\<in>set (take k tab). \<not> dis_selects st w opc"
    proof
      fix opc assume "opc \<in> set (take k tab)"
      then obtain j where j: "j < length (take k tab)" "opc = take k tab ! j"
        by (metis in_set_conv_nth)
      then have "j < k" "opc = tab ! j" by simp_all
      then have "\<not> ?Q opc" using k by blast
      moreover have "opc \<in> set tab" using \<open>opc \<in> set (take k tab)\<close> by (rule in_set_takeD)
      ultimately show "\<not> dis_selects st w opc" using sel by blast
    qed
    then have "List.find (dis_selects st w) (drop k tab) = List.find (dis_selects st w) tab"
      by (rule find_drop_prefix)
    with Some show ?thesis by (simp add: hashed_find_def h)
  qed
qed

lemma rigel_covers_op: "\<forall>opc\<in>set mips_builtin_opcodes. covers_op opc"
  using rigel_op_covered by (simp add: covers_op_def)

text \<open>The Rigel table has no aliases, so the table of first entries does not depend on the option
  \<open>no-aliases\<close> that was in force when it was built.\<close>

lemma rigel_candidate: "opc \<in> set mips_builtin_opcodes \<Longrightarrow> dis_candidate na opc"
  using rigel_plain [of opc] by (simp add: dis_candidate_def plain_rigel_def)

lemma find_index_cong:
  "(\<And>x. x \<in> set xs \<Longrightarrow> P x = Q x) \<Longrightarrow> find_index P xs = find_index Q xs"
  by (induction xs) auto

lemma rigel_hash_any_option:
  "build_mips_hash mips_builtin_opcodes na = build_mips_hash mips_builtin_opcodes False"
  unfolding build_mips_hash_def by (intro map_cong refl find_index_cong) (simp add: rigel_candidate)

definition rigel_hash_ok :: "dis_state \<Rightarrow> bool" where
  "rigel_hash_ok st \<longleftrightarrow> mips_hash st = None
     \<or> mips_hash st = Some (build_mips_hash mips_builtin_opcodes False)"

section \<open>The scan with the table of first entries is a linear scan\<close>

text \<open>The specification: the first entry of the whole table that the word selects is printed, and the
  word in hexadecimal when there is none.\<close>

definition print_found :: "ulong \<Rightarrow> ulong \<Rightarrow> dis_state \<Rightarrow> dis_info \<Rightarrow> mips_opcode option \<Rightarrow> dis_info option"
  where
  "print_found memaddr w st info found = (case found of
     None \<Rightarrow> Some (put (''0x'' @ fmt_lx w) (info\<lparr>insn_type := dis_noninsn\<rparr>))
   | Some opc \<Rightarrow>
       (let info1 = put (op_name opc) (classify_insn opc info) in
        if op_args opc = [] then Some info1
        else print_insn_args st opc w memaddr (op_args opc) 0 (put '' '' info1)))"

definition hash_of :: "mips_opcode list \<Rightarrow> dis_state \<Rightarrow> nat option list" where
  "hash_of tab st = (case mips_hash st of None \<Rightarrow> build_mips_hash tab (no_aliases st) | Some h \<Rightarrow> h)"

lemma print_insn_mips_found:
  "print_insn_mips tab memaddr w st info =
     map_option (\<lambda>i. (INSNLEN, st\<lparr>mips_hash := Some (hash_of tab st)\<rparr>, i))
       (print_found memaddr w (st\<lparr>mips_hash := Some (hash_of tab st)\<rparr>) (reset_info INSNLEN info)
         (hashed_find (hash_of tab st) tab (st\<lparr>mips_hash := Some (hash_of tab st)\<rparr>) w))"
  by (simp add: print_insn_mips_def print_found_def hashed_find_def hash_of_def Let_def
      split: option.split)

lemma dis_selects_hash [simp]: "dis_selects (st\<lparr>mips_hash := h\<rparr>) = dis_selects st"
  by (simp add: dis_selects_def fun_eq_iff)

lemma print_operand_hash [simp]:
  "print_operand (st\<lparr>mips_hash := h\<rparr>) opp l pc c d info = print_operand st opp l pc c d info"
  by (simp add: print_operand_def print_rd_or_rt_def split: dis_operand.split)

lemma print_ext_operand_hash [simp]:
  "print_ext_operand (st\<lparr>mips_hash := h\<rparr>) l lsb x info = print_ext_operand st l lsb x info"
  by (simp add: print_ext_operand_def split: dis_ext_operand.split)

lemma print_insn_args_hash [simp]:
  "print_insn_args (st\<lparr>mips_hash := h\<rparr>) opp l pc args lsb info = print_insn_args st opp l pc args lsb info"
proof (induction st opp l pc args lsb info rule: print_insn_args.induct)
  case (2 st opp l pc c d lsb info)
  then show ?case by (simp split: option.split list.split)
qed simp

lemma print_found_hash [simp]:
  "print_found pc w (st\<lparr>mips_hash := h\<rparr>) info found = print_found pc w st info found"
  by (simp add: print_found_def Let_def split: option.split)

text \<open>The hash table a state holds was built from the table, with \<open>no_aliases\<close> set only if it is
  still set.\<close>

definition hash_current :: "mips_opcode list \<Rightarrow> dis_state \<Rightarrow> bool" where
  "hash_current tab st \<longleftrightarrow> mips_hash st = None
     \<or> (\<exists>na. (na \<longrightarrow> no_aliases st) \<and> mips_hash st = Some (build_mips_hash tab na))"

lemma hash_of_current:
  "hash_current tab st \<Longrightarrow> \<exists>na. (na \<longrightarrow> no_aliases st) \<and> hash_of tab st = build_mips_hash tab na"
  unfolding hash_current_def hash_of_def by (elim disjE exE conjE) (simp, blast)+

lemma print_insn_mips_linear:
  assumes "\<forall>opc\<in>set tab. covers_op opc" and "hash_current tab st"
  shows "print_insn_mips tab memaddr w st info =
     map_option (\<lambda>i. (INSNLEN, st\<lparr>mips_hash := Some (hash_of tab st)\<rparr>, i))
       (print_found memaddr w st (reset_info INSNLEN info) (List.find (dis_selects st w) tab))"
proof -
  obtain na where na: "na \<longrightarrow> no_aliases st" "hash_of tab st = build_mips_hash tab na"
    using hash_of_current [OF assms(2)] by blast
  have "hashed_find (hash_of tab st) tab st w = List.find (dis_selects st w) tab"
    unfolding na(2) by (rule hashed_find_linear [OF assms(1) na(1)])
  moreover have "hashed_find h tab (st\<lparr>mips_hash := h'\<rparr>) w = hashed_find h tab st w" for h h'
    by (simp add: hashed_find_def split: option.split)
  ultimately show ?thesis by (simp only: print_insn_mips_found print_found_hash)
qed

section \<open>The Rigel table\<close>

definition dis_ready :: "dis_state \<Rightarrow> bool" where
  "dis_ready st \<longleftrightarrow> names_ok st \<and> rigel_hash_ok st \<and> mips_isa st AND INSN_RIGEL32 \<noteq> 0"

lemma rigel_hash_current: "rigel_hash_ok st \<Longrightarrow> hash_current mips_builtin_opcodes st"
  unfolding rigel_hash_ok_def hash_current_def by (elim disjE) (simp, intro disjI2 exI [of _ False], simp)

lemma rigel_hash_of: "rigel_hash_ok st \<Longrightarrow>
    hash_of mips_builtin_opcodes st = build_mips_hash mips_builtin_opcodes False"
  unfolding rigel_hash_ok_def hash_of_def using rigel_hash_any_option [of "no_aliases st"]
  by (elim disjE) simp_all

lemma ready_after:
  "dis_ready st \<Longrightarrow> dis_ready (st\<lparr>mips_hash := Some (hash_of mips_builtin_opcodes st)\<rparr>)"
  using rigel_hash_of [of st] by (simp add: dis_ready_def names_ok_def rigel_hash_ok_def)

lemma rigel_selects:
  assumes "opc \<in> set mips_builtin_opcodes" and "mips_isa st AND INSN_RIGEL32 \<noteq> 0"
  shows "dis_selects st w opc \<longleftrightarrow> opcode_matches opc w"
proof -
  have "OPCODE_IS_MEMBER opc (mips_isa st) (mips_processor st)"
    using rigel_plain [OF assms(1)] assms(2) by (simp add: plain_rigel_def OPCODE_IS_MEMBER_def and.commute)
  then show ?thesis using rigel_candidate [OF assms(1)] by (simp add: dis_selects_def)
qed

lemma find_cong_set:
  "(\<And>x. x \<in> set xs \<Longrightarrow> P x = Q x) \<Longrightarrow> List.find P xs = List.find Q xs"
  by (induction xs) auto

lemma rigel_find:
  assumes "mips_isa st AND INSN_RIGEL32 \<noteq> 0"
  shows "List.find (dis_selects st w) mips_builtin_opcodes =
    List.find (\<lambda>opc. opcode_matches opc w) mips_builtin_opcodes"
  by (rule find_cong_set) (simp add: rigel_selects assms)

lemma rigel_find_match:
  assumes "opc \<in> set mips_builtin_opcodes" and "opcode_matches opc w"
  shows "List.find (\<lambda>opc. opcode_matches opc w) mips_builtin_opcodes = Some opc"
proof (cases "List.find (\<lambda>opc. opcode_matches opc w) mips_builtin_opcodes")
  case None
  then show ?thesis using assms by (simp add: find_None_iff)
next
  case (Some opc')
  then show ?thesis using find_member [OF Some] rigel_entries_apart [OF assms(1)] assms(2) by blast
qed

lemma rigel_print_insn:
  assumes "dis_ready st"
  shows "print_insn_mips mips_builtin_opcodes pc w st info =
     map_option (\<lambda>i. (INSNLEN, st\<lparr>mips_hash := Some (hash_of mips_builtin_opcodes st)\<rparr>, i))
       (print_found pc w st (reset_info INSNLEN info)
          (List.find (\<lambda>opc. opcode_matches opc w) mips_builtin_opcodes))"
  using print_insn_mips_linear [OF rigel_covers_op rigel_hash_current] rigel_find assms
  by (simp add: dis_ready_def)

section \<open>Every word is disassembled\<close>

text \<open>The argument strings of the table.\<close>

definition rigel_args :: "cstring list" where
  "rigel_args = ['''', ''a'', ''d'', ''d,A'', ''d,i'', ''d,s,t'', ''d,s,t,A'', ''d,t'', ''d,t,5'',
     ''d,t,i'', ''d,t,j'', ''d,t,p'', ''p'', ''t'', ''t,p'']"

lemma rigel_args_all: "list_all (\<lambda>opc. op_args opc \<in> set rigel_args \<and> op_name opc \<noteq> ''jalx'') mips_builtin_opcodes"
  unfolding mips_builtin_opcodes_def list.pred_inject opcode_sel by (simp add: rigel_args_def)

lemma rigel_args_of: "opc \<in> set mips_builtin_opcodes \<Longrightarrow> op_args opc \<in> set rigel_args"
  and rigel_not_jalx: "opc \<in> set mips_builtin_opcodes \<Longrightarrow> op_name opc \<noteq> ''jalx''"
  using rigel_args_all by (simp_all add: list_all_iff)

lemma rigel_args_letters: "list_all (\<lambda>a. CHR ''D'' \<notin> set a \<and> CHR ''q'' \<notin> set a) rigel_args"
  by (simp add: rigel_args_def)

lemma put_stream [simp]: "i_stream (put s info) = i_stream info @ [Put s]"
  by (simp add: put_def)

lemma put_keeps [simp]: "insn_type (put s info) = insn_type info"
  "branch_delay_insns (put s info) = branch_delay_insns info" "i_file (put s info) = i_file info"
  by (simp_all add: put_def)

lemma put_name_keeps: "put_name names r info = Some i \<Longrightarrow> insn_type i = insn_type info"
  "put_name names r info = Some i \<Longrightarrow> \<exists>e. i_stream i = i_stream info @ e"
  by (auto simp: put_name_def)

lemma print_rd_or_rt_keeps: "print_rd_or_rt st l info = Some i \<Longrightarrow>
   insn_type i = insn_type info \<and> (\<exists>e. i_stream i = i_stream info @ e)"
  by (auto simp: print_rd_or_rt_def Let_def dest: put_name_keeps split: if_splits bind_splits)

lemma print_operand_keeps:
  assumes "print_operand st opp l pc c d info = Some i"
  shows "insn_type i = insn_type info \<and> (\<exists>e. i_stream i = i_stream info @ e)"
  using assms by (cases d) (auto simp: print_operand_def put_address_def Let_def
    dest: put_name_keeps print_rd_or_rt_keeps split: if_splits)

lemma print_ext_operand_keeps:
  assumes "print_ext_operand st l lsb x info = Some (lsb', i)"
  shows "insn_type i = insn_type info \<and> (\<exists>e. i_stream i = i_stream info @ e)"
  using assms by (cases x) (auto simp: print_ext_operand_def Let_def
    dest: put_name_keeps split: option.splits)

lemma print_insn_args_keeps:
  "print_insn_args st opp l pc args lsb info = Some i \<Longrightarrow>
     insn_type i = insn_type info \<and> (\<exists>e. i_stream i = i_stream info @ e)"
proof (induction st opp l pc args lsb info rule: print_insn_args.induct)
  case (2 st opp l pc c d lsb info)
  show ?case
  proof (cases "c = CHR ''+''")
    case True
    show ?thesis
    proof (cases d)
      case (Cons c' d')
      show ?thesis
      proof (cases "map_of dis_ext_operands c'")
        case (Some x)
        then obtain lsb' i' where e: "print_ext_operand st l lsb x info = Some (lsb', i')"
          "print_insn_args st opp l pc d' lsb' i' = Some i"
          using 2(3) True Cons by (auto split: option.splits)
        show ?thesis
          using 2(1) [OF True Cons Some e(1) refl e(2)] print_ext_operand_keeps [OF e(1)] by auto
      qed (use True Cons 2(3) in auto)
    qed (use True 2(3) in auto)
  next
    case False
    show ?thesis
    proof (cases "dis_operand_of c")
      case (Some x)
      then obtain i' where e: "print_operand st opp l pc c x info = Some i'"
          "print_insn_args st opp l pc d lsb i' = Some i"
        using 2(3) False by (auto split: option.splits)
      show ?thesis using 2(2) [OF False Some e] print_operand_keeps [OF e(1)] by auto
    qed (use False 2(3) in auto)
  qed
qed simp

text \<open>No entry is marked as a branch or an access to memory.\<close>

definition unclassified :: "mips_opcode \<Rightarrow> bool" where
  "unclassified opc \<longleftrightarrow> op_pinfo opc AND (INSN_UNCOND_BRANCH_DELAY OR INSN_COND_BRANCH_DELAY
     OR INSN_COND_BRANCH_LIKELY OR INSN_STORE_MEMORY OR INSN_LOAD_MEMORY_DELAY) = 0"

lemma unclassified_opcode:
  "unclassified (opcode nm ar mt mk pi pi2 me) \<longleftrightarrow> pi AND 0x080e8000 = 0"
  by (simp add: unclassified_def INSN_UNCOND_BRANCH_DELAY_def INSN_COND_BRANCH_DELAY_def
      INSN_COND_BRANCH_LIKELY_def INSN_STORE_MEMORY_def INSN_LOAD_MEMORY_DELAY_def)

lemma rigel_unclassified_all: "list_all unclassified mips_builtin_opcodes"
  unfolding mips_builtin_opcodes_def list.pred_inject unclassified_opcode
  by (simp add: RD_t_def RD_s_def WR_d_def WR_A_def INSN_READ_GPR_T_def INSN_READ_GPR_S_def
      INSN_WRITE_GPR_D_def INSN_WRITE_GPR_DAcc_def)

lemma and_or_zero_right: "(p :: ulong) AND (a OR b) = 0 \<longleftrightarrow> p AND a = 0 \<and> p AND b = 0"
  by (auto simp: bit_eq_iff bit_simps)

lemma rigel_unclassified: "opc \<in> set mips_builtin_opcodes \<Longrightarrow> classify_insn opc info = info"
proof -
  assume "opc \<in> set mips_builtin_opcodes"
  then have "unclassified opc" using rigel_unclassified_all by (simp add: list_all_iff)
  then show ?thesis
    by (simp add: unclassified_def classify_insn_def and_or_zero_right Let_def)
qed

definition starts_with_name :: "mips_opcode \<Rightarrow> dis_event list \<Rightarrow> bool" where
  "starts_with_name opc es \<longleftrightarrow> (\<exists>es'. es = Put (op_name opc) # es')"

lemma rigel_total:
  assumes "dis_ready st"
  shows "\<exists>st' i es. print_insn_mips mips_builtin_opcodes pc w st info = Some (INSNLEN, st', i)
    \<and> dis_ready st' \<and> i_stream i = i_stream info @ es
    \<and> (case List.find (\<lambda>opc. opcode_matches opc w) mips_builtin_opcodes of
         None \<Rightarrow> insn_type i = dis_noninsn \<and> es = [Put (''0x'' @ fmt_lx w)]
       | Some opc \<Rightarrow> insn_type i = dis_nonbranch \<and> starts_with_name opc es)"
proof (cases "List.find (\<lambda>opc. opcode_matches opc w) mips_builtin_opcodes")
  case None
  then show ?thesis
    using ready_after [OF assms]
    by (simp add: rigel_print_insn [OF assms] print_found_def reset_info_def)
next
  case (Some opc)
  then have m: "opc \<in> set mips_builtin_opcodes" using find_member [OF Some] by simp
  let ?info = "put (op_name opc) (reset_info INSNLEN info)"
  show ?thesis
  proof (cases "op_args opc = []")
    case True
    then show ?thesis
      using ready_after [OF assms]
      by (simp add: rigel_print_insn [OF assms] print_found_def Some rigel_unclassified [OF m]
          starts_with_name_def reset_info_def)
  next
    case False
    have "CHR ''D'' \<notin> set (op_args opc)" "CHR ''q'' \<notin> set (op_args opc)"
      using rigel_args_of [OF m] rigel_args_letters by (auto simp: list_all_iff)
    then obtain i where i: "print_insn_args st opc w pc (op_args opc) 0 (put '' '' ?info) = Some i"
      using print_args_in_bounds [of st "op_args opc" opc w pc 0 "put '' '' ?info"] assms
      by (auto simp: dis_ready_def)
    then show ?thesis
      using ready_after [OF assms] print_insn_args_keeps [OF i] False
      by (auto simp: rigel_print_insn [OF assms] print_found_def Some rigel_unclassified [OF m]
          starts_with_name_def reset_info_def)
  qed
qed

section \<open>Signed displacements\<close>

lemma bit_0xffff: "bit (0xffff :: int) n \<longleftrightarrow> n < 16"
proof -
  have "(0xffff :: int) = mask 16" by (simp add: mask_eq_exp_minus_1)
  then show ?thesis by (simp only: bit_mask_iff) auto
qed

lemma sign_bit_16: "x AND 0x8000 \<noteq> 0 \<longleftrightarrow> bit x 15" for x :: uint
proof -
  have "(0x8000::uint) = push_bit 15 1" by simp
  then show ?thesis using and_exp_eq_0_iff_not_bit [of x 15] by simp
qed

lemma top_bit: "bit (x :: 16 word) n \<Longrightarrow> 15 \<le> n \<Longrightarrow> n = 15"
  using bit_imp_le_length [of x n] by simp

lemma signed_ext: "(let d = ucast (x :: 16 word) :: uint in if d AND 0x8000 \<noteq> 0 then d OR NOT 0xffff else d) = scast x"
  unfolding Let_def sign_bit_16
  by (rule bit_word_eqI) (auto simp: bit_simps bit_0xffff min_def not_less dest: bit_imp_le_length top_bit
      simp: le_less_Suc_eq [of 15, simplified])

lemma op_get_delta: "op_get F_DELTA l = ucast (ucast (op_get F_DELTA l) :: 16 word)"
 by (rule bit_word_eqI) (auto simp: op_get_def F_DELTA_def bit_simps bit_0xffff)

lemma signed_field_delta:
  "signed_field F_DELTA 0x8000 (NOT 0xffff) l = scast (ucast (op_get F_DELTA l) :: 16 word)"
proof -
  have "(ucast (op_get F_DELTA l) :: uint) = ucast (ucast (op_get F_DELTA l) :: 16 word)"
    by (subst op_get_delta) (rule bit_word_eqI, auto simp: bit_simps)
  then show ?thesis unfolding signed_field_def signed_ext [symmetric] by simp
qed

section \<open>What is assembled is printed back\<close>

text \<open>What an operand letter of the Rigel table stands for, given the value assembled into its field.\<close>

definition operand_event :: "dis_state \<Rightarrow> ulong \<Rightarrow> char \<Rightarrow> ulong \<Rightarrow> dis_event" where
  "operand_event st pc c v =
     (if c \<in> {CHR ''d'', CHR ''s'', CHR ''t'', CHR ''A''} then Put (mips_gpr_names st ! unat v)
      else if c = CHR ''j'' then Put (fmt_d (sint (ucast v :: 16 word)))
      else if c = CHR ''p'' then Put_address (pc + 4 + 4 * scast (ucast v :: 16 word))
      else if c = CHR ''a'' then Put_address (((pc + 4) AND NOT 0x0fffffff) OR 4 * v)
      else Put (''0x'' @ fmt_lx v))"

fun operand_events :: "dis_state \<Rightarrow> ulong \<Rightarrow> cstring \<Rightarrow> ulong list \<Rightarrow> dis_event list" where
  "operand_events st pc [] vs = []"
| "operand_events st pc (c # args) vs =
     (if c = CHR '','' then Put '','' # operand_events st pc args vs
      else (case vs of
              [] \<Rightarrow> []
            | v # vs' \<Rightarrow> operand_event st pc c v # operand_events st pc args vs'))"

lemma push_bit_2: "push_bit 2 (x :: 'a::len word) = 4 * x"
  by (simp add: push_bit_eq_mult mult.commute)

lemma scast_shift: "scast (4 * scast (x :: 16 word) :: uint) = (4 * scast x :: ulong)"
proof -
  have b: "- (2 ^ 15) \<le> sint x" "sint x < 2 ^ 15"
    using sint_ge [of x] sint_lt [of x] by simp_all
  have "(scast x :: uint) = word_of_int (sint x)" "(scast x :: ulong) = word_of_int (sint x)"
    by simp_all
  then have e: "(4 * scast x :: uint) = word_of_int (4 * sint x)"
      "(4 * scast x :: ulong) = word_of_int (4 * sint x)"
    by (simp_all only: wi_hom_mult [symmetric] word_of_int_numeral)
  have "sint (word_of_int (4 * sint x) :: uint) = 4 * sint x"
    unfolding int_word_sint using b by simp
  then have "(scast (word_of_int (4 * sint x) :: uint) :: ulong) = word_of_int (4 * sint x)"
    by (simp only: scast_eq)
  then show ?thesis by (simp only: e)
qed

lemma branch_target_eq:
  "branch_target l pc = pc + 4 + 4 * scast (ucast (op_get F_DELTA l) :: 16 word)"
  unfolding branch_target_def signed_field_delta push_bit_2 scast_shift by simp

text \<open>One letter.\<close>

lemma rigel_dis_letters:
  "dis_operand_of CHR '','' = Some D_punct"
  "dis_operand_of CHR ''d'' = Some (D_gpr F_RD)" "dis_operand_of CHR ''s'' = Some (D_gpr F_RS)"
  "dis_operand_of CHR ''t'' = Some (D_gpr F_RT)" "dis_operand_of CHR ''A'' = Some (D_gpr F_RA)"
  "dis_operand_of CHR ''5'' = Some (D_hex F_IMM5)"
  "dis_operand_of CHR ''i'' = Some (D_hex F_IMMEDIATE)"
  "dis_operand_of CHR ''j'' = Some (D_signed F_DELTA 0x8000 (NOT 0xffff))"
  "dis_operand_of CHR ''p'' = Some D_relative" "dis_operand_of CHR ''a'' = Some D_target"
  by (simp_all add: dis_operand_of_def dis_operands_1_def dis_operands_2_def)

definition rigel_letters :: "(char \<times> op_field) list" where
  "rigel_letters = [(CHR ''d'', F_RD), (CHR ''s'', F_RS), (CHR ''t'', F_RT), (CHR ''A'', F_RA),
     (CHR ''5'', F_IMM5), (CHR ''i'', F_IMMEDIATE), (CHR ''j'', F_DELTA), (CHR ''p'', F_DELTA),
     (CHR ''a'', F_TARGET)]"

lemma print_gpr_letter:
  assumes "names_ok st" and "unat (op_get f l) < 32"
  shows "print_operand st opp l pc c (D_gpr f) info = Some (put (mips_gpr_names st ! unat (op_get f l)) info)"
  using assms by (simp add: print_operand_def put_name_def nth_opt_def names_ok_def)

lemma print_other_letters:
  "print_operand st opp l pc c (D_hex f) info = Some (put (''0x'' @ fmt_lx (op_get f l)) info)"
  "print_operand st opp l pc c (D_signed F_DELTA 0x8000 (NOT 0xffff)) info =
     Some (put (fmt_int_d (scast (ucast (op_get F_DELTA l) :: 16 word))) info)"
  "print_operand st opp l pc c D_relative info = Some (put_address (branch_target l pc)
     (info\<lparr>i_target := branch_target l pc\<rparr>))"
  "op_name opp \<noteq> ''jalx'' \<Longrightarrow> print_operand st opp l pc c D_target info =
     Some (put_address (jump_target l pc) (info\<lparr>i_target := jump_target l pc\<rparr>))"
  "print_operand st opp l pc c D_punct info = Some (put [c] info)"
  by (simp_all only: print_operand_def dis_operand.case signed_field_delta Let_def
      if_cancel simp_thms if_False)

lemma fmt_delta: "fmt_int_d (scast (x :: 16 word)) = fmt_d (sint x)"
proof -
  have b: "- (2 ^ 15) \<le> sint x" "sint x < 2 ^ 15"
    using sint_ge [of x] sint_lt [of x] by simp_all
  have "(scast x :: uint) = word_of_int (sint x)" by simp
  moreover have "sint (word_of_int (sint x) :: uint) = sint x"
    unfolding int_word_sint using b by simp
  ultimately show ?thesis by (simp add: fmt_int_d_def)
qed

lemma stream_put_address [simp]: "i_stream (put_address a info) = i_stream info @ [Put_address a]"
  by (simp add: put_address_def)

lemma rigel_letter:
  assumes "names_ok st" and "(c, f) \<in> set rigel_letters" and "op_name opp \<noteq> ''jalx''"
  obtains x i where "dis_operand_of c = Some x" "print_operand st opp l pc c x info = Some i"
    "i_stream i = i_stream info @ [operand_event st pc c (op_get f l)]"
proof -
  note p = print_gpr_letter [OF assms(1)] op_get_reg_bound [of l] print_other_letters rigel_dis_letters
    operand_event_def fmt_delta branch_target_eq jump_target_def push_bit_2
    print_other_letters(2) [simplified]
  from assms(2) have "\<exists>x i. dis_operand_of c = Some x \<and> print_operand st opp l pc c x info = Some i
      \<and> i_stream i = i_stream info @ [operand_event st pc c (op_get f l)]"
    unfolding rigel_letters_def list.set insert_iff empty_iff prod.inject
    by (elim disjE conjE) (simp_all add: p assms(3))
  then show thesis using that by blast
qed

lemma rigel_letter_bits:
  assumes "(c, f) \<in> set rigel_letters"
  shows "map_of operand_bits c = Some [f]" "c \<noteq> CHR ''+''" "c \<noteq> CHR '',''"
  using assms unfolding rigel_letters_def list.set insert_iff empty_iff prod.inject
  by (elim disjE conjE; simp add: operand_letters)+

lemma print_rigel_args:
  assumes "names_ok st" and "op_name opp \<noteq> ''jalx''"
  shows "set args \<subseteq> insert CHR '','' (fst ` set rigel_letters) \<Longrightarrow> args_fields args = Some fs \<Longrightarrow>
     \<exists>i. print_insn_args st opp l pc args lsb info = Some i
       \<and> i_stream i = i_stream info @ operand_events st pc args (map (\<lambda>f. op_get f l) fs)"
proof (induction args arbitrary: fs info)
  case (Cons c args)
  show ?case
  proof (cases "c = CHR '',''")
    case True
    then have "args_fields args = Some fs"
      using Cons.prems(2) by (auto simp: operand_letters)
    then obtain i where "print_insn_args st opp l pc args lsb (put '','' info) = Some i"
      "i_stream i = i_stream info @ [Put '',''] @ operand_events st pc args (map (\<lambda>f. op_get f l) fs)"
      using Cons.IH [of fs "put '','' info"] Cons.prems(1) by auto
    then show ?thesis using True by (simp add: rigel_dis_letters print_other_letters)
  next
    case False
    then obtain f where f: "(c, f) \<in> set rigel_letters" using Cons.prems(1) by auto
    note b = rigel_letter_bits [OF f]
    obtain gs where gs: "args_fields args = Some gs" "fs = f # gs"
      using Cons.prems(2) b by auto
    obtain x i where i: "dis_operand_of c = Some x" "print_operand st opp l pc c x info = Some i"
      "i_stream i = i_stream info @ [operand_event st pc c (op_get f l)]"
      using rigel_letter [OF assms(1) f assms(2)] .
    obtain i' where "print_insn_args st opp l pc args lsb i = Some i'"
      "i_stream i' = i_stream i @ operand_events st pc args (map (\<lambda>f. op_get f l) gs)"
      using Cons.IH [OF _ gs(1), of i] Cons.prems(1) by auto
    then show ?thesis using b i gs by simp
  qed
qed simp

lemma rigel_args_within:
  "list_all (\<lambda>a. set a \<subseteq> insert CHR '','' (fst ` set rigel_letters)) rigel_args"
  unfolding rigel_args_def list.pred_inject rigel_letters_def by simp

lemma encode_prints:
  assumes "dis_ready st" and "mo \<in> set mips_builtin_opcodes" and "args_fields (op_args mo) = Some fs"
    and "length vs = length fs"
  shows "\<exists>st' i. print_insn_mips mips_builtin_opcodes pc (encode_insn opts mo vs) st info = Some (INSNLEN, st', i)
    \<and> dis_ready st'
    \<and> i_stream i = i_stream info @ Put (op_name mo) # (if op_args mo = [] then [] else
        Put '' '' # operand_events st pc (op_args mo) (map2 (\<lambda>f v. v AND op_mask f) fs vs))"
proof -
  let ?w = "encode_insn opts mo vs"
  have m: "List.find (\<lambda>opc. opcode_matches opc ?w) mips_builtin_opcodes = Some mo"
    by (rule rigel_find_match [OF assms(2) encode_matches(1) [OF rigel_well_formed [OF assms(2)] assms(3)]])
  have r: "map (\<lambda>f. op_get f ?w) fs = map2 (\<lambda>f v. v AND op_mask f) fs vs"
    by (rule encode_reads [OF rigel_well_formed [OF assms(2)] assms(3,4)])
  have w: "set (op_args mo) \<subseteq> insert CHR '','' (fst ` set rigel_letters)"
    using rigel_args_within rigel_args_of [OF assms(2)] by (simp add: list_all_iff)
  have n: "names_ok st" using assms(1) by (simp add: dis_ready_def)
  obtain i where "print_insn_args st mo ?w pc (op_args mo) 0
        (put '' '' (put (op_name mo) (reset_info INSNLEN info))) = Some i"
      "i_stream i = i_stream (put '' '' (put (op_name mo) (reset_info INSNLEN info)))
         @ operand_events st pc (op_args mo) (map2 (\<lambda>f v. v AND op_mask f) fs vs)"
    using print_rigel_args [OF n rigel_not_jalx [OF assms(2)] w assms(3), of ?w pc 0
        "put '' '' (put (op_name mo) (reset_info INSNLEN info))"] unfolding r by blast
  then show ?thesis
    using ready_after [OF assms(1)]
    by (auto simp: rigel_print_insn [OF assms(1)] print_found_def m rigel_unclassified [OF assms(2)]
        Let_def reset_info_def)
qed

lemma branch_reaches:
  assumes "4 dvd d" and "- (2 ^ 17) \<le> d" and "d < 2 ^ 17"
  shows "pc + 4 + 4 * scast (ucast (word_of_int (d div 4) AND 0xffff :: ulong) :: 16 word)
    = pc + 4 + (word_of_int d :: ulong)"
proof -
  obtain k where k: "d = 4 * k" using assms(1) by blast
  have b: "- (2 ^ 15) \<le> k" "k < 2 ^ 15" using assms(2,3) k by simp_all
  have "(ucast (word_of_int k AND 0xffff :: ulong) :: 16 word) = word_of_int k"
    by (rule bit_word_eqI) (simp add: bit_simps bit_0xffff)
  moreover have "sint (word_of_int k :: 16 word) = k"
    unfolding int_word_sint using b by simp
  ultimately have "scast (ucast (word_of_int k AND 0xffff :: ulong) :: 16 word) = (word_of_int k :: ulong)"
    by (simp only: scast_eq)
  moreover have "(word_of_int d :: ulong) = 4 * word_of_int k" unfolding k by simp
  ultimately show ?thesis using k by simp
qed

section \<open>A Rigel object makes the disassembler ready\<close>

text \<open>The options change neither the ISA nor the table of first entries.\<close>

lemma set_names_keep:
  "mips_isa (set_gpr_names v n st) = mips_isa st" "mips_hash (set_gpr_names v n st) = mips_hash st"
  "mips_isa (set_fpr_names v n st) = mips_isa st" "mips_hash (set_fpr_names v n st) = mips_hash st"
  "mips_isa (set_cp0_names v n st) = mips_isa st" "mips_hash (set_cp0_names v n st) = mips_hash st"
  "mips_isa (set_hwr_names v n st) = mips_isa st" "mips_hash (set_hwr_names v n st) = mips_hash st"
  "mips_isa (set_reg_names v n st) = mips_isa st" "mips_hash (set_reg_names v n st) = mips_hash st"
  by (simp_all add: set_names_defs Let_def split: option.split)

lemma parse_option_keeps:
  "mips_isa (parse_mips_dis_option opt len st) = mips_isa st"
  "mips_hash (parse_mips_dis_option opt len st) = mips_hash st"
  by (simp_all add: parse_mips_dis_option_def Let_def set_names_keep split: option.split)

lemma parse_options_keep:
  "mips_isa (parse_mips_dis_options options st) = mips_isa st"
  "mips_hash (parse_mips_dis_options options st) = mips_hash st"
proof -
  have "mips_isa (parse_options_loop s st) = mips_isa st \<and> mips_hash (parse_options_loop s st) = mips_hash st" for s
    by (induction s st rule: parse_options_loop.induct) (simp_all add: Let_def parse_option_keeps)
  then show "mips_isa (parse_mips_dis_options options st) = mips_isa st"
    "mips_hash (parse_mips_dis_options options st) = mips_hash st"
    by (simp_all add: parse_mips_dis_options_def split: option.split)
qed

lemma defaults_keep_hash: "mips_hash (set_default_mips_dis_options info st) = mips_hash st"
  by (auto simp: set_default_mips_dis_options_def choose_arch_by_number_def Let_def
      split: option.split if_splits)

lemma rigel_ready:
  assumes "hint_ok st" and "rigel_hash_ok st" and "di_mach info = 1983"
    and "\<forall>h. di_header info = Some h \<longrightarrow> \<not> is_newabi h"
  shows "dis_ready (parse_mips_dis_options options (set_default_mips_dis_options info st))"
proof -
  let ?st = "set_default_mips_dis_options info st"
  have "names_ok (parse_mips_dis_options options ?st)"
    using set_default_ok [OF assms(1), of info]
    by (simp add: parse_mips_dis_options_def parse_loop_ok split: option.split)
  moreover have "mips_isa ?st AND INSN_RIGEL32 \<noteq> 0"
    using rigel_default_state [OF assms(1,3,4)] by (simp add: ISA_RIGEL32_def INSN_RIGEL32_def)
  ultimately show ?thesis
    using assms(2) by (simp add: dis_ready_def rigel_hash_ok_def parse_options_keep defaults_keep_hash)
qed

text \<open>An object for concrete runs.\<close>

definition rigel_object :: dis_file where
  "rigel_object = \<lparr>di_flavour = bfd_target_elf_flavour,
     di_header = Some \<lparr>e_class64 = False, e_flags = 0\<rparr>, di_mach = 1983, di_options = None\<rparr>"

definition rigel_info :: dis_info where
  "rigel_info = \<lparr>i_file = rigel_object, i_endian = BFD_ENDIAN_BIG, bytes_per_chunk = 0,
     display_endian = BFD_ENDIAN_BIG, insn_info_valid = False, branch_delay_insns = 0, data_size = 0,
     insn_type = dis_noninsn, i_target = 0, i_target2 = 0, i_stream = []\<rparr>"

definition rigel_session :: dis_state where
  "rigel_session = set_default_mips_dis_options rigel_object initial_dis_state"

lemma rigel_session_ready: "dis_ready rigel_session"
  using rigel_ready [of initial_dis_state rigel_object None]
  by (simp add: rigel_session_def parse_mips_dis_options_def initial_hint_ok rigel_object_def
      is_newabi_def rigel_hash_ok_def) (simp add: initial_dis_state_def)

lemma rigel_session_names: "mips_gpr_names rigel_session = mips_gpr_names_rigel"
  using rigel_default_state [of initial_dis_state rigel_object]
  by (simp add: rigel_session_def initial_hint_ok rigel_object_def is_newabi_def)

section \<open>Properties\<close>

text \<open>C28: the table of first entries by major opcode, built once on the first call, only saves time.
  For any opcode table whose masks cover the major opcode, \<open>print_insn_mips\<close> prints what a scan of
  the whole table from its start would select, also on later calls with other options, unless
  \<open>no-aliases\<close> was set when the table was built and is no longer set.\<close>

theorem hashed_scan_is_linear:
  assumes "\<forall>opc\<in>set tab. covers_op opc" and "hash_current tab st"
  shows "print_insn_mips tab memaddr w st info =
     map_option (\<lambda>i. (INSNLEN, st\<lparr>mips_hash := Some (hash_of tab st)\<rparr>, i))
       (print_found memaddr w st (reset_info INSNLEN info) (List.find (dis_selects st w) tab))"
  using assms by (rule print_insn_mips_linear)

text \<open>C27: with register names and the ISA set up for Rigel, every 32 or 64 bit word is
  disassembled: no read beyond a table, and the length is 4. A word that no entry matches is printed
  in hexadecimal and reported as \<open>dis_noninsn\<close>; any other starts with the mnemonic of the matching entry and is
  reported as \<open>dis_nonbranch\<close>, whatever the entry is, branches, jumps and memory accesses included.\<close>

theorem rigel_disassembly_total:
  assumes "dis_ready st"
  shows "\<exists>st' i es. print_insn_mips mips_builtin_opcodes pc w st info = Some (INSNLEN, st', i)
    \<and> dis_ready st' \<and> i_stream i = i_stream info @ es
    \<and> (case List.find (\<lambda>opc. opcode_matches opc w) mips_builtin_opcodes of
         None \<Rightarrow> insn_type i = dis_noninsn \<and> es = [Put (''0x'' @ fmt_lx w)]
       | Some opc \<Rightarrow> insn_type i = dis_nonbranch \<and> starts_with_name opc es)"
  using assms by (rule rigel_total)

text \<open>C23: the disassembler prints back what was assembled. For every entry of the Rigel table and any
  operand values, the word the assembler makes is printed as the mnemonic, a space, and for each
  operand letter the register of that number, the immediate (signed for \<open>j\<close>) or the address the
  displacement or target field stands for.\<close>

theorem assembled_prints_back:
  assumes "dis_ready st" and "mo \<in> set mips_builtin_opcodes" and "args_fields (op_args mo) = Some fs"
    and "length vs = length fs"
  shows "\<exists>st' i. print_insn_mips mips_builtin_opcodes pc (encode_insn opts mo vs) st info = Some (INSNLEN, st', i)
    \<and> dis_ready st'
    \<and> i_stream i = i_stream info @ Put (op_name mo) # (if op_args mo = [] then [] else
        Put '' '' # operand_events st pc (op_args mo) (map2 (\<lambda>f v. v AND op_mask f) fs vs))"
  using assms by (rule encode_prints)

text \<open>A branch on one register encoded for a target within reach is printed with that target: the displacement
  in words, relative to the instruction after the branch, survives the cut to 16 bits, the sign
  extension through an \<open>int\<close> and the addition to the address.\<close>

theorem branch_target_prints_back:
  assumes "dis_ready st" and "mo \<in> set mips_builtin_opcodes" and "op_args mo = ''t,p''"
    and "4 dvd d" and "- (2 ^ 17) \<le> d" and "d < 2 ^ 17" and "unat r < 32"
  shows "\<exists>st' i. print_insn_mips mips_builtin_opcodes pc
        (encode_insn opts mo [r, word_of_int (d div 4)]) st info = Some (INSNLEN, st', i)
    \<and> i_stream i = i_stream info @ [Put (op_name mo), Put '' '', Put (mips_gpr_names st ! unat r),
        Put '','', Put_address (pc + 4 + word_of_int d)]"
proof -
  have f: "args_fields (op_args mo) = Some [F_RT, F_DELTA]"
    using assms(3) by (simp only: rigel_args_fields)
  have r: "r AND 0x1f = r"
  proof -
    have "unat (take_bit 5 r) = unat r"
      using assms(7) by (simp add: unsigned_take_bit_eq take_bit_nat_eq_self)
    then have "take_bit 5 r = r" by (simp only: word_unat_eq_iff)
    then show ?thesis by (simp add: take_bit_eq_mask mask_eq_exp_minus_1)
  qed
  have d: "4 * scast (ucast (word_of_int (d div 4) AND 0xffff :: ulong) :: 16 word)
      = (word_of_int d :: ulong)"
    using branch_reaches [OF assms(4-6), of 0] by simp
  show ?thesis
    using encode_prints [OF assms(1,2) f, of "[r, word_of_int (d div 4)]" pc opts info]
    by (auto simp: assms(3) operand_event_def F_RT_def F_DELTA_def r d)
qed

text \<open>Parsing any \<open>-M\<close> options after the defaults for a Rigel object leaves the disassembler ready:
  names in bounds, the Rigel ISA selected, and a table of first entries, if there is one already,
  that suits the Rigel table.\<close>

theorem rigel_object_ready:
  assumes "hint_ok st" and "rigel_hash_ok st" and "di_mach info = 1983"
    and "\<forall>h. di_header info = Some h \<longrightarrow> \<not> is_newabi h"
  shows "dis_ready (parse_mips_dis_options options (set_default_mips_dis_options info st))"
  using assms by (rule rigel_ready)

text \<open>Concrete runs.\<close>

lemma initial_no_hash: "mips_hash initial_dis_state = None"
  by (simp add: initial_dis_state_def)

theorem rigel_object_ready_witness:
  "dis_ready (parse_mips_dis_options (Some ''no-aliases'') (set_default_mips_dis_options rigel_object initial_dis_state))"
  by (rule rigel_object_ready)
     (simp_all add: initial_hint_ok rigel_object_def is_newabi_def rigel_hash_ok_def initial_no_hash)

theorem rigel_disassembly_total_witness:
  "\<exists>st' i es. print_insn_mips mips_builtin_opcodes 0 0x50000001 rigel_session rigel_info = Some (INSNLEN, st', i)
    \<and> i_stream i = es \<and> insn_type i = dis_nonbranch \<and> starts_with_name (mips_builtin_opcodes ! 40) es
    \<and> op_name (mips_builtin_opcodes ! 40) = ''be''"
proof -
  have n: "op_name (mips_builtin_opcodes ! 40) = ''be''" unfolding rigel_entry_be by simp
  have "opcode_matches (mips_builtin_opcodes ! 40) 0x50000001" unfolding rigel_entry_be by (simp add: opcode_matches_def)
  then have "List.find (\<lambda>opc. opcode_matches opc 0x50000001) mips_builtin_opcodes = Some (mips_builtin_opcodes ! 40)"
    by (intro rigel_find_match rigel_nth_mem) simp_all
  moreover have "i_stream rigel_info = []" by (simp add: rigel_info_def)
  ultimately show ?thesis
    using rigel_disassembly_total [OF rigel_session_ready, of 0 "0x50000001" rigel_info] n by auto
qed

theorem assembled_prints_back_witness:
  "\<exists>st' i. print_insn_mips mips_builtin_opcodes 0
        (encode_insn initial_mips_opts (mips_builtin_opcodes ! 4) [1, 29, 0xffff]) rigel_session rigel_info
      = Some (INSNLEN, st', i)
    \<and> i_stream i = [Put ''addi'', Put '' '', Put ''$r1'', Put '','', Put ''$sp'', Put '','', Put ''-1'']"
proof -
  have a: "op_args (mips_builtin_opcodes ! 4) = ''d,t,j''" "op_name (mips_builtin_opcodes ! 4) = ''addi''"
    unfolding rigel_entry_addi by simp_all
  have f: "args_fields (op_args (mips_builtin_opcodes ! 4)) = Some [F_RD, F_RT, F_DELTA]"
    unfolding a by (simp only: rigel_args_fields)
  show ?thesis
    using assembled_prints_back [OF rigel_session_ready rigel_nth_mem f, of "[1, 29, 0xffff]" 0
        initial_mips_opts rigel_info]
    by (auto simp: a rigel_info_def operand_event_def rigel_session_names mips_gpr_names_rigel_def
        F_RD_def F_RT_def F_DELTA_def fmt_d_def show_base.simps digit_char_def char_of_def bit_0)
qed

theorem branch_target_prints_back_witness:
  "\<exists>st' i. print_insn_mips mips_builtin_opcodes 0x1000
        (encode_insn initial_mips_opts (mips_builtin_opcodes ! 40) [2, word_of_int (-8 div 4)]) rigel_session rigel_info
      = Some (INSNLEN, st', i)
    \<and> i_stream i = [Put ''be'', Put '' '', Put ''$r2'', Put '','', Put_address 0xffc]"
proof -
  have a: "op_args (mips_builtin_opcodes ! 40) = ''t,p''" "op_name (mips_builtin_opcodes ! 40) = ''be''"
    unfolding rigel_entry_be by simp_all
  show ?thesis
    using branch_target_prints_back [OF rigel_session_ready rigel_nth_mem a(1), of "-8" 2 "0x1000"
        initial_mips_opts rigel_info]
    by (auto simp: a(2) rigel_info_def rigel_session_names mips_gpr_names_rigel_def)
qed

theorem hashed_scan_is_linear_witness:
  "print_insn_mips mips_builtin_opcodes 0 0x01083c00 rigel_session rigel_info =
     map_option (\<lambda>i. (INSNLEN, rigel_session\<lparr>mips_hash := Some (hash_of mips_builtin_opcodes rigel_session)\<rparr>, i))
       (print_found 0 0x01083c00 rigel_session (reset_info INSNLEN rigel_info)
         (List.find (dis_selects rigel_session 0x01083c00) mips_builtin_opcodes))"
  using rigel_session_ready
  by (intro hashed_scan_is_linear rigel_covers_op rigel_hash_current) (simp add: dis_ready_def)

end
