(* ===== verification/Mips16_Opc.thy ===== *)
theory Mips16_Opc
  imports Rigel_Isa
begin

text \<open>
  The table \<open>mips16_opcodes\<close> of \<open>opcodes/mips16-opc.c\<close>, entry by entry and in the source's order, under
  the short names of its flags. The mask of a macro entry is the number of the macro.
\<close>

section \<open>Short names of the flags\<close>

definition UBD :: ulong where [rigel_const]: "UBD = INSN_UNCOND_BRANCH_DELAY"
definition BR :: ulong where [rigel_const]: "BR = MIPS16_INSN_BRANCH"
definition WR_x :: ulong where [rigel_const]: "WR_x = MIPS16_INSN_WRITE_X"
definition WR_y :: ulong where [rigel_const]: "WR_y = MIPS16_INSN_WRITE_Y"
definition WR_z :: ulong where [rigel_const]: "WR_z = MIPS16_INSN_WRITE_Z"
definition WR_T :: ulong where [rigel_const]: "WR_T = MIPS16_INSN_WRITE_T"
definition WR_SP :: ulong where [rigel_const]: "WR_SP = MIPS16_INSN_WRITE_SP"
definition WR_31 :: ulong where [rigel_const]: "WR_31 = MIPS16_INSN_WRITE_31"
definition WR_Y :: ulong where [rigel_const]: "WR_Y = MIPS16_INSN_WRITE_GPR_Y"
definition RD_x :: ulong where [rigel_const]: "RD_x = MIPS16_INSN_READ_X"
definition RD_y :: ulong where [rigel_const]: "RD_y = MIPS16_INSN_READ_Y"
definition RD_Z :: ulong where [rigel_const]: "RD_Z = MIPS16_INSN_READ_Z"
definition RD_T :: ulong where [rigel_const]: "RD_T = MIPS16_INSN_READ_T"
definition RD_SP :: ulong where [rigel_const]: "RD_SP = MIPS16_INSN_READ_SP"
definition RD_31 :: ulong where [rigel_const]: "RD_31 = MIPS16_INSN_READ_31"
definition RD_PC :: ulong where [rigel_const]: "RD_PC = MIPS16_INSN_READ_PC"
definition RD_X :: ulong where [rigel_const]: "RD_X = MIPS16_INSN_READ_GPR_X"
definition WR_HI :: ulong where [rigel_const]: "WR_HI = INSN_WRITE_HI"
definition WR_LO :: ulong where [rigel_const]: "WR_LO = INSN_WRITE_LO"
definition RD_HI :: ulong where [rigel_const]: "RD_HI = INSN_READ_HI"
definition RD_LO :: ulong where [rigel_const]: "RD_LO = INSN_READ_LO"
definition TRAP :: ulong where [rigel_const]: "TRAP = INSN_TRAP"
definition I1 :: ulong where [rigel_const]: "I1 = INSN_ISA1"
definition I3 :: ulong where [rigel_const]: "I3 = INSN_ISA3"
definition I32 :: ulong where [rigel_const]: "I32 = INSN_ISA32"
definition I64 :: ulong where [rigel_const]: "I64 = INSN_ISA64"
definition T3 :: ulong where [rigel_const]: "T3 = INSN_3900"

section \<open>The table\<close>

definition mips16_opcodes_1 :: "mips_opcode list" where [rigel_tab]:
  "mips16_opcodes_1 = [
    opcode ''nop'' '''' 0x6500 0xffff (RD_Z) 0 I1,
    opcode ''la'' ''x,A'' 0x0800 0xf800 (WR_x OR RD_PC) 0 I1,
    opcode ''abs'' ''x,w'' 0 M_ABS (INSN_MACRO) 0 I1,
    opcode ''addiu'' ''y,x,4'' 0x4000 0xf810 (WR_y OR RD_x) 0 I1,
    opcode ''addiu'' ''x,k'' 0x4800 0xf800 (WR_x OR RD_x) 0 I1,
    opcode ''addiu'' ''S,K'' 0x6300 0xff00 (WR_SP OR RD_SP) 0 I1,
    opcode ''addiu'' ''S,S,K'' 0x6300 0xff00 (WR_SP OR RD_SP) 0 I1,
    opcode ''addiu'' ''x,P,V'' 0x0800 0xf800 (WR_x OR RD_PC) 0 I1,
    opcode ''addiu'' ''x,S,V'' 0x0000 0xf800 (WR_x OR RD_SP) 0 I1,
    opcode ''addu'' ''z,v,y'' 0xe001 0xf803 (WR_z OR RD_x OR RD_y) 0 I1,
    opcode ''addu'' ''y,x,4'' 0x4000 0xf810 (WR_y OR RD_x) 0 I1,
    opcode ''addu'' ''x,k'' 0x4800 0xf800 (WR_x OR RD_x) 0 I1,
    opcode ''addu'' ''S,K'' 0x6300 0xff00 (WR_SP OR RD_SP) 0 I1,
    opcode ''addu'' ''S,S,K'' 0x6300 0xff00 (WR_SP OR RD_SP) 0 I1,
    opcode ''addu'' ''x,P,V'' 0x0800 0xf800 (WR_x OR RD_PC) 0 I1,
    opcode ''addu'' ''x,S,V'' 0x0000 0xf800 (WR_x OR RD_SP) 0 I1,
    opcode ''and'' ''x,y'' 0xe80c 0xf81f (WR_x OR RD_x OR RD_y) 0 I1,
    opcode ''b'' ''q'' 0x1000 0xf800 (BR) 0 I1,
    opcode ''beq'' ''x,y,p'' 0 M_BEQ (INSN_MACRO) 0 I1,
    opcode ''beq'' ''x,U,p'' 0 M_BEQ_I (INSN_MACRO) 0 I1,
    opcode ''beqz'' ''x,p'' 0x2000 0xf800 (BR OR RD_x) 0 I1,
    opcode ''bge'' ''x,y,p'' 0 M_BGE (INSN_MACRO) 0 I1,
    opcode ''bge'' ''x,8,p'' 0 M_BGE_I (INSN_MACRO) 0 I1,
    opcode ''bgeu'' ''x,y,p'' 0 M_BGEU (INSN_MACRO) 0 I1,
    opcode ''bgeu'' ''x,8,p'' 0 M_BGEU_I (INSN_MACRO) 0 I1,
    opcode ''bgt'' ''x,y,p'' 0 M_BGT (INSN_MACRO) 0 I1,
    opcode ''bgt'' ''x,8,p'' 0 M_BGT_I (INSN_MACRO) 0 I1,
    opcode ''bgtu'' ''x,y,p'' 0 M_BGTU (INSN_MACRO) 0 I1,
    opcode ''bgtu'' ''x,8,p'' 0 M_BGTU_I (INSN_MACRO) 0 I1,
    opcode ''ble'' ''x,y,p'' 0 M_BLE (INSN_MACRO) 0 I1,
    opcode ''ble'' ''x,8,p'' 0 M_BLE_I (INSN_MACRO) 0 I1,
    opcode ''bleu'' ''x,y,p'' 0 M_BLEU (INSN_MACRO) 0 I1,
    opcode ''bleu'' ''x,8,p'' 0 M_BLEU_I (INSN_MACRO) 0 I1,
    opcode ''blt'' ''x,y,p'' 0 M_BLT (INSN_MACRO) 0 I1,
    opcode ''blt'' ''x,8,p'' 0 M_BLT_I (INSN_MACRO) 0 I1,
    opcode ''bltu'' ''x,y,p'' 0 M_BLTU (INSN_MACRO) 0 I1,
    opcode ''bltu'' ''x,8,p'' 0 M_BLTU_I (INSN_MACRO) 0 I1,
    opcode ''bne'' ''x,y,p'' 0 M_BNE (INSN_MACRO) 0 I1,
    opcode ''bne'' ''x,U,p'' 0 M_BNE_I (INSN_MACRO) 0 I1,
    opcode ''bnez'' ''x,p'' 0x2800 0xf800 (BR OR RD_x) 0 I1,
    opcode ''break'' ''6'' 0xe805 0xf81f (TRAP) 0 I1,
    opcode ''bteqz'' ''p'' 0x6000 0xff00 (BR OR RD_T) 0 I1,
    opcode ''btnez'' ''p'' 0x6100 0xff00 (BR OR RD_T) 0 I1,
    opcode ''cmpi'' ''x,U'' 0x7000 0xf800 (WR_T OR RD_x) 0 I1,
    opcode ''cmp'' ''x,y'' 0xe80a 0xf81f (WR_T OR RD_x OR RD_y) 0 I1,
    opcode ''cmp'' ''x,U'' 0x7000 0xf800 (WR_T OR RD_x) 0 I1,
    opcode ''dla'' ''y,E'' 0xfe00 0xff00 (WR_y OR RD_PC) 0 I3,
    opcode ''daddiu'' ''y,x,4'' 0x4010 0xf810 (WR_y OR RD_x) 0 I3,
    opcode ''daddiu'' ''y,j'' 0xfd00 0xff00 (WR_y OR RD_y) 0 I3,
    opcode ''daddiu'' ''S,K'' 0xfb00 0xff00 (WR_SP OR RD_SP) 0 I3,
    opcode ''daddiu'' ''S,S,K'' 0xfb00 0xff00 (WR_SP OR RD_SP) 0 I3,
    opcode ''daddiu'' ''y,P,W'' 0xfe00 0xff00 (WR_y OR RD_PC) 0 I3,
    opcode ''daddiu'' ''y,S,W'' 0xff00 0xff00 (WR_y OR RD_SP) 0 I3,
    opcode ''daddu'' ''z,v,y'' 0xe000 0xf803 (WR_z OR RD_x OR RD_y) 0 I3,
    opcode ''daddu'' ''y,x,4'' 0x4010 0xf810 (WR_y OR RD_x) 0 I3,
    opcode ''daddu'' ''y,j'' 0xfd00 0xff00 (WR_y OR RD_y) 0 I3,
    opcode ''daddu'' ''S,K'' 0xfb00 0xff00 (WR_SP OR RD_SP) 0 I3,
    opcode ''daddu'' ''S,S,K'' 0xfb00 0xff00 (WR_SP OR RD_SP) 0 I3,
    opcode ''daddu'' ''y,P,W'' 0xfe00 0xff00 (WR_y OR RD_PC) 0 I3,
    opcode ''daddu'' ''y,S,W'' 0xff00 0xff00 (WR_y OR RD_SP) 0 I3,
    opcode ''ddiv'' ''0,x,y'' 0xe81e 0xf81f (RD_x OR RD_y OR WR_HI OR WR_LO) 0 I3,
    opcode ''ddiv'' ''z,v,y'' 0 M_DDIV_3 (INSN_MACRO) 0 I1,
    opcode ''ddivu'' ''0,x,y'' 0xe81f 0xf81f (RD_x OR RD_y OR WR_HI OR WR_LO) 0 I3,
    opcode ''ddivu'' ''z,v,y'' 0 M_DDIVU_3 (INSN_MACRO) 0 I1,
    opcode ''div'' ''0,x,y'' 0xe81a 0xf81f (RD_x OR RD_y OR WR_HI OR WR_LO) 0 I1,
    opcode ''div'' ''z,v,y'' 0 M_DIV_3 (INSN_MACRO) 0 I1,
    opcode ''divu'' ''0,x,y'' 0xe81b 0xf81f (RD_x OR RD_y OR WR_HI OR WR_LO) 0 I1,
    opcode ''divu'' ''z,v,y'' 0 M_DIVU_3 (INSN_MACRO) 0 I1,
    opcode ''dmul'' ''z,v,y'' 0 M_DMUL (INSN_MACRO) 0 I3,
    opcode ''dmult'' ''x,y'' 0xe81c 0xf81f (RD_x OR RD_y OR WR_HI OR WR_LO) 0 I3,
    opcode ''dmultu'' ''x,y'' 0xe81d 0xf81f (RD_x OR RD_y OR WR_HI OR WR_LO) 0 I3,
    opcode ''drem'' ''0,x,y'' 0xe81e 0xf81f (RD_x OR RD_y OR WR_HI OR WR_LO) 0 I3,
    opcode ''drem'' ''z,v,y'' 0 M_DREM_3 (INSN_MACRO) 0 I1,
    opcode ''dremu'' ''0,x,y'' 0xe81f 0xf81f (RD_x OR RD_y OR WR_HI OR WR_LO) 0 I3,
    opcode ''dremu'' ''z,v,y'' 0 M_DREMU_3 (INSN_MACRO) 0 I1,
    opcode ''dsllv'' ''y,x'' 0xe814 0xf81f (WR_y OR RD_y OR RD_x) 0 I3,
    opcode ''dsll'' ''x,w,['' 0x3001 0xf803 (WR_x OR RD_y) 0 I3,
    opcode ''dsll'' ''y,x'' 0xe814 0xf81f (WR_y OR RD_y OR RD_x) 0 I3,
    opcode ''dsrav'' ''y,x'' 0xe817 0xf81f (WR_y OR RD_y OR RD_x) 0 I3,
    opcode ''dsra'' ''y,]'' 0xe813 0xf81f (WR_y OR RD_y) 0 I3,
    opcode ''dsra'' ''y,x'' 0xe817 0xf81f (WR_y OR RD_y OR RD_x) 0 I3,
    opcode ''dsrlv'' ''y,x'' 0xe816 0xf81f (WR_y OR RD_y OR RD_x) 0 I3,
    opcode ''dsrl'' ''y,]'' 0xe808 0xf81f (WR_y OR RD_y) 0 I3,
    opcode ''dsrl'' ''y,x'' 0xe816 0xf81f (WR_y OR RD_y OR RD_x) 0 I3,
    opcode ''dsubu'' ''z,v,y'' 0xe002 0xf803 (WR_z OR RD_x OR RD_y) 0 I3,
    opcode ''dsubu'' ''y,x,4'' 0 M_DSUBU_I (INSN_MACRO) 0 I1,
    opcode ''dsubu'' ''y,j'' 0 M_DSUBU_I_2 (INSN_MACRO) 0 I1,
    opcode ''exit'' ''L'' 0xed09 0xff1f (TRAP) 0 I1,
    opcode ''exit'' ''L'' 0xee09 0xff1f (TRAP) 0 I1,
    opcode ''exit'' ''L'' 0xef09 0xff1f (TRAP) 0 I1,
    opcode ''entry'' ''l'' 0xe809 0xf81f (TRAP) 0 I1]"

definition mips16_opcodes_2 :: "mips_opcode list" where [rigel_tab]:
  "mips16_opcodes_2 = [
    opcode ''extend'' ''e'' 0xf000 0xf800 (0) 0 I1,
    opcode ''jalr'' ''x'' 0xe840 0xf8ff (UBD OR WR_31 OR RD_x) 0 I1,
    opcode ''jalr'' ''R,x'' 0xe840 0xf8ff (UBD OR WR_31 OR RD_x) 0 I1,
    opcode ''jal'' ''x'' 0xe840 0xf8ff (UBD OR WR_31 OR RD_x) 0 I1,
    opcode ''jal'' ''R,x'' 0xe840 0xf8ff (UBD OR WR_31 OR RD_x) 0 I1,
    opcode ''jal'' ''a'' 0x1800 0xfc00 (UBD OR WR_31) 0 I1,
    opcode ''jalx'' ''a'' 0x1c00 0xfc00 (UBD OR WR_31) 0 I1,
    opcode ''jr'' ''x'' 0xe800 0xf8ff (UBD OR RD_x) 0 I1,
    opcode ''jr'' ''R'' 0xe820 0xffff (UBD OR RD_31) 0 I1,
    opcode ''j'' ''x'' 0xe800 0xf8ff (UBD OR RD_x) 0 I1,
    opcode ''j'' ''R'' 0xe820 0xffff (UBD OR RD_31) 0 I1,
    opcode ''lb'' ''y,5(x)'' 0x8000 0xf800 (WR_y OR RD_x) 0 I1,
    opcode ''lbu'' ''y,5(x)'' 0xa000 0xf800 (WR_y OR RD_x) 0 I1,
    opcode ''ld'' ''y,D(x)'' 0x3800 0xf800 (WR_y OR RD_x) 0 I3,
    opcode ''ld'' ''y,B'' 0xfc00 0xff00 (WR_y OR RD_PC) 0 I3,
    opcode ''ld'' ''y,D(P)'' 0xfc00 0xff00 (WR_y OR RD_PC) 0 I3,
    opcode ''ld'' ''y,D(S)'' 0xf800 0xff00 (WR_y OR RD_SP) 0 I3,
    opcode ''lh'' ''y,H(x)'' 0x8800 0xf800 (WR_y OR RD_x) 0 I1,
    opcode ''lhu'' ''y,H(x)'' 0xa800 0xf800 (WR_y OR RD_x) 0 I1,
    opcode ''li'' ''x,U'' 0x6800 0xf800 (WR_x) 0 I1,
    opcode ''lw'' ''y,W(x)'' 0x9800 0xf800 (WR_y OR RD_x) 0 I1,
    opcode ''lw'' ''x,A'' 0xb000 0xf800 (WR_x OR RD_PC) 0 I1,
    opcode ''lw'' ''x,V(P)'' 0xb000 0xf800 (WR_x OR RD_PC) 0 I1,
    opcode ''lw'' ''x,V(S)'' 0x9000 0xf800 (WR_x OR RD_SP) 0 I1,
    opcode ''lwu'' ''y,W(x)'' 0xb800 0xf800 (WR_y OR RD_x) 0 I3,
    opcode ''mfhi'' ''x'' 0xe810 0xf8ff (WR_x OR RD_HI) 0 I1,
    opcode ''mflo'' ''x'' 0xe812 0xf8ff (WR_x OR RD_LO) 0 I1,
    opcode ''move'' ''y,X'' 0x6700 0xff00 (WR_y OR RD_X) 0 I1,
    opcode ''move'' ''Y,Z'' 0x6500 0xff00 (WR_Y OR RD_Z) 0 I1,
    opcode ''mul'' ''z,v,y'' 0 M_MUL (INSN_MACRO) 0 I1,
    opcode ''mult'' ''x,y'' 0xe818 0xf81f (RD_x OR RD_y OR WR_HI OR WR_LO) 0 I1,
    opcode ''multu'' ''x,y'' 0xe819 0xf81f (RD_x OR RD_y OR WR_HI OR WR_LO) 0 I1,
    opcode ''neg'' ''x,w'' 0xe80b 0xf81f (WR_x OR RD_y) 0 I1,
    opcode ''not'' ''x,w'' 0xe80f 0xf81f (WR_x OR RD_y) 0 I1,
    opcode ''or'' ''x,y'' 0xe80d 0xf81f (WR_x OR RD_x OR RD_y) 0 I1,
    opcode ''rem'' ''0,x,y'' 0xe81a 0xf81f (RD_x OR RD_y OR WR_HI OR WR_LO) 0 I1,
    opcode ''rem'' ''z,v,y'' 0 M_REM_3 (INSN_MACRO) 0 I1,
    opcode ''remu'' ''0,x,y'' 0xe81b 0xf81f (RD_x OR RD_y OR WR_HI OR WR_LO) 0 I1,
    opcode ''remu'' ''z,v,y'' 0 M_REMU_3 (INSN_MACRO) 0 I1,
    opcode ''sb'' ''y,5(x)'' 0xc000 0xf800 (RD_y OR RD_x) 0 I1,
    opcode ''sd'' ''y,D(x)'' 0x7800 0xf800 (RD_y OR RD_x) 0 I3,
    opcode ''sd'' ''y,D(S)'' 0xf900 0xff00 (RD_y OR RD_PC) 0 I3,
    opcode ''sd'' ''R,C(S)'' 0xfa00 0xff00 (RD_31 OR RD_PC) 0 I1,
    opcode ''sh'' ''y,H(x)'' 0xc800 0xf800 (RD_y OR RD_x) 0 I1,
    opcode ''sllv'' ''y,x'' 0xe804 0xf81f (WR_y OR RD_y OR RD_x) 0 I1,
    opcode ''sll'' ''x,w,<'' 0x3000 0xf803 (WR_x OR RD_y) 0 I1,
    opcode ''sll'' ''y,x'' 0xe804 0xf81f (WR_y OR RD_y OR RD_x) 0 I1,
    opcode ''slti'' ''x,8'' 0x5000 0xf800 (WR_T OR RD_x) 0 I1,
    opcode ''slt'' ''x,y'' 0xe802 0xf81f (WR_T OR RD_x OR RD_y) 0 I1,
    opcode ''slt'' ''x,8'' 0x5000 0xf800 (WR_T OR RD_x) 0 I1,
    opcode ''sltiu'' ''x,8'' 0x5800 0xf800 (WR_T OR RD_x) 0 I1,
    opcode ''sltu'' ''x,y'' 0xe803 0xf81f (WR_T OR RD_x OR RD_y) 0 I1,
    opcode ''sltu'' ''x,8'' 0x5800 0xf800 (WR_T OR RD_x) 0 I1,
    opcode ''srav'' ''y,x'' 0xe807 0xf81f (WR_y OR RD_y OR RD_x) 0 I1,
    opcode ''sra'' ''x,w,<'' 0x3003 0xf803 (WR_x OR RD_y) 0 I1,
    opcode ''sra'' ''y,x'' 0xe807 0xf81f (WR_y OR RD_y OR RD_x) 0 I1,
    opcode ''srlv'' ''y,x'' 0xe806 0xf81f (WR_y OR RD_y OR RD_x) 0 I1,
    opcode ''srl'' ''x,w,<'' 0x3002 0xf803 (WR_x OR RD_y) 0 I1,
    opcode ''srl'' ''y,x'' 0xe806 0xf81f (WR_y OR RD_y OR RD_x) 0 I1,
    opcode ''subu'' ''z,v,y'' 0xe003 0xf803 (WR_z OR RD_x OR RD_y) 0 I1,
    opcode ''subu'' ''y,x,4'' 0 M_SUBU_I (INSN_MACRO) 0 I1,
    opcode ''subu'' ''x,k'' 0 M_SUBU_I_2 (INSN_MACRO) 0 I1,
    opcode ''sw'' ''y,W(x)'' 0xd800 0xf800 (RD_y OR RD_x) 0 I1,
    opcode ''sw'' ''x,V(S)'' 0xd000 0xf800 (RD_x OR RD_SP) 0 I1,
    opcode ''sw'' ''R,V(S)'' 0x6200 0xff00 (RD_31 OR RD_SP) 0 I1,
    opcode ''xor'' ''x,y'' 0xe80e 0xf81f (WR_x OR RD_x OR RD_y) 0 I1,
    opcode ''jalrc'' ''x'' 0xe8c0 0xf8ff (WR_31 OR RD_x OR TRAP) 0 I32,
    opcode ''jalrc'' ''R,x'' 0xe8c0 0xf8ff (WR_31 OR RD_x OR TRAP) 0 I32,
    opcode ''jrc'' ''x'' 0xe880 0xf8ff (RD_x OR TRAP) 0 I32,
    opcode ''jrc'' ''R'' 0xe8a0 0xffff (RD_31 OR TRAP) 0 I32,
    opcode ''restore'' ''M'' 0x6400 0xff80 (WR_31 OR RD_SP OR WR_SP OR TRAP) 0 I32,
    opcode ''save'' ''m'' 0x6480 0xff80 (RD_31 OR RD_SP OR WR_SP OR TRAP) 0 I32,
    opcode ''sdbbp'' ''6'' 0xe801 0xf81f (TRAP) 0 I32,
    opcode ''seb'' ''x'' 0xe891 0xf8ff (WR_x OR RD_x) 0 I32,
    opcode ''seh'' ''x'' 0xe8b1 0xf8ff (WR_x OR RD_x) 0 I32,
    opcode ''sew'' ''x'' 0xe8d1 0xf8ff (WR_x OR RD_x) 0 I64,
    opcode ''zeb'' ''x'' 0xe811 0xf8ff (WR_x OR RD_x) 0 I32,
    opcode ''zeh'' ''x'' 0xe831 0xf8ff (WR_x OR RD_x) 0 I32,
    opcode ''zew'' ''x'' 0xe851 0xf8ff (WR_x OR RD_x) 0 I64]"

definition mips16_opcodes :: "mips_opcode list" where
  "mips16_opcodes = mips16_opcodes_1 @ mips16_opcodes_2"

end
