(* ===== verification/Dis_Mips16.thy ===== *)
theory Dis_Mips16
  imports Dis_Rigel Mips16_Opc Byte_Order
begin

text \<open>
  The disassembler of mips16 instructions (\<open>opcodes/mips-dis.c\<close>): \<open>print_mips16_insn_arg\<close>,
  \<open>print_insn_mips16\<close>.

  \<open>read_memory_func\<close> of the caller is a parameter: the status of a failed read, or the bytes. The
  letters the switch of \<open>print_mips16_insn_arg\<close> does not handle end in \<open>abort\<close>.
\<close>

type_synonym read_memory = "ulong \<Rightarrow> nat \<Rightarrow> int + byte list"

datatype dis_fail = Dis_abort | Dis_overrun

definition in_bounds :: "'a option \<Rightarrow> dis_fail + 'a" where
  "in_bounds x = (case x of None \<Rightarrow> Inl Dis_overrun | Some a \<Rightarrow> Inr a)"

section \<open>Pieces of text with register names\<close>

datatype piece =
    Txt cstring
  | Reg cstring nat                 \<comment> \<open>a prefix and the name of a register\<close>
  | Reg2 cstring nat cstring nat    \<comment> \<open>two of them in one call\<close>

definition put_piece :: "dis_state \<Rightarrow> piece \<Rightarrow> dis_info \<Rightarrow> dis_info option" where
  "put_piece st p info = (case p of
     Txt s \<Rightarrow> Some (put s info)
   | Reg s r \<Rightarrow> map_option (\<lambda>n. put (s @ n) info) (nth_opt (mips_gpr_names st) r)
   | Reg2 s r s' r' \<Rightarrow>
       (case (nth_opt (mips_gpr_names st) r, nth_opt (mips_gpr_names st) r') of
          (Some n, Some n') \<Rightarrow> Some (put (s @ n @ s' @ n') info) | _ \<Rightarrow> None))"

fun put_pieces :: "dis_state \<Rightarrow> piece list \<Rightarrow> dis_info \<Rightarrow> dis_info option" where
  "put_pieces st [] info = Some info"
| "put_pieces st (p # ps) info =
     (case put_piece st p info of None \<Rightarrow> None | Some i \<Rightarrow> put_pieces st ps i)"

definition comma :: "bool \<Rightarrow> cstring" where "comma b = (if b then '','' else '''')"

text \<open>The register masks of \<open>entry\<close> and \<open>exit\<close>.\<close>

definition entry_pieces :: "ulong \<Rightarrow> piece list" where
  "entry_pieces w =
     (let l = op_get F16_IMM6 w;
          amask = unat (drop_bit 3 l AND 7);
          smask = unat (drop_bit 1 l AND 3);
          args = 0 < amask \<and> amask < 5;
          c1 = args;
          c2 = c1 \<or> smask > 0;
          c3 = c2 \<or> l AND 1 \<noteq> 0
      in (if args then Reg '''' 4 # (if amask > 1 then [Reg ''-'' (amask + 3)] else []) else [])
         @ (if smask = 3 then [Txt (comma c1 @ ''??'')]
            else if smask > 0 then
              Reg (comma c1) 16 # (if smask > 1 then [Reg ''-'' (smask + 15)] else [])
            else [])
         @ (if l AND 1 \<noteq> 0 then [Reg (comma c2) 31] else [])
         @ (if amask = 5 \<or> amask = 6 then
              Txt (comma c3 @ ''$f0'') # (if amask = 6 then [Txt ''-$f1''] else [])
            else []))"

text \<open>The masks of \<open>save\<close> and \<open>restore\<close>. The static registers are printed as ranges, from the first bit
  set; the search for the end of a range tests the bit after \<open>j\<close>.\<close>

function run_end :: "ulong \<Rightarrow> nat \<Rightarrow> nat" where
  "run_end smask j = (if bit smask (j + 1) then run_end smask (j + 1) else j)"
  by auto
termination
  by (relation "measure (\<lambda>(smask, j). 64 - j)") (auto dest: bit_imp_le_length)

declare run_end.simps [simp del]

definition static_reg :: "nat \<Rightarrow> nat" where
  "static_reg i = (if i = 8 then 30 else 16 + i)"

lemma run_end_ge: "j \<le> run_end smask j"
  by (induction smask j rule: run_end.induct) (subst run_end.simps, auto)

function static_pieces :: "ulong \<Rightarrow> nat \<Rightarrow> piece list" where
  "static_pieces smask i =
     (if 9 \<le> i then []
      else if bit smask i then
        (let j = run_end smask i in
         Reg '','' (static_reg i) # (if j > i then [Reg ''-'' (static_reg j)] else [])
         @ static_pieces smask (j + 2))
      else static_pieces smask (i + 1))"
  by auto
termination
proof (relation "measure (\<lambda>(smask, i). 9 - i)", goal_cases)
  case (2 smask i j)
  then show ?case using run_end_ge [of i smask] by simp
qed auto

declare static_pieces.simps [simp del]

definition save_pieces :: "bool \<Rightarrow> ulong \<Rightarrow> ulong \<Rightarrow> piece list" where
  "save_pieces uext ext w =
     (let l = (if uext then (w AND 0x7f) OR push_bit 16 ext else w AND 0x7f);
          amask = drop_bit 16 l AND 0xf;
          (nargs, statics) =
            (if amask = MIPS16_ALL_ARGS then (4, 0)
             else if amask = MIPS16_ALL_STATICS then (0, 4)
             else (unat (drop_bit 2 amask), unat (amask AND 3)));
          size = unat ((drop_bit 16 l AND 0xf0) OR (l AND 0x0f)) * 8;
          framesz = (if size = 0 \<and> \<not> uext then 128 else size);
          nsreg = unat (drop_bit 24 l AND 7);
          smask = (if l AND 0x20 \<noteq> 0 then 1 else 0) OR (if l AND 0x10 \<noteq> 0 then 2 else 0)
            OR (if nsreg > 0 then push_bit 2 (mask nsreg) else 0)
      in (if nargs > 0 then Reg '''' 4 # (if nargs > 1 then [Reg ''-'' (4 + nargs - 1)] else []) else [])
         @ [Txt (comma (nargs > 0) @ fmt_u framesz)]
         @ (if l AND 0x40 \<noteq> 0 then [Reg '','' 31] else [])
         @ static_pieces smask 0
         @ (if statics = 1 then [Reg '','' 7]
            else if statics > 0 then [Reg2 '','' (7 - statics + 1) ''-'' 7] else []))"

section \<open>Immediate operands\<close>

text \<open>What the inner switch sets for a letter: the number of bits and the field, the shift, whether the
  short form is signed, the bits of the extended form and whether that is unsigned, whether the value
  is relative to the program counter or a branch, and what it says about the memory access.\<close>

datatype imm16_access = No_access | Data_ref int | Data_ref_unless_pc_sp int | Cond_branch

record imm16 =
  im_nbits :: nat
  im_field :: op_field
  im_shift :: nat
  im_signed :: bool
  im_extbits :: nat
  im_extu :: bool
  im_pcrel :: bool
  im_branch :: bool
  im_access :: imm16_access

definition imm16_default :: "nat \<Rightarrow> op_field \<Rightarrow> imm16" where
  "imm16_default n f = \<lparr>im_nbits = n, im_field = f, im_shift = 0, im_signed = False, im_extbits = 16,
     im_extu = False, im_pcrel = False, im_branch = False, im_access = No_access\<rparr>"

text \<open>The letters of the outer case, each with its inner case.\<close>

definition imm16_letters :: "(char \<times> imm16) list" where [rigel_tab]:
  "imm16_letters = [
    (CHR ''<'', (imm16_default 3 F16_RZ)\<lparr>im_extbits := 5, im_extu := True\<rparr>),
    (CHR ''>'', (imm16_default 3 F16_RX)\<lparr>im_extbits := 5, im_extu := True\<rparr>),
    (CHR ''['', (imm16_default 3 F16_RZ)\<lparr>im_extbits := 6, im_extu := True\<rparr>),
    (CHR '']'', (imm16_default 3 F16_RX)\<lparr>im_extbits := 6, im_extu := True\<rparr>),
    (CHR ''4'', (imm16_default 4 F16_IMM4)\<lparr>im_signed := True, im_extbits := 15\<rparr>),
    (CHR ''H'', (imm16_default 5 F16_IMM5)\<lparr>im_shift := 1, im_access := Data_ref 2\<rparr>),
    (CHR ''W'', (imm16_default 5 F16_IMM5)\<lparr>im_shift := 2, im_access := Data_ref_unless_pc_sp 4\<rparr>),
    (CHR ''D'', (imm16_default 5 F16_IMM5)\<lparr>im_shift := 3, im_access := Data_ref 8\<rparr>),
    (CHR ''j'', (imm16_default 5 F16_IMM5)\<lparr>im_signed := True\<rparr>),
    (CHR ''6'', imm16_default 6 F16_IMM6),
    (CHR ''8'', imm16_default 8 F16_IMM8),
    (CHR ''C'', (imm16_default 8 F16_IMM8)\<lparr>im_shift := 3, im_access := Data_ref 8\<rparr>),
    (CHR ''U'', (imm16_default 8 F16_IMM8)\<lparr>im_extu := True\<rparr>),
    (CHR ''k'', (imm16_default 8 F16_IMM8)\<lparr>im_signed := True\<rparr>),
    (CHR ''K'', (imm16_default 8 F16_IMM8)\<lparr>im_shift := 3, im_signed := True\<rparr>),
    (CHR ''p'', (imm16_default 8 F16_IMM8)\<lparr>im_signed := True, im_pcrel := True, im_branch := True,
       im_access := Cond_branch\<rparr>),
    (CHR ''B'', (imm16_default 5 F16_IMM5)\<lparr>im_shift := 3, im_pcrel := True, im_access := Data_ref 8\<rparr>),
    (CHR ''E'', (imm16_default 5 F16_IMM5)\<lparr>im_shift := 2, im_pcrel := True\<rparr>)]"

definition imm16_note :: "imm16_access \<Rightarrow> mips_opcode \<Rightarrow> dis_info \<Rightarrow> dis_info" where
  "imm16_note a opc info = (case a of
     No_access \<Rightarrow> info
   | Data_ref n \<Rightarrow> info\<lparr>insn_type := dis_dref, data_size := n\<rparr>
   | Data_ref_unless_pc_sp n \<Rightarrow>
       if op_pinfo opc AND MIPS16_INSN_READ_PC = 0 \<and> op_pinfo opc AND MIPS16_INSN_READ_SP = 0
       then info\<lparr>insn_type := dis_dref, data_size := n\<rparr> else info
   | Cond_branch \<Rightarrow> info\<lparr>insn_type := dis_condbranch\<rparr>)"

text \<open>The bits of the value in an extended instruction.\<close>

definition extended_bits :: "nat \<Rightarrow> ulong \<Rightarrow> ulong \<Rightarrow> ulong" where
  "extended_bits extbits immed ext =
     ((if extbits = 16 then immed OR push_bit 11 (ext AND 0x1f) OR (ext AND 0x7e0)
       else if extbits = 15 then immed OR push_bit 11 (ext AND 0xf) OR (ext AND 0x7f0)
       else (drop_bit 6 ext AND 0x1f) OR (ext AND 0x20)) AND mask extbits)"

definition imm16_value :: "char \<Rightarrow> imm16 \<Rightarrow> ulong \<Rightarrow> bool \<Rightarrow> ulong \<Rightarrow> int" where
  "imm16_value c d l uext ext =
     (let immed = op_get (im_field d) l in
      if \<not> uext then
        (let v = (if im_signed d \<and> 2 ^ (im_nbits d - 1) \<le> uint immed
                  then uint immed - 2 ^ im_nbits d else uint immed) * 2 ^ im_shift d
         in if c \<in> {CHR ''<'', CHR ''>'', CHR ''['', CHR '']''} \<and> v = 0 then 8 else v)
      else
        (let v = uint (extended_bits (im_extbits d) immed ext)
         in if \<not> im_extu d \<and> 2 ^ (im_extbits d - 1) \<le> v then v - 2 ^ im_extbits d else v))"

definition get_16 :: "dis_info \<Rightarrow> byte list \<Rightarrow> ulong" where
  "get_16 info buffer =
     (if i_endian info = BFD_ENDIAN_BIG then bfd_getb16 buffer else bfd_getl16 buffer)"

text \<open>The address a load relative to the program counter starts from, which in the delay slot of a
  jump is that of the jump.\<close>

definition imm16_base :: "read_memory \<Rightarrow> dis_info \<Rightarrow> ulong \<Rightarrow> ulong" where
  "imm16_base rd info memaddr =
     (let jal = (case rd (memaddr - 4) 2 of
                   Inl _ \<Rightarrow> False | Inr b \<Rightarrow> get_16 info b AND 0xf800 = 0x1800);
          jr = (case rd (memaddr - 2) 2 of
                   Inl _ \<Rightarrow> False | Inr b \<Rightarrow> get_16 info b AND 0xf81f = 0xe800)
      in if jal then memaddr - 4 else if jr then memaddr - 2 else memaddr)"

definition imm16_target :: "read_memory \<Rightarrow> dis_info \<Rightarrow> imm16 \<Rightarrow> int \<Rightarrow> bool \<Rightarrow> ulong \<Rightarrow> ulong" where
  "imm16_target rd info d v uext memaddr =
     (let base = (if im_branch d then memaddr + 2
                  else if uext then memaddr - 2 else imm16_base rd info memaddr);
          immed = (if im_branch d then v * 2 else v);
          target = (base AND NOT (mask (im_shift d))) + word_of_int immed
      in if im_branch d \<and> di_flavour (i_file info) = bfd_target_unknown_flavour
         then target OR 1 else target)"

definition print_imm16 :: "read_memory \<Rightarrow> char \<Rightarrow> imm16 \<Rightarrow> mips_opcode \<Rightarrow> ulong \<Rightarrow> bool \<Rightarrow> ulong \<Rightarrow> ulong
    \<Rightarrow> dis_info \<Rightarrow> dis_info" where
  "print_imm16 rd c d opc l uext ext memaddr info0 =
     (let info = imm16_note (im_access d) opc info0;
          v = imm16_value c d l uext ext
      in if \<not> im_pcrel d then put (fmt_d v) info
         else (let t = imm16_target rd info d v uext memaddr
               in put_address t (info\<lparr>i_target := t\<rparr>)))"

section \<open>One operand\<close>

definition mips16_gpr :: "dis_state \<Rightarrow> ulong \<Rightarrow> dis_info \<Rightarrow> dis_fail + dis_info" where
  "mips16_gpr st r info = in_bounds (Option.bind (nth_opt mips16_dis_reg_map (unat r))
     (\<lambda>k. map_option (\<lambda>n. put n info) (nth_opt (mips_gpr_names st) k)))"

definition plain_gpr :: "dis_state \<Rightarrow> ulong \<Rightarrow> dis_info \<Rightarrow> dis_fail + dis_info" where
  "plain_gpr st r info = in_bounds (put_name (mips_gpr_names st) r info)"

text \<open>The target of \<open>jal\<close> and \<open>jalx\<close>, whose second half is in \<open>ext\<close>.\<close>

definition mips16_jump_target :: "dis_info \<Rightarrow> ulong \<Rightarrow> bool \<Rightarrow> ulong \<Rightarrow> ulong \<Rightarrow> ulong" where
  "mips16_jump_target info l uext ext memaddr =
     (let ext' = (if uext then ext else 0);
          j = push_bit 23 (l AND 0x1f) OR push_bit 13 (l AND 0x3e0) OR push_bit 2 ext';
          j' = (if l AND 0x400 = 0 \<and> di_flavour (i_file info) = bfd_target_unknown_flavour
                then j OR 1 else j)
      in ((memaddr + 4) AND NOT 0x0fffffff) OR j')"

definition print_mips16_insn_arg :: "read_memory \<Rightarrow> dis_state \<Rightarrow> char \<Rightarrow> mips_opcode \<Rightarrow> ulong \<Rightarrow> bool \<Rightarrow> ulong
    \<Rightarrow> ulong \<Rightarrow> dis_info \<Rightarrow> dis_fail + dis_info" where
  "print_mips16_insn_arg rd st c opc l uext ext memaddr info =
     (if c \<in> {CHR '','', CHR ''('', CHR '')''} then Inr (put [c] info)
      else if c \<in> {CHR ''y'', CHR ''w''} then mips16_gpr st (op_get F16_RY l) info
      else if c = CHR ''x'' then mips16_gpr st (op_get F16_RX l) info
      else if c = CHR ''z'' then mips16_gpr st (op_get F16_RZ l) info
      else if c = CHR ''Z'' then mips16_gpr st (op_get F16_MOVE32Z l) info
      else if c = CHR ''0'' then plain_gpr st 0 info
      else if c = CHR ''P'' then Inr (put ''$pc'' info)
      else if c = CHR ''R'' then plain_gpr st 31 info
      else if c = CHR ''X'' then plain_gpr st (op_get F16_REGR32 l) info
      else if c = CHR ''Y'' then plain_gpr st (MIPS16OP_EXTRACT_REG32R l) info
      else (case map_of imm16_letters c of
          Some d \<Rightarrow> Inr (print_imm16 rd c d opc l uext ext memaddr info)
        | None \<Rightarrow>
            if c = CHR ''a'' then
              (let t = mips16_jump_target info l uext ext memaddr in
               Inr ((put_address t (info\<lparr>i_target := t\<rparr>))\<lparr>insn_type := dis_jsr, branch_delay_insns := 1\<rparr>))
            else if c \<in> {CHR ''l'', CHR ''L''} then in_bounds (put_pieces st (entry_pieces l) info)
            else if c \<in> {CHR ''m'', CHR ''M''} then
              in_bounds (put_pieces st (save_pieces uext ext l) info)
            else Inl Dis_abort))"

section \<open>One mips16 instruction\<close>

definition memory_error :: "int \<Rightarrow> ulong \<Rightarrow> dis_info \<Rightarrow> dis_info" where
  "memory_error status a info = info\<lparr>i_stream := i_stream info @ [Memory_error status a]\<rparr>"

text \<open>A repeated register: the comma and the letter after it are skipped.\<close>

definition repeats_register :: "ulong \<Rightarrow> char \<Rightarrow> cstring \<Rightarrow> bool" where
  "repeats_register w c s \<longleftrightarrow> c = CHR '','' \<and> (case s of
     [] \<Rightarrow> False
   | c' # _ \<Rightarrow> (c' = CHR ''w'' \<and> op_get F16_RX w = op_get F16_RY w)
             \<or> (c' = CHR ''v'' \<and> op_get F16_RZ w = op_get F16_RX w))"

fun print_mips16_args :: "read_memory \<Rightarrow> dis_state \<Rightarrow> mips_opcode \<Rightarrow> ulong \<Rightarrow> bool \<Rightarrow> ulong \<Rightarrow> ulong
    \<Rightarrow> cstring \<Rightarrow> dis_info \<Rightarrow> dis_fail + dis_info" where
  "print_mips16_args rd st opc w uext ext memaddr [] info = Inr info"
| "print_mips16_args rd st opc w uext ext memaddr (c # s) info =
     (if repeats_register w c s then print_mips16_args rd st opc w uext ext memaddr (tl s) info
      else
        (case print_mips16_insn_arg rd st c opc w uext ext memaddr info of
           Inl e \<Rightarrow> Inl e
         | Inr i \<Rightarrow> print_mips16_args rd st opc w uext ext memaddr s i))"

definition mips16_branch_info :: "mips_opcode \<Rightarrow> dis_info \<Rightarrow> dis_info" where
  "mips16_branch_info opc info =
     (if op_pinfo opc AND INSN_UNCOND_BRANCH_DELAY \<noteq> 0 then
        info\<lparr>branch_delay_insns := 1,
          insn_type := (if insn_type info \<noteq> dis_jsr then dis_branch else insn_type info)\<rparr>
      else info)"

definition print_mips16_found :: "read_memory \<Rightarrow> dis_state \<Rightarrow> mips_opcode \<Rightarrow> ulong \<Rightarrow> bool \<Rightarrow> ulong \<Rightarrow> ulong
    \<Rightarrow> int \<Rightarrow> dis_info \<Rightarrow> dis_fail + int \<times> dis_info" where
  "print_mips16_found rd st opc w uext ext memaddr len info =
     (let i1 = put (op_name opc) info;
          i2 = (if op_args opc \<noteq> [] then put [CHR 0x09] i1 else i1)
      in case print_mips16_args rd st opc w uext ext memaddr (op_args opc) i2 of
           Inl e \<Rightarrow> Inl e
         | Inr i \<Rightarrow> Inr (len, mips16_branch_info opc i))"

definition put_extend :: "ulong \<Rightarrow> dis_info \<Rightarrow> dis_info" where
  "put_extend ext info = put (''extend 0x'' @ fmt_lx ext) info"

definition mips16_selects :: "dis_state \<Rightarrow> ulong \<Rightarrow> mips_opcode \<Rightarrow> bool" where
  "mips16_selects st w opc \<longleftrightarrow> dis_candidate (no_aliases st) opc \<and> opcode_matches opc w"

definition print_mips16_word :: "read_memory \<Rightarrow> dis_state \<Rightarrow> ulong \<Rightarrow> bool \<Rightarrow> ulong \<Rightarrow> ulong \<Rightarrow> int
    \<Rightarrow> dis_info \<Rightarrow> dis_fail + int \<times> dis_info" where
  "print_mips16_word rd st w uext ext memaddr len info =
     (case List.find (mips16_selects st w) mips16_opcodes of
        None \<Rightarrow>
          (let i = (if uext then put (''0x'' @ fmt_lx (ext OR 0xf000)) info else info)
           in Inr (len, (put (''0x'' @ fmt_lx w) i)\<lparr>insn_type := dis_noninsn\<rparr>))
      | Some opc \<Rightarrow>
          if CHR ''a'' \<in> set (op_args opc) then
            (if uext then Inr (len - 2, (put_extend ext info)\<lparr>insn_type := dis_noninsn\<rparr>)
             else
               (case rd (memaddr + 2) 2 of
                  Inl _ \<Rightarrow> print_mips16_found rd st opc w False ext (memaddr + 2) len info
                | Inr buffer \<Rightarrow>
                    print_mips16_found rd st opc w True (get_16 info buffer) (memaddr + 2) (len + 2) info))
          else print_mips16_found rd st opc w uext ext memaddr len info)"

definition print_insn_mips16 :: "read_memory \<Rightarrow> dis_state \<Rightarrow> ulong \<Rightarrow> dis_info
    \<Rightarrow> dis_fail + int \<times> dis_info" where
  "print_insn_mips16 rd st memaddr info0 =
     (let info = reset_info 2 info0 in
      case rd memaddr 2 of
        Inl status \<Rightarrow> Inr (-1, memory_error status memaddr info)
      | Inr buffer \<Rightarrow>
          (let w = get_16 info buffer in
           if w AND 0xf800 = 0xf000 then
             (let ext = w AND 0x7ff in
              case rd (memaddr + 2) 2 of
                Inl status \<Rightarrow> Inr (-1, memory_error status (memaddr + 2) (put_extend ext info))
              | Inr buffer' \<Rightarrow>
                  (let w' = get_16 info buffer' in
                   if w' AND 0xf800 = 0xf000
                   then Inr (2, (put_extend ext info)\<lparr>insn_type := dis_noninsn\<rparr>)
                   else print_mips16_word rd st w' True ext (memaddr + 2) 4 info))
           else print_mips16_word rd st w False 0 memaddr 2 info))"

section \<open>Names are read in bounds\<close>

definition piece_ok :: "piece \<Rightarrow> bool" where
  "piece_ok p = (case p of Txt s \<Rightarrow> True | Reg s r \<Rightarrow> r < 32 | Reg2 s r s' r' \<Rightarrow> r < 32 \<and> r' < 32)"

lemma piece_ok_simps [simp]:
  "piece_ok (Txt s)" "piece_ok (Reg s r) = (r < 32)" "piece_ok (Reg2 s r s' r') = (r < 32 \<and> r' < 32)"
  by (simp_all add: piece_ok_def)

lemma static_reg_bound: "i < 9 \<Longrightarrow> static_reg i < 32"
  by (simp add: static_reg_def)

lemma put_pieces_ok:
  assumes "32 \<le> length (mips_gpr_names st)"
  shows "list_all piece_ok ps \<Longrightarrow> \<exists>i. put_pieces st ps info = Some i"
proof (induction ps arbitrary: info)
  case (Cons p ps)
  have "\<exists>i. put_piece st p info = Some i"
    using Cons.prems assms by (cases p) (simp_all add: put_piece_def nth_opt_def)
  then show ?case using Cons by auto
qed simp

lemma and_low_bound: "unat ((w :: ulong) AND mask n) < 2 ^ n"
proof (cases "n < 64")
  case True
  then show ?thesis by (simp add: take_bit_eq_mask [symmetric] unsigned_take_bit_eq)
next
  case False
  have "unat (w AND mask n) < 2 ^ 64" using unsigned_less [of "w AND mask n"] by simp
  also have "(2 :: nat) ^ 64 \<le> 2 ^ n" using False by (intro power_increasing) simp_all
  finally show ?thesis .
qed

lemma and_7_bound: "unat ((w :: ulong) AND 7) < 8"
  using and_low_bound [of w 3] by (simp add: mask_eq_exp_minus_1)

lemma and_3_bound: "unat ((w :: ulong) AND 3) < 4"
  using and_low_bound [of w 2] by (simp add: mask_eq_exp_minus_1)

lemma entry_pieces_ok: "list_all piece_ok (entry_pieces w)"
  using and_7_bound [of "drop_bit 3 (op_get F16_IMM6 w)"] and_3_bound [of "drop_bit 1 (op_get F16_IMM6 w)"]
  by (simp add: entry_pieces_def Let_def)

lemma run_end_below: "j < n \<Longrightarrow> \<forall>k\<ge>n. \<not> bit smask k \<Longrightarrow> run_end smask j < n"
proof (induction smask j rule: run_end.induct)
  case (1 smask j)
  show ?case
  proof (cases "bit smask (j + 1)")
    case True
    then have "j + 1 < n" using 1(3) not_le_imp_less by blast
    then show ?thesis using 1(1) [OF True _ 1(3)] True by (subst run_end.simps) simp
  next
    case False
    then show ?thesis using 1(2) by (subst run_end.simps) simp
  qed
qed

lemma static_pieces_ok:
  "\<forall>k\<ge>9. \<not> bit smask k \<Longrightarrow> list_all piece_ok (static_pieces smask i)"
proof (induction smask i rule: static_pieces.induct)
  case (1 smask i)
  show ?case
  proof (cases "9 \<le> i")
    case True
    then show ?thesis by (subst static_pieces.simps) simp
  next
    case False
    then have r: "static_reg i < 32" "static_reg (run_end smask i) < 32"
      using static_reg_bound run_end_below [of i 9 smask] 1(3) by simp_all
    show ?thesis
    proof (cases "bit smask i")
      case True
      then show ?thesis
        using 1(1) [OF False True refl 1(3)] False r by (subst static_pieces.simps) (simp add: Let_def)
    next
      case bit: False
      then show ?thesis
        using 1(2) [OF False bit 1(3)] False by (subst static_pieces.simps) simp
    qed
  qed
qed

lemma mips16_reg_in_bounds:
  assumes "32 \<le> length (mips_gpr_names st)" and "unat r < 8"
  shows "\<exists>i. mips16_gpr st r info = Inr i"
proof -
  have "unat r \<in> {0, 1, 2, 3, 4, 5, 6, 7}" using assms(2) by (simp add: less_Suc_eq numeral_eq_Suc)
  then show ?thesis
    using assms(1) by (auto simp: mips16_gpr_def in_bounds_def nth_opt_def mips16_dis_reg_map_def)
qed

lemma plain_gpr_in_bounds:
  assumes "32 \<le> length (mips_gpr_names st)" and "unat r < 32"
  shows "\<exists>i. plain_gpr st r info = Inr i"
  using assms by (simp add: plain_gpr_def in_bounds_def put_name_def nth_opt_def)

lemma save_mask_bits:
  assumes "n < 8" and "9 \<le> k"
  shows "\<not> bit ((if a then 1 else 0) OR (if b then 2 else 0) OR (if c then push_bit 2 (mask n) else 0) :: ulong) k"
proof -
  have "\<not> bit (1 :: ulong) k" "\<not> bit (2 :: ulong) k" "\<not> bit (push_bit 2 (mask n) :: ulong) k"
    using assms by (auto simp: bit_1_iff bit_2_iff bit_simps)
  then show ?thesis by (simp add: bit_or_iff)
qed

lemma amask_bound: "unat (drop_bit 2 (drop_bit 16 l AND 0xf :: ulong)) < 4"
proof -
  have "drop_bit 2 (drop_bit 16 l AND 0xf) = drop_bit 18 l AND 3"
    by (rule bit_word_eqI) (auto simp: bit_simps numeral_eq_Suc less_Suc_eq)
  then show ?thesis using and_3_bound by simp
qed

lemma save_pieces_ok: "list_all piece_ok (save_pieces uext ext w)"
proof -
  define l where "l = (if uext then (w AND 0x7f) OR push_bit 16 ext else w AND 0x7f)"
  define amask where "amask = drop_bit 16 l AND 0xf"
  obtain nargs statics where n: "(if amask = MIPS16_ALL_ARGS then (4, 0)
             else if amask = MIPS16_ALL_STATICS then (0, 4)
             else (unat (drop_bit 2 amask), unat (amask AND 3))) = (nargs, statics)"
    by fastforce
  then have b: "nargs < 5" "statics < 5"
    using amask_bound [of l] and_3_bound [of amask] unfolding amask_def [symmetric]
    by (auto split: if_splits)
  have d: "7 - statics < 31" by arith
  have m: "list_all piece_ok (static_pieces ((if l AND 0x20 \<noteq> 0 then 1 else 0)
      OR (if l AND 0x10 \<noteq> 0 then 2 else 0)
      OR (if unat (drop_bit 24 l AND 7) > 0 then push_bit 2 (mask (unat (drop_bit 24 l AND 7))) else 0)) 0)"
    using static_pieces_ok save_mask_bits [OF and_7_bound] by blast
  show ?thesis
    unfolding save_pieces_def l_def [symmetric] Let_def amask_def [symmetric] n prod.case
    using b m d by (simp add: Let_def)
qed

section \<open>Which letters end in an abort\<close>

definition handled_16 :: "char \<Rightarrow> bool" where
  "handled_16 c \<longleftrightarrow> c \<in> set '',()ywxzZ0PRXYalLmM'' \<or> c \<in> fst ` set imm16_letters"

text \<open>The letters of an argument string that are printed for a word.\<close>

fun printed_letters :: "ulong \<Rightarrow> cstring \<Rightarrow> cstring" where
  "printed_letters w [] = []"
| "printed_letters w (c # s) =
     (if repeats_register w c s then printed_letters w (tl s) else c # printed_letters w s)"

lemma mips16_field_bounds:
  "unat (op_get F16_RX l) < 8" "unat (op_get F16_RY l) < 8" "unat (op_get F16_RZ l) < 8"
  "unat (op_get F16_MOVE32Z l) < 8" "unat (op_get F16_REGR32 l) < 32"
  using op_get_bound [of F16_RX l] op_get_bound [of F16_RY l] op_get_bound [of F16_RZ l]
    op_get_bound [of F16_MOVE32Z l] op_get_bound [of F16_REGR32 l]
  by (simp_all add: F16_RX_def F16_RY_def F16_RZ_def F16_MOVE32Z_def F16_REGR32_def)

lemma and_31_bound: "unat ((w :: ulong) AND 0x1f) < 32"
  using and_low_bound [of w 5] by (simp add: mask_eq_exp_minus_1)

lemma REG32R_bound: "unat (MIPS16OP_EXTRACT_REG32R l) < 32"
proof -
  have "bit (MIPS16OP_EXTRACT_REG32R l) n \<Longrightarrow> n < 5" for n
    by (auto simp: MIPS16OP_EXTRACT_REG32R_def bit_simps numeral_eq_Suc less_Suc_eq)
  then have "MIPS16OP_EXTRACT_REG32R l = take_bit 5 (MIPS16OP_EXTRACT_REG32R l)"
    by (intro bit_word_eqI) (auto simp: bit_take_bit_iff)
  then have "MIPS16OP_EXTRACT_REG32R l = MIPS16OP_EXTRACT_REG32R l AND 0x1f"
    by (simp add: take_bit_eq_mask mask_eq_exp_minus_1)
  then show ?thesis using and_31_bound by metis
qed

lemma imm16_keys: "map_of imm16_letters c = None \<longleftrightarrow> c \<notin> fst ` set imm16_letters"
  by (rule map_of_eq_None_iff)

lemma imm16_letters_apart: "set '',()ywxzZ0PRXYalLmM'' \<inter> fst ` set imm16_letters = {}"
  by (simp add: imm16_letters_def)

lemma print_mips16_arg_outcome:
  assumes "32 \<le> length (mips_gpr_names st)"
  shows "(case print_mips16_insn_arg rd st c opc l uext ext memaddr info of
      Inl e \<Rightarrow> e = Dis_abort \<and> \<not> handled_16 c | Inr i \<Rightarrow> handled_16 c)"
proof (cases "map_of imm16_letters c")
  case None
  then have h: "handled_16 c \<longleftrightarrow> c \<in> set '',()ywxzZ0PRXYalLmM''"
    by (simp add: handled_16_def imm16_keys)
  note g = mips16_reg_in_bounds [OF assms mips16_field_bounds(1)]
    mips16_reg_in_bounds [OF assms mips16_field_bounds(2)]
    mips16_reg_in_bounds [OF assms mips16_field_bounds(3)]
    mips16_reg_in_bounds [OF assms mips16_field_bounds(4)]
  note p = plain_gpr_in_bounds [OF assms mips16_field_bounds(5)]
    plain_gpr_in_bounds [OF assms REG32R_bound]
    plain_gpr_in_bounds [OF assms, of 0] plain_gpr_in_bounds [OF assms, of 31]
  have q: "\<exists>i. in_bounds (put_pieces st (entry_pieces l) info) = Inr i"
    "\<exists>i. in_bounds (put_pieces st (save_pieces uext ext l) info) = Inr i"
    using put_pieces_ok [OF assms entry_pieces_ok, of l info]
      put_pieces_ok [OF assms save_pieces_ok, of uext ext l info] by (auto simp: in_bounds_def)
  show ?thesis
  proof (cases "handled_16 c")
    case True
    have "\<exists>i. print_mips16_insn_arg rd st c opc l uext ext memaddr info = Inr i"
      using True None g p q unfolding h by (auto simp: print_mips16_insn_arg_def Let_def)
    then show ?thesis using True by auto
  next
    case False
    then show ?thesis using None h by (simp add: print_mips16_insn_arg_def)
  qed
next
  case (Some d)
  then have k: "c \<in> fst ` set imm16_letters" using imm16_keys [of c] by auto
  then have "c \<notin> set '',()ywxzZ0PRXYalLmM''" using imm16_letters_apart by blast
  then show ?thesis using Some k by (simp add: print_mips16_insn_arg_def handled_16_def)
qed

lemma print_mips16_args_outcome:
  assumes "32 \<le> length (mips_gpr_names st)"
  shows "(case print_mips16_args rd st opc w uext ext memaddr s info of
      Inl e \<Rightarrow> e = Dis_abort \<and> (\<exists>c\<in>set (printed_letters w s). \<not> handled_16 c)
    | Inr i \<Rightarrow> \<forall>c\<in>set (printed_letters w s). handled_16 c)"
proof (induction w s arbitrary: info rule: printed_letters.induct)
  case (2 w c s)
  show ?case
  proof (cases "repeats_register w c s")
    case True
    then show ?thesis using 2(1) [OF True, of info] True by (simp split: sum.split sum.split_asm)
  next
    case False
    show ?thesis
    proof (cases "print_mips16_insn_arg rd st c opc w uext ext memaddr info")
      case (Inl e)
      then show ?thesis
        using print_mips16_arg_outcome [OF assms, where rd = rd and c = c and opc = opc and l = w and
            uext = uext and ext = ext and memaddr = memaddr and info = info] False by simp
    next
      case (Inr i)
      then show ?thesis
        using print_mips16_arg_outcome [OF assms, where rd = rd and c = c and opc = opc and l = w and
            uext = uext and ext = ext and memaddr = memaddr and info = info] False
          2(2) [OF False, of i] by (simp split: sum.split sum.split_asm)
    qed
  qed
qed simp

lemma print_mips16_found_outcome:
  assumes "32 \<le> length (mips_gpr_names st)"
  shows "(case print_mips16_found rd st opc w uext ext memaddr len info of
      Inl e \<Rightarrow> e = Dis_abort \<and> (\<exists>c\<in>set (printed_letters w (op_args opc)). \<not> handled_16 c)
    | Inr (n, i) \<Rightarrow> n = len \<and> (\<forall>c\<in>set (printed_letters w (op_args opc)). handled_16 c))"
proof -
  let ?i = "if op_args opc \<noteq> [] then put [CHR 0x09] (put (op_name opc) info) else put (op_name opc) info"
  show ?thesis
    using print_mips16_args_outcome [OF assms, where rd = rd and opc = opc and w = w and
        uext = uext and ext = ext and memaddr = memaddr and s = "op_args opc" and info = ?i]
    by (cases "print_mips16_args rd st opc w uext ext memaddr (op_args opc) ?i")
       (simp_all add: print_mips16_found_def Let_def)
qed

text \<open>When the entry selected for a word makes the disassembler abort.\<close>

definition aborts_16 :: "dis_state \<Rightarrow> ulong \<Rightarrow> bool \<Rightarrow> bool" where
  "aborts_16 st w uext \<longleftrightarrow> (case List.find (mips16_selects st w) mips16_opcodes of
     None \<Rightarrow> False
   | Some opc \<Rightarrow> \<not> (uext \<and> CHR ''a'' \<in> set (op_args opc))
       \<and> (\<exists>c\<in>set (printed_letters w (op_args opc)). \<not> handled_16 c))"

lemma print_mips16_word_outcome:
  assumes "32 \<le> length (mips_gpr_names st)"
  shows "(case print_mips16_word rd st w uext ext memaddr len info of
      Inl e \<Rightarrow> e = Dis_abort \<and> aborts_16 st w uext
    | Inr (n, i) \<Rightarrow> \<not> aborts_16 st w uext \<and> (n = len \<or> (uext \<and> n = len - 2) \<or> (\<not> uext \<and> n = len + 2)))"
proof (cases "List.find (mips16_selects st w) mips16_opcodes")
  case None
  then show ?thesis by (simp add: print_mips16_word_def aborts_16_def Let_def)
next
  case (Some opc)
  have f: "case print_mips16_found rd st opc w u x a n info of
      Inl e \<Rightarrow> e = Dis_abort \<and> (\<exists>c\<in>set (printed_letters w (op_args opc)). \<not> handled_16 c)
    | Inr (n', i) \<Rightarrow> n' = n \<and> (\<forall>c\<in>set (printed_letters w (op_args opc)). handled_16 c)" for u x a n
    by (rule print_mips16_found_outcome [OF assms])
  show ?thesis
  proof (cases "CHR ''a'' \<in> set (op_args opc)")
    case True
    show ?thesis
    proof (cases uext)
      case False
      show ?thesis
      proof (cases "rd (memaddr + 2) 2")
        case (Inl e)
        then show ?thesis using True False Some f [where u = False and x = ext and a = "memaddr + 2" and n = len]
          by (simp add: print_mips16_word_def aborts_16_def split: sum.split sum.split_asm prod.split prod.split_asm)
      next
        case (Inr b)
        then show ?thesis using True False Some f [where u = True and x = "get_16 info b" and a = "memaddr + 2" and n = "len + 2"]
          by (simp add: print_mips16_word_def aborts_16_def split: sum.split sum.split_asm prod.split prod.split_asm)
      qed
    qed (use True Some in \<open>simp add: print_mips16_word_def aborts_16_def\<close>)
  next
    case False
    then show ?thesis using Some f [where u = uext and x = ext and a = memaddr and n = len]
      by (simp add: print_mips16_word_def aborts_16_def split: sum.split sum.split_asm prod.split prod.split_asm)
  qed
qed

text \<open>The halfword at an address that the table is searched for, after an extension if there is one: \<open>None\<close> when a
  read fails, \<open>Some None\<close> when two extensions follow each other.\<close>

definition insn_halfword :: "read_memory \<Rightarrow> ulong \<Rightarrow> dis_info \<Rightarrow> (ulong \<times> bool) option option" where
  "insn_halfword rd memaddr info =
     (case rd memaddr 2 of
        Inl e \<Rightarrow> None
      | Inr b \<Rightarrow>
          if get_16 (reset_info 2 info) b AND 0xf800 = 0xf000 then
            (case rd (memaddr + 2) 2 of
               Inl e \<Rightarrow> None
             | Inr b' \<Rightarrow> let w = get_16 (reset_info 2 info) b' in
                 Some (if w AND 0xf800 = 0xf000 then None else Some (w, True)))
          else Some (Some (get_16 (reset_info 2 info) b, False)))"

lemma print_insn_mips16_outcome:
  assumes "32 \<le> length (mips_gpr_names st)"
  shows "case insn_halfword rd memaddr info of
      None \<Rightarrow> \<exists>i. print_insn_mips16 rd st memaddr info = Inr (-1, i)
    | Some None \<Rightarrow> \<exists>i. print_insn_mips16 rd st memaddr info = Inr (2, i)
    | Some (Some (w, uext)) \<Rightarrow>
        if aborts_16 st w uext then print_insn_mips16 rd st memaddr info = Inl Dis_abort
        else \<exists>n i. print_insn_mips16 rd st memaddr info = Inr (n, i) \<and> n \<in> {2, 4}"
proof (cases "rd memaddr 2")
  case (Inl s)
  then show ?thesis by (simp add: print_insn_mips16_def insn_halfword_def Let_def)
next
  case (Inr b)
  let ?info = "reset_info 2 info"
  have o: "case print_mips16_word rd st w uext ext a len ?info of
      Inl e \<Rightarrow> e = Dis_abort \<and> aborts_16 st w uext
    | Inr (n, i) \<Rightarrow> \<not> aborts_16 st w uext \<and> (n = len \<or> (uext \<and> n = len - 2) \<or> (\<not> uext \<and> n = len + 2))" for w uext ext a len
    by (rule print_mips16_word_outcome [OF assms])
  show ?thesis
  proof (cases "get_16 ?info b AND 0xf800 = 0xf000")
    case ext: True
    show ?thesis
    proof (cases "rd (memaddr + 2) 2")
      case (Inl s)
      then show ?thesis using Inr ext by (simp add: print_insn_mips16_def insn_halfword_def Let_def)
    next
      case b': (Inr b')
      then show ?thesis
        using Inr ext o [where w = "get_16 ?info b'" and uext = True and ext = "get_16 ?info b AND 0x7ff" and a = "memaddr + 2" and len = 4]
        by (auto simp: print_insn_mips16_def insn_halfword_def Let_def split: sum.split sum.split_asm)
    qed
  next
    case False
    then show ?thesis
      using Inr o [where w = "get_16 ?info b" and uext = False and ext = 0 and a = memaddr and len = 2]
      by (auto simp: print_insn_mips16_def insn_halfword_def Let_def split: sum.split sum.split_asm)
  qed
qed

section \<open>Byte loads and stores\<close>

text \<open>The entries of the major opcodes of \<open>lb\<close>, \<open>lbu\<close> and \<open>sb\<close>, whose operand \<open>5\<close> the switch lost.\<close>

definition byte_access :: "mips_opcode \<Rightarrow> bool" where
  "byte_access opc \<longleftrightarrow> op_pinfo opc = INSN_MACRO
     \<or> (op_msk opc AND 0xf800 = 0xf800
        \<and> (op_match opc AND 0xf800 \<in> {0x8000, 0xa000, 0xc000} \<longrightarrow> op_args opc = ''y,5(x)''))"

lemma byte_access_opcode:
  "byte_access (opcode nm ar mt mk pi pi2 me) \<longleftrightarrow> pi = INSN_MACRO \<or> (mk AND 0xf800 = 0xf800
     \<and> (mt AND 0xf800 \<in> {0x8000, 0xa000, 0xc000} \<longrightarrow> ar = ''y,5(x)''))"
  by (simp add: byte_access_def)

lemma mips16_byte_access: "list_all byte_access mips16_opcodes"
proof -
  have "list_all byte_access mips16_opcodes_1"
    unfolding mips16_opcodes_1_def list.pred_inject byte_access_opcode by simp
  moreover have "list_all byte_access mips16_opcodes_2"
    unfolding mips16_opcodes_2_def list.pred_inject byte_access_opcode by simp
  ultimately show ?thesis by (simp add: mips16_opcodes_def)
qed

definition byte_entry :: "ulong \<Rightarrow> mips_opcode \<Rightarrow> bool" where
  "byte_entry m opc \<longleftrightarrow> op_pinfo opc \<noteq> INSN_MACRO \<and> op_pinfo2 opc = 0 \<and> op_msk opc = 0xf800 \<and> op_match opc = m"

lemma byte_entry_opcode:
  "byte_entry m (opcode nm ar mt mk pi pi2 me) \<longleftrightarrow> pi \<noteq> INSN_MACRO \<and> pi2 = 0 \<and> mk = 0xf800 \<and> mt = m"
  by (simp add: byte_entry_def)

lemma mips16_byte_entries: "m \<in> {0x8000, 0xa000, 0xc000} \<Longrightarrow> list_ex (byte_entry m) mips16_opcodes_2"
  unfolding mips16_opcodes_2_def list.pred_inject list_ex_iff list.set bex_simps byte_entry_opcode
  by (elim insertE emptyE) (simp_all add: rigel_const)

lemma byte_word_entry:
  assumes "w AND 0xf800 \<in> {0x8000, 0xa000, 0xc000}"
  obtains opc where "List.find (mips16_selects st w) mips16_opcodes = Some opc" "op_args opc = ''y,5(x)''"
proof (cases "List.find (mips16_selects st w) mips16_opcodes")
  case None
  obtain opc where o: "opc \<in> set mips16_opcodes" "byte_entry (w AND 0xf800) opc"
    using mips16_byte_entries [OF assms] unfolding list_ex_iff mips16_opcodes_def set_append by blast
  then have "mips16_selects st w opc"
    by (simp add: mips16_selects_def dis_candidate_def opcode_matches_def byte_entry_def)
  then show thesis using None o(1) by (simp add: find_None_iff)
next
  case (Some opc)
  have o: "opc \<in> set mips16_opcodes" "mips16_selects st w opc" using find_member [OF Some] by simp_all
  have b: "byte_access opc" "op_pinfo opc \<noteq> INSN_MACRO" "opcode_matches opc w"
    using mips16_byte_access o by (simp_all add: list_all_iff mips16_selects_def dis_candidate_def)
  have "w AND 0xf800 = op_match opc AND 0xf800"
    by (rule matches_on_submask) (use b in \<open>simp_all add: byte_access_def\<close>)
  then have "op_match opc AND 0xf800 \<in> {0x8000, 0xa000, 0xc000}" using assms by (simp only:)
  then have "op_args opc = ''y,5(x)''" using b(1,2) unfolding byte_access_def by blast
  with Some show thesis using that by blast
qed

lemma byte_word_aborts:
  "w AND 0xf800 \<in> {0x8000, 0xa000, 0xc000} \<Longrightarrow> aborts_16 st w uext"
proof -
  assume "w AND 0xf800 \<in> {0x8000, 0xa000, 0xc000}"
  then obtain opc where "List.find (mips16_selects st w) mips16_opcodes = Some opc" "op_args opc = ''y,5(x)''"
    by (rule byte_word_entry)
  then show ?thesis by (simp add: aborts_16_def repeats_register_def handled_16_def imm16_letters_def)
qed

section \<open>Properties\<close>

text \<open>C33: what disassembling mips16 code comes to, at any address and over any memory, with register names set up. A
  failed read returns -1, and an extension followed by another returns 2. Otherwise the halfword that was read decides:
  when the table entry selected for it has an operand letter that is printed for it and that the switch does not
  handle, the disassembler aborts, and in all other cases it returns the length 2 or 4. No name is read out of bounds.\<close>

theorem mips16_disassembly_outcome:
  assumes "names_ok st"
  shows "case insn_halfword rd memaddr info of
      None \<Rightarrow> \<exists>i. print_insn_mips16 rd st memaddr info = Inr (-1, i)
    | Some None \<Rightarrow> \<exists>i. print_insn_mips16 rd st memaddr info = Inr (2, i)
    | Some (Some (w, uext)) \<Rightarrow>
        if aborts_16 st w uext then print_insn_mips16 rd st memaddr info = Inl Dis_abort
        else \<exists>n i. print_insn_mips16 rd st memaddr info = Inr (n, i) \<and> n \<in> {2, 4}"
  using assms by (intro print_insn_mips16_outcome) (simp add: names_ok_def)

text \<open>C34: the disassembler aborts on every mips16 byte load and store, extended or not: the major opcodes of \<open>lb\<close>,
  \<open>lbu\<close> and \<open>sb\<close> select entries with the operand letter \<open>5\<close>, which the outer switch has commented
  out while the inner one still handles it. The expected output in \<open>gas/testsuite/gas/mips/mips16.d\<close> prints them.\<close>

theorem byte_access_aborts:
  assumes "names_ok st" and "insn_halfword rd memaddr info = Some (Some (w, uext))"
    and "w AND 0xf800 \<in> {0x8000, 0xa000, 0xc000}"
  shows "print_insn_mips16 rd st memaddr info = Inl Dis_abort"
proof -
  have "32 \<le> length (mips_gpr_names st)" using assms(1) by (simp add: names_ok_def)
  then show ?thesis
    using print_insn_mips16_outcome [of st rd memaddr info] byte_word_aborts [OF assms(3), of st uext] assms(2) by simp
qed

text \<open>Concrete runs.\<close>

definition bytes_at :: "ulong \<Rightarrow> byte list \<Rightarrow> read_memory" where
  "bytes_at base bs a n =
     (if base \<le> a \<and> unat (a - base) + n \<le> length bs then Inr (take n (drop (unat (a - base)) bs))
      else Inl 1)"

lemma rigel_session_names_ok: "names_ok rigel_session"
  using rigel_session_ready by (simp add: dis_ready_def)

lemma sample_nop: "\<not> aborts_16 rigel_session 0x6500 False"
proof -
  obtain rest where r: "mips16_opcodes = opcode ''nop'' '''' 0x6500 0xffff RD_Z 0 I1 # rest"
    unfolding mips16_opcodes_def mips16_opcodes_1_def by auto
  have "mips16_selects rigel_session 0x6500 (opcode ''nop'' '''' 0x6500 0xffff RD_Z 0 I1)"
    by (simp add: mips16_selects_def dis_candidate_def opcode_matches_def rigel_const)
  then have "List.find (mips16_selects rigel_session 0x6500) mips16_opcodes = Some (opcode ''nop'' '''' 0x6500 0xffff RD_Z 0 I1)"
    unfolding r by simp
  then show ?thesis by (simp add: aborts_16_def)
qed

theorem mips16_disassembly_outcome_witness:
  "\<exists>n i. print_insn_mips16 (bytes_at 0 [0x65, 0]) rigel_session 0 rigel_info = Inr (n, i) \<and> n \<in> {2, 4}"
proof -
  have "insn_halfword (bytes_at 0 [0x65, 0]) 0 rigel_info = Some (Some (0x6500, False))"
    by (simp add: insn_halfword_def bytes_at_def get_16_def reset_info_def rigel_info_def bfd_getb16_def)
  then show ?thesis
    using mips16_disassembly_outcome [OF rigel_session_names_ok, of "bytes_at 0 [0x65, 0]" 0 rigel_info] sample_nop by simp
qed

theorem byte_access_aborts_witness:
  "print_insn_mips16 (bytes_at 0 [0xf0, 0x20, 0x83, 0x40]) rigel_session 0 rigel_info = Inl Dis_abort"
proof (rule byte_access_aborts [OF rigel_session_names_ok])
  show "insn_halfword (bytes_at 0 [0xf0, 0x20, 0x83, 0x40]) 0 rigel_info = Some (Some (0x8340, True))"
    by (simp add: insn_halfword_def bytes_at_def get_16_def reset_info_def rigel_info_def bfd_getb16_def)
qed simp

end
