(* ===== verification/Dis_Entry.thy ===== *)
theory Dis_Entry
  imports Dis_Mips16
begin

text \<open>
  The entry points of the disassembler (\<open>opcodes/mips-dis.c\<close>): \<open>_print_insn_mips\<close> sets the options,
  chooses between the two instruction sets, and reads the instruction.
\<close>

section \<open>The entry points\<close>

text \<open>\<open>_print_insn_mips\<close>; \<open>mips16_symbol\<close> says that the first symbol given for the address is marked
  \<open>STO_MIPS16\<close>.\<close>

definition bfd_mach_mips16 :: ulong where [rigel_const]: "bfd_mach_mips16 = 16"

definition dis_print_insn :: "read_memory \<Rightarrow> bool \<Rightarrow> bool \<Rightarrow> ulong \<Rightarrow> dis_state \<Rightarrow> dis_info
    \<Rightarrow> dis_fail + int \<times> dis_state \<times> dis_info" where
  "dis_print_insn rd mips16_symbol big memaddr st0 info =
     (let st = parse_mips_dis_options (di_options (i_file info))
                 (set_default_mips_dis_options (i_file info) st0)
      in if memaddr AND 1 \<noteq> 0 \<or> di_mach (i_file info) = bfd_mach_mips16
            \<or> (di_flavour (i_file info) = bfd_target_elf_flavour \<and> mips16_symbol)
         then (case print_insn_mips16 rd st memaddr info of
                 Inl e \<Rightarrow> Inl e | Inr (n, i) \<Rightarrow> Inr (n, st, i))
         else
           (case rd memaddr 4 of
              Inl status \<Rightarrow> Inr (-1, st, memory_error status memaddr info)
            | Inr buffer \<Rightarrow>
                in_bounds (print_insn_mips mips_builtin_opcodes memaddr
                  (if big then bfd_getb32 buffer else bfd_getl32 buffer) st info)))"

definition print_insn_big_mips :: "read_memory \<Rightarrow> bool \<Rightarrow> ulong \<Rightarrow> dis_state \<Rightarrow> dis_info
    \<Rightarrow> dis_fail + int \<times> dis_state \<times> dis_info" where
  "print_insn_big_mips rd s16 memaddr st info = dis_print_insn rd s16 True memaddr st info"

definition print_insn_little_mips :: "read_memory \<Rightarrow> bool \<Rightarrow> ulong \<Rightarrow> dis_state \<Rightarrow> dis_info
    \<Rightarrow> dis_fail + int \<times> dis_state \<times> dis_info" where
  "print_insn_little_mips rd s16 memaddr st info = dis_print_insn rd s16 False memaddr st info"

section \<open>A session over a Rigel object\<close>

definition rigel_file :: "dis_file \<Rightarrow> bool" where
  "rigel_file info \<longleftrightarrow> di_mach info = 1983 \<and> (\<forall>h. di_header info = Some h \<longrightarrow> \<not> is_newabi h)"

lemma rigel_file_session:
  assumes "hint_ok st0" and "rigel_hash_ok st0" and "rigel_file (i_file info)"
  shows "dis_ready (parse_mips_dis_options (di_options (i_file info))
      (set_default_mips_dis_options (i_file info) st0))"
    "hint_ok (parse_mips_dis_options (di_options (i_file info))
      (set_default_mips_dis_options (i_file info) st0))"
proof -
  show "dis_ready (parse_mips_dis_options (di_options (i_file info))
      (set_default_mips_dis_options (i_file info) st0))"
    using assms by (intro rigel_ready) (simp_all add: rigel_file_def)
  show "hint_ok (parse_mips_dis_options (di_options (i_file info))
      (set_default_mips_dis_options (i_file info) st0))"
    using set_default_ok(2) [OF assms(1)]
    by (simp add: parse_mips_dis_options_def parse_loop_ok split: option.split)
qed

text \<open>What an even address in code that is not marked as mips16 leads to.\<close>

lemma rigel_entry_word:
  assumes "rigel_file (i_file info)" and "memaddr AND 1 = 0"
  shows "dis_print_insn rd False big memaddr st0 info =
    (let st = parse_mips_dis_options (di_options (i_file info)) (set_default_mips_dis_options (i_file info) st0)
     in case rd memaddr 4 of
          Inl status \<Rightarrow> Inr (-1, st, memory_error status memaddr info)
        | Inr buffer \<Rightarrow> in_bounds (print_insn_mips mips_builtin_opcodes memaddr
            (if big then bfd_getb32 buffer else bfd_getl32 buffer) st info))"
  using assms by (simp add: dis_print_insn_def rigel_file_def bfd_mach_mips16_def Let_def)

lemma ready_hash_ok: "dis_ready st \<Longrightarrow> rigel_hash_ok st"
  by (simp add: dis_ready_def)

lemma print_insn_mips_hint:
  "print_insn_mips tab memaddr w st info = Some (n, st', i) \<Longrightarrow> hint_ok st' = hint_ok st"
proof -
  assume "print_insn_mips tab memaddr w st info = Some (n, st', i)"
  then have "st' = st\<lparr>mips_hash := Some (hash_of tab st)\<rparr>"
    unfolding print_insn_mips_found by (auto simp del: print_found_hash)
  then show ?thesis by (intro hint_ok_cong) simp_all
qed

text \<open>When a call goes to the disassembler of mips16 code: at an odd address, or at a mips16 symbol of an ELF file.\<close>

definition mips16_call :: "bool \<Rightarrow> ulong \<Rightarrow> dis_info \<Rightarrow> bool" where
  "mips16_call marked memaddr info \<longleftrightarrow>
     memaddr AND 1 \<noteq> 0 \<or> di_flavour (i_file info) = bfd_target_elf_flavour \<and> marked"

lemma plain_call: "rigel_file (i_file info) \<Longrightarrow> \<not> mips16_call marked memaddr info \<Longrightarrow>
    dis_print_insn rd marked big memaddr st0 info = dis_print_insn rd False big memaddr st0 info"
  by (auto simp: dis_print_insn_def rigel_file_def mips16_call_def bfd_mach_mips16_def Let_def)

lemma rigel_plain_call:
  assumes "hint_ok st0" and "rigel_hash_ok st0" and "rigel_file (i_file info)" and "\<not> mips16_call marked memaddr info"
  shows "\<exists>n st i. dis_print_insn rd marked big memaddr st0 info = Inr (n, st, i)
    \<and> n = (case rd memaddr 4 of Inl s \<Rightarrow> -1 | Inr b \<Rightarrow> 4) \<and> hint_ok st \<and> rigel_hash_ok st"
proof -
  let ?st = "parse_mips_dis_options (di_options (i_file info)) (set_default_mips_dis_options (i_file info) st0)"
  note s = rigel_file_session [OF assms(1-3)]
  have even: "memaddr AND 1 = 0" using assms(4) by (simp add: mips16_call_def)
  note c = plain_call [OF assms(3,4)] rigel_entry_word [OF assms(3) even]
  show ?thesis
  proof (cases "rd memaddr 4")
    case (Inl e)
    then show ?thesis using s ready_hash_ok [OF s(1)] by (simp add: c Let_def)
  next
    case (Inr b)
    let ?w = "if big then bfd_getb32 b else bfd_getl32 b"
    obtain st' i where p: "print_insn_mips mips_builtin_opcodes memaddr ?w ?st info = Some (INSNLEN, st', i)"
        "dis_ready st'"
      using rigel_total [OF s(1), of memaddr ?w info] by blast
    have "hint_ok st'" using print_insn_mips_hint [OF p(1)] s(2) by simp
    then show ?thesis
      using Inr p ready_hash_ok [OF p(2)] by (simp add: c Let_def in_bounds_def INSNLEN_def)
  qed
qed

lemma rigel_mips16_call:
  assumes "hint_ok st0" and "rigel_hash_ok st0" and "rigel_file (i_file info)" and "mips16_call marked memaddr info"
  shows "case dis_print_insn rd marked big memaddr st0 info of
      Inl e \<Rightarrow> e = Dis_abort
    | Inr (n, st, i) \<Rightarrow> hint_ok st \<and> rigel_hash_ok st \<and> n \<in> {-1, 2, 4}"
proof -
  let ?st = "parse_mips_dis_options (di_options (i_file info)) (set_default_mips_dis_options (i_file info) st0)"
  note s = rigel_file_session [OF assms(1-3)]
  have "32 \<le> length (mips_gpr_names ?st)" using s(1) by (simp add: dis_ready_def names_ok_def)
  note o = print_insn_mips16_outcome [OF this, of rd memaddr info]
  have c: "dis_print_insn rd marked big memaddr st0 info = (case print_insn_mips16 rd ?st memaddr info of
      Inl e \<Rightarrow> Inl e | Inr (n, i) \<Rightarrow> Inr (n, ?st, i))"
    using assms(3,4) by (auto simp: dis_print_insn_def mips16_call_def Let_def)
  show ?thesis
    unfolding c using o s(2) ready_hash_ok [OF s(1)] by (auto split: option.split_asm if_splits sum.split)
qed

text \<open>C32: a session over a Rigel object. Every call, whatever was disassembled before and whatever the memory holds,
  keeps what the next call needs: a sound architecture cache and a table of first entries that suits the Rigel table.
  At an even address that no mips16 symbol marks it returns 4, or -1 when the read fails; at an odd address or at a
  mips16 symbol, which the code takes for mips16 in a Rigel object too, it returns 2, 4 or -1, or aborts.\<close>

theorem rigel_session_invariant:
  assumes "hint_ok st0" and "rigel_hash_ok st0" and "rigel_file (i_file info)"
  shows "case dis_print_insn rd marked big memaddr st0 info of
      Inl e \<Rightarrow> e = Dis_abort \<and> mips16_call marked memaddr info
    | Inr (n, st, i) \<Rightarrow> hint_ok st \<and> rigel_hash_ok st
        \<and> (if mips16_call marked memaddr info then n \<in> {-1, 2, 4} else n = (case rd memaddr 4 of Inl s \<Rightarrow> -1 | Inr b \<Rightarrow> 4))"
proof (cases "mips16_call marked memaddr info")
  case True
  then show ?thesis using rigel_mips16_call [OF assms True, of rd big] by (auto split: sum.split_asm sum.split)
next
  case False
  then show ?thesis using rigel_plain_call [OF assms False, of rd big] by auto
qed

lemma rigel_object_file: "rigel_file rigel_object"
  by (simp add: rigel_file_def rigel_object_def is_newabi_def)

lemma initial_hash_ok: "rigel_hash_ok initial_dis_state"
  by (simp add: rigel_hash_ok_def initial_no_hash)

theorem rigel_session_invariant_witness:
  "\<exists>st i. dis_print_insn (bytes_at 0 [0, 0, 0, 0]) False True 0 initial_dis_state rigel_info = Inr (4, st, i)
    \<and> rigel_hash_ok st"
proof -
  have "\<not> mips16_call False 0 rigel_info" by (simp add: mips16_call_def)
  then show ?thesis
    using rigel_session_invariant [OF initial_hint_ok initial_hash_ok, where info = rigel_info and rd = "bytes_at 0 [0, 0, 0, 0]"
        and marked = False and big = True and memaddr = 0]
      rigel_object_file
    by (auto simp: rigel_info_def bytes_at_def split: sum.split_asm)
qed

end
