(* ===== verification/Gas_Hash.thy ===== *)
theory Gas_Hash
  imports Rigel_Prelude "HOL-Library.Multiset"
begin

text \<open>
  The string hash table of the assembler (\<open>gas/hash.c\<close>). A chain is the list of the entries that its
  pointers link, so moving an entry to the front of its chain is list surgery. Values are non-null
  pointers in the source, which returns \<open>NULL\<close> for \<open>None\<close>; entries are never freed, so the obstack
  is left out.

  The locale \<open>string_map\<close> is what the rest of the assembler relies on: the operations act as those of a
  partial map from names to values. \<open>Gas_Begin\<close> fills the tables of opcodes on that contract.
\<close>

section \<open>Entries and tables\<close>

record 'v hash_entry =
  he_string :: cstring
  he_hash :: ulong
  he_data :: 'v

record 'v hash_control =
  h_table :: "'v hash_entry list list"
  h_size :: nat

definition hash_size_primes :: "nat list" where
  "hash_size_primes = [1021, 4051, 8599, 16699, 65537]"

text \<open>The first prime, the last one aside, that is not below the size asked for.\<close>

definition get_gas_hash_table_size :: "nat \<Rightarrow> nat" where
  "get_gas_hash_table_size gas_hash_table_size =
     (case List.find (\<lambda>p. gas_hash_table_size \<le> p) (butlast hash_size_primes) of
        Some p \<Rightarrow> p | None \<Rightarrow> last hash_size_primes)"

definition hash_new :: "nat \<Rightarrow> 'v hash_control" where
  "hash_new gas_hash_table_size =
     (let size = get_gas_hash_table_size gas_hash_table_size
      in \<lparr>h_table = replicate size [], h_size = size\<rparr>)"

section \<open>Looking up\<close>

text \<open>The hash code. A \<open>char\<close> is signed and widened to an \<open>unsigned int\<close>, in which \<open>c + (c << 17)\<close> is
  computed.\<close>

definition hash_step :: "ulong \<Rightarrow> char \<Rightarrow> ulong" where
  "hash_step h ch =
     (let c = scast (word_of_nat (char_code ch) :: 8 word) :: uint;
          h' = h + ucast (c + push_bit 17 c)
      in h' XOR drop_bit 2 h')"

definition hash_code :: "cstring \<Rightarrow> ulong" where
  "hash_code key =
     (let h = foldl hash_step 0 key; len = word_of_nat (length key);
          h' = h + (len + push_bit 17 len)
      in h' XOR drop_bit 2 h')"

text \<open>The walk along a chain: the entry found is unlinked and put first.\<close>

definition chain_lookup :: "('v hash_entry \<Rightarrow> bool) \<Rightarrow> 'v hash_entry list
    \<Rightarrow> 'v hash_entry option \<times> 'v hash_entry list" where
  "chain_lookup P chain = (case find_index P chain of
     None \<Rightarrow> (None, chain)
   | Some i \<Rightarrow> (Some (chain ! i), chain ! i # take i chain @ drop (i + 1) chain))"

text \<open>The entry, the index of its chain, the hash code and the table with the chain reordered.\<close>

definition hash_lookup :: "'v hash_control \<Rightarrow> cstring \<Rightarrow> nat
    \<Rightarrow> 'v hash_entry option \<times> nat \<times> ulong \<times> 'v hash_control" where
  "hash_lookup t key len =
     (let hash = hash_code (take len key);
          index = unat hash mod h_size t;
          (p, chain) = chain_lookup (\<lambda>e. he_hash e = hash \<and> strncmp_eq (he_string e) key len
                          \<and> length (he_string e) = len) (h_table t ! index)
      in (p, index, hash, t\<lparr>h_table := (h_table t)[index := chain]\<rparr>))"

section \<open>The operations\<close>

text \<open>Linking a new entry in front of a chain, and assigning to the data of the entry that a lookup has
  just put in front.\<close>

definition link_entry :: "nat \<Rightarrow> 'v hash_entry \<Rightarrow> 'v hash_control \<Rightarrow> 'v hash_control" where
  "link_entry index e t = t\<lparr>h_table := (h_table t)[index := e # h_table t ! index]\<rparr>"

definition set_front :: "nat \<Rightarrow> 'v \<Rightarrow> 'v hash_control \<Rightarrow> 'v hash_control" where
  "set_front index v t = (case h_table t ! index of
     [] \<Rightarrow> t | e # es \<Rightarrow> t\<lparr>h_table := (h_table t)[index := e\<lparr>he_data := v\<rparr> # es]\<rparr>)"

definition hash_insert :: "'v hash_control \<Rightarrow> cstring \<Rightarrow> 'v \<Rightarrow> cstring option \<times> 'v hash_control" where
  "hash_insert t key v =
     (case hash_lookup t key (length key) of
        (Some _, _, _, t') \<Rightarrow> (Some ''exists'', t')
      | (None, index, hash, t') \<Rightarrow>
          (None, link_entry index \<lparr>he_string = key, he_hash = hash, he_data = v\<rparr> t'))"

definition hash_jam :: "'v hash_control \<Rightarrow> cstring \<Rightarrow> 'v \<Rightarrow> 'v hash_control" where
  "hash_jam t key v =
     (case hash_lookup t key (length key) of
        (Some _, index, _, t') \<Rightarrow> set_front index v t'
      | (None, index, hash, t') \<Rightarrow>
          link_entry index \<lparr>he_string = key, he_hash = hash, he_data = v\<rparr> t')"

definition hash_replace :: "'v hash_control \<Rightarrow> cstring \<Rightarrow> 'v \<Rightarrow> 'v option \<times> 'v hash_control" where
  "hash_replace t key v =
     (case hash_lookup t key (length key) of
        (None, _, _, t') \<Rightarrow> (None, t')
      | (Some p, index, _, t') \<Rightarrow> (Some (he_data p), set_front index v t'))"

definition hash_find_n :: "'v hash_control \<Rightarrow> cstring \<Rightarrow> nat \<Rightarrow> 'v option \<times> 'v hash_control" where
  "hash_find_n t key len =
     (case hash_lookup t key len of (p, _, _, t') \<Rightarrow> (map_option he_data p, t'))"

definition hash_find :: "'v hash_control \<Rightarrow> cstring \<Rightarrow> 'v option \<times> 'v hash_control" where
  "hash_find t key =
     (case hash_lookup t key (length key) of (p, _, _, t') \<Rightarrow> (map_option he_data p, t'))"

text \<open>\<open>hash_delete\<close> aborts, which is \<open>None\<close>, if the entry found is not the first of its chain. Entries are
  compared by address in the source; here by value, in a chain without repeated strings.\<close>

definition hash_delete :: "'v hash_control \<Rightarrow> cstring \<Rightarrow> ('v option \<times> 'v hash_control) option" where
  "hash_delete t key =
     (case hash_lookup t key (length key) of
        (None, _, _, t') \<Rightarrow> Some (None, t')
      | (Some p, index, _, t') \<Rightarrow>
          (case h_table t' ! index of
             [] \<Rightarrow> None
           | e # es \<Rightarrow>
               if he_string e \<noteq> he_string p then None
               else Some (Some (he_data p), t'\<lparr>h_table := (h_table t')[index := es]\<rparr>)))"

text \<open>The calls of \<open>hash_traverse\<close>, in order.\<close>

definition hash_traverse :: "'v hash_control \<Rightarrow> (cstring \<times> 'v) list" where
  "hash_traverse t =
     concat (map (\<lambda>i. map (\<lambda>p. (he_string p, he_data p)) (h_table t ! i)) [0..<h_size t])"

section \<open>The invariant and the map a table stands for\<close>

definition entry_in_place :: "nat \<Rightarrow> nat \<Rightarrow> 'v hash_entry \<Rightarrow> bool" where
  "entry_in_place n i e \<longleftrightarrow> he_hash e = hash_code (he_string e) \<and> unat (he_hash e) mod n = i"

definition chain_ok :: "nat \<Rightarrow> nat \<Rightarrow> 'v hash_entry list \<Rightarrow> bool" where
  "chain_ok n i chain \<longleftrightarrow> list_all (entry_in_place n i) chain \<and> distinct (map he_string chain)"

definition hash_inv :: "'v hash_control \<Rightarrow> bool" where
  "hash_inv t \<longleftrightarrow> 0 < h_size t \<and> length (h_table t) = h_size t
     \<and> (\<forall>i<h_size t. chain_ok (h_size t) i (h_table t ! i))"

definition chain_map :: "'v hash_entry list \<Rightarrow> cstring \<rightharpoonup> 'v" where
  "chain_map chain = map_of (map (\<lambda>e. (he_string e, he_data e)) chain)"

definition slot :: "nat \<Rightarrow> cstring \<Rightarrow> nat" where
  "slot n key = unat (hash_code key) mod n"

definition hash_map :: "'v hash_control \<Rightarrow> cstring \<rightharpoonup> 'v" where
  "hash_map t = (\<lambda>key. chain_map (h_table t ! slot (h_size t) key) key)"

section \<open>Chains\<close>

lemma chain_map_set:
  "distinct (map he_string c) \<Longrightarrow> distinct (map he_string c') \<Longrightarrow> set c = set c' \<Longrightarrow> chain_map c = chain_map c'"
  unfolding chain_map_def by (subst map_of_inject_set) (simp_all add: o_def)

lemma chain_map_Cons [simp]: "chain_map (e # c) = (chain_map c)(he_string e \<mapsto> he_data e)"
  by (simp add: chain_map_def)

lemma chain_map_Nil [simp]: "chain_map [] = Map.empty"
  by (simp add: chain_map_def)

lemma chain_map_None: "chain_map c key = None \<longleftrightarrow> key \<notin> he_string ` set c"
  by (simp add: chain_map_def map_of_eq_None_iff image_image)

lemma chain_map_member: "distinct (map he_string c) \<Longrightarrow> e \<in> set c \<Longrightarrow> chain_map c (he_string e) = Some (he_data e)"
  unfolding chain_map_def by (rule map_of_is_SomeI) (auto simp: o_def)

text \<open>Moving an entry to the front.\<close>

lemma move_front:
  assumes "i < length xs"
  shows "set (xs ! i # take i xs @ drop (i + 1) xs) = set xs"
    and "mset (xs ! i # take i xs @ drop (i + 1) xs) = mset xs"
proof -
  have "mset (take i xs @ xs ! i # drop (i + 1) xs) = mset xs"
    using id_take_nth_drop [OF assms] by simp
  then show m: "mset (xs ! i # take i xs @ drop (i + 1) xs) = mset xs" by simp
  show "set (xs ! i # take i xs @ drop (i + 1) xs) = set xs"
    using arg_cong [OF m, of set_mset] by simp
qed

lemma chain_lookup_cong:
  "(\<And>e. e \<in> set c \<Longrightarrow> P e = Q e) \<Longrightarrow> chain_lookup P c = chain_lookup Q c"
proof -
  assume "\<And>e. e \<in> set c \<Longrightarrow> P e = Q e"
  then have "find_index P c = find_index Q c" by (induction c) auto
  then show ?thesis by (simp add: chain_lookup_def)
qed

lemma chain_lookup_string:
  assumes "chain_ok n i c" and "chain_lookup (\<lambda>e. he_string e = key) c = (p, c')"
  shows "chain_ok n i c'" "chain_map c' = chain_map c" "map_option he_data p = chain_map c key"
    "\<And>e. p = Some e \<Longrightarrow> he_string e = key \<and> (\<exists>es. c' = e # es)"
proof -
  have d: "distinct (map he_string c)" using assms(1) by (simp add: chain_ok_def)
  have "chain_ok n i c' \<and> chain_map c' = chain_map c \<and> map_option he_data p = chain_map c key
    \<and> (\<forall>e. p = Some e \<longrightarrow> he_string e = key \<and> (\<exists>es. c' = e # es))"
  proof (cases "find_index (\<lambda>e. he_string e = key) c")
    case None
    then have "p = None" "c' = c" using assms(2) by (simp_all add: chain_lookup_def)
    moreover have "key \<notin> he_string ` set c" using None by (auto simp: find_index_None_iff)
    ultimately show ?thesis using assms(1) chain_map_None [of c key] by simp
  next
    case (Some j)
    then have j: "j < length c" "he_string (c ! j) = key" using find_index_SomeD by fastforce+
    have e: "p = Some (c ! j)" "c' = c ! j # take j c @ drop (j + 1) c"
      using assms(2) Some by (simp_all add: chain_lookup_def)
    note m = move_front [OF j(1), folded e(2)]
    have "distinct (map he_string c')"
      using d m(2) by (metis mset_eq_imp_distinct_iff mset_map)
    then have ok: "chain_ok n i c'" "chain_map c' = chain_map c"
      using assms(1) m(1) d chain_map_set [of c' c] by (simp_all add: chain_ok_def list_all_iff)
    have "chain_map c key = Some (he_data (c ! j))"
      using chain_map_member [OF d nth_mem [OF j(1)]] j(2) by simp
    then show ?thesis using ok e j(2) by simp
  qed
  then show "chain_ok n i c'" "chain_map c' = chain_map c" "map_option he_data p = chain_map c key"
    "\<And>e. p = Some e \<Longrightarrow> he_string e = key \<and> (\<exists>es. c' = e # es)" by auto
qed

section \<open>Tables\<close>

lemma slot_less: "0 < n \<Longrightarrow> slot n key < n"
  by (simp add: slot_def)

lemma hash_inv_chain: "hash_inv t \<Longrightarrow> i < h_size t \<Longrightarrow> chain_ok (h_size t) i (h_table t ! i)"
  by (simp add: hash_inv_def)

text \<open>Replacing the chain of a slot.\<close>

lemma hash_inv_set_chain:
  "hash_inv t \<Longrightarrow> chain_ok (h_size t) i c \<Longrightarrow> hash_inv (t\<lparr>h_table := (h_table t)[i := c]\<rparr>)"
  unfolding hash_inv_def by (simp, metis nth_list_update_eq nth_list_update_neq)

lemma hash_map_set_chain:
  assumes "hash_inv t" and "i < h_size t"
  shows "hash_map (t\<lparr>h_table := (h_table t)[i := c]\<rparr>) k =
    (if slot (h_size t) k = i then chain_map c k else hash_map t k)"
  using assms by (auto simp: hash_map_def hash_inv_def)

text \<open>An entry is only ever found in the slot of its own string.\<close>

lemma chain_map_slot:
  assumes "chain_ok n i c" and "slot n k \<noteq> i"
  shows "chain_map c k = None"
proof -
  have "k \<notin> he_string ` set c"
    using assms by (auto simp: chain_ok_def list_all_iff entry_in_place_def slot_def)
  then show ?thesis by (simp add: chain_map_None)
qed

lemma hash_lookup_ok:
  assumes "hash_inv t" and "len \<le> length key"
    and "hash_lookup t key len = (p, index, hash, t')"
  shows "hash_inv t'" "hash_map t' = hash_map t" "h_size t' = h_size t"
    "index = slot (h_size t) (take len key)" "hash = hash_code (take len key)"
    "map_option he_data p = hash_map t (take len key)"
    "\<And>e. p = Some e \<Longrightarrow> he_string e = take len key \<and> (\<exists>es. h_table t' ! index = e # es)"
proof -
  let ?k = "take len key" and ?i = "slot (h_size t) (take len key)"
  have i: "?i < h_size t" using assms(1) by (simp add: hash_inv_def slot_less)
  have ok: "chain_ok (h_size t) ?i (h_table t ! ?i)" using hash_inv_chain [OF assms(1) i] .
  obtain q c where c: "chain_lookup (\<lambda>e. he_string e = ?k) (h_table t ! ?i) = (q, c)" by fastforce
  have match: "(he_hash e = hash_code ?k \<and> strncmp_eq (he_string e) key len \<and> length (he_string e) = len)
      = (he_string e = ?k)" if "e \<in> set (h_table t ! ?i)" for e
  proof -
    have "he_hash e = hash_code (he_string e)"
      using that ok by (simp add: chain_ok_def list_all_iff entry_in_place_def)
    moreover have "strncmp_eq (he_string e) key len \<and> length (he_string e) = len \<longleftrightarrow> he_string e = ?k"
      using assms(2) strncmp_eq_whole [of "he_string e" key len] by auto
    ultimately show ?thesis by metis
  qed
  have "chain_lookup (\<lambda>e. he_hash e = hash_code ?k \<and> strncmp_eq (he_string e) key len
        \<and> length (he_string e) = len) (h_table t ! ?i) = (q, c)"
    unfolding c [symmetric] by (rule chain_lookup_cong) (rule match)
  then have "hash_lookup t key len = (q, ?i, hash_code ?k, t\<lparr>h_table := (h_table t)[?i := c]\<rparr>)"
    unfolding hash_lookup_def Let_def slot_def [symmetric]
    by (simp only: prod.case)
  then have e: "p = q" "index = ?i" "hash = hash_code ?k"
      "t' = t\<lparr>h_table := (h_table t)[?i := c]\<rparr>" unfolding assms(3) prod.inject by auto
  note cl = chain_lookup_string [OF ok c]
  show "hash_inv t'" unfolding e using hash_inv_set_chain [OF assms(1) cl(1)] .
  show "hash_map t' = hash_map t"
  proof
    fix k show "hash_map t' k = hash_map t k"
      unfolding e using hash_map_set_chain [OF assms(1) i, of c k] cl(2) by (simp add: hash_map_def)
  qed
  show "h_size t' = h_size t" "index = ?i" "hash = hash_code ?k" using e by simp_all
  show "map_option he_data p = hash_map t ?k" using cl(3) e by (simp add: hash_map_def)
  show "\<And>e. p = Some e \<Longrightarrow> he_string e = ?k \<and> (\<exists>es. h_table t' ! index = e # es)"
    using cl(4) e i assms(1) by (simp add: hash_inv_def)
qed

lemma link_entry_ok:
  assumes "hash_inv t" and "hash_map t key = None" and "i = slot (h_size t) key"
  shows "hash_inv (link_entry i \<lparr>he_string = key, he_hash = hash_code key, he_data = v\<rparr> t)"
    "hash_map (link_entry i \<lparr>he_string = key, he_hash = hash_code key, he_data = v\<rparr> t) = (hash_map t)(key \<mapsto> v)"
proof -
  let ?e = "\<lparr>he_string = key, he_hash = hash_code key, he_data = v\<rparr>"
  have i: "i < h_size t" using assms by (simp add: hash_inv_def slot_less)
  have ok: "chain_ok (h_size t) i (h_table t ! i)" using hash_inv_chain [OF assms(1) i] .
  have "key \<notin> he_string ` set (h_table t ! i)"
    using assms(2,3) by (simp add: hash_map_def chain_map_None)
  then have "chain_ok (h_size t) i (?e # h_table t ! i)"
    using ok assms(3) by (simp add: chain_ok_def entry_in_place_def slot_def)
  then show "hash_inv (link_entry i ?e t)"
    unfolding link_entry_def by (rule hash_inv_set_chain [OF assms(1)])
  show "hash_map (link_entry i ?e t) = (hash_map t)(key \<mapsto> v)"
    unfolding link_entry_def using hash_map_set_chain [OF assms(1) i, of "?e # h_table t ! i"] assms(3)
    by (auto simp: hash_map_def)
qed

lemma set_front_ok:
  assumes "hash_inv t" and "h_table t ! i = e # es" and "he_string e = key" and "i = slot (h_size t) key"
  shows "hash_inv (set_front i v t)" "hash_map (set_front i v t) = (hash_map t)(key \<mapsto> v)"
proof -
  have i: "i < h_size t" using assms(1,4) by (simp add: hash_inv_def slot_less)
  have ok: "chain_ok (h_size t) i (e\<lparr>he_data := v\<rparr> # es)"
    using hash_inv_chain [OF assms(1) i] assms(2) by (auto simp: chain_ok_def entry_in_place_def)
  show "hash_inv (set_front i v t)"
    using hash_inv_set_chain [OF assms(1) ok] assms(2) by (simp add: set_front_def)
  show "hash_map (set_front i v t) = (hash_map t)(key \<mapsto> v)"
    using hash_map_set_chain [OF assms(1) i, of "e\<lparr>he_data := v\<rparr> # es"] assms(2-4)
    by (auto simp: set_front_def hash_map_def)
qed

lemma hash_new_ok: "hash_inv (hash_new k)" "hash_map (hash_new k) = Map.empty"
proof -
  have p: "0 < get_gas_hash_table_size k"
    by (simp add: get_gas_hash_table_size_def hash_size_primes_def split: option.split)
  then show "hash_inv (hash_new k)" by (simp add: hash_inv_def hash_new_def Let_def chain_ok_def)
  show "hash_map (hash_new k) = Map.empty"
    using slot_less [OF p] by (auto simp: hash_map_def hash_new_def Let_def)
qed

lemma hash_insert_ok:
  assumes "hash_inv t"
  shows "hash_inv (snd (hash_insert t key v))"
    "hash_insert t key v = (r, t') \<Longrightarrow> r = (if key \<in> dom (hash_map t) then Some ''exists'' else None)
      \<and> hash_map t' = (if key \<in> dom (hash_map t) then hash_map t else (hash_map t)(key \<mapsto> v))"
proof -
  obtain p index hash t1 where l: "hash_lookup t key (length key) = (p, index, hash, t1)"
    by (metis prod_cases4)
  note ok = hash_lookup_ok [OF assms order_refl l, simplified]
  have "hash_inv (snd (hash_insert t key v)) \<and> (\<forall>r t'. hash_insert t key v = (r, t') \<longrightarrow>
      r = (if key \<in> dom (hash_map t) then Some ''exists'' else None)
      \<and> hash_map t' = (if key \<in> dom (hash_map t) then hash_map t else (hash_map t)(key \<mapsto> v)))"
  proof (cases p)
    case None
    then have "hash_map t1 key = None" using ok(2,6) by simp
    then show ?thesis
      using link_entry_ok [OF ok(1), of key index v] ok None l by (simp add: hash_insert_def domIff)
  next
    case (Some e)
    then have "key \<in> dom (hash_map t)" unfolding domIff ok(6) [symmetric] by simp
    then show ?thesis using Some ok l by (simp add: hash_insert_def)
  qed
  then show "hash_inv (snd (hash_insert t key v))"
    "hash_insert t key v = (r, t') \<Longrightarrow> r = (if key \<in> dom (hash_map t) then Some ''exists'' else None)
      \<and> hash_map t' = (if key \<in> dom (hash_map t) then hash_map t else (hash_map t)(key \<mapsto> v))"
    by blast+
qed

lemma hash_jam_ok:
  assumes "hash_inv t"
  shows "hash_inv (hash_jam t key v)" "hash_map (hash_jam t key v) = (hash_map t)(key \<mapsto> v)"
proof -
  obtain p index hash t1 where l: "hash_lookup t key (length key) = (p, index, hash, t1)"
    by (metis prod_cases4)
  note ok = hash_lookup_ok [OF assms order_refl l, simplified]
  have "hash_inv (hash_jam t key v) \<and> hash_map (hash_jam t key v) = (hash_map t)(key \<mapsto> v)"
  proof (cases p)
    case None
    then have "hash_map t1 key = None" using ok(2,6) by simp
    then show ?thesis
      using link_entry_ok [OF ok(1), of key index v] ok None l by (simp add: hash_jam_def)
  next
    case (Some e)
    obtain es where "he_string e = key" "h_table t1 ! index = e # es" using ok(7) [OF Some] by blast
    then show ?thesis
      using set_front_ok [OF ok(1), of index e es key v] ok Some l by (simp add: hash_jam_def)
  qed
  then show "hash_inv (hash_jam t key v)" "hash_map (hash_jam t key v) = (hash_map t)(key \<mapsto> v)" by simp_all
qed

lemma hash_replace_ok:
  assumes "hash_inv t" and "hash_replace t key v = (r, t')"
  shows "hash_inv t'" "r = hash_map t key"
    "hash_map t' = (if key \<in> dom (hash_map t) then (hash_map t)(key \<mapsto> v) else hash_map t)"
proof -
  obtain p index hash t1 where l: "hash_lookup t key (length key) = (p, index, hash, t1)"
    by (metis prod_cases4)
  note ok = hash_lookup_ok [OF assms(1) order_refl l, simplified]
  have "hash_inv t' \<and> r = hash_map t key
    \<and> hash_map t' = (if key \<in> dom (hash_map t) then (hash_map t)(key \<mapsto> v) else hash_map t)"
  proof (cases p)
    case None
    then show ?thesis using ok l assms(2) by (auto simp: hash_replace_def domIff)
  next
    case (Some e)
    obtain es where "he_string e = key" "h_table t1 ! index = e # es" using ok(7) [OF Some] by blast
    then show ?thesis
      using set_front_ok [OF ok(1), of index e es key v] ok Some l assms(2)
      by (auto simp: hash_replace_def domIff)
  qed
  then show "hash_inv t'" "r = hash_map t key"
    "hash_map t' = (if key \<in> dom (hash_map t) then (hash_map t)(key \<mapsto> v) else hash_map t)" by simp_all
qed

lemma hash_find_ok:
  assumes "hash_inv t" and "hash_find t key = (r, t')"
  shows "hash_inv t'" "r = hash_map t key" "hash_map t' = hash_map t"
proof -
  obtain p index hash t1 where l: "hash_lookup t key (length key) = (p, index, hash, t1)"
    by (metis prod_cases4)
  note ok = hash_lookup_ok [OF assms(1) order_refl l, simplified]
  show "hash_inv t'" "r = hash_map t key" "hash_map t' = hash_map t"
    using ok l assms(2) by (auto simp: hash_find_def)
qed

lemma hash_find_n_ok:
  assumes "hash_inv t" and "len \<le> length key" and "hash_find_n t key len = (r, t')"
  shows "hash_inv t'" "r = hash_map t (take len key)" "hash_map t' = hash_map t"
proof -
  obtain p index hash t1 where l: "hash_lookup t key len = (p, index, hash, t1)"
    by (metis prod_cases4)
  note ok = hash_lookup_ok [OF assms(1,2) l]
  show "hash_inv t'" "r = hash_map t (take len key)" "hash_map t' = hash_map t"
    using ok l assms(3) by (auto simp: hash_find_n_def)
qed

lemma hash_delete_ok:
  assumes "hash_inv t"
  shows "\<exists>t'. hash_delete t key = Some (hash_map t key, t') \<and> hash_inv t' \<and> hash_map t' = (hash_map t)(key := None)"
proof -
  obtain p index hash t1 where l: "hash_lookup t key (length key) = (p, index, hash, t1)"
    by (metis prod_cases4)
  note ok = hash_lookup_ok [OF assms order_refl l, simplified]
  show ?thesis
  proof (cases p)
    case None
    then have "hash_map t key = None" using ok(6) by simp
    then show ?thesis using None l ok(1,2) by (simp add: hash_delete_def fun_upd_idem)
  next
    case (Some e)
    obtain es where e: "he_string e = key" "h_table t1 ! index = e # es" using ok(7) [OF Some] by blast
    have i: "index < h_size t1" using ok(1,3,4) by (simp add: hash_inv_def slot_less)
    have c: "chain_ok (h_size t1) index (e # es)" using hash_inv_chain [OF ok(1) i] e(2) by simp
    then have c': "chain_ok (h_size t1) index es" "key \<notin> he_string ` set es"
      using e(1) by (auto simp: chain_ok_def)
    let ?t = "t1\<lparr>h_table := (h_table t1)[index := es]\<rparr>"
    have "hash_map ?t k = ((hash_map t)(key := None)) k" for k
    proof (cases "k = key")
      case True
      then show ?thesis
        using hash_map_set_chain [OF ok(1) i, of es k] ok(3,4) c'(2) by (simp add: chain_map_None)
    next
      case False
      have "hash_map t1 k = chain_map es k" if "slot (h_size t1) k = index"
        using that e False by (simp add: hash_map_def)
      then show ?thesis using hash_map_set_chain [OF ok(1) i, of es k] False ok(2) by simp
    qed
    then have "hash_map ?t = (hash_map t)(key := None)" by (rule ext)
    moreover have "hash_inv ?t" using hash_inv_set_chain [OF ok(1) c'(1)] .
    moreover have "Some (he_data e) = hash_map t key" using ok(6) Some by simp
    ultimately show ?thesis using Some l e(2) by (simp add: hash_delete_def)
  qed
qed

section \<open>The contract\<close>

text \<open>What the assembler relies on: an invariant the operations keep, and a partial map they act on.\<close>

locale string_map =
  fixes inv :: "'t \<Rightarrow> bool" and contents :: "'t \<Rightarrow> cstring \<rightharpoonup> 'v"
    and insert_op :: "'t \<Rightarrow> cstring \<Rightarrow> 'v \<Rightarrow> cstring option \<times> 't"
    and find_op :: "'t \<Rightarrow> cstring \<Rightarrow> 'v option \<times> 't"
  assumes insert_inv: "inv t \<Longrightarrow> inv (snd (insert_op t k v))"
    and insert_new: "inv t \<Longrightarrow> k \<notin> dom (contents t) \<Longrightarrow>
      fst (insert_op t k v) = None \<and> contents (snd (insert_op t k v)) = (contents t)(k \<mapsto> v)"
    and insert_old: "inv t \<Longrightarrow> k \<in> dom (contents t) \<Longrightarrow>
      fst (insert_op t k v) \<noteq> None \<and> contents (snd (insert_op t k v)) = contents t"
    and find_inv: "inv t \<Longrightarrow> inv (snd (find_op t k))"
    and find_value: "inv t \<Longrightarrow> fst (find_op t k) = contents t k"
    and find_contents: "inv t \<Longrightarrow> contents (snd (find_op t k)) = contents t"
begin

text \<open>A successful insertion is seen by the next search, and any number of searches hides nothing.\<close>

lemma find_after_insert:
  "inv t \<Longrightarrow> k \<notin> dom (contents t) \<Longrightarrow> fst (find_op (snd (insert_op t k v)) k') = (if k' = k then Some v else contents t k')"
  using insert_inv [of t k v] insert_new [of t k v] by (simp add: find_value)

lemma find_many:
  "inv t \<Longrightarrow> inv (foldl (\<lambda>t k. snd (find_op t k)) t ks) \<and> contents (foldl (\<lambda>t k. snd (find_op t k)) t ks) = contents t"
  by (induction ks arbitrary: t) (simp_all add: find_inv find_contents)

end

interpretation gas_hash: string_map hash_inv hash_map hash_insert hash_find
proof unfold_locales
  fix t :: "'a hash_control" and k v
  assume inv: "hash_inv t"
  show "hash_inv (snd (hash_insert t k v))" by (rule hash_insert_ok(1) [OF inv])
  obtain r t' where i: "hash_insert t k v = (r, t')" by fastforce
  obtain q t2 where f: "hash_find t k = (q, t2)" by fastforce
  show "k \<notin> dom (hash_map t) \<Longrightarrow> fst (hash_insert t k v) = None
      \<and> hash_map (snd (hash_insert t k v)) = (hash_map t)(k \<mapsto> v)"
    using hash_insert_ok(2) [OF inv i] i by simp
  show "k \<in> dom (hash_map t) \<Longrightarrow> fst (hash_insert t k v) \<noteq> None
      \<and> hash_map (snd (hash_insert t k v)) = hash_map t"
    using hash_insert_ok(2) [OF inv i] i by simp
  show "hash_inv (snd (hash_find t k))" "fst (hash_find t k) = hash_map t k"
    "hash_map (snd (hash_find t k)) = hash_map t"
    using hash_find_ok [OF inv f] f by simp_all
qed

section \<open>Properties\<close>

text \<open>C35: the hash table refines a partial map. On a table that satisfies the invariant (entries in the
  chain of their hash code, no name twice) every operation keeps the invariant and acts on the map the
  table stands for as its description says: \<open>hash_insert\<close> adds a new name and refuses an old one,
  \<open>hash_jam\<close> overrides, \<open>hash_replace\<close> changes an old name only and returns the previous value, searches
  return the value and change nothing but the order of a chain, and \<open>hash_delete\<close> removes the name
  without ever reaching its \<open>abort\<close>.\<close>

theorem hash_refines_map:
  assumes "hash_inv t"
  shows "hash_inv (snd (hash_insert t key v))
    \<and> fst (hash_insert t key v) = (if key \<in> dom (hash_map t) then Some ''exists'' else None)
    \<and> hash_map (snd (hash_insert t key v)) = (if key \<in> dom (hash_map t) then hash_map t else (hash_map t)(key \<mapsto> v))
    \<and> hash_inv (hash_jam t key v) \<and> hash_map (hash_jam t key v) = (hash_map t)(key \<mapsto> v)
    \<and> hash_inv (snd (hash_replace t key v)) \<and> fst (hash_replace t key v) = hash_map t key
    \<and> hash_map (snd (hash_replace t key v)) = (if key \<in> dom (hash_map t) then (hash_map t)(key \<mapsto> v) else hash_map t)
    \<and> hash_inv (snd (hash_find t key)) \<and> fst (hash_find t key) = hash_map t key
    \<and> hash_map (snd (hash_find t key)) = hash_map t
    \<and> (\<exists>t'. hash_delete t key = Some (hash_map t key, t') \<and> hash_inv t' \<and> hash_map t' = (hash_map t)(key := None))"
proof -
  obtain r t1 where i: "hash_insert t key v = (r, t1)" by fastforce
  obtain q t2 where rp: "hash_replace t key v = (q, t2)" by fastforce
  show ?thesis
    using hash_insert_ok(1) [OF assms, of key v] hash_insert_ok(2) [OF assms i] i hash_jam_ok [OF assms]
      hash_replace_ok [OF assms rp] rp gas_hash.find_inv [OF assms] gas_hash.find_value [OF assms]
      gas_hash.find_contents [OF assms] hash_delete_ok [OF assms]
    by (intro conjI) (simp_all only: fst_conv snd_conv)
qed

theorem hash_refines_map_witness:
  "fst (hash_insert (hash_new 0) ''add'' (1 :: nat)) = None
    \<and> hash_map (snd (hash_insert (hash_new 0) ''add'' (1 :: nat))) = [''add'' \<mapsto> 1]"
  using hash_refines_map [OF hash_new_ok(1), of 0 "''add''" "1 :: nat"] by (simp add: hash_new_ok(2))

end
