(* ===== verification/Gas_Begin.thy ===== *)
theory Gas_Begin
  imports Gas_Hash Opcode_Check Mips16_Opc
begin

text \<open>
  How \<open>md_begin\<close> (\<open>gas/config/tc-mips.c\<close>) fills the hash tables of opcode names, checks every entry and
  picks the two nop instructions. A name is inserted once, for the first of the entries that share it;
  the entries of a name must be adjacent, or the second insertion is fatal.

  The loop takes the insertion it calls as a parameter, so that the lemmas about it rest on the
  contract \<open>string_map\<close> alone; the code's calls are the instance with \<open>hash_insert\<close>. A pointer to an
  entry is its index.
\<close>

section \<open>The loops\<close>

definition same_name_run :: "mips_opcode list \<Rightarrow> nat \<Rightarrow> nat" where
  "same_name_run tab i =
     Suc (length (takeWhile (\<lambda>opc. op_name opc = op_name (tab ! i)) (drop (Suc i) tab)))"

function hash_opcodes :: "('t \<Rightarrow> cstring \<Rightarrow> nat \<Rightarrow> cstring option \<times> 't) \<Rightarrow> (mips_opcode \<Rightarrow> 's \<Rightarrow> 's)
    \<Rightarrow> mips_opcode list \<Rightarrow> nat \<Rightarrow> 't \<Rightarrow> 's \<Rightarrow> cstring + 't \<times> 's" where
  "hash_opcodes ins body tab i t s =
     (if length tab \<le> i then Inr (t, s)
      else
        (let name = op_name (tab ! i); n = same_name_run tab i in
         case ins t name i of
           (Some retval, _) \<Rightarrow> Inl name
         | (None, t') \<Rightarrow> hash_opcodes ins body tab (i + n) t' (fold body (take n (drop i tab)) s)))"
  by auto
termination
  by (relation "measure (\<lambda>(ins, body, tab, i, t, s). length tab - i)") (auto simp: same_name_run_def)

declare hash_opcodes.simps [simp del]

text \<open>What the inner loops keep: whether the assembler is broken, and the nop found.\<close>

record begin_state =
  b_broken :: bool
  b_nop :: "mips_cl_insn option"

definition note_nop :: "mips_set_options \<Rightarrow> mips_opcode \<Rightarrow> begin_state \<Rightarrow> begin_state" where
  "note_nop opts opc s =
     (if b_nop s = None \<and> op_name opc = ''nop''
      then s\<lparr>b_nop := Some ((create_insn opts opc)\<lparr>fixed_p := True\<rparr>)\<rparr> else s)"

definition begin_entry :: "mips_set_options \<Rightarrow> mips_opcode \<Rightarrow> begin_state \<Rightarrow> begin_state" where
  "begin_entry opts opc s =
     (if op_pinfo opc \<noteq> INSN_MACRO then
        note_nop opts opc
          (if validate_mips_insn opc \<noteq> Inr () then s\<lparr>b_broken := True\<rparr> else s)
      else s)"

definition begin_entry16 :: "mips_set_options \<Rightarrow> mips_opcode \<Rightarrow> begin_state \<Rightarrow> begin_state" where
  "begin_entry16 opts opc s =
     note_nop opts opc
       (if op_pinfo opc \<noteq> INSN_MACRO \<and> op_match opc AND op_msk opc \<noteq> op_match opc
        then s\<lparr>b_broken := True\<rparr> else s)"

definition begin_state_0 :: begin_state where
  "begin_state_0 = \<lparr>b_broken = False, b_nop = None\<rparr>"

text \<open>The part of \<open>md_begin\<close> about the opcodes: the error that ends the assembler, or both tables and
  both nops. \<open>size\<close> is the option for the size of hash tables.\<close>

datatype begin_error = Cannot_hash cstring | Broken_assembler

record opcode_tables =
  op_hash :: "nat hash_control"
  mips16_op_hash :: "nat hash_control"
  nop_insn :: "mips_cl_insn option"
  mips16_nop_insn :: "mips_cl_insn option"

definition begin_opcodes :: "mips_set_options \<Rightarrow> nat \<Rightarrow> mips_opcode list \<Rightarrow> mips_opcode list
    \<Rightarrow> begin_error + opcode_tables" where
  "begin_opcodes opts sz tab tab16 =
     (case hash_opcodes hash_insert (begin_entry opts) tab 0 (hash_new sz) begin_state_0 of
        Inl name \<Rightarrow> Inl (Cannot_hash name)
      | Inr (t, s) \<Rightarrow>
          (case hash_opcodes hash_insert (begin_entry16 opts) tab16 0 (hash_new sz)
                  \<lparr>b_broken = b_broken s, b_nop = None\<rparr> of
             Inl name \<Rightarrow> Inl (Cannot_hash name)
           | Inr (t16, s16) \<Rightarrow>
               if b_broken s16 then Inl Broken_assembler
               else Inr \<lparr>op_hash = t, mips16_op_hash = t16, nop_insn = b_nop s,
                 mips16_nop_insn = b_nop s16\<rparr>))"

section \<open>Tables whose names are adjacent\<close>

definition names_adjacent :: "mips_opcode list \<Rightarrow> bool" where
  "names_adjacent tab \<longleftrightarrow> distinct (remdups_adj (map op_name tab))"

definition first_entry :: "mips_opcode list \<Rightarrow> cstring \<rightharpoonup> nat" where
  "first_entry tab = (\<lambda>name. find_index (\<lambda>opc. op_name opc = name) tab)"

lemma remdups_adj_boundary:
  "xs \<noteq> [] \<Longrightarrow> last xs \<noteq> x \<Longrightarrow> remdups_adj (xs @ [x]) = remdups_adj xs @ [x]"
  by (induction xs rule: remdups_adj.induct) (auto split: if_splits)

lemma adjacent_fresh:
  assumes "distinct (remdups_adj (xs @ x # ys))" and "xs = [] \<or> last xs \<noteq> x"
  shows "x \<notin> set xs"
proof (cases "xs = []")
  case False
  then have "remdups_adj (xs @ [x]) = remdups_adj xs @ [x]"
    using False assms(2) by (intro remdups_adj_boundary) simp_all
  then have "remdups_adj (xs @ x # ys) = (remdups_adj xs @ [x]) @ tl (remdups_adj (x # ys))"
    by (simp only: remdups_adj_append [of xs x ys])
  then have "x \<notin> set (remdups_adj xs)" using assms(1) by auto
  then show ?thesis by simp
qed simp

text \<open>The run of entries that share a name.\<close>

lemma same_name_run_bounds:
  assumes "i < length tab"
  shows "i + same_name_run tab i \<le> length tab"
    "\<forall>opc\<in>set (take (same_name_run tab i) (drop i tab)). op_name opc = op_name (tab ! i)"
    "i + same_name_run tab i < length tab \<Longrightarrow>
       op_name (tab ! (i + same_name_run tab i - 1)) = op_name (tab ! i)
       \<and> op_name (tab ! (i + same_name_run tab i)) \<noteq> op_name (tab ! i)"
proof -
  let ?P = "\<lambda>opc. op_name opc = op_name (tab ! i)" and ?d = "drop (Suc i) tab"
  define m where "m = length (takeWhile ?P ?d)"
  have n: "same_name_run tab i = Suc m" by (simp add: same_name_run_def m_def)
  have m: "m \<le> length tab - Suc i" using length_takeWhile_le [of ?P ?d] by (simp add: m_def)
  then show "i + same_name_run tab i \<le> length tab" using assms n by simp
  have t: "take m ?d = takeWhile ?P ?d" unfolding m_def by (rule takeWhile_eq_take [symmetric])
  have "drop i tab = tab ! i # ?d" using assms by (rule Cons_nth_drop_Suc [symmetric])
  then have "take (same_name_run tab i) (drop i tab) = tab ! i # takeWhile ?P ?d" using n t by simp
  then show "\<forall>opc\<in>set (take (same_name_run tab i) (drop i tab)). op_name opc = op_name (tab ! i)"
    by (auto dest: set_takeWhileD)
  assume "i + same_name_run tab i < length tab"
  then have l: "m < length ?d" using n by simp
  then have "\<not> ?P (?d ! m)" unfolding m_def by (rule nth_length_takeWhile)
  moreover have "?P (tab ! (i + m))"
  proof (cases m)
    case (Suc k)
    then have k: "k < length (takeWhile ?P ?d)" unfolding m_def by simp
    have "takeWhile ?P ?d ! k \<in> set (takeWhile ?P ?d)" by (rule nth_mem [OF k])
    then have "?P (takeWhile ?P ?d ! k)" by (rule set_takeWhileD [THEN conjunct2])
    moreover have "takeWhile ?P ?d ! k = tab ! (i + m)"
      using takeWhile_nth [OF k] Suc l by (simp only: nth_drop length_drop) simp
    ultimately show ?thesis by simp
  qed simp
  ultimately show "op_name (tab ! (i + same_name_run tab i - 1)) = op_name (tab ! i)
       \<and> op_name (tab ! (i + same_name_run tab i)) \<noteq> op_name (tab ! i)"
    using n l by simp
qed

lemma find_index_append:
  "find_index P (xs @ ys) = (case find_index P xs of Some j \<Rightarrow> Some j
     | None \<Rightarrow> map_option (\<lambda>j. length xs + j) (find_index P ys))"
proof (induction xs)
  case Nil
  then show ?case by (cases "find_index P ys") simp_all
next
  case (Cons x xs)
  then show ?case by (cases "find_index P ys") (auto split: option.splits)
qed

lemma first_entry_dom: "dom (first_entry tab) = op_name ` set tab"
proof -
  have "name \<notin> dom (first_entry tab) \<longleftrightarrow> name \<notin> op_name ` set tab" for name
    unfolding domIff first_entry_def by (auto simp: find_index_None_iff)
  then show ?thesis by blast
qed

lemma first_entry_run:
  assumes "ys \<noteq> []" and "\<forall>opc\<in>set ys. op_name opc = name" and "name \<notin> op_name ` set xs"
  shows "first_entry (xs @ ys) = (first_entry xs)(name \<mapsto> length xs)"
proof
  fix k
  show "first_entry (xs @ ys) k = ((first_entry xs)(name \<mapsto> length xs)) k"
  proof (cases "k = name")
    case True
    obtain y ys' where "ys = y # ys'" using assms(1) by (cases ys) auto
    moreover have "find_index (\<lambda>opc. op_name opc = name) xs = None"
      using assms(3) by (auto simp: find_index_None_iff)
    ultimately show ?thesis using True assms(2) by (simp add: first_entry_def find_index_append)
  next
    case False
    then have "find_index (\<lambda>opc. op_name opc = k) ys = None"
      using assms(2) by (auto simp: find_index_None_iff)
    then show ?thesis using False by (simp add: first_entry_def find_index_append split: option.split)
  qed
qed

definition at_boundary :: "mips_opcode list \<Rightarrow> nat \<Rightarrow> bool" where
  "at_boundary tab i \<longleftrightarrow> i = 0 \<or> length tab \<le> i \<or> op_name (tab ! (i - 1)) \<noteq> op_name (tab ! i)"

lemma boundary_fresh:
  assumes "names_adjacent tab" and "i < length tab" and "at_boundary tab i"
  shows "op_name (tab ! i) \<notin> op_name ` set (take i tab)"
proof -
  have "tab = take i tab @ tab ! i # drop (Suc i) tab" using assms(2) by (rule id_take_nth_drop)
  then have "map op_name tab = map op_name (take i tab) @ op_name (tab ! i) # map op_name (drop (Suc i) tab)"
    by (metis list.simps(9) map_append)
  then have d: "distinct (remdups_adj (map op_name (take i tab) @ op_name (tab ! i) # map op_name (drop (Suc i) tab)))"
    using assms(1) by (simp only: names_adjacent_def)
  have "map op_name (take i tab) = [] \<or> last (map op_name (take i tab)) \<noteq> op_name (tab ! i)"
  proof (cases i)
    case (Suc k)
    then have "last (map op_name (take i tab)) = op_name (tab ! k)"
      using assms(2) by (simp add: take_Suc_conv_app_nth)
    then show ?thesis using assms(2,3) Suc by (simp add: at_boundary_def)
  qed simp
  then show ?thesis using adjacent_fresh [OF d] by simp
qed

lemma run_boundary:
  assumes "i < length tab"
  shows "at_boundary tab (i + same_name_run tab i)"
  using same_name_run_bounds(3) [OF assms] by (auto simp: at_boundary_def same_name_run_def)

text \<open>A string map whose values are indices into a table of opcodes.\<close>

locale opcode_map = string_map inv contents insert_op find_op
  for inv :: "'t \<Rightarrow> bool" and contents :: "'t \<Rightarrow> cstring \<rightharpoonup> nat"
    and insert_op :: "'t \<Rightarrow> cstring \<Rightarrow> nat \<Rightarrow> cstring option \<times> 't"
    and find_op :: "'t \<Rightarrow> cstring \<Rightarrow> nat option \<times> 't"
begin

lemma hash_opcodes_from:
  assumes "names_adjacent tab"
  shows "inv t \<Longrightarrow> i \<le> length tab \<Longrightarrow> contents t = first_entry (take i tab) \<Longrightarrow> at_boundary tab i \<Longrightarrow>
    \<exists>t'. hash_opcodes insert_op body tab i t s = Inr (t', fold body (drop i tab) s)
      \<and> inv t' \<and> contents t' = first_entry tab"
proof (induction "length tab - i" arbitrary: i t s rule: less_induct)
  case less
  show ?case
  proof (cases "length tab \<le> i")
    case True
    then show ?thesis using less.prems by (subst hash_opcodes.simps) simp
  next
    case False
    then have i: "i < length tab" by simp
    let ?n = "same_name_run tab i" and ?name = "op_name (tab ! i)"
    note run = same_name_run_bounds [OF i]
    have fresh: "?name \<notin> op_name ` set (take i tab)" using boundary_fresh [OF assms i less.prems(4)] .
    then have "?name \<notin> dom (contents t)" using less.prems(3) by (simp add: first_entry_dom)
    then obtain t1 where ins: "insert_op t ?name i = (None, t1)" "contents t1 = (contents t)(?name \<mapsto> i)"
        "inv t1"
      using insert_new [OF less.prems(1), of ?name i] insert_inv [OF less.prems(1), of ?name i]
      by (cases "insert_op t ?name i") auto
    have ys: "take ?n (drop i tab) \<noteq> []" using i by (simp add: same_name_run_def)
    have "take (i + ?n) tab = take i tab @ take ?n (drop i tab)" by (rule take_add)
    then have c: "contents t1 = first_entry (take (i + ?n) tab)"
      using first_entry_run [OF ys run(2) fresh] ins(2) less.prems(3) i by simp
    have "fold body (drop i tab) s = fold body (drop (i + ?n) tab) (fold body (take ?n (drop i tab)) s)"
      by (metis add.commute append_take_drop_id comp_apply drop_drop fold_append)
    moreover have "length tab - (i + ?n) < length tab - i" using i by (simp add: same_name_run_def)
    ultimately show ?thesis
      using less.hyps [OF _ ins(3) run(1) c run_boundary [OF i]] ins(1) False
      by (subst hash_opcodes.simps) (simp add: Let_def)
  qed
qed

lemma hash_opcodes_fill:
  assumes "names_adjacent tab" and "inv t" and "contents t = Map.empty"
  shows "\<exists>t'. hash_opcodes insert_op body tab 0 t s = Inr (t', fold body tab s)
      \<and> inv t' \<and> contents t' = first_entry tab"
  using hash_opcodes_from [OF assms(1,2), of 0 body s] assms(3)
  by (simp add: at_boundary_def first_entry_def)

text \<open>What the assembler asks of the filled table: a mnemonic leads to its first entry.\<close>

lemma find_opcode:
  assumes "inv t" and "contents t = first_entry tab"
  shows "fst (find_op t name) = find_index (\<lambda>opc. op_name opc = name) tab"
  using find_value [OF assms(1)] assms(2) by (simp add: first_entry_def)

end

interpretation op_table: opcode_map hash_inv hash_map hash_insert hash_find
  by unfold_locales

section \<open>The tables of the Rigel assembler\<close>

lemma distinct_adjacent: "distinct (map op_name tab) \<Longrightarrow> names_adjacent tab"
  by (simp add: names_adjacent_def remdups_adj_distinct)

lemma rigel_names_adjacent: "names_adjacent mips_builtin_opcodes"
  by (rule distinct_adjacent [OF rigel_names_distinct])

lemma mips16_names_adjacent: "names_adjacent mips16_opcodes"
proof -
  have "map op_name mips16_opcodes = map op_name mips16_opcodes_1 @ map op_name mips16_opcodes_2"
    by (simp add: mips16_opcodes_def)
  then show ?thesis
    unfolding names_adjacent_def by (simp add: mips16_opcodes_1_def mips16_opcodes_2_def)
qed

definition mips16_match_ok :: "mips_opcode \<Rightarrow> bool" where
  "mips16_match_ok opc \<longleftrightarrow> op_pinfo opc = INSN_MACRO \<or> op_match opc AND op_msk opc = op_match opc"

lemma mips16_match_opcode:
  "mips16_match_ok (opcode nm ar mt mk pi pi2 me) \<longleftrightarrow> pi = INSN_MACRO \<or> mt AND mk = mt"
  by (simp add: mips16_match_ok_def)

lemma mips16_match_all: "list_all mips16_match_ok mips16_opcodes"
proof -
  have "list_all mips16_match_ok mips16_opcodes_1"
    unfolding mips16_opcodes_1_def list.pred_inject mips16_match_opcode by simp
  moreover have "list_all mips16_match_ok mips16_opcodes_2"
    unfolding mips16_opcodes_2_def list.pred_inject mips16_match_opcode by simp
  ultimately show ?thesis by (simp add: mips16_opcodes_def)
qed

text \<open>What the inner loops keep when every entry passes: nothing broken, and the first \<open>nop\<close>.\<close>

definition nop_of :: "mips_set_options \<Rightarrow> mips_opcode list \<Rightarrow> mips_cl_insn option" where
  "nop_of opts tab = map_option (\<lambda>opc. (create_insn opts opc)\<lparr>fixed_p := True\<rparr>)
     (List.find (\<lambda>opc. op_name opc = ''nop'') tab)"

lemma note_nop_fields [simp]:
  "b_broken (note_nop opts opc s) = b_broken s"
  "b_nop (note_nop opts opc s) = (if b_nop s = None \<and> op_name opc = ''nop''
     then Some ((create_insn opts opc)\<lparr>fixed_p := True\<rparr>) else b_nop s)"
  by (simp_all add: note_nop_def)

lemma fold_begin:
  assumes "\<And>opc s. opc \<in> set tab \<Longrightarrow> body opc s = note_nop opts opc s"
  shows "fold body tab s = \<lparr>b_broken = b_broken s, b_nop = (case b_nop s of Some n \<Rightarrow> Some n | None \<Rightarrow> nop_of opts tab)\<rparr>"
  using assms
proof (induction tab arbitrary: s)
  case Nil
  then show ?case by (simp add: nop_of_def split: option.split)
next
  case (Cons opc tab)
  then have "fold body (opc # tab) s = fold body tab (note_nop opts opc s)" by simp
  also have "\<dots> = \<lparr>b_broken = b_broken (note_nop opts opc s),
      b_nop = (case b_nop (note_nop opts opc s) of Some n \<Rightarrow> Some n | None \<Rightarrow> nop_of opts tab)\<rparr>"
    by (rule Cons.IH) (simp add: Cons.prems)
  also have "\<dots> = \<lparr>b_broken = b_broken s, b_nop = (case b_nop s of Some n \<Rightarrow> Some n | None \<Rightarrow> nop_of opts (opc # tab))\<rparr>"
    by (simp add: nop_of_def split: option.split)
  finally show ?case .
qed

lemma rigel_begin_entry:
  "opc \<in> set mips_builtin_opcodes \<Longrightarrow> begin_entry opts opc s = note_nop opts opc s"
  using well_formed_validates [OF rigel_well_formed] rigel_plain
  by (simp add: begin_entry_def plain_rigel_def)

lemma mips16_begin_entry: "opc \<in> set mips16_opcodes \<Longrightarrow> begin_entry16 opts opc s = note_nop opts opc s"
  using mips16_match_all by (auto simp: begin_entry16_def list_all_iff mips16_match_ok_def)

lemma rigel_nop: "List.find (\<lambda>opc. op_name opc = ''nop'') mips_builtin_opcodes
    = Some (opcode ''nop'' '''' 0x0000002a 0xffffffff 0 0 IR32)"
  unfolding mips_builtin_opcodes_def by simp

lemma mips16_nop: "List.find (\<lambda>opc. op_name opc = ''nop'') mips16_opcodes
    = Some (opcode ''nop'' '''' 0x6500 0xffff RD_Z 0 I1)"
  by (simp add: mips16_opcodes_def mips16_opcodes_1_def)

lemma rigel_begin_tables:
  "\<exists>tabs. begin_opcodes opts sz mips_builtin_opcodes mips16_opcodes = Inr tabs
    \<and> hash_inv (op_hash tabs) \<and> hash_inv (mips16_op_hash tabs)
    \<and> (\<forall>name. fst (hash_find (op_hash tabs) name) = find_index (\<lambda>opc. op_name opc = name) mips_builtin_opcodes)
    \<and> (\<forall>name. fst (hash_find (mips16_op_hash tabs) name) = find_index (\<lambda>opc. op_name opc = name) mips16_opcodes)
    \<and> nop_insn tabs = Some ((create_insn opts (opcode ''nop'' '''' 0x0000002a 0xffffffff 0 0 IR32))\<lparr>fixed_p := True\<rparr>)
    \<and> mips16_nop_insn tabs = Some ((create_insn opts (opcode ''nop'' '''' 0x6500 0xffff RD_Z 0 I1))\<lparr>fixed_p := True\<rparr>)"
proof -
  let ?s = "\<lparr>b_broken = False, b_nop = nop_of opts mips_builtin_opcodes\<rparr>"
  let ?s16 = "\<lparr>b_broken = False, b_nop = nop_of opts mips16_opcodes\<rparr>"
  have f: "fold (begin_entry opts) mips_builtin_opcodes begin_state_0 = ?s"
    using fold_begin [of mips_builtin_opcodes "begin_entry opts" opts begin_state_0] rigel_begin_entry
    by (simp add: begin_state_0_def)
  have f16: "fold (begin_entry16 opts) mips16_opcodes \<lparr>b_broken = False, b_nop = None\<rparr> = ?s16"
    using fold_begin [of mips16_opcodes "begin_entry16 opts" opts "\<lparr>b_broken = False, b_nop = None\<rparr>"]
      mips16_begin_entry by simp
  obtain t where t: "hash_opcodes hash_insert (begin_entry opts) mips_builtin_opcodes 0 (hash_new sz) begin_state_0
      = Inr (t, ?s)" "hash_inv t" "hash_map t = first_entry mips_builtin_opcodes"
    using op_table.hash_opcodes_fill [OF rigel_names_adjacent hash_new_ok, where body = "begin_entry opts" and s = begin_state_0]
    unfolding f by blast
  obtain t16 where t16: "hash_opcodes hash_insert (begin_entry16 opts) mips16_opcodes 0 (hash_new sz)
      \<lparr>b_broken = False, b_nop = None\<rparr> = Inr (t16, ?s16)" "hash_inv t16" "hash_map t16 = first_entry mips16_opcodes"
    using op_table.hash_opcodes_fill [OF mips16_names_adjacent hash_new_ok, where body = "begin_entry16 opts"
        and s = "\<lparr>b_broken = False, b_nop = None\<rparr>"] unfolding f16 by blast
  have "begin_opcodes opts sz mips_builtin_opcodes mips16_opcodes = Inr \<lparr>op_hash = t, mips16_op_hash = t16,
      nop_insn = nop_of opts mips_builtin_opcodes, mips16_nop_insn = nop_of opts mips16_opcodes\<rparr>"
    using t(1) t16(1) by (simp add: begin_opcodes_def)
  then show ?thesis
    using t(2) t16(2) op_table.find_opcode [OF t(2,3)] op_table.find_opcode [OF t16(2,3)]
    by (simp add: nop_of_def rigel_nop mips16_nop)
qed

text \<open>C36: starting the Rigel assembler fills both tables and never stops: the names of each table are
  adjacent, so no insertion is refused, and no entry is broken. Whatever the size of the hash tables, a
  search for a mnemonic yields the first entry of that name, and nothing for any other string; and the
  two nops are the entries named \<open>nop\<close>, marked as fixed.\<close>

theorem rigel_begin_opcodes:
  "\<exists>tabs. begin_opcodes opts sz mips_builtin_opcodes mips16_opcodes = Inr tabs
    \<and> hash_inv (op_hash tabs) \<and> hash_inv (mips16_op_hash tabs)
    \<and> (\<forall>name. fst (hash_find (op_hash tabs) name) = find_index (\<lambda>opc. op_name opc = name) mips_builtin_opcodes)
    \<and> (\<forall>name. fst (hash_find (mips16_op_hash tabs) name) = find_index (\<lambda>opc. op_name opc = name) mips16_opcodes)
    \<and> nop_insn tabs = Some ((create_insn opts (opcode ''nop'' '''' 0x0000002a 0xffffffff 0 0 IR32))\<lparr>fixed_p := True\<rparr>)
    \<and> mips16_nop_insn tabs = Some ((create_insn opts (opcode ''nop'' '''' 0x6500 0xffff RD_Z 0 I1))\<lparr>fixed_p := True\<rparr>)"
  by (rule rigel_begin_tables)

end
