(* ===== verification/Gas_Mips16.thy ===== *)
theory Gas_Mips16
  imports Dis_Mips16
begin

text \<open>
  The mips16 immediates of the assembler (\<open>gas/config/tc-mips.c\<close>): the table \<open>mips16_immed_operands\<close> and
  \<open>mips16_immed\<close>, which chooses between the short and the extended form of an instruction and fills in
  the value. The lemmas at the end relate it to the disassembler of \<open>Dis_Mips16\<close>.
\<close>

section \<open>Operand types\<close>

record mips16_immed_operand =
  io_nbits :: nat
  io_extbits :: nat
  io_shift :: nat
  io_op_shift :: nat
  io_unsp :: bool
  io_extu :: bool
  io_pcrel :: bool

definition immed_operand :: "nat \<Rightarrow> nat \<Rightarrow> nat \<Rightarrow> nat \<Rightarrow> bool \<Rightarrow> bool \<Rightarrow> bool \<Rightarrow> mips16_immed_operand" where
  "immed_operand n e s sh u x p = \<lparr>io_nbits = n, io_extbits = e, io_shift = s, io_op_shift = sh,
     io_unsp = u, io_extu = x, io_pcrel = p\<rparr>"

definition mips16_immed_operands :: "(char \<times> mips16_immed_operand) list" where [rigel_tab]:
  "mips16_immed_operands = [
    (CHR ''<'', immed_operand 3 5 0 (op_sh F16_RZ) True True False),
    (CHR ''>'', immed_operand 3 5 0 (op_sh F16_RX) True True False),
    (CHR ''['', immed_operand 3 6 0 (op_sh F16_RZ) True True False),
    (CHR '']'', immed_operand 3 6 0 (op_sh F16_RX) True True False),
    (CHR ''4'', immed_operand 4 15 0 (op_sh F16_IMM4) False False False),
    (CHR ''5'', immed_operand 5 16 0 (op_sh F16_IMM5) True False False),
    (CHR ''H'', immed_operand 5 16 1 (op_sh F16_IMM5) True False False),
    (CHR ''W'', immed_operand 5 16 2 (op_sh F16_IMM5) True False False),
    (CHR ''D'', immed_operand 5 16 3 (op_sh F16_IMM5) True False False),
    (CHR ''j'', immed_operand 5 16 0 (op_sh F16_IMM5) False False False),
    (CHR ''8'', immed_operand 8 16 0 (op_sh F16_IMM8) True False False),
    (CHR ''C'', immed_operand 8 16 3 (op_sh F16_IMM8) True False False),
    (CHR ''U'', immed_operand 8 16 0 (op_sh F16_IMM8) True True False),
    (CHR ''k'', immed_operand 8 16 0 (op_sh F16_IMM8) False False False),
    (CHR ''K'', immed_operand 8 16 3 (op_sh F16_IMM8) False False False),
    (CHR ''p'', immed_operand 8 16 0 (op_sh F16_IMM8) False False True),
    (CHR ''B'', immed_operand 5 16 3 (op_sh F16_IMM5) True False True),
    (CHR ''E'', immed_operand 5 16 2 (op_sh F16_IMM5) True False True)]"

definition shift_letter :: "char \<Rightarrow> bool" where
  "shift_letter c \<longleftrightarrow> c \<in> {CHR ''<'', CHR ''>'', CHR ''['', CHR '']''}"

text \<open>\<open>mintiny\<close> and \<open>maxtiny\<close>; \<open>minext\<close> and \<open>maxext\<close>.\<close>

definition tiny_range :: "char \<Rightarrow> mips16_immed_operand \<Rightarrow> int \<times> int" where
  "tiny_range c op =
     (if io_unsp op then
        (if shift_letter c then (1, 2 ^ io_nbits op) else (0, 2 ^ io_nbits op - 1))
      else (- (2 ^ (io_nbits op - 1)), 2 ^ (io_nbits op - 1) - 1))"

definition ext_range :: "mips16_immed_operand \<Rightarrow> int \<times> int" where
  "ext_range op =
     (if io_extu op then (0, 2 ^ io_extbits op - 1)
      else (- (2 ^ (io_extbits op - 1)), 2 ^ (io_extbits op - 1) - 1))"

definition does_not_fit :: "char \<Rightarrow> mips16_immed_operand \<Rightarrow> int \<Rightarrow> bool" where
  "does_not_fit c op v \<longleftrightarrow> v mod 2 ^ io_shift op \<noteq> 0
     \<or> v < fst (tiny_range c op) * 2 ^ io_shift op \<or> snd (tiny_range c op) * 2 ^ io_shift op < v"

section \<open>Filling in a value\<close>

text \<open>The division of C rounds towards zero.\<close>

definition c_half :: "int \<Rightarrow> int" where
  "c_half v = (if v < 0 then - ((- v) div 2) else v div 2)"

datatype immed_msg = Extend_not_required | Invalid_unextended | Out_of_range

text \<open>The value and the short form: \<open>((val >> shift) & mask) << op_shift\<close>.\<close>

definition short_bits :: "mips16_immed_operand \<Rightarrow> int \<Rightarrow> ulong" where
  "short_bits op v =
     push_bit (io_op_shift op) (word_of_int (v div 2 ^ io_shift op) AND mask (io_nbits op))"

text \<open>The extended form: the bits that go into \<open>*extend\<close> and into the instruction.\<close>

definition ext_bits :: "nat \<Rightarrow> ulong \<Rightarrow> ulong \<times> ulong" where
  "ext_bits extbits w =
     (if extbits = 16 then ((drop_bit 11 w AND 0x1f) OR (w AND 0x7e0), w AND 0x1f)
      else if extbits = 15 then ((drop_bit 11 w AND 0xf) OR (w AND 0x7f0), w AND 0xf)
      else (push_bit 6 (w AND 0x1f) OR (w AND 0x20), 0))"

text \<open>The messages, the instruction, and \<open>*extend\<close> when \<open>*use_extend\<close> is set; \<open>None\<close> is the failed
  assertion for a letter that is not in the table.\<close>

definition mips16_immed :: "char \<Rightarrow> int \<Rightarrow> bool \<Rightarrow> bool \<Rightarrow> bool \<Rightarrow> ulong
    \<Rightarrow> (immed_msg list \<times> ulong \<times> 16 word option) option" where
  "mips16_immed c val0 warn small ext insn =
     (case map_of mips16_immed_operands c of
        None \<Rightarrow> None
      | Some op \<Rightarrow>
          (let v = (if c = CHR ''p'' then c_half val0 else val0);
               needext = does_not_fit c op v;
               m1 = (if warn \<and> ext \<and> \<not> needext then [Extend_not_required] else []);
               m2 = (if small \<and> needext then [Invalid_unextended] else [])
           in if small \<or> (\<not> ext \<and> \<not> needext) then Some (m1 @ m2, insn OR short_bits op v, None)
              else
                (let m3 = (if v < fst (ext_range op) \<or> snd (ext_range op) < v then [Out_of_range] else []);
                     (e, low) = ext_bits (io_extbits op) (word_of_int v)
                 in Some (m1 @ m2 @ m3, insn OR low, Some (ucast e)))))"

definition immed_errors :: "immed_msg list \<Rightarrow> bool" where
  "immed_errors msgs \<longleftrightarrow> Invalid_unextended \<in> set msgs \<or> Out_of_range \<in> set msgs"

section \<open>The two tables describe the same fields\<close>

definition same_immediate :: "mips16_immed_operand \<Rightarrow> imm16 \<Rightarrow> bool" where
  "same_immediate op d \<longleftrightarrow> im_nbits d = io_nbits op \<and> op_mask (im_field d) = mask (io_nbits op)
     \<and> op_sh (im_field d) = io_op_shift op \<and> im_shift d = io_shift op \<and> im_signed d = (\<not> io_unsp op)
     \<and> im_extbits d = io_extbits op \<and> im_extu d = io_extu op
     \<and> 0 < io_nbits op \<and> io_nbits op + io_op_shift op \<le> 64
     \<and> (io_extbits op \<in> {15, 16} \<and> io_op_shift op = 0 \<and> io_extbits op - 11 \<le> io_nbits op
        \<or> io_extbits op \<in> {5, 6})"

lemma immed_tables_agree:
  "list_all (\<lambda>(c, op). case map_of imm16_letters c of None \<Rightarrow> c = CHR ''5'' | Some d \<Rightarrow> same_immediate op d
     \<and> (shift_letter c \<longrightarrow> io_unsp op \<and> io_shift op = 0 \<and> io_nbits op = 3)) mips16_immed_operands"
  by (simp add: mips16_immed_operands_def imm16_letters_def same_immediate_def immed_operand_def
      imm16_default_def F16_RZ_def F16_RX_def F16_IMM4_def F16_IMM5_def F16_IMM8_def shift_letter_def
      mask_eq_exp_minus_1)

lemma immed_same:
  assumes "map_of mips16_immed_operands c = Some op" and "map_of imm16_letters c = Some d"
  shows "same_immediate op d" "shift_letter c \<Longrightarrow> io_unsp op \<and> io_shift op = 0 \<and> io_nbits op = 3"
  using immed_tables_agree map_of_SomeD [OF assms(1)] assms(2)
  by (auto simp: list_all_iff)

section \<open>Bits of the two forms\<close>

lemma uint_take_of_int: "n \<le> 64 \<Longrightarrow> uint (take_bit n (word_of_int k :: ulong)) = k mod 2 ^ n"
  by (simp only: unsigned_take_bit_eq uint_word_of_int_eq take_bit_take_bit) (simp add: min_def take_bit_eq_mod)

lemma op_get_short:
  assumes "same_immediate op d" and "op_get (im_field d) insn = 0"
  shows "uint (op_get (im_field d) (insn OR short_bits op v)) = (v div 2 ^ io_shift op) mod 2 ^ io_nbits op"
proof -
  let ?k = "v div 2 ^ io_shift op" and ?n = "io_nbits op" and ?s = "io_op_shift op"
  have f: "op_mask (im_field d) = mask ?n" "op_sh (im_field d) = ?s" "?n + ?s \<le> 64"
    using assms(1) by (auto simp: same_immediate_def)
  have "op_get (im_field d) (insn OR short_bits op v)
      = op_get (im_field d) insn OR (drop_bit ?s (push_bit ?s (word_of_int ?k AND mask ?n)) AND mask ?n)"
    by (simp add: op_get_def f short_bits_def bit_eq_iff bit_simps) blast
  also have "\<dots> = take_bit ?n (word_of_int ?k)"
    unfolding assms(2) using f(3) by (auto simp: bit_eq_iff bit_simps)
  finally show ?thesis using f(3) by (simp add: uint_take_of_int)
qed

lemma bit_nat_cases: "k < 16 \<Longrightarrow> k = (15 :: nat) \<or> k = 14 \<or> k = 13 \<or> k = 12 \<or> k = 11 \<or> k = 10 \<or> k = 9 \<or> k = 8
    \<or> k = 7 \<or> k = 6 \<or> k = 5 \<or> k = 4 \<or> k = 3 \<or> k = 2 \<or> k = 1 \<or> k = 0"
  by presburger

lemma extended_16:
  "extended_bits 16 (w AND 0x1f) ((drop_bit 11 w AND 0x1f) OR (w AND 0x7e0)) = take_bit 16 w"
proof (rule bit_word_eqI)
  fix n
  show "bit (extended_bits 16 (w AND 0x1f) ((drop_bit 11 w AND 0x1f) OR (w AND 0x7e0))) n = bit (take_bit 16 w) n"
  proof (cases "n < 16")
    case True
    then show ?thesis
      using bit_nat_cases [OF True] by (elim disjE) (simp_all add: extended_bits_def bit_simps)
  qed (simp add: extended_bits_def bit_simps)
qed

lemma extended_15:
  "extended_bits 15 (w AND 0xf) ((drop_bit 11 w AND 0xf) OR (w AND 0x7f0)) = take_bit 15 w"
proof (rule bit_word_eqI)
  fix n
  show "bit (extended_bits 15 (w AND 0xf) ((drop_bit 11 w AND 0xf) OR (w AND 0x7f0))) n = bit (take_bit 15 w) n"
  proof (cases "n < 16")
    case True
    then show ?thesis
      using bit_nat_cases [OF True] by (elim disjE) (simp_all add: extended_bits_def bit_simps)
  qed (simp add: extended_bits_def bit_simps)
qed

lemma extended_small:
  assumes "e \<in> {5, 6}"
  shows "extended_bits e i (push_bit 6 (w AND 0x1f) OR (w AND 0x20)) = take_bit e w"
proof (rule bit_word_eqI)
  fix n
  show "bit (extended_bits e i (push_bit 6 (w AND 0x1f) OR (w AND 0x20))) n = bit (take_bit e w) n"
  proof (cases "n < 16")
    case True
    then show ?thesis
      using bit_nat_cases [OF True] assms by (elim disjE insertE emptyE) (simp_all add: extended_bits_def bit_simps)
  qed (use assms in \<open>auto simp: extended_bits_def bit_simps\<close>)
qed

section \<open>The values read back\<close>

lemma mod_signed:
  fixes k :: int
  assumes "0 < n" and "- (2 ^ (n - 1)) \<le> k" and "k < 2 ^ (n - 1)"
  shows "(if 2 ^ (n - 1) \<le> k mod 2 ^ n then k mod 2 ^ n - 2 ^ n else k mod 2 ^ n) = k"
proof -
  have p: "(2 :: int) ^ n = 2 * 2 ^ (n - 1)" using assms(1) by (cases n) simp_all
  show ?thesis
  proof (cases "0 \<le> k")
    case True
    then have "k mod 2 ^ n = k" using assms(3) p by (intro mod_pos_pos_trivial) simp_all
    then show ?thesis using assms(3) by simp
  next
    case False
    have "(k + 2 ^ n) mod 2 ^ n = k + 2 ^ n"
      using False assms(2) p by (intro mod_pos_pos_trivial) simp_all
    then have "k mod 2 ^ n = k + 2 ^ n" by simp
    then show ?thesis using assms(2) p by simp
  qed
qed

lemma imm16_value_short:
  "imm16_value c d l False ext =
     (let x = uint (op_get (im_field d) l);
          v = (if im_signed d \<and> 2 ^ (im_nbits d - 1) \<le> x then x - 2 ^ im_nbits d else x) * 2 ^ im_shift d
      in if shift_letter c \<and> v = 0 then 8 else v)"
  by (simp add: imm16_value_def shift_letter_def Let_def)

lemma short_reads_back:
  assumes "same_immediate op d" and "shift_letter c \<Longrightarrow> io_unsp op \<and> io_shift op = 0 \<and> io_nbits op = 3"
    and "op_get (im_field d) insn = 0" and "\<not> does_not_fit c op v"
  shows "imm16_value c d (insn OR short_bits op v) False ext = v"
proof -
  let ?s = "io_shift op" and ?n = "io_nbits op"
  let ?k = "v div 2 ^ ?s"
  have same: "im_nbits d = ?n" "im_shift d = ?s" "im_signed d = (\<not> io_unsp op)" "0 < ?n"
    using assms(1) by (simp_all add: same_immediate_def)
  have v: "v = ?k * 2 ^ ?s" using assms(4) by (auto simp: does_not_fit_def)
  have fit: "fst (tiny_range c op) * 2 ^ ?s \<le> ?k * 2 ^ ?s" "?k * 2 ^ ?s \<le> snd (tiny_range c op) * 2 ^ ?s"
    using assms(4) v by (simp_all add: does_not_fit_def not_less)
  then have r: "fst (tiny_range c op) \<le> ?k" "?k \<le> snd (tiny_range c op)" by simp_all
  note get = op_get_short [OF assms(1,3), of v]
  show ?thesis
  proof (cases "io_unsp op")
    case False
    then have b: "- (2 ^ (?n - 1)) \<le> ?k" "?k < 2 ^ (?n - 1)" "\<not> shift_letter c"
      using r assms(2) by (auto simp: tiny_range_def)
    let ?x = "?k mod 2 ^ ?n"
    have "imm16_value c d (insn OR short_bits op v) False ext
        = (if 2 ^ (?n - 1) \<le> ?x then ?x - 2 ^ ?n else ?x) * 2 ^ ?s"
      by (simp add: imm16_value_short get same(1,2) same(3) False b(3) Let_def)
    also have "\<dots> = v" unfolding mod_signed [OF same(4) b(1,2)] using v by (rule sym)
    finally show ?thesis .
  next
    case True
    then have u: "\<not> im_signed d" using same(3) by simp
    show ?thesis
    proof (cases "shift_letter c")
      case False
      then have "?k mod 2 ^ ?n = ?k" using r True by (intro mod_pos_pos_trivial) (simp_all add: tiny_range_def)
      then show ?thesis using v by (simp add: imm16_value_short get u same(2) False)
    next
      case sl: True
      then have s0: "?s = 0" "1 \<le> v" "v \<le> 8" "?n = 3" using assms(2) r True by (auto simp: tiny_range_def)
      then have "v mod 8 = (if v = 8 then 0 else v)" by auto
      then show ?thesis
        using s0 by (simp add: imm16_value_short get u same(2) sl)
    qed
  qed
qed

lemma op_get_low:
  assumes "op_sh f = 0" and "op_mask f = mask n" and "m \<le> n" and "op_get f insn = 0"
  shows "op_get f (insn OR (w AND mask m)) = w AND mask m"
proof -
  have "op_get f (insn OR (w AND mask m)) = op_get f insn OR (w AND mask m)"
    unfolding op_get_def assms(1,2)
    by (rule bit_word_eqI) (use assms(3) in \<open>auto simp: bit_simps\<close>)
  then show ?thesis using assms(4) by simp
qed

lemma ucast_ext_bits: "ucast (ucast (fst (ext_bits e w)) :: 16 word) = fst (ext_bits e w)"
proof (rule bit_word_eqI)
  fix n assume "n < LENGTH(64)"
  have "bit (fst (ext_bits e w)) n \<Longrightarrow> n < 16"
    by (auto simp: ext_bits_def bit_simps numeral_eq_Suc less_Suc_eq split: if_splits)
  then show "bit (ucast (ucast (fst (ext_bits e w)) :: 16 word) :: ulong) n = bit (fst (ext_bits e w)) n"
    by (auto simp: bit_simps)
qed

lemma ext_reads_back:
  assumes "same_immediate op d" and "op_get (im_field d) insn = 0"
    and "fst (ext_range op) \<le> v" and "v \<le> snd (ext_range op)"
    and "ext_bits (io_extbits op) (word_of_int v) = (e, low)"
  shows "imm16_value c d (insn OR low) True (ucast (ucast e :: 16 word)) = v"
proof -
  let ?w = "word_of_int v :: ulong" and ?e = "io_extbits op" and ?f = "im_field d"
  have same: "im_extbits d = ?e" "im_extu d = io_extu op" "op_mask ?f = mask (io_nbits op)"
    "op_sh ?f = io_op_shift op"
    using assms(1) by (simp_all add: same_immediate_def)
  have E: "ucast (ucast e :: 16 word) = fst (ext_bits ?e ?w)" "low = snd (ext_bits ?e ?w)"
    using ucast_ext_bits [of ?e ?w] assms(5) by simp_all
  have e: "?e \<in> {5, 6, 15, 16}" using assms(1) by (auto simp: same_immediate_def)
  have bits: "extended_bits ?e (op_get ?f (insn OR low)) (fst (ext_bits ?e ?w)) = take_bit ?e ?w"
  proof -
    consider "?e = 16" "op_sh ?f = 0" "5 \<le> io_nbits op" | "?e = 15" "op_sh ?f = 0" "4 \<le> io_nbits op" | "?e \<in> {5, 6}"
      using assms(1) by (auto simp: same_immediate_def)
    then show ?thesis
    proof cases
      case 1
      then show ?thesis
        using op_get_low [OF 1(2) same(3) 1(3) assms(2), of ?w] extended_16 [of ?w]
        by (simp add: E(2) ext_bits_def mask_eq_exp_minus_1)
    next
      case 2
      then show ?thesis
        using op_get_low [OF 2(2) same(3) 2(3) assms(2), of ?w] extended_15 [of ?w]
        by (simp add: E(2) ext_bits_def mask_eq_exp_minus_1)
    next
      case 3
      then show ?thesis using extended_small [OF 3] by (auto simp: ext_bits_def)
    qed
  qed
  have "?e \<le> 64" using e by auto
  then have u: "uint (take_bit ?e ?w) = v mod 2 ^ ?e" by (rule uint_take_of_int)
  let ?x = "v mod 2 ^ ?e"
  have "imm16_value c d (insn OR low) True (ucast (ucast e :: 16 word))
      = (if \<not> io_extu op \<and> 2 ^ (?e - 1) \<le> ?x then ?x - 2 ^ ?e else ?x)"
    by (simp add: imm16_value_def same(1,2) E(1) bits u Let_def)
  also have "\<dots> = v"
  proof (cases "io_extu op")
    case True
    then show ?thesis using assms(3,4) by (simp add: ext_range_def)
  next
    case False
    have "0 < ?e" using e by auto
    then show ?thesis using mod_signed [of ?e v] assms(3,4) False by (simp add: ext_range_def)
  qed
  finally show ?thesis .
qed

lemma immed_reads_back:
  assumes "map_of imm16_letters c = Some d" and "mips16_immed c v warn small ext insn = Some (msgs, insn', e)"
    and "\<not> immed_errors msgs" and "op_get (im_field d) insn = 0"
  shows "imm16_value c d insn' (e \<noteq> None) (case e of None \<Rightarrow> 0 | Some x \<Rightarrow> ucast x)
    = (if c = CHR ''p'' then c_half v else v)"
proof -
  let ?v = "if c = CHR ''p'' then c_half v else v"
  obtain op where op: "map_of mips16_immed_operands c = Some op"
    using assms(2) by (auto simp: mips16_immed_def split: option.splits)
  note same = immed_same [OF op assms(1)]
  show ?thesis
  proof (cases "small \<or> \<not> ext \<and> \<not> does_not_fit c op ?v")
    case True
    then have "insn' = insn OR short_bits op ?v" "e = None" "\<not> does_not_fit c op ?v"
      using assms(2,3) op by (auto simp: mips16_immed_def Let_def immed_errors_def split: if_splits)
    then show ?thesis using short_reads_back [OF same assms(4)] by simp
  next
    case False
    obtain x low where x: "ext_bits (io_extbits op) (word_of_int ?v) = (x, low)" by fastforce
    then have "insn' = insn OR low" "e = Some (ucast x)" "fst (ext_range op) \<le> ?v" "?v \<le> snd (ext_range op)"
      using False assms(2,3) op by (auto simp: mips16_immed_def Let_def immed_errors_def split: if_splits)
    then show ?thesis using ext_reads_back [OF same(1) assms(4) _ _ x] by simp
  qed
qed

text \<open>C37: a mips16 immediate survives assembly and disassembly. Whenever \<open>mips16_immed\<close> reports no error
  for a letter both sides know, on an instruction whose immediate field is still zero, the value the
  disassembler computes from the instruction and the extension is the one given (halved for a branch,
  whose target the disassembler doubles again), in the short and in the extended form alike.\<close>

theorem mips16_immed_reads_back:
  assumes "map_of imm16_letters c = Some d" and "mips16_immed c v warn small ext insn = Some (msgs, insn', e)"
    and "\<not> immed_errors msgs" and "op_get (im_field d) insn = 0"
  shows "imm16_value c d insn' (e \<noteq> None) (case e of None \<Rightarrow> 0 | Some x \<Rightarrow> ucast x)
    = (if c = CHR ''p'' then c_half v else v)"
  by (rule immed_reads_back [OF assms])

theorem mips16_immed_reads_back_witness:
  "mips16_immed CHR ''W'' 300 False False False 0x9800 = Some ([], 0x980c, Some 0x120)
    \<and> imm16_value CHR ''W'' ((imm16_default 5 F16_IMM5)\<lparr>im_shift := 2, im_access := Data_ref_unless_pc_sp 4\<rparr>)
        0x980c True 0x120 = 300"
proof -
  have m: "mips16_immed CHR ''W'' 300 False False False 0x9800 = Some ([], 0x980c, Some 0x120)"
    by (simp add: mips16_immed_def mips16_immed_operands_def immed_operand_def does_not_fit_def
        tiny_range_def shift_letter_def ext_bits_def ext_range_def Let_def)
  have l: "map_of imm16_letters CHR ''W'' = Some ((imm16_default 5 F16_IMM5)\<lparr>im_shift := 2,
      im_access := Data_ref_unless_pc_sp 4\<rparr>)"
    by (simp add: imm16_letters_def)
  have "op_get (im_field ((imm16_default 5 F16_IMM5)\<lparr>im_shift := 2, im_access := Data_ref_unless_pc_sp 4\<rparr>)) 0x9800 = 0"
    by (simp add: imm16_default_def op_get_def F16_IMM5_def)
  then show ?thesis using m mips16_immed_reads_back [OF l m] by (simp add: immed_errors_def)
qed

end
