(* ===== verification/Gas_Relax16.thy ===== *)
theory Gas_Relax16
  imports Gas_Mips16 Gas_Relax
begin

text \<open>
  The relaxation of mips16 immediates (\<open>gas/config/tc-mips.c\<close>): \<open>mips16_extended_frag\<close> decides whether an
  instruction needs its extended form, \<open>mips_relax_frag\<close> changes the frag accordingly, and
  \<open>md_convert_frag\<close> writes the instruction that was decided on.

  A frag is its subtype, its address and the length of its fixed part. What the symbol and the frags
  between it and this one contribute is gathered in one record.
\<close>

section \<open>Frags and symbols\<close>

datatype segT = absolute_section | Section nat

record frag16 =
  f_subtype :: uint
  f_address :: ulong
  f_fix :: nat

record symbol16 =
  s16_value :: ulong
  s16_section :: segT
  s16_same_frag :: bool            \<comment> \<open>\<open>fragp == sym_frag\<close>\<close>
  s16_frag_address :: ulong
  s16_not_adjusted :: bool         \<comment> \<open>the relax markers of the two frags differ\<close>
  s16_aligns :: "nat list option"  \<comment> \<open>the alignments met on the way to its frag, if it is reached\<close>

definition frag16_type :: "frag16 \<Rightarrow> char" where
  "frag16_type fr = char_of (unat (RELAX_MIPS16_TYPE (f_subtype fr)))"

datatype frag16_msg = Different_section | Unsupported_relocation | Extended_in_delay_slot | Immed immed_msg

section \<open>Whether a frag needs the extended form\<close>

text \<open>The loop over the frags up to the symbol's: an alignment absorbs part of the stretch.\<close>

fun stretch_past :: "nat list \<Rightarrow> ulong \<Rightarrow> ulong" where
  "stretch_past [] stretch = stretch"
| "stretch_past (a # as) stretch =
     (let s = (if sint stretch < 0 then - ((- stretch) AND NOT (mask a)) else stretch AND NOT (mask a))
      in if s = 0 then 0 else stretch_past as s)"

definition stretched_value :: "symbol16 \<Rightarrow> ulong \<Rightarrow> ulong" where
  "stretched_value sy stretch =
     (if stretch \<noteq> 0 \<and> s16_not_adjusted sy then
        (case s16_aligns sy of None \<Rightarrow> s16_value sy | Some as \<Rightarrow> s16_value sy + stretch_past as stretch)
      else s16_value sy)"

text \<open>The address a value is relative to, and the value: for a branch the following instruction, for
  other operands the instruction itself, or the jump in whose delay slot it is.\<close>

definition frag16_base :: "frag16 \<Rightarrow> ulong" where
  "frag16_base fr =
     (let addr = f_address fr + word_of_nat (f_fix fr) in
      if frag16_type fr = CHR ''p'' then
        (if RELAX_MIPS16_EXTENDED (f_subtype fr) then addr + 2 + 2 else addr + 2)
      else if RELAX_MIPS16_JAL_DSLOT (f_subtype fr) then addr - 4
      else if RELAX_MIPS16_DSLOT (f_subtype fr) then addr - 2
      else addr)"

definition pcrel_value :: "mips16_immed_operand \<Rightarrow> frag16 \<Rightarrow> ulong \<Rightarrow> ulong" where
  "pcrel_value op fr v =
     (let v' = (if frag16_type fr = CHR ''p'' \<and> v AND 1 \<noteq> 0 then v - 1 else v)
      in v' - (frag16_base fr AND NOT (mask (io_shift op))))"

definition mark_long :: "frag16 \<Rightarrow> frag16" where
  "mark_long fr = fr\<lparr>f_subtype := RELAX_MIPS16_MARK_LONG_BRANCH (f_subtype fr)\<rparr>"

text \<open>The part after the checks of the section: \<open>sec\<close> is \<open>None\<close> in the relaxation loop.\<close>

definition pcrel_extended :: "segT option \<Rightarrow> ulong \<Rightarrow> symbol16 \<Rightarrow> mips16_immed_operand \<Rightarrow> frag16
    \<Rightarrow> bool \<times> frag16_msg list \<times> frag16" where
  "pcrel_extended sec stretch sy op fr =
     (let c = frag16_type fr;
          v0 = sint (pcrel_value op fr (stretched_value sy stretch));
          v = (if c = CHR ''p'' then c_half v0 else v0)
      in if v mod 2 ^ io_shift op \<noteq> 0 \<and> sec = None then (True, [], mark_long fr)
         else if v = (snd (tiny_range c op) + 1) * 2 ^ io_shift op
            \<and> \<not> RELAX_MIPS16_EXTENDED (f_subtype fr) \<and> sec = None then (True, [], mark_long fr)
         else (does_not_fit c op v, [], fr))"

definition mips16_extended_frag :: "segT option \<Rightarrow> ulong \<Rightarrow> symbol16 \<Rightarrow> frag16
    \<Rightarrow> (bool \<times> frag16_msg list \<times> frag16) option" where
  "mips16_extended_frag sec stretch sy fr =
     (if RELAX_MIPS16_USER_SMALL (f_subtype fr) then Some (False, [], fr)
      else if RELAX_MIPS16_USER_EXT (f_subtype fr) then Some (True, [], fr)
      else
        (case map_of mips16_immed_operands (frag16_type fr) of
           None \<Rightarrow> None
         | Some op \<Rightarrow>
             Some
             (if io_pcrel op then
                (case sec of
                   None \<Rightarrow>
                     if RELAX_MIPS16_LONG_BRANCH (f_subtype fr) then (True, [], fr)
                     else pcrel_extended sec stretch sy op fr
                 | Some s \<Rightarrow>
                     if s16_section sy \<noteq> s then (True, [Different_section], mark_long fr)
                     else if \<not> s16_same_frag sy \<and> s16_frag_address sy = 0 then (False, [], fr)
                     else pcrel_extended sec stretch sy op fr)
              else
                (does_not_fit (frag16_type fr) op (sint (s16_value sy)),
                 if s16_section sy \<noteq> absolute_section \<and> sec \<noteq> None then [Unsupported_relocation] else [],
                 fr))))"

section \<open>One step of the relaxation\<close>

definition frag16_size :: "frag16 \<Rightarrow> nat" where
  "frag16_size fr = (if RELAX_MIPS16_EXTENDED (f_subtype fr) then 4 else 2)"

text \<open>The mips16 part of \<open>mips_relax_frag\<close>: the change in size, and the frag.\<close>

definition relax_frag16 :: "ulong \<Rightarrow> symbol16 \<Rightarrow> frag16 \<Rightarrow> (int \<times> frag16) option" where
  "relax_frag16 stretch sy fr =
     (case mips16_extended_frag None stretch sy fr of
        None \<Rightarrow> None
      | Some (True, _, fr') \<Rightarrow>
          if RELAX_MIPS16_EXTENDED (f_subtype fr') then Some (0, fr')
          else Some (2, fr'\<lparr>f_subtype := RELAX_MIPS16_MARK_EXTENDED (f_subtype fr')\<rparr>)
      | Some (False, _, fr') \<Rightarrow>
          if \<not> RELAX_MIPS16_EXTENDED (f_subtype fr') then Some (0, fr')
          else Some (-2, fr'\<lparr>f_subtype := RELAX_MIPS16_CLEAR_EXTENDED (f_subtype fr')\<rparr>))"

section \<open>Writing the instruction\<close>

text \<open>The mips16 part of \<open>md_convert_frag\<close>, on the literal bytes of the frag. \<open>None\<close> is a letter that is
  not in the table, past whose end the source's loop runs, or an access outside the literal.\<close>

definition get_16_at :: "bool \<Rightarrow> nat \<Rightarrow> byte list \<Rightarrow> ulong option" where
  "get_16_at big at mem =
     (if at + 2 \<le> length mem then Some (bfd_get_16 big (take 2 (drop at mem))) else None)"

definition md_convert_frag16 :: "bool \<Rightarrow> ulong \<Rightarrow> frag16 \<Rightarrow> byte list
    \<Rightarrow> (frag16_msg list \<times> byte list \<times> frag16) option" where
  "md_convert_frag16 big v0 fr mem =
     (let c = frag16_type fr; ext = RELAX_MIPS16_EXTENDED (f_subtype fr) in
      case map_of mips16_immed_operands c of
        None \<Rightarrow> None
      | Some op \<Rightarrow>
          (let v = (if io_pcrel op then pcrel_value op fr v0 else v0);
               warn = (if ext \<and> (RELAX_MIPS16_JAL_DSLOT (f_subtype fr) \<or> RELAX_MIPS16_DSLOT (f_subtype fr))
                       then [Extended_in_delay_slot] else [])
           in Option.bind (get_16_at big (f_fix fr) mem) (\<lambda>insn.
              Option.bind (mips16_immed c (sint v) (RELAX_MIPS16_USER_EXT (f_subtype fr)) (\<not> ext) ext insn)
                (\<lambda>(msgs, insn', e).
                  (case e of
                     None \<Rightarrow>
                       map_option (\<lambda>mem'. (warn @ map Immed msgs, mem', fr\<lparr>f_fix := f_fix fr + 2\<rparr>))
                         (store_number big (f_fix fr) insn' 2 mem)
                   | Some x \<Rightarrow>
                       map_option (\<lambda>mem'. (warn @ map Immed msgs, mem', fr\<lparr>f_fix := f_fix fr + 4\<rparr>))
                         (Option.bind (store_number big (f_fix fr) (0xf000 OR ucast x) 2 mem)
                            (store_number big (f_fix fr + 2) insn' 2)))))))"

section \<open>The bits of a subtype\<close>

lemma and_single_bit:
  "i AND 0x100 = 0 \<longleftrightarrow> \<not> bit i 8" "i AND 0x200 = 0 \<longleftrightarrow> \<not> bit i 9" "i AND 0x400 = 0 \<longleftrightarrow> \<not> bit i 10"
  "i AND 0x800 = 0 \<longleftrightarrow> \<not> bit i 11" "i AND 0x1000 = 0 \<longleftrightarrow> \<not> bit i 12" "i AND 0x2000 = 0 \<longleftrightarrow> \<not> bit i 13"
  for i :: uint
  using and_exp_eq_0_iff_not_bit [of i 8] and_exp_eq_0_iff_not_bit [of i 9] and_exp_eq_0_iff_not_bit [of i 10]
    and_exp_eq_0_iff_not_bit [of i 11] and_exp_eq_0_iff_not_bit [of i 12] and_exp_eq_0_iff_not_bit [of i 13]
  by simp_all

lemmas marks_def = RELAX_MIPS16_MARK_EXTENDED_def RELAX_MIPS16_CLEAR_EXTENDED_def RELAX_MIPS16_MARK_LONG_BRANCH_def

lemma mark_keeps:
  assumes "m \<in> {RELAX_MIPS16_MARK_EXTENDED, RELAX_MIPS16_CLEAR_EXTENDED, RELAX_MIPS16_MARK_LONG_BRANCH}"
  shows "RELAX_MIPS16_TYPE (m i) = RELAX_MIPS16_TYPE i" "RELAX_MIPS16_USER_SMALL (m i) = RELAX_MIPS16_USER_SMALL i"
    "RELAX_MIPS16_USER_EXT (m i) = RELAX_MIPS16_USER_EXT i" "RELAX_MIPS16_DSLOT (m i) = RELAX_MIPS16_DSLOT i"
    "RELAX_MIPS16_JAL_DSLOT (m i) = RELAX_MIPS16_JAL_DSLOT i"
proof -
  show "RELAX_MIPS16_TYPE (m i) = RELAX_MIPS16_TYPE i"
    using assms by (auto simp: RELAX_MIPS16_TYPE_def marks_def bit.conj_disj_distrib2 and.assoc)
  show "RELAX_MIPS16_USER_SMALL (m i) = RELAX_MIPS16_USER_SMALL i" "RELAX_MIPS16_USER_EXT (m i) = RELAX_MIPS16_USER_EXT i"
    "RELAX_MIPS16_DSLOT (m i) = RELAX_MIPS16_DSLOT i" "RELAX_MIPS16_JAL_DSLOT (m i) = RELAX_MIPS16_JAL_DSLOT i"
    using assms
    by (auto simp: RELAX_MIPS16_USER_SMALL_def RELAX_MIPS16_USER_EXT_def RELAX_MIPS16_DSLOT_def
        RELAX_MIPS16_JAL_DSLOT_def marks_def and_single_bit bit_simps)
qed

lemma mark_extended [simp]:
  "RELAX_MIPS16_EXTENDED (RELAX_MIPS16_MARK_EXTENDED i)" "\<not> RELAX_MIPS16_EXTENDED (RELAX_MIPS16_CLEAR_EXTENDED i)"
  "RELAX_MIPS16_EXTENDED (RELAX_MIPS16_MARK_LONG_BRANCH i) = RELAX_MIPS16_EXTENDED i"
  "RELAX_MIPS16_LONG_BRANCH (RELAX_MIPS16_MARK_LONG_BRANCH i)"
  "RELAX_MIPS16_LONG_BRANCH (RELAX_MIPS16_MARK_EXTENDED i) = RELAX_MIPS16_LONG_BRANCH i"
  "RELAX_MIPS16_LONG_BRANCH (RELAX_MIPS16_CLEAR_EXTENDED i) = RELAX_MIPS16_LONG_BRANCH i"
  by (simp_all add: RELAX_MIPS16_EXTENDED_def RELAX_MIPS16_LONG_BRANCH_def marks_def and_single_bit bit_simps)

lemmas mark_keeps_extended [simp] = mark_keeps [of RELAX_MIPS16_MARK_EXTENDED, simplified]
lemmas mark_keeps_clear [simp] = mark_keeps [of RELAX_MIPS16_CLEAR_EXTENDED, simplified]
lemmas mark_keeps_long [simp] = mark_keeps [of RELAX_MIPS16_MARK_LONG_BRANCH, simplified]

section \<open>Relaxation settles\<close>

lemma sint_minus_2:
  "sint (w - 2) = sint w - 2 \<or> sint w < - (2 ^ 63) + 2 \<and> 2 ^ 63 - 2 \<le> sint (w - 2)" for w :: ulong
proof -
  have b: "- (2 ^ 63) \<le> sint w" "sint w < 2 ^ 63"
    using sint_greater_eq [of w] sint_less [of w] by simp_all
  have w: "w - 2 = word_of_int (sint w - 2)" by simp
  have w': "w - 2 = word_of_int (sint w - 2 + 2 ^ 64)" using w by simp
  show ?thesis
  proof (cases "- (2 ^ 63) \<le> sint w - 2")
    case True
    then have "sint (w - 2) = sint w - 2"
      unfolding w sint_sbintrunc' using b by (intro signed_take_bit_int_eq_self) simp_all
    then show ?thesis ..
  next
    case False
    then have "sint (w - 2) = sint w - 2 + 2 ^ 64"
      unfolding w' sint_sbintrunc' using b by (intro signed_take_bit_int_eq_self) simp_all
    then show ?thesis using False b by simp
  qed
qed

lemma c_half_bounds:
  "c_half v \<le> k \<longleftrightarrow> (if k < 0 then v \<le> 2 * k else v < 2 * k + 2)"
  "k \<le> c_half v \<longleftrightarrow> (if 0 < k then 2 * k \<le> v else 2 * k - 2 < v)"
  unfolding c_half_def by presburger+

text \<open>The value of a PC relative operand as the frag stands.\<close>

definition frag_value :: "mips16_immed_operand \<Rightarrow> symbol16 \<Rightarrow> frag16 \<Rightarrow> int" where
  "frag_value op sy fr =
     (let v = sint (pcrel_value op fr (s16_value sy)) in if frag16_type fr = CHR ''p'' then c_half v else v)"

lemma pcrel_extended_0:
  "pcrel_extended None 0 sy op fr =
     (if frag_value op sy fr mod 2 ^ io_shift op \<noteq> 0
        \<or> frag_value op sy fr = (snd (tiny_range (frag16_type fr) op) + 1) * 2 ^ io_shift op
          \<and> \<not> RELAX_MIPS16_EXTENDED (f_subtype fr)
      then (True, [], mark_long fr) else (does_not_fit (frag16_type fr) op (frag_value op sy fr), [], fr))"
  by (simp add: pcrel_extended_def frag_value_def stretched_value_def Let_def)

definition mark_ext :: "frag16 \<Rightarrow> frag16" where
  "mark_ext fr = fr\<lparr>f_subtype := RELAX_MIPS16_MARK_EXTENDED (f_subtype fr)\<rparr>"

lemma pcrel_only_p_shift: "map_of mips16_immed_operands CHR ''p'' = Some (immed_operand 8 16 0 (op_sh F16_IMM8) False False True)"
  by (simp add: mips16_immed_operands_def)

text \<open>The value does not depend on the mark, but for a branch, whose base is two bytes further on. Then
  a value that does not fit and is not the first above the range does not fit after the mark either.\<close>

lemma frag_value_mark:
  assumes "f_subtype fr' = m (f_subtype fr)" and "f_address fr' = f_address fr" and "f_fix fr' = f_fix fr"
    and "m \<in> {RELAX_MIPS16_MARK_EXTENDED, RELAX_MIPS16_CLEAR_EXTENDED, RELAX_MIPS16_MARK_LONG_BRANCH}"
    and "frag16_type fr \<noteq> CHR ''p'' \<or> RELAX_MIPS16_EXTENDED (f_subtype fr') = RELAX_MIPS16_EXTENDED (f_subtype fr)"
  shows "frag_value op sy fr' = frag_value op sy fr"
proof -
  note k = mark_keeps [OF assms(4), of "f_subtype fr", folded assms(1)]
  have t: "frag16_type fr' = frag16_type fr" by (simp only: frag16_type_def k)
  have "frag16_base fr' = frag16_base fr"
    using assms(5) by (cases "frag16_type fr = CHR ''p''") (simp_all only: frag16_base_def t k assms(2,3) if_True if_False simp_thms)
  then show ?thesis by (simp only: frag_value_def pcrel_value_def t)
qed

lemma branch_stays_out:
  assumes "frag16_type fr = CHR ''p''" and "map_of mips16_immed_operands (frag16_type fr) = Some op"
    and "\<not> RELAX_MIPS16_EXTENDED (f_subtype fr)" and "does_not_fit (frag16_type fr) op (frag_value op sy fr)"
    and "frag_value op sy fr \<noteq> (snd (tiny_range (frag16_type fr) op) + 1) * 2 ^ io_shift op"
  shows "does_not_fit (frag16_type fr) op (frag_value op sy (mark_ext fr))"
proof -
  have op: "op = immed_operand 8 16 0 (op_sh F16_IMM8) False False True"
    using assms(1,2) pcrel_only_p_shift by simp
  define w where "w = pcrel_value op fr (s16_value sy)"
  have s: "pcrel_value op (mark_ext fr) (s16_value sy) = w - 2"
    using assms(1,3) by (simp add: w_def op immed_operand_def pcrel_value_def frag16_base_def frag16_type_def
        mark_ext_def Let_def)
  have v: "frag_value op sy fr = c_half (sint w)" "frag_value op sy (mark_ext fr) = c_half (sint (w - 2))"
    using assms(1) s by (simp_all add: frag_value_def w_def frag16_type_def mark_ext_def)
  have "c_half (sint w) < -128 \<or> 128 < c_half (sint w)"
    using assms(4,5) unfolding v(1) by (auto simp: op immed_operand_def does_not_fit_def tiny_range_def assms(1))
  then have "sint w \<le> - 258 \<or> 258 \<le> sint w"
    using c_half_bounds(1) [of "sint w" "-129"] c_half_bounds(2) [of 129 "sint w"] by auto
  then have "sint (w - 2) \<le> - 258 \<or> 256 \<le> sint (w - 2)" using sint_minus_2 [of w] by auto
  then have "c_half (sint (w - 2)) < -128 \<or> 127 < c_half (sint (w - 2))"
    using c_half_bounds(1) [of "sint (w - 2)" "-129"] c_half_bounds(2) [of 128 "sint (w - 2)"] by auto
  then show ?thesis
    unfolding v(2) by (auto simp: op immed_operand_def does_not_fit_def tiny_range_def assms(1))
qed

text \<open>The decision with addresses fixed, and the frag it leaves.\<close>

definition decision :: "mips16_immed_operand \<Rightarrow> symbol16 \<Rightarrow> frag16 \<Rightarrow> bool \<times> frag16" where
  "decision op sy fr =
     (if RELAX_MIPS16_USER_SMALL (f_subtype fr) then (False, fr)
      else if RELAX_MIPS16_USER_EXT (f_subtype fr) then (True, fr)
      else if \<not> io_pcrel op then (does_not_fit (frag16_type fr) op (sint (s16_value sy)), fr)
      else if RELAX_MIPS16_LONG_BRANCH (f_subtype fr) then (True, fr)
      else case pcrel_extended None 0 sy op fr of (b, _, fr') \<Rightarrow> (b, fr'))"

definition set_extended :: "bool \<Rightarrow> frag16 \<Rightarrow> frag16" where
  "set_extended b fr =
     (if b = RELAX_MIPS16_EXTENDED (f_subtype fr) then fr else if b then mark_ext fr
      else fr\<lparr>f_subtype := RELAX_MIPS16_CLEAR_EXTENDED (f_subtype fr)\<rparr>)"

lemma set_extended_simps [simp]:
  "RELAX_MIPS16_EXTENDED (f_subtype (set_extended b fr)) = b" "frag16_type (set_extended b fr) = frag16_type fr"
  "RELAX_MIPS16_USER_SMALL (f_subtype (set_extended b fr)) = RELAX_MIPS16_USER_SMALL (f_subtype fr)"
  "RELAX_MIPS16_USER_EXT (f_subtype (set_extended b fr)) = RELAX_MIPS16_USER_EXT (f_subtype fr)"
  "RELAX_MIPS16_LONG_BRANCH (f_subtype (set_extended b fr)) = RELAX_MIPS16_LONG_BRANCH (f_subtype fr)"
  by (auto simp: set_extended_def mark_ext_def frag16_type_def)

lemma set_extended_idem [simp]: "set_extended b (set_extended b fr) = set_extended b fr"
  by (subst set_extended_def) simp

lemma mark_long_simps [simp]:
  "frag16_type (mark_long fr) = frag16_type fr" "RELAX_MIPS16_LONG_BRANCH (f_subtype (mark_long fr))"
  "RELAX_MIPS16_USER_SMALL (f_subtype (mark_long fr)) = RELAX_MIPS16_USER_SMALL (f_subtype fr)"
  "RELAX_MIPS16_USER_EXT (f_subtype (mark_long fr)) = RELAX_MIPS16_USER_EXT (f_subtype fr)"
  "RELAX_MIPS16_EXTENDED (f_subtype (mark_long fr)) = RELAX_MIPS16_EXTENDED (f_subtype fr)"
  by (simp_all add: mark_long_def frag16_type_def)

lemma relax_decides:
  assumes "map_of mips16_immed_operands (frag16_type fr) = Some op" and "decision op sy fr = (b, fr')"
  shows "relax_frag16 0 sy fr = Some (int (frag16_size (set_extended b fr')) - int (frag16_size fr'), set_extended b fr')"
proof -
  obtain x y where p: "pcrel_extended None 0 sy op fr = (x, [], y)" unfolding pcrel_extended_0 by metis
  have "mips16_extended_frag None 0 sy fr = Some (b, [], fr')"
    using assms unfolding mips16_extended_frag_def decision_def p by (auto simp: p split: if_splits)
  then show ?thesis
    by (cases b; cases "RELAX_MIPS16_EXTENDED (f_subtype fr')")
      (simp_all add: relax_frag16_def frag16_size_def set_extended_def mark_ext_def)
qed

lemma decision_frame:
  assumes "decision op sy fr = (b, fr')"
  shows "fr' = fr \<or> fr' = mark_long fr" "frag16_type fr' = frag16_type fr" "frag16_size fr' = frag16_size fr"
    "\<not> b \<Longrightarrow> fr' = fr"
  using assms by (auto simp: decision_def pcrel_extended_0 frag16_size_def split: if_splits)

text \<open>A frag that was extended keeps its size from then on.\<close>

lemma extended_settles:
  assumes "map_of mips16_immed_operands (frag16_type fr) = Some op" and "decision op sy fr = (True, fr')"
  shows "decision op sy (set_extended True fr') = (True, set_extended True fr')"
proof -
  note d = assms(2) [unfolded decision_def]
  consider (easy) "RELAX_MIPS16_USER_EXT (f_subtype fr) \<or> \<not> io_pcrel op \<or> RELAX_MIPS16_LONG_BRANCH (f_subtype fr)"
      "fr' = fr"
    | (long) "io_pcrel op" "fr' = mark_long fr"
    | (out) "io_pcrel op" "fr' = fr" "\<not> RELAX_MIPS16_LONG_BRANCH (f_subtype fr)"
      "does_not_fit (frag16_type fr) op (frag_value op sy fr)"
      "frag_value op sy fr mod 2 ^ io_shift op = 0"
      "frag_value op sy fr = (snd (tiny_range (frag16_type fr) op) + 1) * 2 ^ io_shift op
        \<longrightarrow> RELAX_MIPS16_EXTENDED (f_subtype fr)"
    using d by (auto simp: pcrel_extended_0 split: if_splits)
  then show ?thesis
  proof cases
    case out
    let ?f = "set_extended True fr"
    have v: "frag_value op sy ?f mod 2 ^ io_shift op = 0 \<and> does_not_fit (frag16_type fr) op (frag_value op sy ?f)"
    proof (cases "frag16_type fr = CHR ''p'' \<and> \<not> RELAX_MIPS16_EXTENDED (f_subtype fr)")
      case True
      then have "?f = mark_ext fr" by (simp add: set_extended_def)
      moreover have "io_shift op = 0" using assms(1) True pcrel_only_p_shift by (auto simp: immed_operand_def)
      ultimately show ?thesis using branch_stays_out [of fr op sy] True assms(1) out(4,6) by simp
    next
      case False
      have "frag_value op sy ?f = frag_value op sy fr"
      proof (cases "RELAX_MIPS16_EXTENDED (f_subtype fr)")
        case False
        then show ?thesis using \<open>\<not> (_ \<and> _)\<close>
          by (intro frag_value_mark [of _ RELAX_MIPS16_MARK_EXTENDED]) (simp_all add: set_extended_def mark_ext_def)
      qed (simp add: set_extended_def)
      then show ?thesis using out by simp
    qed
    show ?thesis
      using d out(1-3) v by (auto simp: decision_def pcrel_extended_0 split: if_splits)
  qed (use d in \<open>auto simp: decision_def split: if_splits\<close>)
qed

section \<open>What is written\<close>

lemma put_bytes_read_other:
  assumes "put_bytes at bs mem = Some mem'" and "i + n \<le> at \<or> at + length bs \<le> i"
  shows "take n (drop i mem') = take n (drop i mem)"
proof (rule nth_equalityI)
  have l: "length mem' = length mem" using assms(1) by (rule put_bytes_length)
  then show "length (take n (drop i mem')) = length (take n (drop i mem))" by simp
  fix k
  assume "k < length (take n (drop i mem'))"
  then show "take n (drop i mem') ! k = take n (drop i mem) ! k"
    using put_bytes_other [OF assms(1), of "i + k"] assms(2) l by auto
qed

lemma store_number_16:
  assumes "at + 2 \<le> length mem"
  obtains mem' where "store_number big at v 2 mem = Some mem'" "length mem' = length mem"
    "get_16_at big at mem' = Some (take_bit 16 v)"
    "\<And>i n. i + n \<le> at \<or> at + 2 \<le> i \<Longrightarrow> take n (drop i mem') = take n (drop i mem)"
proof -
  obtain bs where bs: "md_number_to_chars big v 2 = Some bs" "length bs = 2" "bfd_get_16 big bs = take_bit 16 v"
    using md_number_to_chars_16 by blast
  with assms obtain mem' where m: "put_bytes at bs mem = Some mem'" by (simp add: put_bytes_def)
  show thesis
  proof
    show "store_number big at v 2 mem = Some mem'" using bs m by (simp add: store_number_def)
    show l: "length mem' = length mem" using m by (rule put_bytes_length)
    show "get_16_at big at mem' = Some (take_bit 16 v)"
      using put_bytes_read [OF m] bs l assms by (simp add: get_16_at_def)
    show "take n (drop i mem') = take n (drop i mem)" if "i + n \<le> at \<or> at + 2 \<le> i" for i n
      using put_bytes_read_other [OF m] that bs by simp
  qed
qed

lemma convert_immed:
  assumes "map_of mips16_immed_operands c = Some op"
  shows "\<exists>msgs insn' e. mips16_immed c v warn (\<not> ext) ext insn = Some (msgs, insn', e) \<and> (e \<noteq> None) = ext"
  using assms by (cases ext) (auto simp: mips16_immed_def Let_def split: prod.split)

text \<open>The conversion of a frag whose bytes are there: the instruction with its immediate, after the
  extension if the frag is extended.\<close>

lemma convert_writes:
  assumes "map_of mips16_immed_operands (frag16_type fr) = Some op" and "f_fix fr + frag16_size fr \<le> length mem"
  shows "\<exists>msgs m insn insn' e mem'.
      md_convert_frag16 big v fr mem = Some (msgs, mem', fr\<lparr>f_fix := f_fix fr + frag16_size fr\<rparr>)
    \<and> get_16_at big (f_fix fr) mem = Some insn
    \<and> mips16_immed (frag16_type fr) (sint (if io_pcrel op then pcrel_value op fr v else v))
        (RELAX_MIPS16_USER_EXT (f_subtype fr)) (\<not> RELAX_MIPS16_EXTENDED (f_subtype fr))
        (RELAX_MIPS16_EXTENDED (f_subtype fr)) insn = Some (m, insn', e)
    \<and> (e \<noteq> None) = RELAX_MIPS16_EXTENDED (f_subtype fr) \<and> Immed ` set m \<subseteq> set msgs
    \<and> length mem' = length mem
    \<and> (\<forall>i n. i + n \<le> f_fix fr \<or> f_fix fr + frag16_size fr \<le> i \<longrightarrow> take n (drop i mem') = take n (drop i mem))
    \<and> (case e of None \<Rightarrow> get_16_at big (f_fix fr) mem' = Some (take_bit 16 insn')
       | Some x \<Rightarrow> get_16_at big (f_fix fr) mem' = Some (take_bit 16 (0xf000 OR ucast x))
          \<and> get_16_at big (f_fix fr + 2) mem' = Some (take_bit 16 insn'))"
proof -
  let ?ext = "RELAX_MIPS16_EXTENDED (f_subtype fr)" and ?at = "f_fix fr"
  let ?warn = "if ?ext \<and> (RELAX_MIPS16_JAL_DSLOT (f_subtype fr) \<or> RELAX_MIPS16_DSLOT (f_subtype fr))
      then [Extended_in_delay_slot] else []"
  have t: "Immed ` set m \<subseteq> set (?warn @ map Immed m)" for m by simp
  have l: "?at + 2 \<le> length mem" using assms(2) by (auto simp: frag16_size_def split: if_splits)
  then obtain insn where g: "get_16_at big ?at mem = Some insn" by (simp add: get_16_at_def)
  obtain m insn' e where i: "mips16_immed (frag16_type fr) (sint (if io_pcrel op then pcrel_value op fr v else v))
      (RELAX_MIPS16_USER_EXT (f_subtype fr)) (\<not> ?ext) ?ext insn = Some (m, insn', e)" "(e \<noteq> None) = ?ext"
    using convert_immed [OF assms(1), of "sint (if io_pcrel op then pcrel_value op fr v else v)"
        "RELAX_MIPS16_USER_EXT (f_subtype fr)" ?ext insn] by (elim exE conjE) (rule that)
  show ?thesis
  proof (cases e)
    case None
    obtain mem' where w: "store_number big ?at insn' 2 mem = Some mem'" "length mem' = length mem"
        "get_16_at big ?at mem' = Some (take_bit 16 insn')"
        "\<And>i n. i + n \<le> ?at \<or> ?at + 2 \<le> i \<Longrightarrow> take n (drop i mem') = take n (drop i mem)"
      using store_number_16 [OF l] by blast
    have s: "frag16_size fr = 2" using None i(2) by (simp add: frag16_size_def)
    have c: "md_convert_frag16 big v fr mem = Some (?warn @ map Immed m, mem', fr\<lparr>f_fix := ?at + frag16_size fr\<rparr>)"
      unfolding md_convert_frag16_def Let_def assms(1) option.case g bind.simps i(1) prod.case None s
      by (simp only: w(1) option.map)
    show ?thesis
    proof (intro exI conjI)
      show "case e of None \<Rightarrow> get_16_at big ?at mem' = Some (take_bit 16 insn')
        | Some x \<Rightarrow> get_16_at big ?at mem' = Some (take_bit 16 (0xf000 OR ucast x))
          \<and> get_16_at big (?at + 2) mem' = Some (take_bit 16 insn')"
        by (simp only: None option.case w(3))
    next
      show "\<forall>i n. i + n \<le> ?at \<or> ?at + frag16_size fr \<le> i \<longrightarrow> take n (drop i mem') = take n (drop i mem)"
        unfolding s using w(4) by blast
    qed (use c g i w(2) t in \<open>simp_all only: simp_thms\<close>)
  next
    case (Some x)
    then have s: "frag16_size fr = 4" "?at + 2 + 2 \<le> length mem"
      using i(2) assms(2) by (simp_all add: frag16_size_def)
    obtain mem1 where w1: "store_number big ?at (0xf000 OR ucast x) 2 mem = Some mem1" "length mem1 = length mem"
        "get_16_at big ?at mem1 = Some (take_bit 16 (0xf000 OR ucast x))"
        "\<And>i n. i + n \<le> ?at \<or> ?at + 2 \<le> i \<Longrightarrow> take n (drop i mem1) = take n (drop i mem)"
      using store_number_16 [OF l] by blast
    obtain mem' where w: "store_number big (?at + 2) insn' 2 mem1 = Some mem'" "length mem' = length mem1"
        "get_16_at big (?at + 2) mem' = Some (take_bit 16 insn')"
        "\<And>i n. i + n \<le> ?at + 2 \<or> ?at + 2 + 2 \<le> i \<Longrightarrow> take n (drop i mem') = take n (drop i mem1)"
      using store_number_16 [of "?at + 2" mem1] s(2) w1(2) by metis
    have "get_16_at big ?at mem' = Some (take_bit 16 (0xf000 OR ucast x))"
      using w1(2,3) w(2) w(4) [of ?at 2] l by (simp add: get_16_at_def)
    moreover have "md_convert_frag16 big v fr mem = Some (?warn @ map Immed m, mem', fr\<lparr>f_fix := ?at + frag16_size fr\<rparr>)"
      unfolding md_convert_frag16_def Let_def assms(1) option.case g bind.simps i(1) prod.case Some s
      by (simp only: w1(1) bind.simps w(1) option.map)
    moreover have "\<forall>i n. i + n \<le> ?at \<or> ?at + 4 \<le> i \<longrightarrow> take n (drop i mem') = take n (drop i mem)"
      using w(4) w1(4) by auto
    moreover have "case e of None \<Rightarrow> get_16_at big ?at mem' = Some (take_bit 16 insn')
        | Some x \<Rightarrow> get_16_at big ?at mem' = Some (take_bit 16 (0xf000 OR ucast x))
          \<and> get_16_at big (?at + 2) mem' = Some (take_bit 16 insn')"
      using w(3) calculation(1) by (simp only: Some option.case simp_thms)
    ultimately show ?thesis
      unfolding s(1) using g i w(2) [unfolded w1(2)] by (intro exI conjI) (assumption | simp only: t)+
  qed
qed

lemma ext_bits_16_small: "fst (ext_bits 16 w) AND 0x7ff = fst (ext_bits 16 w)" "fst (ext_bits 16 w) AND 0xffff = fst (ext_bits 16 w)"
  by (simp_all add: ext_bits_def bit.conj_disj_distrib2 and.assoc)

lemma mask_16: "mask 16 = (0xffff :: ulong)"
  by (simp add: mask_eq_exp_minus_1)

lemma p_extension:
  assumes "mips16_immed CHR ''p'' v warn small ext insn = Some (m, insn', Some x)"
  shows "take_bit 16 (0xf000 OR ucast x) AND 0x7ff = (ucast x :: ulong)"
    "take_bit 16 (0xf000 OR ucast x) AND 0xf800 = (0xf000 :: ulong)"
proof -
  obtain w where "x = ucast (fst (ext_bits 16 w))"
    using assms pcrel_only_p_shift
    by (auto simp: mips16_immed_def immed_operand_def Let_def case_prod_beta split: if_splits)
  then have "ucast x = take_bit 16 (fst (ext_bits 16 w))"
    by (auto intro!: bit_word_eqI simp: bit_simps)
  then have x: "ucast x = fst (ext_bits 16 w)"
    by (simp only: take_bit_eq_mask mask_16 ext_bits_16_small)
  let ?e = "fst (ext_bits 16 w)"
  have e: "?e AND 0xf800 = 0"
    using arg_cong [OF ext_bits_16_small(1) [of w], of "\<lambda>e. e AND 0xf800"] by (simp add: and.assoc)
  show "take_bit 16 (0xf000 OR ucast x) AND 0x7ff = (ucast x :: ulong)"
    unfolding x take_bit_eq_mask by (simp add: mask_eq_exp_minus_1 and.assoc bit.conj_disj_distrib2 ext_bits_16_small)
  show "take_bit 16 (0xf000 OR ucast x) AND 0xf800 = (0xf000 :: ulong)"
    unfolding x take_bit_eq_mask by (simp add: mask_eq_exp_minus_1 and.assoc bit.conj_disj_distrib2 e)
qed

lemma even_c_half: "even v \<Longrightarrow> c_half v * 2 = v"
  unfolding c_half_def by presburger

lemma bit_imm8: "bit (0xff :: int) n \<Longrightarrow> n < 16"
  using bit_mask_iff [of 8 n, where ?'a = int] by (simp add: mask_eq_exp_minus_1)

lemma op_get_low_half: "op_get F16_IMM8 (take_bit 16 w) = op_get F16_IMM8 w"
  by (rule bit_word_eqI) (auto simp: op_get_def F16_IMM8_def bit_simps dest: bit_imm8)

lemma even_word: "x AND 1 = 0 \<longleftrightarrow> even x" for x :: ulong
  by (simp add: and_one_eq even_iff_mod_2_eq_zero)

lemma clear_low: "x AND - 2 = (if x AND 1 \<noteq> 0 then x - 1 else x)" for x :: ulong
proof -
  have "(x AND NOT 1) + (x AND 1) = (x AND NOT 1) OR (x AND 1)"
    by (rule disjunctive_add) (auto simp: bit_simps)
  also have "\<dots> = x" by (simp add: bit.conj_disj_distrib [symmetric])
  finally have "x AND NOT 1 = x - (x AND 1)" by (simp only: eq_diff_eq)
  moreover have "x AND 1 = 0 \<or> x AND 1 = 1" by (simp add: and_one_eq mod_2_eq_odd)
  ultimately show ?thesis by auto
qed

lemma p_value:
  fixes v :: ulong
  assumes "frag16_type fr = CHR ''p''" and "(f_address fr + word_of_nat (f_fix fr)) AND 1 = 0"
    and w_def: "w = pcrel_value (immed_operand 8 16 0 (op_sh F16_IMM8) False False True) fr v"
  shows "w = (v AND NOT 1) - (f_address fr + word_of_nat (f_fix fr) + (if RELAX_MIPS16_EXTENDED (f_subtype fr) then 4 else 2))"
    "word_of_int (c_half (sint w) * 2) = w"
proof -
  show w: "w = (v AND NOT 1) - (f_address fr + word_of_nat (f_fix fr) + (if RELAX_MIPS16_EXTENDED (f_subtype fr) then 4 else 2))"
    using assms(1) by (simp add: w_def immed_operand_def pcrel_value_def frag16_base_def clear_low Let_def)
  have "even (v AND NOT 1)" by (simp add: even_word [symmetric] and.assoc del: even_word)
  then have "even w" using assms(2) unfolding w even_word by simp
  then have "even (sint w)" using bit_sint_iff [of w 0] by (simp add: bit_0)
  then show "word_of_int (c_half (sint w) * 2) = w" by (simp add: even_c_half)
qed

section \<open>Properties\<close>

text \<open>C38: relaxing a mips16 instruction settles. For a letter of the table, with the addresses fixed, a
  step never fails; the change it reports is the change of the frag's size; and after two steps a third
  changes nothing. For a branch this rests on the rule that a frag about to be extended for the first
  value above the range is marked so that it is never shrunk again.\<close>

theorem relax_frag16_settles:
  assumes "map_of mips16_immed_operands (frag16_type fr) \<noteq> None"
  shows "\<exists>d1 f1 d2 f2. relax_frag16 0 sy fr = Some (d1, f1) \<and> relax_frag16 0 sy f1 = Some (d2, f2)
    \<and> relax_frag16 0 sy f2 = Some (0, f2)
    \<and> int (frag16_size f1) = int (frag16_size fr) + d1 \<and> int (frag16_size f2) = int (frag16_size f1) + d2"
proof -
  obtain op where op: "map_of mips16_immed_operands (frag16_type fr) = Some op" using assms by blast
  obtain b1 g1 where d1: "decision op sy fr = (b1, g1)" by fastforce
  let ?f1 = "set_extended b1 g1"
  have op1: "map_of mips16_immed_operands (frag16_type ?f1) = Some op" using op decision_frame(2) [OF d1] by simp
  obtain b2 g2 where d2: "decision op sy ?f1 = (b2, g2)" by fastforce
  let ?f2 = "set_extended b2 g2"
  have op2: "map_of mips16_immed_operands (frag16_type ?f2) = Some op" using op1 decision_frame(2) [OF d2] by simp
  have "decision op sy ?f2 = (b2, ?f2)"
  proof (cases b2)
    case True
    then show ?thesis using extended_settles [OF op1, of sy g2] d2 by simp
  next
    case False
    then have g2: "g2 = ?f1" using decision_frame(4) [OF d2] by simp
    show ?thesis
    proof (cases b1)
      case True
      then show ?thesis using extended_settles [OF op, of sy g1] d1 d2 False by simp
    next
      case b1: False
      then have "?f2 = ?f1" using g2 False by (simp add: set_extended_def)
      then show ?thesis using d2 g2 by simp
    qed
  qed
  then have "relax_frag16 0 sy ?f2 = Some (0, ?f2)"
    using relax_decides [OF op2, of sy b2 ?f2] by simp
  then show ?thesis
    using relax_decides [OF op d1] relax_decides [OF op1 d2] decision_frame(3) [OF d1] decision_frame(3) [OF d2]
    by (intro exI conjI) (assumption | simp)+
qed

text \<open>A frag to test with: a branch at address 0x100 whose target lies 600 bytes ahead.\<close>

definition far_branch :: frag16 where
  "far_branch = \<lparr>f_subtype = RELAX_MIPS16_ENCODE 112 False False False False, f_address = 0x100, f_fix = 0\<rparr>"

lemma far_branch_type: "frag16_type far_branch = CHR ''p''"
  by (simp add: far_branch_def frag16_type_def RELAX_MIPS16_ENCODE_def RELAX_MIPS16_TYPE_def char_of_def bit_0)

definition far_symbol :: symbol16 where
  "far_symbol = \<lparr>s16_value = 0x359, s16_section = Section 0, s16_same_frag = False, s16_frag_address = 0x300,
    s16_not_adjusted = False, s16_aligns = None\<rparr>"

theorem relax_frag16_settles_witness:
  "\<exists>d1 f1 d2 f2. relax_frag16 0 far_symbol far_branch = Some (d1, f1) \<and> relax_frag16 0 far_symbol f1 = Some (d2, f2)
    \<and> relax_frag16 0 far_symbol f2 = Some (0, f2) \<and> int (frag16_size f2) = int (frag16_size far_branch) + d1 + d2"
proof -
  have "map_of mips16_immed_operands (frag16_type far_branch) \<noteq> None"
    by (simp add: far_branch_type pcrel_only_p_shift)
  from relax_frag16_settles [OF this, of far_symbol] show ?thesis by (elim exE conjE) (intro exI conjI, assumption+, simp)
qed

text \<open>C39: the branch that is written is the branch that was meant. When \<open>md_convert_frag\<close> converts a mips16
  branch at an even address, into memory with room for the size decided on and an instruction whose
  immediate field is zero, it writes exactly that size and nothing else; and if it reports no error, the
  disassembler reads from the bytes written, through the extension if there is one, the value of the
  symbol with its lowest bit cleared as the target of the branch.\<close>

theorem branch16_target_reads_back:
  assumes "frag16_type fr = CHR ''p''" and "f_fix fr + frag16_size fr \<le> length mem"
    and "(f_address fr + word_of_nat (f_fix fr)) AND 1 = 0" and "get_16_at big (f_fix fr) mem = Some insn0"
    and "op_get F16_IMM8 insn0 = 0" and "di_flavour (i_file info) \<noteq> bfd_target_unknown_flavour"
    and "map_of imm16_letters CHR ''p'' = Some d" and "pc = f_address fr + word_of_nat (f_fix fr)"
  shows "\<exists>msgs mem'. md_convert_frag16 big v fr mem = Some (msgs, mem', fr\<lparr>f_fix := f_fix fr + frag16_size fr\<rparr>)
    \<and> length mem' = length mem
    \<and> (\<forall>i n. i + n \<le> f_fix fr \<or> f_fix fr + frag16_size fr \<le> i \<longrightarrow> take n (drop i mem') = take n (drop i mem))
    \<and> (Immed Invalid_unextended \<notin> set msgs \<and> Immed Out_of_range \<notin> set msgs \<longrightarrow>
        (if RELAX_MIPS16_EXTENDED (f_subtype fr) then
           (\<exists>x insn. get_16_at big (f_fix fr) mem' = Some x \<and> x AND 0xf800 = 0xf000
             \<and> get_16_at big (f_fix fr + 2) mem' = Some insn
             \<and> imm16_target rd info d (imm16_value CHR ''p'' d insn True (x AND 0x7ff)) True (pc + 2) = v AND NOT 1)
         else (\<exists>insn. get_16_at big (f_fix fr) mem' = Some insn
             \<and> imm16_target rd info d (imm16_value CHR ''p'' d insn False 0) False pc = v AND NOT 1)))"
proof -
  let ?op = "immed_operand 8 16 0 (op_sh F16_IMM8) False False True" and ?ext = "RELAX_MIPS16_EXTENDED (f_subtype fr)"
  have op: "map_of mips16_immed_operands (frag16_type fr) = Some ?op" using assms(1) pcrel_only_p_shift by simp
  let ?w = "sint (pcrel_value ?op fr v)"
  obtain msgs m insn' e mem' where c: "md_convert_frag16 big v fr mem = Some (msgs, mem', fr\<lparr>f_fix := f_fix fr + frag16_size fr\<rparr>)"
      "mips16_immed CHR ''p'' ?w (RELAX_MIPS16_USER_EXT (f_subtype fr)) (\<not> ?ext) ?ext insn0 = Some (m, insn', e)"
      "(e \<noteq> None) = ?ext" "Immed ` set m \<subseteq> set msgs" "length mem' = length mem"
      "\<forall>i n. i + n \<le> f_fix fr \<or> f_fix fr + frag16_size fr \<le> i \<longrightarrow> take n (drop i mem') = take n (drop i mem)"
      "case e of None \<Rightarrow> get_16_at big (f_fix fr) mem' = Some (take_bit 16 insn')
       | Some x \<Rightarrow> get_16_at big (f_fix fr) mem' = Some (take_bit 16 (0xf000 OR ucast x))
          \<and> get_16_at big (f_fix fr + 2) mem' = Some (take_bit 16 insn')"
    using convert_writes [OF op assms(2), of big v] assms(1,4) by (auto simp: immed_operand_def)
  note pv = p_value [OF assms(1,3) refl, of v, folded assms(8)]
  have d: "d = (imm16_default 8 F16_IMM8)\<lparr>im_signed := True, im_pcrel := True, im_branch := True, im_access := Cond_branch\<rparr>"
    using assms(7) by (simp add: imm16_letters_def)
  have target: "imm16_target rd info d (c_half ?w) uext (if uext then pc + 2 else pc) = v AND NOT 1" if "uext = ?ext" for uext
    using that assms(6) pv by (simp add: imm16_target_def d imm16_default_def)
  have same: "imm16_value CHR ''p'' d (take_bit 16 insn') (e \<noteq> None) (case e of None \<Rightarrow> 0 | Some x \<Rightarrow> ucast x) = c_half ?w"
    if "Immed Invalid_unextended \<notin> set msgs \<and> Immed Out_of_range \<notin> set msgs"
    using immed_reads_back [OF assms(7) c(2)] that c(4) assms(5)
    by (auto simp: immed_errors_def d imm16_default_def imm16_value_def op_get_low_half)
  show ?thesis
  proof (cases e)
    case None
    show ?thesis
      using c(1,3,5,6,7) None same target [of False] by (intro exI conjI) (assumption | simp)+
  next
    case (Some x)
    show ?thesis
      using c(1,3,5,6,7) Some same target [of True] p_extension [OF c(2) [unfolded Some]]
      by (intro exI conjI) (assumption | simp)+
  qed
qed

text \<open>The far branch once it has been extended: two zero bytes for the extension and \<open>b\<close> after it are
  written over.\<close>

definition far_frag :: frag16 where
  "far_frag = \<lparr>f_subtype = RELAX_MIPS16_MARK_EXTENDED (RELAX_MIPS16_ENCODE 112 False False False False),
     f_address = 0x100, f_fix = 0\<rparr>"

lemma far_frag_subtype [simp]: "f_subtype far_frag = 0x80001070"
  by (simp add: far_frag_def RELAX_MIPS16_MARK_EXTENDED_def RELAX_MIPS16_ENCODE_def)

lemma far_frag_simps [simp]: "f_address far_frag = 0x100" "f_fix far_frag = 0" "frag16_type far_frag = CHR ''p''"
  "frag16_size far_frag = 4" "RELAX_MIPS16_EXTENDED (f_subtype far_frag)"
  by (simp_all add: far_frag_def frag16_type_def frag16_size_def RELAX_MIPS16_ENCODE_def RELAX_MIPS16_TYPE_def
      RELAX_MIPS16_EXTENDED_def RELAX_MIPS16_MARK_EXTENDED_def char_of_def bit_0)

lemma far_frag_immed:
  "mips16_immed CHR ''p'' 596 False False True 0x1000 = Some ([], 0x100a, Some 0x120)"
  by (simp add: mips16_immed_def pcrel_only_p_shift immed_operand_def c_half_def does_not_fit_def tiny_range_def
      ext_range_def ext_bits_def Let_def)

lemma far_frag_converts:
  "md_convert_frag16 True 0x359 far_frag [0x10, 0, 0x65, 0]
    = Some ([], [0xf1, 0x20, 0x10, 0x0a], far_frag\<lparr>f_fix := 4\<rparr>)"
proof -
  have g: "get_16_at True 0 [0x10, 0, 0x65, 0] = Some 0x1000"
    by (simp add: get_16_at_def bfd_get_16_def bfd_getb16_def)
  have v: "pcrel_value (immed_operand 8 16 0 (op_sh F16_IMM8) False False True) far_frag 0x359 = 596"
    using far_frag_simps(5) by (simp add: pcrel_value_def frag16_base_def immed_operand_def)
  have s: "sint (596 :: ulong) = 596" by simp
  have p: "io_pcrel (immed_operand 8 16 0 (op_sh F16_IMM8) False False True)" by (simp add: immed_operand_def)
  have x: "RELAX_MIPS16_USER_EXT (f_subtype far_frag) = False" "RELAX_MIPS16_EXTENDED (f_subtype far_frag) = True"
      "RELAX_MIPS16_JAL_DSLOT (f_subtype far_frag) = False" "RELAX_MIPS16_DSLOT (f_subtype far_frag) = False"
    by (simp_all add: RELAX_MIPS16_USER_EXT_def RELAX_MIPS16_EXTENDED_def RELAX_MIPS16_JAL_DSLOT_def RELAX_MIPS16_DSLOT_def)
  show ?thesis
    unfolding md_convert_frag16_def Let_def far_frag_simps(3) pcrel_only_p_shift option.case x far_frag_simps(2) g
      p if_True v s not_True_eq_False bind.simps far_frag_immed prod.case
    by (simp add: p far_frag_immed store_number_def md_number_to_chars_def number_to_chars_bigendian_def be_chars_2 put_bytes_def)
qed

theorem branch16_target_reads_back_witness:
  "md_convert_frag16 True 0x359 far_frag [0x10, 0, 0x65, 0]
      = Some ([], [0xf1, 0x20, 0x10, 0x0a], far_frag\<lparr>f_fix := 4\<rparr>)
    \<and> imm16_target (\<lambda>a n. Inl 1) rigel_info ((imm16_default 8 F16_IMM8)\<lparr>im_signed := True, im_pcrel := True,
        im_branch := True, im_access := Cond_branch\<rparr>)
        (imm16_value CHR ''p'' ((imm16_default 8 F16_IMM8)\<lparr>im_signed := True, im_pcrel := True,
          im_branch := True, im_access := Cond_branch\<rparr>) 0x100a True 0x120) True 0x102 = 0x358"
proof -
  have l: "map_of imm16_letters CHR ''p'' = Some ((imm16_default 8 F16_IMM8)\<lparr>im_signed := True, im_pcrel := True,
      im_branch := True, im_access := Cond_branch\<rparr>)"
    by (simp add: imm16_letters_def)
  have g: "get_16_at True (f_fix far_frag) [0x10, 0, 0x65, 0] = Some 0x1000"
    by (simp add: get_16_at_def bfd_get_16_def bfd_getb16_def)
  have z: "op_get F16_IMM8 0x1000 = 0" by (simp add: op_get_def F16_IMM8_def)
  have f: "di_flavour (i_file rigel_info) \<noteq> bfd_target_unknown_flavour"
    by (simp add: rigel_info_def rigel_object_def)
  have r: "get_16_at True 0 [0xf1, 0x20, 0x10, 0x0a] = Some 0xf120"
      "get_16_at True (0 + 2) [0xf1, 0x20, 0x10, 0x0a] = Some 0x100a"
    by (simp_all add: get_16_at_def bfd_get_16_def bfd_getb16_def)
  have fx: "f_fix far_frag + frag16_size far_frag \<le> length [0x10, 0, 0x65, 0 :: byte]"
      "(f_address far_frag + word_of_nat (f_fix far_frag)) AND 1 = 0"
      "0x100 = f_address far_frag + word_of_nat (f_fix far_frag)" by simp_all
  show ?thesis
    using branch16_target_reads_back [OF far_frag_simps(3) fx(1,2) g z f l fx(3), of "0x359" "\<lambda>a n. Inl 1"]
      far_frag_converts far_frag_simps(5) r by simp
qed

end
