(* ===== verification/Rigel_Limits.thy ===== *)
theory Rigel_Limits
  imports Gas_Hazards Gas_Relax Opcode_Check
begin

text \<open>
  Where code that the assembler inherits from MIPS meets the Rigel table: the analysis of the registers that an
  instruction reads rests on flags, and for most Rigel instructions the flags name the wrong field. The analysis is
  not consulted when no instruction asks for a nop (\<open>Gas_Hazards\<close>), as in all Rigel code.
\<close>

section \<open>The registers an instruction reads\<close>

text \<open>The entries whose second operand is the register \<open>t\<close> before an immediate or a displacement of 16 bits.\<close>

definition reads_t :: "mips_opcode \<Rightarrow> bool" where
  "reads_t mo \<longleftrightarrow> op_args mo = ''d,t,i'' \<or> op_args mo = ''d,t,j'' \<or> op_args mo = ''d,t,p''"

definition t_flags :: "mips_opcode \<Rightarrow> bool" where
  "t_flags mo \<longleftrightarrow> (reads_t mo \<longrightarrow> op_pinfo mo = RD_s OR WR_d) \<and> (op_args mo = ''d,t,5'' \<longrightarrow> op_pinfo mo = RD_t OR WR_d)"

lemma t_flags_opcode:
  "t_flags (opcode nm ar mt mk pi pi2 me) \<longleftrightarrow> (ar = ''d,t,i'' \<or> ar = ''d,t,j'' \<or> ar = ''d,t,p'' \<longrightarrow> pi = RD_s OR WR_d)
     \<and> (ar = ''d,t,5'' \<longrightarrow> pi = RD_t OR WR_d)"
  by (simp add: t_flags_def reads_t_def)

lemma rigel_t_flags_all: "list_all t_flags mips_builtin_opcodes"
  unfolding mips_builtin_opcodes_def list.pred_inject t_flags_opcode by simp

lemma rs_of_filled:
  "EXTRACT_OPERAND F_RS (fill_operands ip [F_RD, F_RT, f] [d, t, v])
     = EXTRACT_OPERAND F_RS (fill_operands ip [F_RD, F_RT, f] [d, t', v])"
proof (rule bit_word_eqI)
  fix n
  have m: "bit (0x1f :: ulong) k \<Longrightarrow> k < 5" for k
    using bit_mask_iff [of 5 k, where ?'a = ulong] by (simp add: mask_eq_exp_minus_1)
  show "bit (EXTRACT_OPERAND F_RS (fill_operands ip [F_RD, F_RT, f] [d, t, v])) n
      = bit (EXTRACT_OPERAND F_RS (fill_operands ip [F_RD, F_RT, f] [d, t', v])) n"
    using m [of n] by (auto simp: EXTRACT_OPERAND_def INSERT_OPERAND_def fill_operands_def bit_EXTRACT_BITS
        bit_INSERT_BITS F_RS_def F_RT_def)
qed

lemma insn_mo_filled [simp]: "insn_mo (fill_operands ip fs vs) = insn_mo ip"
  unfolding fill_operands_def by (induction fs vs arbitrary: ip rule: list_induct2') (simp_all add: INSERT_OPERAND_def)

lemma shift_source:
  assumes "mo \<in> set mips_builtin_opcodes" and "op_args mo = ''d,t,5''" and "o_mips16 opts = 0"
    and "args_fields (op_args mo) = Some fs" and "r \<noteq> 0"
  shows "insn_uses_reg opts (fill_operands (create_insn opts mo) fs [d, t, v]) r MIPS_GR_REG = Some (r = t AND 0x1f)"
proof -
  have fs: "fs = [F_RD, F_RT, F_IMM5]" using assms(4) unfolding assms(2) by (simp only: rigel_args_fields option.inject)
  let ?ip = "fill_operands (create_insn opts mo) fs [d, t, v]"
  have "map (\<lambda>f. op_get f (encode_insn opts mo [d, t, v])) fs = map2 (\<lambda>f v. v AND op_mask f) fs [d, t, v]"
    by (rule encode_reads [OF rigel_well_formed [OF assms(1)] assms(4)]) (simp add: fs)
  moreover have "insn_opcode ?ip = encode_insn opts mo [d, t, v]" using assms(4) by (simp add: encode_insn_def)
  ultimately have "EXTRACT_OPERAND F_RT ?ip = t AND 0x1f"
    by (simp add: EXTRACT_OPERAND_def EXTRACT_BITS_def op_get_def fs F_RT_def)
  moreover have "op_pinfo mo = RD_t OR WR_d" using assms(1,2) rigel_t_flags_all by (simp add: list_all_iff t_flags_def)
  moreover have "insn_mo ?ip = mo" by (simp add: create_insn_def)
  ultimately show ?thesis
    using assms(3,5) by (auto simp: insn_uses_reg_def Let_def flag_def RD_t_def WR_d_def INSN_READ_GPR_S_def
        INSN_READ_GPR_T_def INSN_WRITE_GPR_D_def)
qed

lemma wide_source:
  assumes "mo \<in> set mips_builtin_opcodes" and "reads_t mo" and "o_mips16 opts = 0"
    and "args_fields (op_args mo) = Some fs"
  shows "insn_uses_reg opts (fill_operands (create_insn opts mo) fs [d, t, v]) r MIPS_GR_REG
    = insn_uses_reg opts (fill_operands (create_insn opts mo) fs [d, t', v]) r MIPS_GR_REG"
proof -
  have "\<exists>f. fs = [F_RD, F_RT, f]"
    using assms(4) assms(2) [unfolded reads_t_def]
    by (elim disjE) (simp_all only: rigel_args_fields option.inject, blast+)
  then obtain f where f: "fs = [F_RD, F_RT, f]" by blast
  have "t_flags mo" using assms(1) rigel_t_flags_all by (simp add: list_all_iff)
  then have "\<not> flag (op_pinfo mo) INSN_READ_GPR_T"
    using assms(2) by (simp add: t_flags_def flag_def RD_s_def WR_d_def INSN_READ_GPR_S_def
        INSN_READ_GPR_T_def INSN_WRITE_GPR_D_def)
  moreover have "insn_mo (create_insn opts mo) = mo" by (simp add: create_insn_def)
  ultimately show ?thesis
    using assms(3) unfolding f by (simp add: insn_uses_reg_def Let_def rs_of_filled [of _ f d t v t'])
qed

section \<open>Properties\<close>

text \<open>C40: the analysis of register use sees the second register of a Rigel instruction only when a shift amount
  follows it. For every entry whose operands are two registers and an immediate or displacement of 16 bits (letters
  \<open>i\<close>, \<open>j\<close> and \<open>p\<close>), the answer to whether the assembled instruction reads a register is the same whatever register is
  given as its source: the entry is flagged as reading the field of \<open>s\<close>, which in these instructions lies inside the
  immediate. For every entry with a shift amount instead (letter \<open>5\<close>), the registers other than zero that it is
  said to read are exactly its source.\<close>

theorem source_register_unseen:
  assumes "mo \<in> set mips_builtin_opcodes" and "o_mips16 opts = 0" and "args_fields (op_args mo) = Some fs"
  shows "(op_args mo \<in> {''d,t,i'', ''d,t,j'', ''d,t,p''} \<longrightarrow>
      insn_uses_reg opts (fill_operands (create_insn opts mo) fs [d, t, v]) r MIPS_GR_REG
      = insn_uses_reg opts (fill_operands (create_insn opts mo) fs [d, t', v]) r MIPS_GR_REG)
    \<and> (op_args mo = ''d,t,5'' \<and> r \<noteq> 0 \<longrightarrow>
      insn_uses_reg opts (fill_operands (create_insn opts mo) fs [d, t, v]) r MIPS_GR_REG = Some (r = t AND 0x1f))"
  using wide_source [OF assms(1) _ assms(2,3)] shift_source [OF assms(1) _ assms(2,3)] by (simp add: reads_t_def)

theorem source_register_unseen_witness:
  "insn_uses_reg (initial_mips_opts\<lparr>o_mips16 := 0\<rparr>) (fill_operands
      (create_insn (initial_mips_opts\<lparr>o_mips16 := 0\<rparr>) (mips_builtin_opcodes ! 4)) [F_RD, F_RT, F_DELTA] [1, 2, 3]) 2 MIPS_GR_REG
    = insn_uses_reg (initial_mips_opts\<lparr>o_mips16 := 0\<rparr>) (fill_operands
      (create_insn (initial_mips_opts\<lparr>o_mips16 := 0\<rparr>) (mips_builtin_opcodes ! 4)) [F_RD, F_RT, F_DELTA] [1, 5, 3]) 2 MIPS_GR_REG"
proof -
  have a: "op_args (mips_builtin_opcodes ! 4) = ''d,t,j''" unfolding rigel_entry_addi by simp
  then have f: "args_fields (op_args (mips_builtin_opcodes ! 4)) = Some [F_RD, F_RT, F_DELTA]"
    by (simp only: rigel_args_fields)
  show ?thesis
    using source_register_unseen [OF rigel_nth_mem _ f, of "initial_mips_opts\<lparr>o_mips16 := 0\<rparr>" 1 2 3 2 5] a by simp
qed

end
