(* ===== verification/Gas_Regs.thy ===== *)
theory Gas_Regs
  imports Gas_Insn Gas_Hash
begin

text \<open>
  The register names of the assembler (\<open>gas/config/tc-mips.c\<close>): the tables, their insertion into the symbol
  table by \<open>md_begin\<close>, and \<open>reg_lookup\<close>, which recognises a register at the start of an operand. The symbol
  table (\<open>gas/symbols.c\<close>) is a client of the hash table: one table for the local symbols, one for the others.

  A search only reorders a chain, so the model keeps the table it searched; \<open>gas_hash.find_many\<close> says that
  this makes no difference to later searches.
\<close>

section \<open>Names\<close>

text \<open>The bits of \<open>lex_type\<close> (\<open>gas/read.c\<close>) as the port configures them: a dollar sign may begin a name.\<close>

definition is_name_beginner :: "char \<Rightarrow> bool" where
  "is_name_beginner c \<longleftrightarrow>
     (let n = char_code c in c \<in> {CHR ''$'', CHR ''.'', CHR ''_''} \<or> 65 \<le> n \<and> n \<le> 90 \<or> 97 \<le> n \<and> n \<le> 122
        \<or> 128 \<le> n)"

definition is_part_of_name :: "char \<Rightarrow> bool" where
  "is_part_of_name c \<longleftrightarrow> is_name_beginner c \<or> isdigit c"

section \<open>The tables\<close>

type_synonym regname = "cstring \<times> uint"

definition RTYPE_NUM :: uint where [rigel_const]: "RTYPE_NUM = 0x00100"
definition RTYPE_FPU :: uint where [rigel_const]: "RTYPE_FPU = 0x00200"
definition RTYPE_FCC :: uint where [rigel_const]: "RTYPE_FCC = 0x00400"
definition RTYPE_VEC :: uint where [rigel_const]: "RTYPE_VEC = 0x00800"
definition RTYPE_GP :: uint where [rigel_const]: "RTYPE_GP = 0x01000"
definition RTYPE_CP0 :: uint where [rigel_const]: "RTYPE_CP0 = 0x02000"
definition RTYPE_PC :: uint where [rigel_const]: "RTYPE_PC = 0x04000"
definition RTYPE_ACC :: uint where [rigel_const]: "RTYPE_ACC = 0x08000"
definition RTYPE_CCC :: uint where [rigel_const]: "RTYPE_CCC = 0x10000"
definition RNUM_MASK :: uint where [rigel_const]: "RNUM_MASK = 0x000ff"
definition RWARN :: uint where [rigel_const]: "RWARN = 0x80000"

definition registers_of :: "uint \<Rightarrow> (cstring \<times> uint) list \<Rightarrow> regname list" where [rigel_tab]:
  "registers_of rtype names = map (\<lambda>(name, n). (name, rtype OR n)) names"

definition generic_register_numbers :: "regname list" where [rigel_tab]:
  "generic_register_numbers = registers_of RTYPE_NUM [
    (''$0'', 0), (''$1'', 1), (''$2'', 2), (''$3'', 3), (''$4'', 4), (''$5'', 5), (''$6'', 6),
    (''$7'', 7), (''$8'', 8), (''$9'', 9), (''$10'', 10), (''$11'', 11), (''$12'', 12),
    (''$13'', 13), (''$14'', 14), (''$15'', 15), (''$16'', 16), (''$17'', 17), (''$18'', 18),
    (''$19'', 19), (''$20'', 20), (''$21'', 21), (''$22'', 22), (''$23'', 23), (''$24'', 24),
    (''$25'', 25), (''$26'', 26), (''$27'', 27), (''$28'', 28), (''$29'', 29), (''$30'', 30),
    (''$31'', 31), (''$32'', 32), (''$33'', 33), (''$34'', 34), (''$35'', 35), (''$36'', 36),
    (''$37'', 37), (''$38'', 38), (''$39'', 39), (''$40'', 40), (''$41'', 41), (''$42'', 42),
    (''$43'', 43), (''$44'', 44), (''$45'', 45), (''$46'', 46), (''$47'', 47), (''$48'', 48),
    (''$49'', 49), (''$50'', 50), (''$51'', 51), (''$52'', 52), (''$53'', 53), (''$54'', 54),
    (''$55'', 55), (''$56'', 56), (''$57'', 57), (''$58'', 58), (''$59'', 59), (''$60'', 60),
    (''$61'', 61), (''$62'', 62), (''$63'', 63)]"

definition fpu_register_names :: "regname list" where [rigel_tab]:
  "fpu_register_names = registers_of RTYPE_FPU [
    (''$f0'', 0), (''$f1'', 1), (''$f2'', 2), (''$f3'', 3), (''$f4'', 4), (''$f5'', 5),
    (''$f6'', 6), (''$f7'', 7), (''$f8'', 8), (''$f9'', 9), (''$f10'', 10), (''$f11'', 11),
    (''$f12'', 12), (''$f13'', 13), (''$f14'', 14), (''$f15'', 15), (''$f16'', 16), (''$f17'', 17),
    (''$f18'', 18), (''$f19'', 19), (''$f20'', 20), (''$f21'', 21), (''$f22'', 22), (''$f23'', 23),
    (''$f24'', 24), (''$f25'', 25), (''$f26'', 26), (''$f27'', 27), (''$f28'', 28), (''$f29'', 29),
    (''$f30'', 30), (''$f31'', 31)]"

definition fpu_condition_code_names :: "regname list" where [rigel_tab]:
  "fpu_condition_code_names = registers_of RTYPE_FCC [
    (''$fcc0'', 0), (''$fcc1'', 1), (''$fcc2'', 2), (''$fcc3'', 3), (''$fcc4'', 4), (''$fcc5'', 5),
    (''$fcc6'', 6), (''$fcc7'', 7)]"

definition coproc_condition_code_names :: "regname list" where [rigel_tab]:
  "coproc_condition_code_names = registers_of (RTYPE_FCC OR RTYPE_CCC) [
    (''$cc0'', 0), (''$cc1'', 1), (''$cc2'', 2), (''$cc3'', 3), (''$cc4'', 4), (''$cc5'', 5),
    (''$cc6'', 6), (''$cc7'', 7)]"

definition n32n64_symbolic_register_names :: "regname list" where [rigel_tab]:
  "n32n64_symbolic_register_names = registers_of RTYPE_GP [
    (''$a4'', 8), (''$a5'', 9), (''$a6'', 10), (''$a7'', 11), (''$ta0'', 8), (''$ta1'', 9),
    (''$ta2'', 10), (''$ta3'', 11), (''$t0'', 12), (''$t1'', 13), (''$t2'', 14), (''$t3'', 15)]"

definition o32_symbolic_register_names :: "regname list" where [rigel_tab]:
  "o32_symbolic_register_names = registers_of RTYPE_GP [
    (''$t0'', 8), (''$t1'', 9), (''$t2'', 10), (''$t3'', 11), (''$t4'', 12), (''$t5'', 13),
    (''$t6'', 14), (''$t7'', 15), (''$ta0'', 12), (''$ta1'', 13), (''$ta2'', 14), (''$ta3'', 15)]"

definition symbolic_register_names :: "regname list" where [rigel_tab]:
  "symbolic_register_names = registers_of RTYPE_GP [
    (''$zero'', 0), (''$at'', 1), (''$AT'', 1), (''$v0'', 2), (''$v1'', 3), (''$a0'', 4),
    (''$a1'', 5), (''$a2'', 6), (''$a3'', 7), (''$s0'', 16), (''$s1'', 17), (''$s2'', 18),
    (''$s3'', 19), (''$s4'', 20), (''$s5'', 21), (''$s6'', 22), (''$s7'', 23), (''$t8'', 24),
    (''$t9'', 25), (''$k0'', 26), (''$kt0'', 26), (''$k1'', 27), (''$kt1'', 27), (''$gp'', 28),
    (''$sp'', 29), (''$s8'', 30), (''$fp'', 30), (''$ra'', 31)]"

definition mips16_special_register_names :: "regname list" where [rigel_tab]:
  "mips16_special_register_names = registers_of RTYPE_PC [
    (''$pc'', 0)]"

definition mdmx_vector_register_names :: "regname list" where [rigel_tab]:
  "mdmx_vector_register_names = registers_of RTYPE_VEC [
    (''$v2'', 2), (''$v3'', 3), (''$v4'', 4), (''$v5'', 5), (''$v6'', 6), (''$v7'', 7),
    (''$v8'', 8), (''$v9'', 9), (''$v10'', 10), (''$v11'', 11), (''$v12'', 12), (''$v13'', 13),
    (''$v14'', 14), (''$v15'', 15), (''$v16'', 16), (''$v17'', 17), (''$v18'', 18), (''$v19'', 19),
    (''$v20'', 20), (''$v21'', 21), (''$v22'', 22), (''$v23'', 23), (''$v24'', 24), (''$v25'', 25),
    (''$v26'', 26), (''$v27'', 27), (''$v28'', 28), (''$v29'', 29), (''$v30'', 30), (''$v31'', 31)]"

definition mips_dsp_accumulator_names :: "regname list" where [rigel_tab]:
  "mips_dsp_accumulator_names = registers_of RTYPE_ACC [
    (''$ac0'', 0), (''$ac1'', 1), (''$ac2'', 2), (''$ac3'', 3)]"

definition reg_names :: "regname list" where
  "reg_names = generic_register_numbers @ fpu_register_names @ fpu_condition_code_names
     @ coproc_condition_code_names @ symbolic_register_names @ mips16_special_register_names
     @ mdmx_vector_register_names @ mips_dsp_accumulator_names"

definition reg_names_o32 :: "regname list" where
  "reg_names_o32 = o32_symbolic_register_names"

definition reg_names_n32n64 :: "regname list" where
  "reg_names_n32n64 = n32n64_symbolic_register_names"

section \<open>The symbol table\<close>

datatype symbol_segment = Reg_section | Segment nat

record symbol =
  s_segment :: symbol_segment
  s_value :: uint

record symbol_tables =
  local_hash :: "symbol hash_control"
  sy_hash :: "symbol hash_control"

definition symbol_table_insert :: "bool \<Rightarrow> cstring \<Rightarrow> symbol \<Rightarrow> symbol_tables \<Rightarrow> symbol_tables" where
  "symbol_table_insert is_local name sy t =
     (if is_local then t\<lparr>local_hash := hash_jam (local_hash t) name sy\<rparr>
      else t\<lparr>sy_hash := hash_jam (sy_hash t) name sy\<rparr>)"

definition symbol_find :: "symbol_tables \<Rightarrow> cstring \<Rightarrow> symbol option" where
  "symbol_find t name = (case fst (hash_find (local_hash t) name) of
     Some locsym \<Rightarrow> Some locsym | None \<Rightarrow> fst (hash_find (sy_hash t) name))"

text \<open>\<open>hash_jam\<close> never returns an error, so \<open>as_fatal\<close> is not reached.\<close>

text \<open>The loops of \<open>md_begin\<close>: \<open>symbol_new\<close> makes symbols that are not local.\<close>

definition insert_registers :: "regname list \<Rightarrow> symbol_tables \<Rightarrow> symbol_tables" where
  "insert_registers names t =
     fold (\<lambda>(name, num). symbol_table_insert False name \<lparr>s_segment = Reg_section, s_value = num\<rparr>) names t"

definition begin_registers :: "mips_abi_level \<Rightarrow> symbol_tables \<Rightarrow> symbol_tables" where
  "begin_registers abi t =
     insert_registers (if HAVE_NEWABI abi then reg_names_n32n64 else reg_names_o32)
       (insert_registers reg_names t)"

section \<open>Recognising a register\<close>

definition name_end :: "cstring \<Rightarrow> cstring \<times> cstring" where
  "name_end s = (case s of
     [] \<Rightarrow> ([], [])
   | c # cs \<Rightarrow>
       if is_name_beginner c then (c # takeWhile is_part_of_name cs, dropWhile is_part_of_name cs)
       else (takeWhile is_part_of_name s, dropWhile is_part_of_name s))"

text \<open>The tables of symbols and, if there are any, of the registers defined by \<open>itbl\<close> entries.\<close>

record reg_env =
  e_symbols :: symbol_tables
  e_itbl :: "(cstring \<Rightarrow> uint option) option"

definition reg_of_symbol :: "uint \<Rightarrow> uint \<Rightarrow> uint option" where
  "reg_of_symbol types r =
     (if r AND types \<noteq> 0 then Some (r AND RNUM_MASK)
      else if types AND RTYPE_VEC \<noteq> 0 \<and> r AND NOT 1 = RTYPE_GP OR 2 then Some ((r AND RNUM_MASK) - 2)
      else None)"

definition itbl_register :: "(cstring \<Rightarrow> uint option) option \<Rightarrow> uint \<Rightarrow> cstring \<Rightarrow> uint option" where
  "itbl_register itbl types name = (case itbl of
     None \<Rightarrow> None
   | Some get_reg_val \<Rightarrow>
       if types AND RTYPE_GP = 0 then None
       else map_option (\<lambda>r. r AND RNUM_MASK)
         (get_reg_val (if name \<noteq> [] \<and> hd name = CHR ''$'' then tl name else name)))"

text \<open>The register, the rest of the operand, and whether the name is complained about.\<close>

definition reg_lookup :: "reg_env \<Rightarrow> cstring \<Rightarrow> uint \<Rightarrow> uint option \<times> cstring \<times> bool" where
  "reg_lookup env s types =
     (let (name, e) = name_end s;
          reg = (case symbol_find (e_symbols env) name of
              Some sy \<Rightarrow>
                if s_segment sy = Reg_section then reg_of_symbol types (s_value sy)
                else itbl_register (e_itbl env) types name
            | None \<Rightarrow> itbl_register (e_itbl env) types name)
      in (case reg of
            Some r \<Rightarrow> (Some r, e, False)
          | None \<Rightarrow> (None, s, types AND RWARN \<noteq> 0)))"

section \<open>What the tables of symbols stand for\<close>

definition tables_ok :: "symbol_tables \<Rightarrow> bool" where
  "tables_ok t \<longleftrightarrow> hash_inv (local_hash t) \<and> hash_inv (sy_hash t)"

definition symbol_map :: "symbol_tables \<Rightarrow> cstring \<rightharpoonup> symbol" where
  "symbol_map t = hash_map (sy_hash t) ++ hash_map (local_hash t)"

lemma symbol_find_map: "tables_ok t \<Longrightarrow> symbol_find t name = symbol_map t name"
  by (auto simp: symbol_find_def symbol_map_def tables_ok_def gas_hash.find_value map_add_def split: option.split)

lemma symbol_table_insert_ok:
  assumes "tables_ok t"
  shows "tables_ok (symbol_table_insert is_local name sy t)"
    "symbol_map (symbol_table_insert is_local name sy t) =
       (if is_local then hash_map (sy_hash t) ++ (hash_map (local_hash t))(name \<mapsto> sy)
        else (hash_map (sy_hash t))(name \<mapsto> sy) ++ hash_map (local_hash t))"
  using assms hash_jam_ok [of "sy_hash t" name sy] hash_jam_ok [of "local_hash t" name sy]
  by (simp_all add: tables_ok_def symbol_table_insert_def symbol_map_def)

definition register_symbol :: "uint \<Rightarrow> symbol" where
  "register_symbol num = \<lparr>s_segment = Reg_section, s_value = num\<rparr>"

definition register_names :: "mips_abi_level \<Rightarrow> regname list" where
  "register_names abi = reg_names @ (if HAVE_NEWABI abi then reg_names_n32n64 else reg_names_o32)"

lemma insert_registers_ok:
  "tables_ok t \<Longrightarrow> tables_ok (insert_registers names t)
     \<and> local_hash (insert_registers names t) = local_hash t
     \<and> hash_map (sy_hash (insert_registers names t)) = hash_map (sy_hash t) ++ map_of (rev (map (\<lambda>(n, v). (n, register_symbol v)) names))"
proof (induction names arbitrary: t)
  case (Cons a names)
  obtain name v where a: "a = (name, v)" by fastforce
  let ?t = "symbol_table_insert False name (register_symbol v) t"
  have i: "insert_registers (a # names) t = insert_registers names ?t"
    by (simp add: a insert_registers_def register_symbol_def)
  have "tables_ok ?t" "local_hash ?t = local_hash t" "hash_map (sy_hash ?t) = (hash_map (sy_hash t))(name \<mapsto> register_symbol v)"
    using symbol_table_insert_ok(1) [OF Cons.prems] Cons.prems
    by (simp_all add: symbol_table_insert_def tables_ok_def hash_jam_ok)
  then show ?case unfolding i using Cons.IH [of ?t] a by (auto simp: fun_eq_iff map_add_def split: option.split)
qed (simp add: insert_registers_def)

lemma begin_registers_ok:
  assumes "tables_ok t"
  shows "tables_ok (begin_registers abi t)"
    "symbol_map (begin_registers abi t) = hash_map (sy_hash t)
       ++ map_of (rev (map (\<lambda>(n, v). (n, register_symbol v)) (register_names abi))) ++ hash_map (local_hash t)"
  using insert_registers_ok [OF assms, of reg_names]
    insert_registers_ok [of "insert_registers reg_names t" "if HAVE_NEWABI abi then reg_names_n32n64 else reg_names_o32"]
  by (simp_all add: begin_registers_def symbol_map_def register_names_def map_add_assoc)


section \<open>Names that are numbers\<close>

text \<open>The name that \<open>reg_lookup\<close> reads is the longest.\<close>

lemma name_end_append:
  assumes "name \<noteq> []" and "is_name_beginner (hd name)" and "list_all is_part_of_name (tl name)"
    and "rest = [] \<or> \<not> is_part_of_name (hd rest)"
  shows "name_end (name @ rest) = (name, rest)"
proof -
  obtain c cs where n: "name = c # cs" using assms(1) by (cases name) auto
  have "takeWhile is_part_of_name (cs @ rest) = cs" "dropWhile is_part_of_name (cs @ rest) = rest"
    using assms(3,4) by (cases rest; simp add: n list_all_iff takeWhile_append dropWhile_append)+
  then show ?thesis using assms(2) by (simp add: n name_end_def)
qed

definition second_digit :: "cstring \<Rightarrow> bool" where
  "second_digit name \<longleftrightarrow> 2 \<le> length name \<and> isdigit (name ! 1)"

definition dollar :: "nat \<Rightarrow> cstring" where
  "dollar n = CHR ''$'' # fmt_u n"

lemma generic_names: "map fst generic_register_numbers = map dollar [0..<64]"
  by code_simp

lemma generic_values: "map snd generic_register_numbers = map (\<lambda>n. RTYPE_NUM OR word_of_nat n) [0..<64]"
  by code_simp

definition named_r :: "cstring \<Rightarrow> bool" where
  "named_r name \<longleftrightarrow> 3 \<le> length name \<and> name ! 1 = CHR ''r'' \<and> isdigit (name ! 2)"

definition named_registers :: "mips_abi_level \<Rightarrow> regname list" where
  "named_registers abi = fpu_register_names @ fpu_condition_code_names @ coproc_condition_code_names
     @ symbolic_register_names @ mips16_special_register_names @ mdmx_vector_register_names
     @ mips_dsp_accumulator_names @ (if HAVE_NEWABI abi then reg_names_n32n64 else reg_names_o32)"

lemma register_names_split: "register_names abi = generic_register_numbers @ named_registers abi"
  by (simp add: register_names_def reg_names_def named_registers_def)

definition not_number :: "regname \<Rightarrow> bool" where
  "not_number r \<longleftrightarrow> \<not> second_digit (fst r) \<and> \<not> named_r (fst r)"

lemma other_names:
  "list_all not_number fpu_register_names" "list_all not_number fpu_condition_code_names"
  "list_all not_number coproc_condition_code_names" "list_all not_number symbolic_register_names"
  "list_all not_number mips16_special_register_names" "list_all not_number mdmx_vector_register_names"
  "list_all not_number mips_dsp_accumulator_names" "list_all not_number reg_names_o32"
  "list_all not_number reg_names_n32n64"
  by code_simp+

lemma named_not_number: "list_all not_number (named_registers abi)"
  by (simp add: named_registers_def other_names)

lemma generic_not_r: "list_all (\<lambda>r. \<not> named_r (fst r)) generic_register_numbers"
  by code_simp

definition register_map :: "mips_abi_level \<Rightarrow> cstring \<rightharpoonup> symbol" where
  "register_map abi = map_of (rev (map (\<lambda>(n, v). (n, register_symbol v)) (register_names abi)))"

lemma dollar_inject: "dollar m = dollar n \<longleftrightarrow> m = n"
  by (simp add: dollar_def fmt_u_def show_base_inject)

lemma generic_registers: "generic_register_numbers = map (\<lambda>n. (dollar n, RTYPE_NUM OR word_of_nat n)) [0..<64]"
  by code_simp

lemma map_of_named_None:
  assumes "second_digit name \<or> named_r name"
  shows "map_of (rev (map (\<lambda>(n, v). (n, register_symbol v)) (named_registers abi))) name = None"
proof -
  have "name \<notin> fst ` set (named_registers abi)"
    using assms named_not_number [of abi] by (auto simp: list_all_iff not_number_def)
  then show ?thesis by (force simp: map_of_eq_None_iff)
qed

lemma register_map_generic:
  assumes "second_digit name \<or> named_r name"
  shows "register_map abi name = map_of (rev (map (\<lambda>(n, v). (n, register_symbol v)) generic_register_numbers)) name"
  using map_of_named_None [OF assms, of abi]
  by (simp add: register_map_def register_names_split map_of_append map_add_def)

lemma second_digit_dollar: "n < 64 \<Longrightarrow> second_digit (dollar n)"
proof -
  have "list_all (\<lambda>n. second_digit (dollar n)) [0..<64]" by code_simp
  then show "n < 64 \<Longrightarrow> second_digit (dollar n)" by (simp add: list_all_iff)
qed

lemma register_map_dollar:
  assumes "n < 64"
  shows "register_map abi (dollar n) = Some (register_symbol (RTYPE_NUM OR word_of_nat n))"
proof -
  let ?g = "map (\<lambda>n. (dollar n, register_symbol (RTYPE_NUM OR word_of_nat n))) [0..<64]"
  have g: "map (\<lambda>(n, v). (n, register_symbol v)) generic_register_numbers = ?g"
    by (simp add: generic_registers)
  have "distinct (map fst (rev ?g))"
    by (simp add: rev_map [symmetric] distinct_map inj_on_def dollar_inject o_def)
  then have "map_of (rev ?g) (dollar n) = Some (register_symbol (RTYPE_NUM OR word_of_nat n))"
    using assms by (intro map_of_is_SomeI) auto
  then show ?thesis
    using register_map_generic [of "dollar n" abi] second_digit_dollar [OF assms] unfolding g by simp
qed

lemma register_map_r:
  assumes "named_r name"
  shows "register_map abi name = None"
proof -
  have "name \<notin> fst ` set generic_register_numbers" using assms generic_not_r by (auto simp: list_all_iff)
  then show ?thesis using register_map_generic [of name abi] assms by (force simp: map_of_eq_None_iff)
qed

section \<open>Registers are known\<close>

text \<open>What \<open>md_begin\<close> establishes and the definition of labels keeps: the registers are found, and no other
  symbol is one.\<close>

definition registers_known :: "mips_abi_level \<Rightarrow> reg_env \<Rightarrow> bool" where
  "registers_known abi env \<longleftrightarrow> e_itbl env = None \<and> tables_ok (e_symbols env)
     \<and> (\<forall>name. case register_map abi name of
          Some sy \<Rightarrow> symbol_map (e_symbols env) name = Some sy
        | None \<Rightarrow> (\<forall>sy. symbol_map (e_symbols env) name = Some sy \<longrightarrow> s_segment sy \<noteq> Reg_section))"

definition empty_tables :: "nat \<Rightarrow> symbol_tables" where
  "empty_tables sz = \<lparr>local_hash = hash_new sz, sy_hash = hash_new sz\<rparr>"

lemma begin_registers_known:
  "registers_known abi \<lparr>e_symbols = begin_registers abi (empty_tables sz), e_itbl = None\<rparr>"
  "tables_ok (begin_registers abi (empty_tables sz))"
proof -
  have e: "tables_ok (empty_tables sz)" "hash_map (sy_hash (empty_tables sz)) = Map.empty"
      "hash_map (local_hash (empty_tables sz)) = Map.empty"
    by (simp_all add: tables_ok_def empty_tables_def hash_new_ok)
  show "tables_ok (begin_registers abi (empty_tables sz))" by (rule begin_registers_ok(1) [OF e(1)])
  moreover have "symbol_map (begin_registers abi (empty_tables sz)) = register_map abi"
    using begin_registers_ok(2) [OF e(1), of abi] e(2,3) by (simp add: register_map_def)
  ultimately show "registers_known abi \<lparr>e_symbols = begin_registers abi (empty_tables sz), e_itbl = None\<rparr>"
    by (simp add: registers_known_def split: option.split)
qed

lemma insert_label_known:
  assumes "registers_known abi env" and "register_map abi name = None" and "s_segment sy \<noteq> Reg_section"
  shows "registers_known abi (env\<lparr>e_symbols := symbol_table_insert is_local name sy (e_symbols env)\<rparr>)"
proof -
  let ?t = "e_symbols env"
  have t: "tables_ok ?t" using assms(1) by (simp add: registers_known_def)
  have "symbol_map (symbol_table_insert is_local name sy ?t) k =
      (if k = name \<and> (is_local \<or> hash_map (local_hash ?t) name = None) then Some sy else symbol_map ?t k)" for k
    unfolding symbol_table_insert_ok(2) [OF t] by (auto simp: symbol_map_def map_add_def split: option.split if_splits)
  note m = this
  have "case register_map abi k of Some s \<Rightarrow> symbol_map (symbol_table_insert is_local name sy ?t) k = Some s
      | None \<Rightarrow> (\<forall>s. symbol_map (symbol_table_insert is_local name sy ?t) k = Some s \<longrightarrow> s_segment s \<noteq> Reg_section)" for k
    using assms(1) [unfolded registers_known_def, THEN conjunct2, THEN conjunct2, rule_format, of k] assms(2,3)
    by (cases "register_map abi k") (auto simp: m)
  note k = this
  have e: "e_symbols (env\<lparr>e_symbols := symbol_table_insert is_local name sy ?t\<rparr>) = symbol_table_insert is_local name sy ?t"
      "e_itbl (env\<lparr>e_symbols := symbol_table_insert is_local name sy ?t\<rparr>) = None"
    using assms(1) by (simp_all add: registers_known_def)
  show ?thesis
    unfolding registers_known_def e using symbol_table_insert_ok(1) [OF t] k by (intro conjI allI refl)
qed

text \<open>A name is what the scanner of names stops behind.\<close>

definition reg_token :: "cstring \<Rightarrow> bool" where
  "reg_token name \<longleftrightarrow> name \<noteq> [] \<and> is_name_beginner (hd name) \<and> list_all is_part_of_name (tl name)"

definition name_stops :: "cstring \<Rightarrow> bool" where
  "name_stops rest \<longleftrightarrow> rest = [] \<or> \<not> is_part_of_name (hd rest)"

lemma reg_lookup_name:
  assumes "registers_known abi env" and "reg_token name" and "name_stops rest"
  shows "reg_lookup env (name @ rest) types =
    (case Option.bind (register_map abi name) (\<lambda>sy. reg_of_symbol types (s_value sy)) of
       Some r \<Rightarrow> (Some r, rest, False) | None \<Rightarrow> (None, name @ rest, types AND RWARN \<noteq> 0))"
proof -
  have n: "name_end (name @ rest) = (name, rest)"
    using assms(2,3) by (intro name_end_append) (simp_all add: reg_token_def name_stops_def)
  have t: "tables_ok (e_symbols env)" "e_itbl env = None" using assms(1) by (simp_all add: registers_known_def)
  have r: "s_segment sy = Reg_section" if "register_map abi name = Some sy" for sy
    using that by (auto simp: register_map_def register_symbol_def dest!: map_of_SomeD)
  show ?thesis
  proof (cases "register_map abi name")
    case None
    then show ?thesis
      using assms(1) n t by (auto simp: reg_lookup_def symbol_find_map itbl_register_def registers_known_def
          split: option.splits dest!: spec [of _ name])
  next
    case (Some sy)
    then have "symbol_map (e_symbols env) name = Some sy"
      using assms(1) by (auto simp: registers_known_def dest!: spec [of _ name])
    then show ?thesis using Some r n t by (simp add: reg_lookup_def symbol_find_map split: option.split)
  qed
qed

lemma reg_token_dollar: "n < 64 \<Longrightarrow> reg_token (dollar n)"
proof -
  have "list_all (\<lambda>n. reg_token (dollar n)) [0..<64]" by code_simp
  then show "n < 64 \<Longrightarrow> reg_token (dollar n)" by (simp add: list_all_iff)
qed

abbreviation gpr_types :: uint where "gpr_types \<equiv> RTYPE_NUM OR RTYPE_GP"

lemma reg_of_number: "n < 64 \<Longrightarrow> reg_of_symbol gpr_types (RTYPE_NUM OR word_of_nat n) = Some (word_of_nat n)"
proof -
  have "list_all (\<lambda>n. reg_of_symbol gpr_types (RTYPE_NUM OR word_of_nat n) = Some (word_of_nat n)) [0..<64]"
    by code_simp
  then show "n < 64 \<Longrightarrow> reg_of_symbol gpr_types (RTYPE_NUM OR word_of_nat n) = Some (word_of_nat n)"
    by (simp add: list_all_iff)
qed

lemma reg_lookup_dollar:
  assumes "registers_known abi env" and "n < 64" and "name_stops rest"
  shows "reg_lookup env (dollar n @ rest) gpr_types = (Some (word_of_nat n), rest, False)"
  using reg_lookup_name [OF assms(1) reg_token_dollar [OF assms(2)] assms(3)] assms(2)
  by (simp add: register_map_dollar register_symbol_def reg_of_number)

lemma reg_lookup_r:
  assumes "registers_known abi env" and "reg_token name" and "named_r name" and "name_stops rest"
  shows "reg_lookup env (name @ rest) types = (None, name @ rest, types AND RWARN \<noteq> 0)"
  using reg_lookup_name [OF assms(1,2,4)] register_map_r [OF assms(3)] by simp

text \<open>C7: registers are recognised, whatever labels a program defines. After \<open>md_begin\<close> has inserted the names, and
  after any label, local or not, that is not the name of a register, looking up \<open>$n\<close> for \<open>n\<close> below 64 in front of anything that
  does not continue a name yields \<open>n\<close> and the text behind it; a name such as \<open>$r5\<close> is never a register.\<close>

theorem registers_recognised:
  assumes "name_stops rest"
  shows "registers_known abi \<lparr>e_symbols = begin_registers abi (empty_tables sz), e_itbl = None\<rparr>
    \<and> (\<forall>env is_local name sy. registers_known abi env \<and> register_map abi name = None \<and> s_segment sy \<noteq> Reg_section \<longrightarrow>
         registers_known abi (env\<lparr>e_symbols := symbol_table_insert is_local name sy (e_symbols env)\<rparr>))
    \<and> (\<forall>env n. registers_known abi env \<and> n < 64 \<longrightarrow>
         reg_lookup env (dollar n @ rest) (RTYPE_NUM OR RTYPE_GP) = (Some (word_of_nat n), rest, False))
    \<and> (\<forall>env name. registers_known abi env \<and> reg_token name \<and> named_r name \<longrightarrow>
         reg_lookup env (name @ rest) (RTYPE_NUM OR RTYPE_GP) = (None, name @ rest, False))"
proof -
  have w: "gpr_types AND RWARN = 0" by code_simp
  show ?thesis
    using begin_registers_known(1) insert_label_known reg_lookup_dollar [OF _ _ assms] reg_lookup_r [OF _ _ _ assms] w
    by auto
qed

theorem registers_recognised_witness:
  "reg_lookup \<lparr>e_symbols = symbol_table_insert False ''main'' \<lparr>s_segment = Segment 1, s_value = 0\<rparr>
      (begin_registers O32_ABI (empty_tables 0)), e_itbl = None\<rparr> ''$31,$2'' (RTYPE_NUM OR RTYPE_GP) = (Some 31, '',$2'', False)"
proof -
  have r: "name_stops '',$2''" by code_simp
  have m: "register_map O32_ABI ''main'' = None" by code_simp
  have d: "dollar 31 @ '',$2'' = ''$31,$2''" by code_simp
  note t = registers_recognised [OF r, of O32_ABI 0]
  show ?thesis
    using t [THEN conjunct2, THEN conjunct2, THEN conjunct1, rule_format, of
        "\<lparr>e_symbols = symbol_table_insert False ''main'' \<lparr>s_segment = Segment 1, s_value = 0\<rparr>
          (begin_registers O32_ABI (empty_tables 0)), e_itbl = None\<rparr>" 31]
      t [THEN conjunct2, THEN conjunct1, rule_format, of "\<lparr>e_symbols = begin_registers O32_ABI (empty_tables 0), e_itbl = None\<rparr>"
        "''main''" "\<lparr>s_segment = Segment 1, s_value = 0\<rparr>"] t [THEN conjunct1] m
    unfolding d by simp
qed

end
