(* ===== verification/Gas_Expr.thy ===== *)
theory Gas_Expr
  imports Gas_Insn Bfd_Reloc
begin

text \<open>
  The operands that are expressions (\<open>gas/config/tc-mips.c\<close>): relocation operators such as \<open>%lo\<close>, the brackets
  around them, and the checks of constants. The expression inside is parsed by \<open>expression\<close> of the generic
  \<open>gas/expr.c\<close>, a parameter here: it takes the rest of the line and returns the expression and what follows.
\<close>

section \<open>Expressions\<close>

datatype (plugins only:) operatorT =
    O_illegal | O_absent | O_constant | O_symbol | O_symbol_rva | O_register | O_big | O_uminus
  | O_bit_not | O_logical_not | O_multiply | O_divide | O_modulus | O_left_shift | O_right_shift
  | O_bit_inclusive_or | O_bit_or_not | O_bit_exclusive_or | O_bit_and | O_add | O_subtract
  | O_eq | O_ne | O_lt | O_le | O_ge | O_gt | O_logical_and | O_logical_or | O_index | O_md nat

record expressionS =
  X_add_symbol :: "cstring option"
  X_op_symbol :: "cstring option"
  X_add_number :: ulong
  X_op :: operatorT
  X_unsigned :: bool

definition constant_expr :: "ulong \<Rightarrow> expressionS" where
  "constant_expr v = \<lparr>X_add_symbol = None, X_op_symbol = None, X_add_number = v, X_op = O_constant, X_unsigned = False\<rparr>"

datatype ip_event =
    Requires_absolute cstring
  | Unsupported_large_constant
  | Reloc_not_supported cstring
  | Unclosed_bracket
  | Expression_out_of_range
  | Illegal_udi_number
  | Improper_position
  | Improper_insert_size
  | Improper_extract_size
  | Invalid_register_number
  | Invalid_cp0_register
  | Lui_out_of_range
  | Bad_vector_index
  | Bad_extension_letter char
  | Bad_letter char
  | Bump_dot            \<comment> \<open>not a message: the symbol for \<open>.\<close> is made odd\<close>
  | Reloc_op_used       \<comment> \<open>not a message: \<open>prev_reloc_op_frag\<close> is set\<close>

section \<open>Constants\<close>

definition IS_ZEXT_32BIT_NUM :: "ulong \<Rightarrow> bool" where
  "IS_ZEXT_32BIT_NUM x \<longleftrightarrow> x AND NOT 0xffffffff = 0 \<or> x AND NOT 0xffffffff = NOT 0xffffffff"

definition normalize_constant_expr :: "expressionS \<Rightarrow> expressionS" where
  "normalize_constant_expr ex =
     (if X_op ex = O_constant \<and> IS_ZEXT_32BIT_NUM (X_add_number ex)
      then ex\<lparr>X_add_number := ((X_add_number ex AND 0xffffffff) XOR 0x80000000) - 0x80000000\<rparr> else ex)"

definition check_absolute_expr :: "mips_set_options \<Rightarrow> mips_cl_insn \<Rightarrow> expressionS \<Rightarrow> ip_event list \<times> expressionS" where
  "check_absolute_expr opts ip ex =
     ((if X_op ex = O_big then [Unsupported_large_constant]
       else if X_op ex \<noteq> O_constant then [Requires_absolute (op_name (insn_mo ip))] else []),
      if HAVE_32BIT_GPRS opts then normalize_constant_expr ex else ex)"

section \<open>Relocation operators\<close>

definition mips_percent_op :: "(cstring \<times> bfd_reloc) list" where [rigel_tab]:
  "mips_percent_op = [
    (''%lo'', BFD_RELOC_LO16), (''%call_hi'', BFD_RELOC_MIPS_CALL_HI16),
    (''%call_lo'', BFD_RELOC_MIPS_CALL_LO16), (''%call16'', BFD_RELOC_MIPS_CALL16),
    (''%got_disp'', BFD_RELOC_MIPS_GOT_DISP), (''%got_page'', BFD_RELOC_MIPS_GOT_PAGE),
    (''%got_ofst'', BFD_RELOC_MIPS_GOT_OFST), (''%got_hi'', BFD_RELOC_MIPS_GOT_HI16),
    (''%got_lo'', BFD_RELOC_MIPS_GOT_LO16), (''%got'', BFD_RELOC_MIPS_GOT16),
    (''%gp_rel'', BFD_RELOC_GPREL16), (''%half'', BFD_RELOC_16),
    (''%highest'', BFD_RELOC_MIPS_HIGHEST), (''%higher'', BFD_RELOC_MIPS_HIGHER),
    (''%neg'', BFD_RELOC_MIPS_SUB), (''%tlsgd'', BFD_RELOC_MIPS_TLS_GD),
    (''%tlsldm'', BFD_RELOC_MIPS_TLS_LDM), (''%dtprel_hi'', BFD_RELOC_MIPS_TLS_DTPREL_HI16),
    (''%dtprel_lo'', BFD_RELOC_MIPS_TLS_DTPREL_LO16), (''%tprel_hi'', BFD_RELOC_MIPS_TLS_TPREL_HI16),
    (''%tprel_lo'', BFD_RELOC_MIPS_TLS_TPREL_LO16), (''%gottprel'', BFD_RELOC_MIPS_TLS_GOTTPREL),
    (''%hi'', BFD_RELOC_HI16_S)]"

definition mips16_percent_op :: "(cstring \<times> bfd_reloc) list" where [rigel_tab]:
  "mips16_percent_op = [(''%lo'', BFD_RELOC_MIPS16_LO16), (''%gprel'', BFD_RELOC_MIPS16_GPREL),
     (''%hi'', BFD_RELOC_MIPS16_HI16_S)]"

definition percent_op_at :: "cstring \<Rightarrow> cstring \<Rightarrow> bool" where
  "percent_op_at str op \<longleftrightarrow> strcasecmp_eq (take (length op) str) op
     \<and> length op < length str \<and> (isspace (str ! length op) \<or> str ! length op = CHR ''('')"

text \<open>What the parser needs of its surroundings: \<open>expression\<close>, whether an expression is \<open>.\<close> at the current
  position, and which relocations the output format supports.\<close>

record expr_env =
  x_expression :: "cstring \<Rightarrow> expressionS \<times> cstring"
  x_dot :: "expressionS \<Rightarrow> bool"
  x_supported :: "bfd_reloc \<Rightarrow> bool"

definition parse_relocation :: "mips_set_options \<Rightarrow> expr_env \<Rightarrow> cstring \<Rightarrow> (ip_event list \<times> bfd_reloc \<times> cstring) option" where
  "parse_relocation opts env str =
     map_option (\<lambda>(op, reloc).
         if x_supported env reloc then ([], reloc, drop (length op) str)
         else ([Reloc_not_supported op], BFD_RELOC_UNUSED, drop (length op) str))
       (List.find (\<lambda>(op, reloc). percent_op_at str op)
         (if o_mips16 opts \<noteq> 0 then mips16_percent_op else mips_percent_op))"

section \<open>Parsing\<close>

definition my_getExpression :: "mips_set_options \<Rightarrow> expr_env \<Rightarrow> cstring \<Rightarrow> ip_event list \<times> expressionS \<times> cstring" where
  "my_getExpression opts env str =
     (let (ep, expr_end) = x_expression env str
      in (if o_mips16 opts \<noteq> 0 \<and> X_op ep = O_symbol \<and> x_dot env ep then [Bump_dot] else [], ep, expr_end))"

text \<open>Whitespace and opening brackets, which are counted.\<close>

fun skip_brackets :: "cstring \<Rightarrow> nat \<Rightarrow> cstring \<times> nat" where
  "skip_brackets [] d = ([], d)"
| "skip_brackets (c # s) d =
     (if c = CHR ''('' then skip_brackets s (Suc d)
      else if c = CHR '' '' \<or> c = CHR 0x09 then skip_brackets s d
      else (c # s, d))"

text \<open>The loop over the operators: \<open>k\<close> more are allowed. The result is the main expression, the brackets
  open before it, and the relocations in the order they were written.\<close>

fun find_crux :: "mips_set_options \<Rightarrow> expr_env \<Rightarrow> nat \<Rightarrow> cstring \<Rightarrow> nat
    \<Rightarrow> ip_event list \<times> bfd_reloc list \<times> cstring \<times> nat" where
  "find_crux opts env 0 crux crux_depth = ([], [], crux, crux_depth)"
| "find_crux opts env (Suc k) crux crux_depth =
     (let (str, str_depth) = skip_brackets crux crux_depth in
      if str = [] \<or> hd str \<noteq> CHR ''%'' then ([], [], crux, crux_depth)
      else (case parse_relocation opts env str of
          None \<Rightarrow> ([], [], crux, crux_depth)
        | Some (ev, reloc, str') \<Rightarrow>
            (case find_crux opts env k str' str_depth of
               (evs, relocs, crux', depth') \<Rightarrow> (ev @ evs, reloc # relocs, crux', depth'))))"

fun close_brackets :: "nat \<Rightarrow> cstring \<Rightarrow> nat \<times> cstring" where
  "close_brackets 0 str = (0, str)"
| "close_brackets (Suc n) [] = (Suc n, [])"
| "close_brackets (Suc n) (c # str) =
     (if c = CHR '')'' then close_brackets n str
      else if c = CHR '' '' \<or> c = CHR 0x09 then close_brackets (Suc n) str
      else (Suc n, c # str))"

text \<open>The number of operators, the messages, the expression, what follows it, and the array of relocations.\<close>

definition my_getSmallExpression :: "mips_set_options \<Rightarrow> mips_abi_level \<Rightarrow> expr_env \<Rightarrow> bfd_reloc list \<Rightarrow> cstring
    \<Rightarrow> nat \<times> ip_event list \<times> expressionS \<times> cstring \<times> bfd_reloc list" where
  "my_getSmallExpression opts abi env reloc str =
     (let (evs, relocs, crux, depth) = find_crux opts env (if HAVE_NEWABI abi then 3 else 1) str 0;
          (evs', ep, str') = my_getExpression opts env crux;
          (open_depth, expr_end) = close_brackets depth str'
      in (length relocs,
          evs @ evs' @ (if 0 < open_depth then [Unclosed_bracket] else []) @ (if relocs \<noteq> [] then [Reloc_op_used] else []),
          ep, expr_end, rev relocs @ drop (length relocs) reloc))"

end
