(* ===== verification/Gas_Cpu.thy ===== *)
theory Gas_Cpu
  imports Gas_Insn
begin

text \<open>
  The processors the assembler knows (\<open>gas/config/tc-mips.c\<close>): \<open>mips_cpu_info_table\<close>, the two tests by which a name
  the user gave matches a name of the table, \<open>mips_parse_cpu\<close>, and the searches by ISA level and by processor.
\<close>

section \<open>The table\<close>

record mips_cpu_info =
  ci_name :: cstring
  ci_flags :: uint
  ci_isa :: ulong
  ci_cpu :: int

definition MIPS_CPU_IS_ISA :: uint where [rigel_const]: "MIPS_CPU_IS_ISA = 0x0001"
definition MIPS_CPU_ASE_SMARTMIPS :: uint where [rigel_const]: "MIPS_CPU_ASE_SMARTMIPS = 0x0002"
definition MIPS_CPU_ASE_DSP :: uint where [rigel_const]: "MIPS_CPU_ASE_DSP = 0x0004"
definition MIPS_CPU_ASE_MT :: uint where [rigel_const]: "MIPS_CPU_ASE_MT = 0x0008"
definition MIPS_CPU_ASE_MIPS3D :: uint where [rigel_const]: "MIPS_CPU_ASE_MIPS3D = 0x0010"
definition MIPS_CPU_ASE_MDMX :: uint where [rigel_const]: "MIPS_CPU_ASE_MDMX = 0x0020"
definition MIPS_CPU_ASE_DSPR2 :: uint where [rigel_const]: "MIPS_CPU_ASE_DSPR2 = 0x0040"

definition mips_cpu_entry :: "cstring \<Rightarrow> uint \<Rightarrow> ulong \<Rightarrow> int \<Rightarrow> mips_cpu_info" where
  "mips_cpu_entry n f isa cpu = \<lparr>ci_name = n, ci_flags = f, ci_isa = isa, ci_cpu = cpu\<rparr>"

text \<open>The entries in the order of the table; the end marker is the end of the list.\<close>

definition mips_cpu_info_table :: "mips_cpu_info list" where [rigel_tab]:
  "mips_cpu_info_table = [
     mips_cpu_entry ''mips1'' MIPS_CPU_IS_ISA ISA_MIPS1 CPU_R3000,
     mips_cpu_entry ''mips2'' MIPS_CPU_IS_ISA ISA_MIPS2 CPU_R6000,
     mips_cpu_entry ''mips3'' MIPS_CPU_IS_ISA ISA_MIPS3 CPU_R4000,
     mips_cpu_entry ''mips4'' MIPS_CPU_IS_ISA ISA_MIPS4 CPU_R8000,
     mips_cpu_entry ''mips5'' MIPS_CPU_IS_ISA ISA_MIPS5 CPU_MIPS5,
     mips_cpu_entry ''mips32'' MIPS_CPU_IS_ISA ISA_MIPS32 CPU_MIPS32,
     mips_cpu_entry ''mips32r2'' MIPS_CPU_IS_ISA ISA_MIPS32R2 CPU_MIPS32R2,
     mips_cpu_entry ''mips64'' MIPS_CPU_IS_ISA ISA_MIPS64 CPU_MIPS64,
     mips_cpu_entry ''mips64r2'' MIPS_CPU_IS_ISA ISA_MIPS64R2 CPU_MIPS64R2,
     mips_cpu_entry ''mipsrigel32'' MIPS_CPU_IS_ISA ISA_RIGEL32 CPU_RIGEL32,
     mips_cpu_entry ''r3000'' 0 ISA_MIPS1 CPU_R3000,
     mips_cpu_entry ''r2000'' 0 ISA_MIPS1 CPU_R3000,
     mips_cpu_entry ''r3900'' 0 ISA_MIPS1 CPU_R3900,
     mips_cpu_entry ''r6000'' 0 ISA_MIPS2 CPU_R6000,
     mips_cpu_entry ''r4000'' 0 ISA_MIPS3 CPU_R4000,
     mips_cpu_entry ''r4010'' 0 ISA_MIPS2 CPU_R4010,
     mips_cpu_entry ''vr4100'' 0 ISA_MIPS3 CPU_VR4100,
     mips_cpu_entry ''vr4111'' 0 ISA_MIPS3 CPU_R4111,
     mips_cpu_entry ''vr4120'' 0 ISA_MIPS3 CPU_VR4120,
     mips_cpu_entry ''vr4130'' 0 ISA_MIPS3 CPU_VR4120,
     mips_cpu_entry ''vr4181'' 0 ISA_MIPS3 CPU_R4111,
     mips_cpu_entry ''vr4300'' 0 ISA_MIPS3 CPU_R4300,
     mips_cpu_entry ''r4400'' 0 ISA_MIPS3 CPU_R4400,
     mips_cpu_entry ''r4600'' 0 ISA_MIPS3 CPU_R4600,
     mips_cpu_entry ''orion'' 0 ISA_MIPS3 CPU_R4600,
     mips_cpu_entry ''r4650'' 0 ISA_MIPS3 CPU_R4650,
     mips_cpu_entry ''r8000'' 0 ISA_MIPS4 CPU_R8000,
     mips_cpu_entry ''r10000'' 0 ISA_MIPS4 CPU_R10000,
     mips_cpu_entry ''r12000'' 0 ISA_MIPS4 CPU_R12000,
     mips_cpu_entry ''vr5000'' 0 ISA_MIPS4 CPU_R5000,
     mips_cpu_entry ''vr5400'' 0 ISA_MIPS4 CPU_VR5400,
     mips_cpu_entry ''vr5500'' 0 ISA_MIPS4 CPU_VR5500,
     mips_cpu_entry ''rm5200'' 0 ISA_MIPS4 CPU_R5000,
     mips_cpu_entry ''rm5230'' 0 ISA_MIPS4 CPU_R5000,
     mips_cpu_entry ''rm5231'' 0 ISA_MIPS4 CPU_R5000,
     mips_cpu_entry ''rm5261'' 0 ISA_MIPS4 CPU_R5000,
     mips_cpu_entry ''rm5721'' 0 ISA_MIPS4 CPU_R5000,
     mips_cpu_entry ''rm7000'' 0 ISA_MIPS4 CPU_RM7000,
     mips_cpu_entry ''rm9000'' 0 ISA_MIPS4 CPU_RM9000,
     mips_cpu_entry ''4kc'' 0 ISA_MIPS32 CPU_MIPS32,
     mips_cpu_entry ''4km'' 0 ISA_MIPS32 CPU_MIPS32,
     mips_cpu_entry ''4kp'' 0 ISA_MIPS32 CPU_MIPS32,
     mips_cpu_entry ''4ksc'' MIPS_CPU_ASE_SMARTMIPS ISA_MIPS32 CPU_MIPS32,
     mips_cpu_entry ''4kec'' 0 ISA_MIPS32R2 CPU_MIPS32R2,
     mips_cpu_entry ''4kem'' 0 ISA_MIPS32R2 CPU_MIPS32R2,
     mips_cpu_entry ''4kep'' 0 ISA_MIPS32R2 CPU_MIPS32R2,
     mips_cpu_entry ''4ksd'' MIPS_CPU_ASE_SMARTMIPS ISA_MIPS32R2 CPU_MIPS32R2,
     mips_cpu_entry ''m4k'' 0 ISA_MIPS32R2 CPU_MIPS32R2,
     mips_cpu_entry ''m4kp'' 0 ISA_MIPS32R2 CPU_MIPS32R2,
     mips_cpu_entry ''24kc'' 0 ISA_MIPS32R2 CPU_MIPS32R2,
     mips_cpu_entry ''24kf2_1'' 0 ISA_MIPS32R2 CPU_MIPS32R2,
     mips_cpu_entry ''24kf'' 0 ISA_MIPS32R2 CPU_MIPS32R2,
     mips_cpu_entry ''24kf1_1'' 0 ISA_MIPS32R2 CPU_MIPS32R2,
     mips_cpu_entry ''24kfx'' 0 ISA_MIPS32R2 CPU_MIPS32R2,
     mips_cpu_entry ''24kx'' 0 ISA_MIPS32R2 CPU_MIPS32R2,
     mips_cpu_entry ''24kec'' MIPS_CPU_ASE_DSP ISA_MIPS32R2 CPU_MIPS32R2,
     mips_cpu_entry ''24kef2_1'' MIPS_CPU_ASE_DSP ISA_MIPS32R2 CPU_MIPS32R2,
     mips_cpu_entry ''24kef'' MIPS_CPU_ASE_DSP ISA_MIPS32R2 CPU_MIPS32R2,
     mips_cpu_entry ''24kef1_1'' MIPS_CPU_ASE_DSP ISA_MIPS32R2 CPU_MIPS32R2,
     mips_cpu_entry ''24kefx'' MIPS_CPU_ASE_DSP ISA_MIPS32R2 CPU_MIPS32R2,
     mips_cpu_entry ''24kex'' MIPS_CPU_ASE_DSP ISA_MIPS32R2 CPU_MIPS32R2,
     mips_cpu_entry ''34kc'' (MIPS_CPU_ASE_DSP OR MIPS_CPU_ASE_MT) ISA_MIPS32R2 CPU_MIPS32R2,
     mips_cpu_entry ''34kf2_1'' (MIPS_CPU_ASE_DSP OR MIPS_CPU_ASE_MT) ISA_MIPS32R2 CPU_MIPS32R2,
     mips_cpu_entry ''34kf'' (MIPS_CPU_ASE_DSP OR MIPS_CPU_ASE_MT) ISA_MIPS32R2 CPU_MIPS32R2,
     mips_cpu_entry ''34kf1_1'' (MIPS_CPU_ASE_DSP OR MIPS_CPU_ASE_MT) ISA_MIPS32R2 CPU_MIPS32R2,
     mips_cpu_entry ''34kfx'' (MIPS_CPU_ASE_DSP OR MIPS_CPU_ASE_MT) ISA_MIPS32R2 CPU_MIPS32R2,
     mips_cpu_entry ''34kx'' (MIPS_CPU_ASE_DSP OR MIPS_CPU_ASE_MT) ISA_MIPS32R2 CPU_MIPS32R2,
     mips_cpu_entry ''74kc'' (MIPS_CPU_ASE_DSP OR MIPS_CPU_ASE_DSPR2) ISA_MIPS32R2 CPU_MIPS32R2,
     mips_cpu_entry ''74kf2_1'' (MIPS_CPU_ASE_DSP OR MIPS_CPU_ASE_DSPR2) ISA_MIPS32R2 CPU_MIPS32R2,
     mips_cpu_entry ''74kf'' (MIPS_CPU_ASE_DSP OR MIPS_CPU_ASE_DSPR2) ISA_MIPS32R2 CPU_MIPS32R2,
     mips_cpu_entry ''74kf1_1'' (MIPS_CPU_ASE_DSP OR MIPS_CPU_ASE_DSPR2) ISA_MIPS32R2 CPU_MIPS32R2,
     mips_cpu_entry ''74kf3_2'' (MIPS_CPU_ASE_DSP OR MIPS_CPU_ASE_DSPR2) ISA_MIPS32R2 CPU_MIPS32R2,
     mips_cpu_entry ''74kfx'' (MIPS_CPU_ASE_DSP OR MIPS_CPU_ASE_DSPR2) ISA_MIPS32R2 CPU_MIPS32R2,
     mips_cpu_entry ''74kx'' (MIPS_CPU_ASE_DSP OR MIPS_CPU_ASE_DSPR2) ISA_MIPS32R2 CPU_MIPS32R2,
     mips_cpu_entry ''5kc'' 0 ISA_MIPS64 CPU_MIPS64,
     mips_cpu_entry ''5kf'' 0 ISA_MIPS64 CPU_MIPS64,
     mips_cpu_entry ''20kc'' MIPS_CPU_ASE_MIPS3D ISA_MIPS64 CPU_MIPS64,
     mips_cpu_entry ''25kf'' MIPS_CPU_ASE_MIPS3D ISA_MIPS64 CPU_MIPS64,
     mips_cpu_entry ''sb1'' (MIPS_CPU_ASE_MIPS3D OR MIPS_CPU_ASE_MDMX) ISA_MIPS64 CPU_SB1,
     mips_cpu_entry ''sb1a'' (MIPS_CPU_ASE_MIPS3D OR MIPS_CPU_ASE_MDMX) ISA_MIPS64 CPU_SB1]"

section \<open>Matching\<close>

text \<open>The loop of \<open>mips_strict_matching_cpu_name_p\<close>: what is left of both names after their common start.\<close>

fun skip_common :: "cstring \<Rightarrow> cstring \<Rightarrow> cstring \<times> cstring" where
  "skip_common (c # canonical) (g # given) =
     (if tolower g = tolower c then skip_common canonical given else (c # canonical, g # given))"
| "skip_common canonical given = (canonical, given)"

definition mips_strict_matching_cpu_name_p :: "cstring \<Rightarrow> cstring \<Rightarrow> bool" where
  "mips_strict_matching_cpu_name_p canonical given =
     (case skip_common canonical given of (c, g) \<Rightarrow>
        g = [] \<and> c = [] \<or> c = ''000'' \<and> strcasecmp_eq g ''k'')"

text \<open>The character of a string at an index, the terminator past its end.\<close>

definition char_at :: "cstring \<Rightarrow> nat \<Rightarrow> char" where
  "char_at s i = (if i < length s then s ! i else CHR 0x00)"

definition mips_matching_cpu_name_p :: "cstring \<Rightarrow> cstring \<Rightarrow> bool" where
  "mips_matching_cpu_name_p canonical given =
     (if mips_strict_matching_cpu_name_p canonical given then True
      else let given' = (if tolower (char_at given 0) = CHR ''r'' then drop 1 given else given) in
        if \<not> isdigit (char_at given' 0) then False
        else mips_strict_matching_cpu_name_p
          (if tolower (char_at canonical 0) = CHR ''v'' \<and> tolower (char_at canonical 1) = CHR ''r'' then drop 2 canonical
           else if tolower (char_at canonical 0) = CHR ''r'' \<and> tolower (char_at canonical 1) = CHR ''m'' then drop 2 canonical
           else if tolower (char_at canonical 0) = CHR ''r'' then drop 1 canonical
           else canonical) given')"

section \<open>Searches\<close>

definition mips_cpu_info_from_isa :: "ulong \<Rightarrow> mips_cpu_info option" where
  "mips_cpu_info_from_isa isa =
     List.find (\<lambda>p. ci_flags p AND MIPS_CPU_IS_ISA \<noteq> 0 \<and> isa = ci_isa p) mips_cpu_info_table"

definition mips_cpu_info_from_arch :: "int \<Rightarrow> mips_cpu_info option" where
  "mips_cpu_info_from_arch arch = List.find (\<lambda>p. arch = ci_cpu p) mips_cpu_info_table"

text \<open>\<open>mips_parse_cpu\<close>: the ABI, \<open>file_mips_gp32\<close> and \<open>MIPS_DEFAULT_64BIT\<close> decide what \<open>from-abi\<close> stands for. The flag
  says that the message \<open>Bad value\<close> is reported.\<close>

definition mips_parse_cpu :: "mips_abi_level \<Rightarrow> int \<Rightarrow> bool \<Rightarrow> cstring \<Rightarrow> mips_cpu_info option \<times> bool" where
  "mips_parse_cpu abi file_gp32 default_64bit cpu_string =
     (if strcasecmp_eq cpu_string ''from-abi'' then
        (if ABI_NEEDS_32BIT_REGS abi then (mips_cpu_info_from_isa ISA_MIPS1, False)
         else if ABI_NEEDS_64BIT_REGS abi then (mips_cpu_info_from_isa ISA_MIPS3, False)
         else if 0 \<le> file_gp32 then
           (mips_cpu_info_from_isa (if file_gp32 \<noteq> 0 then ISA_MIPS1 else ISA_MIPS3), False)
         else (mips_cpu_info_from_isa (if default_64bit then ISA_MIPS3 else ISA_MIPS1), False))
      else if strcasecmp_eq cpu_string ''default'' then (None, False)
      else case List.find (\<lambda>p. mips_matching_cpu_name_p (ci_name p) cpu_string) mips_cpu_info_table of
             Some p \<Rightarrow> (Some p, False)
           | None \<Rightarrow> (None, True))"

section \<open>What matching means\<close>

text \<open>The loop refines: the names are equal but for case, or the user wrote \<open>k\<close> for a final \<open>000\<close>.\<close>

lemma skip_common_splits:
  "skip_common c g = (c', g') \<Longrightarrow> \<exists>p q. c = p @ c' \<and> g = q @ g' \<and> map tolower p = map tolower q
     \<and> (c' = [] \<or> g' = [] \<or> tolower (hd c') \<noteq> tolower (hd g'))"
proof (induction c g rule: skip_common.induct)
  case (1 c canonical g given)
  show ?case
  proof (cases "tolower g = tolower c")
    case True
    with 1 obtain p q where "canonical = p @ c'" "given = q @ g'" "map tolower p = map tolower q"
      "c' = [] \<or> g' = [] \<or> tolower (hd c') \<noteq> tolower (hd g')" by auto
    with True show ?thesis by (intro exI [of _ "c # p"] exI [of _ "g # q"]) simp
  next
    case False
    with 1 show ?thesis by auto
  qed
qed auto

lemma skip_common_append:
  "map tolower p = map tolower q \<Longrightarrow> skip_common (p @ c) (q @ g) = skip_common c g"
proof (induction p arbitrary: q)
  case (Cons x p)
  then obtain y q' where "q = y # q'" by (cases q) auto
  with Cons show ?case by auto
qed simp

lemma tolower_k: "tolower x = CHR ''k'' \<Longrightarrow> tolower x \<noteq> tolower (CHR ''0'')"
  by (auto simp: tolower_def char_code_def)

lemma strict_matching_iff:
  "mips_strict_matching_cpu_name_p canonical given \<longleftrightarrow>
     strcasecmp_eq given canonical
     \<or> (\<exists>p. canonical = p @ ''000'' \<and> strcasecmp_eq given (p @ ''k''))"
proof
  assume a: "mips_strict_matching_cpu_name_p canonical given"
  obtain c g where s: "skip_common canonical given = (c, g)" by fastforce
  from skip_common_splits [OF s] obtain p q where
    "canonical = p @ c" "given = q @ g" "map tolower p = map tolower q" by blast
  with a s show "strcasecmp_eq given canonical \<or> (\<exists>p. canonical = p @ ''000'' \<and> strcasecmp_eq given (p @ ''k''))"
    by (auto simp: mips_strict_matching_cpu_name_p_def strcasecmp_eq_def)
next
  assume "strcasecmp_eq given canonical
     \<or> (\<exists>p. canonical = p @ ''000'' \<and> strcasecmp_eq given (p @ ''k''))"
  then show "mips_strict_matching_cpu_name_p canonical given"
  proof
    assume "strcasecmp_eq given canonical"
    then have "skip_common (canonical @ []) (given @ []) = ([], [])"
      by (subst skip_common_append) (simp_all add: strcasecmp_eq_def)
    then show ?thesis by (simp add: mips_strict_matching_cpu_name_p_def)
  next
    assume "\<exists>p. canonical = p @ ''000'' \<and> strcasecmp_eq given (p @ ''k'')"
    then obtain p where c: "canonical = p @ ''000''" and g: "map tolower given = map tolower p @ [tolower (CHR ''k'')]"
      by (auto simp: strcasecmp_eq_def)
    then obtain q x where q: "given = q @ [x]" "map tolower q = map tolower p" "tolower x = tolower (CHR ''k'')"
      by (cases given rule: rev_cases) auto
    moreover from q(3) have "tolower x \<noteq> tolower (CHR ''0'')" by (simp add: tolower_def char_code_def)
    ultimately show ?thesis
      by (simp add: c mips_strict_matching_cpu_name_p_def skip_common_append strcasecmp_eq_def)
  qed
qed

section \<open>The names of the table\<close>

text \<open>Letter case never matters.\<close>

lemma isdigit_tolower [simp]: "isdigit (tolower c) = isdigit c"
  by (auto simp: isdigit_def tolower_def)

lemma skip_common_fold:
  "skip_common c (map tolower g) = map_prod id (map tolower) (skip_common c g)"
  by (induction c g rule: skip_common.induct) auto

lemma strict_matching_fold:
  "mips_strict_matching_cpu_name_p c (map tolower g) = mips_strict_matching_cpu_name_p c g"
  by (simp add: mips_strict_matching_cpu_name_p_def skip_common_fold strcasecmp_eq_def o_def split: prod.split)

lemma char_at_fold: "tolower (char_at (map tolower g) i) = tolower (char_at g i)"
  by (simp add: char_at_def)

lemma isdigit_char_at_fold: "isdigit (char_at (map tolower g) i) = isdigit (char_at g i)"
  by (simp add: char_at_def)

lemma matching_fold: "mips_matching_cpu_name_p c (map tolower g) = mips_matching_cpu_name_p c g"
  unfolding mips_matching_cpu_name_p_def Let_def char_at_fold
  by (simp add: strict_matching_fold isdigit_char_at_fold drop_map)

lemma parse_cpu_fold: "mips_parse_cpu abi gp d (map tolower s) = mips_parse_cpu abi gp d s"
  by (simp add: mips_parse_cpu_def matching_fold strcasecmp_eq_def o_def)

text \<open>The names alone, and the test without the folding of case, to compute with: all names are in lower case.\<close>

definition cpu_names :: "cstring list" where
  "cpu_names = [
   ''mips1'', ''mips2'', ''mips3'', ''mips4'', ''mips5'', ''mips32'', ''mips32r2'', ''mips64'',
   ''mips64r2'', ''mipsrigel32'', ''r3000'', ''r2000'', ''r3900'', ''r6000'', ''r4000'', ''r4010'',
   ''vr4100'', ''vr4111'', ''vr4120'', ''vr4130'', ''vr4181'', ''vr4300'', ''r4400'', ''r4600'',
   ''orion'', ''r4650'', ''r8000'', ''r10000'', ''r12000'', ''vr5000'', ''vr5400'', ''vr5500'',
   ''rm5200'', ''rm5230'', ''rm5231'', ''rm5261'', ''rm5721'', ''rm7000'', ''rm9000'', ''4kc'', ''4km'',
   ''4kp'', ''4ksc'', ''4kec'', ''4kem'', ''4kep'', ''4ksd'', ''m4k'', ''m4kp'', ''24kc'', ''24kf2_1'',
   ''24kf'', ''24kf1_1'', ''24kfx'', ''24kx'', ''24kec'', ''24kef2_1'', ''24kef'', ''24kef1_1'',
   ''24kefx'', ''24kex'', ''34kc'', ''34kf2_1'', ''34kf'', ''34kf1_1'', ''34kfx'', ''34kx'', ''74kc'',
   ''74kf2_1'', ''74kf'', ''74kf1_1'', ''74kf3_2'', ''74kfx'', ''74kx'', ''5kc'', ''5kf'', ''20kc'',
   ''25kf'', ''sb1'', ''sb1a'']"

fun skip_equal :: "cstring \<Rightarrow> cstring \<Rightarrow> cstring \<times> cstring" where
  "skip_equal (c # cs) (g # gs) = (if g = c then skip_equal cs gs else (c # cs, g # gs))"
| "skip_equal cs gs = (cs, gs)"

definition strict_equal :: "cstring \<Rightarrow> cstring \<Rightarrow> bool" where
  "strict_equal c g = (case skip_equal c g of (c', g') \<Rightarrow> g' = [] \<and> c' = [] \<or> c' = ''000'' \<and> g' = ''k'')"

fun strip_r :: "cstring \<Rightarrow> cstring" where
  "strip_r (x # s) = (if x = CHR ''r'' then s else x # s)"
| "strip_r [] = []"

fun strip_prefix :: "cstring \<Rightarrow> cstring" where
  "strip_prefix (x # y # s) = (if x = CHR ''v'' \<and> y = CHR ''r'' then s
     else if x = CHR ''r'' \<and> y = CHR ''m'' then s else if x = CHR ''r'' then y # s else x # y # s)"
| "strip_prefix [x] = (if x = CHR ''r'' then [] else [x])"
| "strip_prefix [] = []"

definition starts_digit :: "cstring \<Rightarrow> bool" where
  "starts_digit s = (s \<noteq> [] \<and> hd s \<in> set ''0123456789'')"

definition matching_equal :: "cstring \<Rightarrow> cstring \<Rightarrow> bool" where
  "matching_equal c g = (strict_equal c g
     \<or> (let g' = strip_r g in starts_digit g' \<and> strict_equal (strip_prefix c) g'))"

definition lower :: "cstring \<Rightarrow> bool" where
  "lower s \<longleftrightarrow> map tolower s = s"

lemma cpu_names_lower: "list_all lower cpu_names"
  unfolding cpu_names_def lower_def tolower_def char_code_def by simp

lemma names_of_table: "map ci_name mips_cpu_info_table = cpu_names"
  unfolding cpu_names_def by (simp add: mips_cpu_info_table_def mips_cpu_entry_def)

lemma cpu_names_distinct: "distinct cpu_names"
  by (simp add: cpu_names_def)

lemma cpu_names_found:
  "list_all (\<lambda>n. List.find (\<lambda>m. matching_equal m n) cpu_names = Some n) cpu_names"
  by code_simp

lemma cpu_numbers_found:
  "list_all (\<lambda>n. List.find (\<lambda>m. matching_equal m (strip_prefix n)) cpu_names = Some n)
     (filter (\<lambda>n. strip_prefix n \<noteq> n) cpu_names)"
  by code_simp

text \<open>On names in lower case the test of the code is the one computed with.\<close>

lemma lower_simps [simp]:
  "lower []" "lower (c # s) \<longleftrightarrow> tolower c = c \<and> lower s"
  by (simp_all add: lower_def)

lemma skip_equal_skip: "lower c \<Longrightarrow> lower g \<Longrightarrow> skip_common c g = skip_equal c g"
  by (induction c g rule: skip_equal.induct) auto

lemma skip_equal_lower: "skip_equal c g = (c', g') \<Longrightarrow> lower g \<Longrightarrow> lower g'"
  by (induction c g rule: skip_equal.induct) (auto split: if_splits)

lemma strict_equal_iff:
  assumes "lower c" and g: "lower g"
  shows "mips_strict_matching_cpu_name_p c g = strict_equal c g"
proof -
  obtain c' g' where s: "skip_equal c g = (c', g')" by fastforce
  from skip_equal_lower [OF s g] have "map tolower g' = g'" by (simp add: lower_def)
  with s assms show ?thesis
    by (simp add: mips_strict_matching_cpu_name_p_def strict_equal_def skip_equal_skip strcasecmp_eq_def
        tolower_def [of "CHR ''k''"] char_code_def)
qed

lemma isdigit_member: "isdigit c \<longleftrightarrow> c \<in> set ''0123456789''"
proof -
  have "isdigit c \<longleftrightarrow> char_code c \<in> {48..57}" by (auto simp: isdigit_def)
  also have "{48..57} = set [48, 49, 50, 51, 52, 53, 54, 55, 56, 57::nat]" by (simp add: set_eq_iff) presburger
  also have "char_code c \<in> \<dots> \<longleftrightarrow> char_code c \<in> char_code ` set ''0123456789''" by (simp add: char_code_def)
  also have "\<dots> \<longleftrightarrow> c \<in> set ''0123456789''" by (auto simp: char_code_inject image_iff)
  finally show ?thesis .
qed

lemma tolower_letters:
  "tolower (CHR ''r'') = CHR ''r''" "tolower (CHR ''v'') = CHR ''v''" "tolower (CHR ''m'') = CHR ''m''"
  "tolower (CHR 0x00) = CHR 0x00"
  by (simp_all add: tolower_def char_code_def)

lemma strip_r_eq: "lower g \<Longrightarrow> (if tolower (char_at g 0) = CHR ''r'' then drop 1 g else g) = strip_r g"
  by (cases g) (simp_all add: char_at_def tolower_def [of "CHR 0x00"] char_code_def)

lemma starts_digit_eq: "isdigit (char_at g 0) = starts_digit g"
  by (cases g) (simp_all add: char_at_def starts_digit_def isdigit_def [of "CHR 0x00"] char_code_def isdigit_member)

lemma strip_prefix_eq:
  "lower c \<Longrightarrow>
     (if tolower (char_at c 0) = CHR ''v'' \<and> tolower (char_at c 1) = CHR ''r'' then drop 2 c
      else if tolower (char_at c 0) = CHR ''r'' \<and> tolower (char_at c 1) = CHR ''m'' then drop 2 c
      else if tolower (char_at c 0) = CHR ''r'' then drop 1 c else c) = strip_prefix c"
  by (induction c rule: strip_prefix.induct) (auto simp: char_at_def tolower_letters)

lemma lower_strip_r: "lower g \<Longrightarrow> lower (strip_r g)"
  by (cases g) auto

lemma lower_strip_prefix: "lower c \<Longrightarrow> lower (strip_prefix c)"
  by (induction c rule: strip_prefix.induct) auto

lemma matching_equal_iff:
  assumes c: "lower c" and g: "lower g"
  shows "mips_matching_cpu_name_p c g = matching_equal c g"
  by (simp add: mips_matching_cpu_name_p_def matching_equal_def Let_def strip_prefix_eq [OF c, simplified]
      strip_r_eq [OF g, simplified] starts_digit_eq strict_equal_iff [OF c g]
      strict_equal_iff [OF lower_strip_prefix [OF c] lower_strip_r [OF g]])

lemma find_in_set: "List.find P ys = Some y \<Longrightarrow> y \<in> set ys"
  by (induction ys) (auto split: if_splits)

lemma find_by_key:
  "distinct (map f xs) \<Longrightarrow> List.find P (map f xs) = Some (f x) \<Longrightarrow> x \<in> set xs
     \<Longrightarrow> List.find (\<lambda>y. P (f y)) xs = Some x"
  by (induction xs) (auto split: if_splits dest: find_in_set)

lemma find_cpu_cong: "(\<And>x. x \<in> set xs \<Longrightarrow> P x = Q x) \<Longrightarrow> List.find P xs = List.find Q xs"
  by (induction xs) auto

lemma table_finds:
  assumes "ci \<in> set mips_cpu_info_table" and g: "lower g"
    and "List.find (\<lambda>m. matching_equal m g) cpu_names = Some (ci_name ci)"
  shows "List.find (\<lambda>p. mips_matching_cpu_name_p (ci_name p) g) mips_cpu_info_table = Some ci"
proof -
  have low: "m \<in> set cpu_names \<Longrightarrow> lower m" for m using cpu_names_lower by (simp add: list_all_iff)
  have "List.find (\<lambda>m. mips_matching_cpu_name_p m g) cpu_names = Some (ci_name ci)"
    using assms(3) find_cpu_cong [of cpu_names "\<lambda>m. mips_matching_cpu_name_p m g" "\<lambda>m. matching_equal m g",
        OF matching_equal_iff [OF low g]] by simp
  with assms(1) cpu_names_distinct show ?thesis
    by (intro find_by_key [where f = ci_name]) (simp_all only: names_of_table)
qed

text \<open>A name of the table, in any case, and the number of a processor \<open>r\<close>, \<open>vr\<close> or \<open>rm\<close> alone, stand for the entry of that name.\<close>

lemma keyword_names:
  "list_all (\<lambda>n. n \<noteq> ''from-abi'' \<and> n \<noteq> ''default'' \<and> strip_prefix n \<noteq> ''from-abi'' \<and> strip_prefix n \<noteq> ''default'') cpu_names"
  by (simp add: cpu_names_def)

lemma parse_cpu_name:
  assumes ci: "ci \<in> set mips_cpu_info_table"
    and s: "map tolower s = ci_name ci \<or> map tolower s = strip_prefix (ci_name ci)"
  shows "mips_parse_cpu abi gp d s = (Some ci, False)"
proof -
  have n: "ci_name ci \<in> set cpu_names" using ci names_of_table by (metis image_eqI list.set_map)
  have low: "lower (map tolower s)" by (simp add: lower_def o_def)
  have "List.find (\<lambda>m. matching_equal m (map tolower s)) cpu_names = Some (ci_name ci)"
  proof (cases "map tolower s = ci_name ci")
    case True
    with cpu_names_found n show ?thesis by (simp only: list_all_iff)
  next
    case False
    with s have "map tolower s = strip_prefix (ci_name ci)" "strip_prefix (ci_name ci) \<noteq> ci_name ci" by simp_all
    with cpu_numbers_found n show ?thesis by (simp only: list_all_iff set_filter mem_Collect_eq) blast
  qed
  from table_finds [OF ci low this]
  have "List.find (\<lambda>p. mips_matching_cpu_name_p (ci_name p) s) mips_cpu_info_table = Some ci"
    by (simp add: matching_fold)
  moreover have "map tolower s \<noteq> ''from-abi'' \<and> map tolower s \<noteq> ''default''"
    using s keyword_names [unfolded list_all_iff, THEN bspec, OF n] by (elim disjE) simp_all
  ultimately show ?thesis
    by (simp add: mips_parse_cpu_def strcasecmp_eq_def tolower_def char_code_def)
qed

section \<open>ISA levels and the table\<close>

text \<open>Every search that succeeds yields an entry of the table, and the ISA level of every entry has a name.\<close>

lemma find_known: "List.find P xs = Some x \<Longrightarrow> x \<in> set xs \<and> P x"
  by (induction xs) (auto split: if_splits)

lemma parse_cpu_known: "mips_parse_cpu abi gp d s = (Some ci, b) \<Longrightarrow> ci \<in> set mips_cpu_info_table \<and> \<not> b"
  by (auto simp: mips_parse_cpu_def mips_cpu_info_from_isa_def split: if_splits option.splits dest: find_known)

lemma info_from_isa_known:
  "mips_cpu_info_from_isa isa = Some ci \<Longrightarrow> ci \<in> set mips_cpu_info_table \<and> ci_isa ci = isa"
  by (auto simp: mips_cpu_info_from_isa_def dest: find_known)

definition known_isas :: "ulong list" where
  "known_isas = [ISA_MIPS1, ISA_MIPS2, ISA_MIPS3, ISA_MIPS4, ISA_MIPS5, ISA_MIPS32, ISA_MIPS32R2, ISA_MIPS64,
     ISA_MIPS64R2, ISA_RIGEL32]"

lemma table_isas: "ci \<in> set mips_cpu_info_table \<Longrightarrow> ci_isa ci \<in> set known_isas"
proof -
  have "list_all (\<lambda>ci. List.member known_isas (ci_isa ci)) mips_cpu_info_table"
    by (simp add: mips_cpu_info_table_def mips_cpu_entry_def known_isas_def)
  then show "ci \<in> set mips_cpu_info_table \<Longrightarrow> ci_isa ci \<in> set known_isas"
    by (simp add: list_all_iff)
qed

lemma known_isas_named: "isa \<in> set known_isas \<Longrightarrow> mips_cpu_info_from_isa isa \<noteq> None"
  unfolding known_isas_def mips_cpu_info_from_isa_def mips_cpu_info_table_def mips_cpu_entry_def
  by (simp, elim disjE) (simp_all add: rigel_const)

text \<open>Only the ISA of Rigel goes with its processor, and the other way round.\<close>

lemma table_rigel: "ci \<in> set mips_cpu_info_table \<Longrightarrow> ci_isa ci = ISA_RIGEL32 \<longleftrightarrow> ci_cpu ci = CPU_RIGEL32"
proof -
  have "list_all (\<lambda>ci. (ci_isa ci = ISA_RIGEL32) = (ci_cpu ci = CPU_RIGEL32)) mips_cpu_info_table"
    by (simp add: mips_cpu_info_table_def mips_cpu_entry_def rigel_const)
  then show "ci \<in> set mips_cpu_info_table \<Longrightarrow> ci_isa ci = ISA_RIGEL32 \<longleftrightarrow> ci_cpu ci = CPU_RIGEL32"
    by (simp add: list_all_iff)
qed

lemma rigel_isa_info:
  "mips_cpu_info_from_isa ISA_RIGEL32 = Some (mips_cpu_entry ''mipsrigel32'' MIPS_CPU_IS_ISA ISA_RIGEL32 CPU_RIGEL32)"
  by (simp add: mips_cpu_info_from_isa_def mips_cpu_info_table_def mips_cpu_entry_def rigel_const)

section \<open>Properties\<close>

text \<open>C12: every processor can be named. Each of the 80 names of the table, in any mixture of cases, and the bare number
  of a processor whose name is \<open>r\<close>, \<open>vr\<close> or \<open>rm\<close> and a number, is parsed as the entry of that name and not as an
  earlier one that happens to match, whatever the ABI and the size of the registers.\<close>

theorem cpu_names_recognised:
  assumes "ci \<in> set mips_cpu_info_table" and "map tolower s = ci_name ci \<or> map tolower s = strip_prefix (ci_name ci)"
  shows "mips_parse_cpu abi gp d s = (Some ci, False)"
  using assms by (rule parse_cpu_name)

theorem cpu_names_recognised_witness:
  "mips_parse_cpu O32_ABI 1 False ''MIPSrigel32'' = (Some (mips_cpu_entry ''mipsrigel32'' MIPS_CPU_IS_ISA ISA_RIGEL32 CPU_RIGEL32), False)
   \<and> mips_parse_cpu O32_ABI 1 False ''4650'' = (Some (mips_cpu_entry ''r4650'' 0 ISA_MIPS3 CPU_R4650), False)"
proof
  show "mips_parse_cpu O32_ABI 1 False ''MIPSrigel32''
      = (Some (mips_cpu_entry ''mipsrigel32'' MIPS_CPU_IS_ISA ISA_RIGEL32 CPU_RIGEL32), False)"
  proof (rule cpu_names_recognised)
    have "map tolower ''MIPSrigel32'' = ''mipsrigel32''" by code_simp
    then show "map tolower ''MIPSrigel32'' = ci_name (mips_cpu_entry ''mipsrigel32'' MIPS_CPU_IS_ISA ISA_RIGEL32 CPU_RIGEL32)
        \<or> map tolower ''MIPSrigel32'' = strip_prefix (ci_name (mips_cpu_entry ''mipsrigel32'' MIPS_CPU_IS_ISA ISA_RIGEL32 CPU_RIGEL32))"
      by (simp only: mips_cpu_entry_def mips_cpu_info.select_convs simp_thms)
  qed (simp add: mips_cpu_info_table_def mips_cpu_entry_def)
  show "mips_parse_cpu O32_ABI 1 False ''4650'' = (Some (mips_cpu_entry ''r4650'' 0 ISA_MIPS3 CPU_R4650), False)"
    by (rule cpu_names_recognised) (simp_all add: mips_cpu_info_table_def mips_cpu_entry_def tolower_def char_code_def)
qed

end
