(* ===== verification/Gas_Ip.thy ===== *)
theory Gas_Ip
  imports Gas_Regs Gas_Expr Gas_Begin Gas_Cpu
begin

text \<open>
  \<open>mips_ip\<close> (\<open>gas/config/tc-mips.c\<close>): a line of assembly text is split into mnemonic and operands, and the operands
  are matched against the operand strings of the entries of that mnemonic, one after the other. What the
  code leaves in globals (\<open>imm_expr\<close>, \<open>offset_expr\<close>, their relocations, \<open>insn_error\<close>) is the state; a failed
  assertion and the fatal \<open>internalError\<close> are outcomes.

  The operands \<open>r\<close>, \<open>v\<close>, \<open>w\<close> and \<open>z\<close>, for which the code for registers still has cases, no longer reach it, so
  \<open>lastregno\<close> is never read.
\<close>

section \<open>State and outcomes\<close>

datatype insn_error =
  Unrecognized_opcode | Opcode_not_supported | Illegal_operands | Absolute_expression_required

record ip_state =
  ip_insn :: mips_cl_insn
  imm_expr :: expressionS
  imm2_expr :: expressionS
  offset_expr :: expressionS
  imm_reloc :: "bfd_reloc list"
  offset_reloc :: "bfd_reloc list"
  ip_error :: "insn_error option"
  ip_events :: "ip_event list"
  lastpos :: uint

datatype ip_step =
    Step_next cstring ip_state      \<comment> \<open>\<open>continue\<close>, with the text still to be read\<close>
  | Step_return ip_state
  | Step_mismatch ip_state          \<comment> \<open>\<open>break\<close> to the next entry\<close>
  | Step_assert                     \<comment> \<open>a failed assertion\<close>
  | Step_fatal                      \<comment> \<open>\<open>internalError\<close>\<close>

text \<open>The surroundings: registers, expressions, the ABI and \<open>file_ase_mips16\<close>.\<close>

record ip_env =
  env_regs :: reg_env
  env_expr :: expr_env
  env_abi :: mips_abi_level
  env_ase_mips16 :: bool

definition say :: "ip_event list \<Rightarrow> ip_state \<Rightarrow> ip_state" where
  "say evs st = st\<lparr>ip_events := ip_events st @ evs\<rparr>"

definition set_field :: "op_field \<Rightarrow> ulong \<Rightarrow> ip_state \<Rightarrow> ip_state" where
  "set_field f v st = st\<lparr>ip_insn := INSERT_OPERAND f (ip_insn st) v\<rparr>"

definition absent :: "ip_state \<Rightarrow> ip_state" where
  "absent st = st\<lparr>imm_expr := imm_expr st\<lparr>X_op := O_absent\<rparr>\<rparr>"

text \<open>\<open>my_getExpression (&imm_expr, s); check_absolute_expr (ip, &imm_expr)\<close>\<close>

definition absolute_imm :: "mips_set_options \<Rightarrow> ip_env \<Rightarrow> cstring \<Rightarrow> ip_state \<Rightarrow> ip_state \<times> ulong \<times> cstring" where
  "absolute_imm opts env s st =
     (let (evs, ep, expr_end) = my_getExpression opts (env_expr env) s;
          (evs', ep') = check_absolute_expr opts (ip_insn st) ep
      in ((say (evs @ evs') st)\<lparr>imm_expr := ep'\<rparr>, X_add_number ep', expr_end))"

definition set_imm :: "ulong \<Rightarrow> ip_state \<Rightarrow> ip_state" where
  "set_imm v st = st\<lparr>imm_expr := imm_expr st\<lparr>X_add_number := v\<rparr>\<rparr>"

section \<open>Extension letters\<close>

definition mips_immed :: "(char \<times> op_field) list" where [rigel_tab]:
  "mips_immed = [(CHR ''1'', F_UDI1), (CHR ''2'', F_UDI2), (CHR ''3'', F_UDI3), (CHR ''4'', F_UDI4)]"

definition step_udi :: "mips_set_options \<Rightarrow> ip_env \<Rightarrow> char \<Rightarrow> cstring \<Rightarrow> ip_state \<Rightarrow> ip_step" where
  "step_udi opts env c s st = (case map_of mips_immed c of
     None \<Rightarrow> Step_fatal
   | Some f \<Rightarrow>
       (let (st1, v, e) = absolute_imm opts env s st;
            st2 = (if v AND NOT (op_mask f) \<noteq> 0 then say [Illegal_udi_number] (set_imm (v AND op_mask f) st1) else st1);
            v' = X_add_number (imm_expr st2);
            ip = ip_insn st2
        in Step_next e (absent (st2\<lparr>ip_insn := ip\<lparr>insn_opcode := insn_opcode ip OR push_bit (op_sh f) v'\<rparr>\<rparr>))))"

definition step_lsb :: "mips_set_options \<Rightarrow> ip_env \<Rightarrow> ulong \<Rightarrow> ulong \<Rightarrow> cstring \<Rightarrow> ip_state \<Rightarrow> ip_step" where
  "step_lsb opts env limlo limhi s st =
     (let (st1, v, e) = absolute_imm opts env s st;
          st2 = (if v < limlo \<or> limhi < v then say [Improper_position] (set_imm limlo st1) else st1);
          v' = X_add_number (imm_expr st2)
      in Step_next e (absent (set_field F_SHAMT v' (st2\<lparr>lastpos := ucast v'\<rparr>))))"

definition improper_size :: "ulong \<Rightarrow> ulong \<Rightarrow> uint \<Rightarrow> ulong \<Rightarrow> bool" where
  "improper_size limlo limhi pos v \<longleftrightarrow> sint v < 0 \<or> v + ucast pos < limlo \<or> limhi < v + ucast pos"

definition step_msb :: "mips_set_options \<Rightarrow> ip_env \<Rightarrow> ulong \<Rightarrow> ulong \<Rightarrow> cstring \<Rightarrow> ip_state \<Rightarrow> ip_step" where
  "step_msb opts env limlo limhi s st =
     (let (st1, v, e) = absolute_imm opts env s st;
          st2 = (if improper_size limlo limhi (lastpos st1) v
                 then say [Improper_insert_size] (set_imm (ucast (ucast limlo - lastpos st1)) st1) else st1)
      in Step_next e (absent (set_field F_INSMSB (ucast (lastpos st2) + X_add_number (imm_expr st2) - 1) st2)))"

definition step_msbd :: "mips_set_options \<Rightarrow> ip_env \<Rightarrow> ulong \<Rightarrow> ulong \<Rightarrow> cstring \<Rightarrow> ip_state \<Rightarrow> ip_step" where
  "step_msbd opts env limlo limhi s st =
     (let (st1, v, e) = absolute_imm opts env s st;
          st2 = (if improper_size limlo limhi (lastpos st1) v
                 then say [Improper_extract_size] (set_imm (ucast (ucast limlo - lastpos st1)) st1) else st1)
      in Step_next e (absent (set_field F_EXTMSBD (X_add_number (imm_expr st2) - 1) st2)))"

text \<open>A decimal number in an \<open>unsigned int\<close>.\<close>

fun read_regno :: "cstring \<Rightarrow> uint \<Rightarrow> uint \<times> cstring" where
  "read_regno [] n = (n, [])"
| "read_regno (c # s) n =
     (if isdigit c then read_regno s (n * 10 + word_of_nat (char_code c - 48)) else (n, c # s))"

definition step_cp0 :: "cstring \<Rightarrow> ip_state \<Rightarrow> ip_step" where
  "step_cp0 s st =
     (if 2 \<le> length s \<and> hd s = CHR ''$'' \<and> isdigit (s ! 1) then
        (let (regno, e) = read_regno (tl s) 0
         in if 31 < regno then Step_mismatch (say [Invalid_register_number] st)
            else Step_next e (set_field F_RT (ucast regno) st))
      else Step_mismatch (say [Invalid_cp0_register] st))"

definition step_imm2 :: "mips_set_options \<Rightarrow> ip_env \<Rightarrow> cstring \<Rightarrow> ip_state \<Rightarrow> ip_step" where
  "step_imm2 opts env s st =
     (let (evs, ep, e) = my_getExpression opts (env_expr env) s;
          st1 = (say evs st)\<lparr>imm2_expr := (if HAVE_32BIT_GPRS opts then normalize_constant_expr ep else ep)\<rparr>
      in Step_next e (if X_op ep \<noteq> O_big \<and> X_op ep \<noteq> O_constant
                      then st1\<lparr>ip_error := Some Absolute_expression_required\<rparr> else st1))"

definition step_extension :: "mips_set_options \<Rightarrow> ip_env \<Rightarrow> char \<Rightarrow> cstring \<Rightarrow> ip_state \<Rightarrow> ip_step" where
  "step_extension opts env c s st =
     (if c \<in> {CHR ''1'', CHR ''2'', CHR ''3'', CHR ''4''} then step_udi opts env c s st
      else if c = CHR ''E'' then step_lsb opts env 32 63 s st
      else if c = CHR ''B'' then step_msb opts env 1 32 s st
      else if c = CHR ''F'' then step_msb opts env 33 64 s st
      else if c = CHR ''C'' then step_msbd opts env 1 32 s st
      else if c = CHR ''G'' \<or> c = CHR ''H'' then step_msbd opts env 33 64 s st
      else if c = CHR ''I'' then step_imm2 opts env s st
      else if c = CHR ''T'' then Step_mismatch st
      else if c = CHR ''t'' then step_cp0 s st
      else Step_return (say [Bad_extension_letter c] st))"

section \<open>Operand letters\<close>

text \<open>A comma that does not match falls through to the case of an opening bracket, which asserts that the
  next letter is a base register, and that case to those of the characters that must match.\<close>

definition match_char :: "char \<Rightarrow> cstring \<Rightarrow> ip_state \<Rightarrow> ip_step" where
  "match_char c s st = (if s \<noteq> [] \<and> hd s = c then Step_next (tl s) st else Step_mismatch st)"

definition step_bracket :: "char \<Rightarrow> cstring \<Rightarrow> cstring \<Rightarrow> ip_state \<Rightarrow> ip_step" where
  "step_bracket c args s st =
     (if args = [] \<or> hd args \<notin> {CHR ''b'', CHR ''5'', CHR ''-'', CHR ''4''} then Step_assert
      else if s = [] then Step_return st
      else match_char c s st)"

definition step_comma :: "cstring \<Rightarrow> cstring \<Rightarrow> ip_state \<Rightarrow> ip_step" where
  "step_comma args s st =
     (if s \<noteq> [] \<and> hd s = CHR '','' then Step_next (tl s) st else step_bracket CHR '','' args s st)"

definition reg_letters :: "(char \<times> op_field) list" where [rigel_tab]:
  "reg_letters = [(CHR ''d'', F_RD), (CHR ''s'', F_RS), (CHR ''t'', F_RT), (CHR ''D'', F_WDimm),
     (CHR ''S'', F_RSspr), (CHR ''q'', F_RDspr), (CHR ''Q'', F_RDspr2), (CHR ''V'', F_RV), (CHR ''A'', F_RA)]"

text \<open>The bounds of an immediate. Letters other than \<open>i\<close>, \<open>j\<close> and \<open>5\<close> come here when they are not registers.\<close>

definition imm_bounds :: "char \<Rightarrow> bool \<Rightarrow> int \<times> int" where
  "imm_bounds c others =
     (if c = CHR ''i'' then (0, 0xffff) else if c = CHR ''5'' then (0, 0x1f)
      else if c = CHR ''j'' then (- 0x8000, 0x7fff)
      else if others then (- 0x8000, 0x7fff) else (- 0x8000, 0xffff))"

text \<open>An \<open>offsetT\<close> has eight bytes, so the test for numbers written as unsigned never applies.\<close>

definition unsigned_alternative :: "mips_set_options \<Rightarrow> char \<Rightarrow> bool \<Rightarrow> expressionS \<Rightarrow> bool" where
  "unsigned_alternative opts c others ep \<longleftrightarrow> others \<and> c = CHR ''j'' \<and> (8 :: nat) \<le> 4 \<and> X_op ep = O_constant
     \<and> sint (X_add_number ep) < 0 \<and> X_unsigned ep \<and> \<not> HAVE_32BIT_GPRS opts"

definition step_immediate :: "mips_set_options \<Rightarrow> ip_env \<Rightarrow> bool \<Rightarrow> char \<Rightarrow> cstring \<Rightarrow> ip_state \<Rightarrow> ip_step" where
  "step_immediate opts env others c s st =
     (let (n, evs, ep, e, relocs) =
            my_getSmallExpression opts (env_abi env) (env_expr env) ((imm_reloc st)[0 := BFD_RELOC_LO16]) s;
          st1 = (say evs st)\<lparr>imm_expr := ep, imm_reloc := relocs\<rparr>;
          (minval, maxval) = imm_bounds c others;
          v = sint (X_add_number ep);
          outside = (X_op ep \<noteq> O_constant \<or> v < minval \<or> maxval < v)
      in if n = 0 \<and> unsigned_alternative opts c others ep then Step_mismatch st1
         else if n = 0 \<and> outside \<and> others then Step_mismatch st1
         else
           (let st2 = (if n = 0 \<and> outside \<and> (X_op ep = O_constant \<or> X_op ep = O_big)
                       then say [Expression_out_of_range] st1 else st1);
                st3 = (if c = CHR ''5'' then set_imm 0 (set_field F_IMM5 (X_add_number ep) st2) else st2)
            in Step_next e st3))"

text \<open>A register, or what falls through to the case of an immediate.\<close>

definition step_register :: "mips_set_options \<Rightarrow> ip_env \<Rightarrow> bool \<Rightarrow> char \<Rightarrow> op_field \<Rightarrow> cstring \<Rightarrow> ip_state \<Rightarrow> ip_step" where
  "step_register opts env others c f s st =
     (case reg_lookup (env_regs env) s (RTYPE_NUM OR RTYPE_GP) of
        (Some regno, e, _) \<Rightarrow>
          Step_next (if e \<noteq> [] \<and> hd e = CHR '' '' then tl e else e) (set_field f (ucast regno) st)
      | (None, _, _) \<Rightarrow> step_immediate opts env others c s st)"

definition step_offset :: "mips_set_options \<Rightarrow> ip_env \<Rightarrow> cstring \<Rightarrow> ip_state \<Rightarrow> ip_step" where
  "step_offset opts env s st =
     (if s \<noteq> [] \<and> hd s = CHR ''('' \<and> CHR ''('' \<notin> set (tl s) then
        Step_next s (st\<lparr>offset_expr := offset_expr st\<lparr>X_op := O_constant, X_add_number := 0\<rparr>\<rparr>)
      else
        (let (n, evs, ep, e, relocs) =
               my_getSmallExpression opts (env_abi env) (env_expr env) (offset_reloc st) s;
             st1 = (say evs st)\<lparr>offset_expr := ep, offset_reloc := relocs\<rparr>
         in if n = 0 \<and> (X_op ep \<noteq> O_constant \<or> 0x8000 \<le> sint (X_add_number ep) \<or> sint (X_add_number ep) < - 0x8000)
            then Step_mismatch st1 else Step_next e st1))"

definition step_relative :: "mips_set_options \<Rightarrow> ip_env \<Rightarrow> bfd_reloc \<Rightarrow> cstring \<Rightarrow> ip_state \<Rightarrow> ip_step" where
  "step_relative opts env r s st =
     (let (evs, ep, e) = my_getExpression opts (env_expr env) s
      in Step_next e ((say evs st)\<lparr>offset_expr := ep, offset_reloc := (offset_reloc st)[0 := r]\<rparr>))"

definition step_upper :: "mips_set_options \<Rightarrow> ip_env \<Rightarrow> cstring \<Rightarrow> ip_state \<Rightarrow> ip_step" where
  "step_upper opts env s st =
     (let (n, evs, ep, e, relocs) =
            my_getSmallExpression opts (env_abi env) (env_expr env) (imm_reloc st) s;
          v = sint (X_add_number ep)
      in Step_next e ((say (evs @ (if n = 0 \<and> X_op ep = O_constant \<and> (v < 0 \<or> 0x10000 \<le> v)
            then [Lui_out_of_range] else [])) st)\<lparr>imm_expr := ep, imm_reloc := relocs\<rparr>))"

definition step_vector :: "mips_set_options \<Rightarrow> ip_env \<Rightarrow> op_field \<Rightarrow> cstring \<Rightarrow> ip_state \<Rightarrow> ip_step" where
  "step_vector opts env f s st =
     (let (st1, v, e) = absolute_imm opts env s st;
          st2 = (if op_mask f < v then say [Bad_vector_index] (set_imm 0 st1) else st1)
      in Step_next e (absent (set_field f (X_add_number (imm_expr st2)) st2)))"

definition step_letter :: "mips_set_options \<Rightarrow> ip_env \<Rightarrow> bool \<Rightarrow> char \<Rightarrow> cstring \<Rightarrow> cstring \<Rightarrow> ip_state \<Rightarrow> ip_step" where
  "step_letter opts env others c args s st =
     (if c = CHR '','' then step_comma args s st
      else if c = CHR ''('' then step_bracket c args s st
      else if c \<in> {CHR '')'', CHR ''['', CHR '']''} then match_char c s st
      else (case map_of reg_letters c of
          Some f \<Rightarrow> step_register opts env others c f s st
        | None \<Rightarrow>
            if c \<in> {CHR ''i'', CHR ''j'', CHR ''5''} then step_immediate opts env others c s st
            else if c = CHR ''o'' then step_offset opts env s st
            else if c = CHR ''p'' then step_relative opts env BFD_RELOC_16_PCREL_S2 s st
            else if c = CHR ''u'' then step_upper opts env s st
            else if c = CHR ''a'' then step_relative opts env BFD_RELOC_MIPS_JMP s st
            else if c = CHR ''e'' then step_vector opts env F_VECBYTE s st
            else if c = CHR ''%'' then step_vector opts env F_VECALIGN s st
            else Step_fatal))"

section \<open>The operands of one entry\<close>

definition skip_blanks :: "cstring \<Rightarrow> cstring" where
  "skip_blanks s = dropWhile (\<lambda>c. c = CHR '' '' \<or> c = CHR 0x09) s"

fun parse_args :: "mips_set_options \<Rightarrow> ip_env \<Rightarrow> bool \<Rightarrow> cstring \<Rightarrow> cstring \<Rightarrow> ip_state \<Rightarrow> ip_step" where
  "parse_args opts env others [] s0 st =
     (if skip_blanks s0 = [] then Step_return st else Step_mismatch st)"
| "parse_args opts env others (c # args) s0 st =
     (let s = skip_blanks s0 in
      if c = CHR ''+'' then
        (case args of
           [] \<Rightarrow> Step_return (say [Bad_extension_letter CHR 0x00] st)
         | c' # args' \<Rightarrow>
             (case step_extension opts env c' s st of
                Step_next e st' \<Rightarrow> parse_args opts env others args' e st'
              | r \<Rightarrow> r))
      else
        (case step_letter opts env others c args s st of
           Step_next e st' \<Rightarrow> parse_args opts env others args e st'
         | r \<Rightarrow> r))"

section \<open>The entries of a mnemonic\<close>

definition more_entries :: "mips_opcode list \<Rightarrow> nat \<Rightarrow> bool" where
  "more_entries tab i \<longleftrightarrow> i + 1 < length tab \<and> op_name (tab ! i) = op_name (tab ! (i + 1))"

definition ip_isa :: "mips_set_options \<Rightarrow> ip_env \<Rightarrow> ulong" where
  "ip_isa opts env = o_isa opts OR (if env_ase_mips16 env then INSN_MIPS16 else 0)
     OR (if o_ase_mdmx opts \<noteq> 0 then INSN_MDMX else 0) OR (if o_ase_dsp opts \<noteq> 0 then INSN_DSP else 0)
     OR (if o_ase_dsp opts \<noteq> 0 \<and> ISA_SUPPORTS_DSP64_ASE opts then INSN_DSP64 else 0)
     OR (if o_ase_dspr2 opts \<noteq> 0 then INSN_DSPR2 else 0) OR (if o_ase_mt opts \<noteq> 0 then INSN_MT else 0)
     OR (if o_ase_mips3d opts \<noteq> 0 then INSN_MIPS3D else 0)
     OR (if o_ase_smartmips opts \<noteq> 0 then INSN_SMARTMIPS else 0)"

definition entry_ok :: "mips_set_options \<Rightarrow> ip_env \<Rightarrow> mips_opcode \<Rightarrow> bool" where
  "entry_ok opts env insn \<longleftrightarrow> OPCODE_IS_MEMBER insn (ip_isa opts env) (o_arch opts)
     \<and> \<not> (op_pinfo insn \<noteq> INSN_MACRO \<and> o_arch opts = CPU_R4650 \<and> op_pinfo insn AND FP_D \<noteq> 0)"

text \<open>The message that an entry is not supported reads the names of the processor and of the ISA level through
  pointers that are null when the table of processors has none.\<close>

definition processor_named :: "mips_set_options \<Rightarrow> bool" where
  "processor_named opts \<longleftrightarrow> mips_cpu_info_from_arch (o_arch opts) \<noteq> None \<and> mips_cpu_info_from_isa (o_isa opts) \<noteq> None"

text \<open>The outcome of \<open>mips_ip\<close>: the state in which it returns, or the three ways of not returning.\<close>

datatype ip_result = Ip_done ip_state | Ip_assertion_failed | Ip_internal_error | Ip_null_pointer

function try_entries :: "mips_set_options \<Rightarrow> ip_env \<Rightarrow> mips_opcode list \<Rightarrow> nat \<Rightarrow> cstring \<Rightarrow> ip_state \<Rightarrow> ip_result" where
  "try_entries opts env tab i s st =
     (let insn = tab ! i; others = more_entries tab i in
      if \<not> entry_ok opts env insn then
        (if others then try_entries opts env tab (i + 1) s st
         else if ip_error st \<noteq> None then Ip_done st
         else if processor_named opts then Ip_done (st\<lparr>ip_error := Some Opcode_not_supported\<rparr>)
         else Ip_null_pointer)
      else
        (case parse_args opts env others (op_args insn) s
                (st\<lparr>ip_insn := create_insn opts insn, ip_error := None\<rparr>) of
           Step_return st' \<Rightarrow> Ip_done st'
         | Step_mismatch st' \<Rightarrow>
             (let st1 = st'\<lparr>ip_error := Some Illegal_operands\<rparr>
              in if others then try_entries opts env tab (i + 1) s st1 else Ip_done st1)
         | Step_next e st' \<Rightarrow> Ip_done st'
         | Step_assert \<Rightarrow> Ip_assertion_failed
         | Step_fatal \<Rightarrow> Ip_internal_error))"
  by auto
termination
  by (relation "measure (\<lambda>(opts, env, tab, i, s, st). length tab - i)") (auto simp: more_entries_def)

declare try_entries.simps [simp del]

text \<open>The mnemonic: up to a blank, or else up to a full stop.\<close>

definition find_mnemonic :: "(cstring \<Rightarrow> nat option) \<Rightarrow> cstring \<Rightarrow> (nat \<times> cstring) option" where
  "find_mnemonic op_find str =
     (let name = takeWhile (\<lambda>c. \<not> isspace c) str; rest = dropWhile (\<lambda>c. \<not> isspace c) str in
      case op_find name of
        Some i \<Rightarrow> Some (i, drop 1 rest)
      | None \<Rightarrow>
          (let name = takeWhile (\<lambda>c. c \<noteq> CHR ''.'' \<and> \<not> isspace c) str;
               rest = dropWhile (\<lambda>c. c \<noteq> CHR ''.'' \<and> \<not> isspace c) str
           in if rest = [] \<or> hd rest \<noteq> CHR ''.'' then None
              else map_option (\<lambda>i. (i, tl rest)) (op_find name)))"

definition mips_ip :: "mips_set_options \<Rightarrow> ip_env \<Rightarrow> mips_opcode list \<Rightarrow> (cstring \<Rightarrow> nat option) \<Rightarrow> cstring
    \<Rightarrow> ip_state \<Rightarrow> ip_result" where
  "mips_ip opts env tab op_find str st =
     (case find_mnemonic op_find str of
        None \<Rightarrow> Ip_done (st\<lparr>ip_error := Some Unrecognized_opcode\<rparr>)
      | Some (i, s) \<Rightarrow> try_entries opts env tab i s (st\<lparr>ip_error := None, lastpos := 0\<rparr>))"

end
