(* ===== verification/Rigel_Parse.thy ===== *)
theory Rigel_Parse
  imports Gas_Ip Dis_Rigel
begin

text \<open>
  \<open>mips_ip\<close> on the Rigel table. Each mnemonic has one entry there, so no second alternative is ever tried.
  The first part shows what every line leads to; the second that a line whose operands are numbered registers
  and constants in range is read as meant; the third what happens to operands that are not.
\<close>

section \<open>One entry for each mnemonic\<close>

lemma rigel_one_entry: "\<not> more_entries mips_builtin_opcodes i"
proof
  assume m: "more_entries mips_builtin_opcodes i"
  then have "map op_name mips_builtin_opcodes ! i = map op_name mips_builtin_opcodes ! Suc i"
      "i < length (map op_name mips_builtin_opcodes)" "Suc i < length (map op_name mips_builtin_opcodes)"
    by (simp_all add: more_entries_def)
  then show False using nth_eq_iff_index_eq [OF rigel_names_distinct] by (metis n_not_Suc_n)
qed

lemma rigel_entry_ok:
  assumes "rigel_opts opts" and "mo \<in> set mips_builtin_opcodes"
  shows "entry_ok opts env mo"
proof -
  have "INSN_RIGEL32 AND (INSN_RIGEL32 OR x) \<noteq> 0" for x :: ulong
  proof -
    have "INSN_RIGEL32 AND (INSN_RIGEL32 OR x) = INSN_RIGEL32" by (rule bit_eqI) (auto simp: bit_simps)
    then show ?thesis by (simp add: INSN_RIGEL32_def)
  qed
  then show ?thesis
    using assms rigel_plain [OF assms(2)]
    by (simp add: entry_ok_def OPCODE_IS_MEMBER_def ip_isa_def plain_rigel_def rigel_opts_def ISA_RIGEL32_def
        CPU_RIGEL32_def CPU_R4650_def or.assoc)
qed

definition start_entry :: "mips_set_options \<Rightarrow> mips_opcode \<Rightarrow> ip_state \<Rightarrow> ip_state" where
  "start_entry opts mo st = st\<lparr>ip_insn := create_insn opts mo, ip_error := None\<rparr>"

definition ip_result_of :: "ip_step \<Rightarrow> ip_result" where
  "ip_result_of r = (case r of
       Step_return st \<Rightarrow> Ip_done st
     | Step_mismatch st \<Rightarrow> Ip_done (st\<lparr>ip_error := Some Illegal_operands\<rparr>)
     | Step_next e st \<Rightarrow> Ip_done st
     | Step_assert \<Rightarrow> Ip_assertion_failed
     | Step_fatal \<Rightarrow> Ip_internal_error)"

lemma rigel_try_entries:
  assumes "rigel_opts opts" and "i < 138"
  shows "try_entries opts env mips_builtin_opcodes i s st =
    ip_result_of (parse_args opts env False (op_args (mips_builtin_opcodes ! i)) s
      (start_entry opts (mips_builtin_opcodes ! i) st))"
  using rigel_entry_ok [OF assms(1) rigel_nth_mem [OF assms(2)]] rigel_one_entry
  by (subst try_entries.simps) (simp add: Let_def ip_result_of_def start_entry_def split: ip_step.split)

lemma find_mnemonic_index:
  "find_mnemonic (first_entry mips_builtin_opcodes) str = Some (i, s) \<Longrightarrow> i < 138"
  by (auto simp: find_mnemonic_def first_entry_def rigel_length Let_def dest!: find_index_SomeD split: option.splits if_splits)

text \<open>The line after the mnemonic.\<close>

lemma rigel_mips_ip:
  assumes "rigel_opts opts"
  shows "mips_ip opts env mips_builtin_opcodes (first_entry mips_builtin_opcodes) str st =
    (case find_mnemonic (first_entry mips_builtin_opcodes) str of
       None \<Rightarrow> Ip_done (st\<lparr>ip_error := Some Unrecognized_opcode\<rparr>)
     | Some (i, s) \<Rightarrow> ip_result_of (parse_args opts env False (op_args (mips_builtin_opcodes ! i)) s
         (start_entry opts (mips_builtin_opcodes ! i) (st\<lparr>lastpos := 0\<rparr>))))"
proof (cases "find_mnemonic (first_entry mips_builtin_opcodes) str")
  case (Some r)
  then obtain i s where r: "find_mnemonic (first_entry mips_builtin_opcodes) str = Some (i, s)" by (cases r) auto
  then have "i < 138" by (rule find_mnemonic_index)
  then show ?thesis
    using rigel_try_entries [OF assms, of i] r by (simp add: mips_ip_def start_entry_def)
qed (simp add: mips_ip_def)

section \<open>What the operands keep\<close>

text \<open>The entry, the bits outside the fields of its operands, and that there is no error.\<close>

definition entry_kept :: "mips_opcode \<Rightarrow> ulong \<Rightarrow> ip_state \<Rightarrow> bool" where
  "entry_kept mo k st \<longleftrightarrow> insn_mo (ip_insn st) = mo \<and> insn_opcode (ip_insn st) AND k = op_match mo AND k
     \<and> ip_error st = None"

definition step_keeps :: "(ip_state \<Rightarrow> bool) \<Rightarrow> ip_step \<Rightarrow> bool" where
  "step_keeps P r = (case r of Step_next e st \<Rightarrow> P st | Step_return st \<Rightarrow> P st | Step_mismatch st \<Rightarrow> P st
     | Step_assert \<Rightarrow> True | Step_fatal \<Rightarrow> False)"

lemma entry_kept_say [simp]: "entry_kept mo k (say evs st) = entry_kept mo k st"
  by (simp add: entry_kept_def say_def)

lemma entry_kept_operands [simp]:
  "entry_kept mo k (st\<lparr>imm_expr := e\<rparr>) = entry_kept mo k st"
  "entry_kept mo k (st\<lparr>imm_reloc := r\<rparr>) = entry_kept mo k st"
  "entry_kept mo k (st\<lparr>offset_expr := e\<rparr>) = entry_kept mo k st"
  "entry_kept mo k (st\<lparr>offset_reloc := r\<rparr>) = entry_kept mo k st"
  "entry_kept mo k (set_imm v st) = entry_kept mo k st"
  by (simp_all add: entry_kept_def set_imm_def)

lemma entry_kept_field:
  "k AND field_mask f = 0 \<Longrightarrow> entry_kept mo k st \<Longrightarrow> entry_kept mo k (set_field f v st)"
  using insert_outside [of k "op_sh f" "op_mask f" "insn_opcode (ip_insn st)" v]
  by (simp add: entry_kept_def set_field_def INSERT_OPERAND_def field_mask_def)

text \<open>The letters of the table.\<close>

definition rigel_letter_fields :: "(char \<times> op_field list) list" where
  "rigel_letter_fields = [(CHR '','', []), (CHR ''d'', [F_RD]), (CHR ''s'', [F_RS]), (CHR ''t'', [F_RT]),
     (CHR ''A'', [F_RA]), (CHR ''i'', [F_IMMEDIATE]), (CHR ''j'', [F_DELTA]), (CHR ''5'', [F_IMM5]),
     (CHR ''p'', [F_DELTA]), (CHR ''a'', [F_TARGET])]"

lemma rigel_letter_fields_bits:
  "map_of rigel_letter_fields c = Some fs \<Longrightarrow> map_of operand_bits c = Some fs \<and> c \<noteq> CHR ''+''"
  by (auto simp: rigel_letter_fields_def operand_letters split: if_splits)

lemma immediate_keeps:
  assumes "entry_kept mo k st" and "c = CHR ''5'' \<Longrightarrow> k AND field_mask F_IMM5 = 0"
  shows "step_keeps (entry_kept mo k) (step_immediate opts env others c s st)"
proof -
  obtain n evs ep e relocs where g: "my_getSmallExpression opts (env_abi env) (env_expr env)
      ((imm_reloc st)[0 := BFD_RELOC_LO16]) s = (n, evs, ep, e, relocs)" by (metis prod_cases5)
  show ?thesis
    using assms entry_kept_field [of k F_IMM5]
    by (cases "imm_bounds c others") (simp add: step_immediate_def g Let_def step_keeps_def)
qed

lemma register_keeps:
  assumes "entry_kept mo k st" and "k AND field_mask f = 0" and "c \<noteq> CHR ''5''"
  shows "step_keeps (entry_kept mo k) (step_register opts env others c f s st)"
  using immediate_keeps [OF assms(1), of c opts env others s] entry_kept_field [OF assms(2,1)] assms(3)
  by (auto simp: step_register_def step_keeps_def split: prod.split option.split)

lemma bracket_keeps: "entry_kept mo k st \<Longrightarrow> step_keeps (entry_kept mo k) (step_bracket c args s st)"
  by (simp add: step_bracket_def match_char_def step_keeps_def)

lemma relative_keeps: "entry_kept mo k st \<Longrightarrow> step_keeps (entry_kept mo k) (step_relative opts env r s st)"
  by (simp add: step_relative_def step_keeps_def split: prod.split)

lemma letter_keeps:
  assumes "map_of rigel_letter_fields c = Some fs" and "\<forall>f\<in>set fs. k AND field_mask f = 0" and "entry_kept mo k st"
  shows "step_keeps (entry_kept mo k) (step_letter opts env others c args s st)"
  using assms
  by (auto simp: rigel_letter_fields_def step_letter_def step_comma_def reg_letters_def step_keeps_def [of _ "Step_next _ _"]
      intro: register_keeps immediate_keeps bracket_keeps relative_keeps split: if_splits)

definition rigel_letter_string :: "cstring \<Rightarrow> bool" where
  "rigel_letter_string args \<longleftrightarrow> list_all (\<lambda>c. map_of rigel_letter_fields c \<noteq> None) args"

text \<open>The operands of an entry whose letters are those of the table, and whose fields lie outside \<open>k\<close>.\<close>

lemma args_keep:
  assumes "rigel_letter_string args" and "args_fields args = Some fs" and "\<forall>f\<in>set fs. k AND field_mask f = 0"
    and "entry_kept mo k st"
  shows "step_keeps (entry_kept mo k) (parse_args opts env others args s st)"
  using assms
proof (induction args arbitrary: fs s st)
  case Nil
  then show ?case by (simp add: step_keeps_def)
next
  case (Cons c args)
  obtain gs where gs: "map_of rigel_letter_fields c = Some gs"
    using Cons.prems(1) by (auto simp: rigel_letter_string_def)
  then have c: "map_of operand_bits c = Some gs" "c \<noteq> CHR ''+''"
    using rigel_letter_fields_bits by blast+
  then obtain hs where hs: "args_fields args = Some hs" "fs = gs @ hs"
    using Cons.prems(2) by auto
  have l: "step_keeps (entry_kept mo k) (step_letter opts env others c args (skip_blanks s) st)"
    using letter_keeps [OF gs] Cons.prems(3,4) hs(2) by simp
  show ?case
  proof (cases "step_letter opts env others c args (skip_blanks s) st")
    case (Step_next e st')
    then show ?thesis
      using l c(2) Cons.IH [of hs st' e] hs Cons.prems(1,3) by (simp add: step_keeps_def rigel_letter_string_def)
  qed (use l c(2) in \<open>simp_all add: step_keeps_def Let_def\<close>)
qed

lemma rigel_args_letter_strings: "list_all rigel_letter_string rigel_args"
  by (simp add: rigel_letter_string_def rigel_letter_fields_def rigel_args_def)

lemma rigel_string: "mo \<in> set mips_builtin_opcodes \<Longrightarrow> rigel_letter_string (op_args mo)"
  using rigel_args_letter_strings rigel_args_of by (simp add: list_all_iff)

lemma disjoint_fields_apart: "disjoint_fields m fs \<Longrightarrow> f \<in> set fs \<Longrightarrow> m AND field_mask f = 0"
proof (induction fs arbitrary: m)
  case (Cons g fs)
  then show ?case
    using disjoint_fields_subset [of "USE_BITS m g" fs m]
    by (auto simp: USE_BITS_mask bit.conj_disj_distrib bit_eq_iff bit_simps)
qed simp

lemma rigel_args_keep:
  assumes "mo \<in> set mips_builtin_opcodes"
  shows "step_keeps (\<lambda>st. insn_mo (ip_insn st) = mo \<and> opcode_matches mo (insn_opcode (ip_insn st)) \<and> ip_error st = None)
    (parse_args opts env others (op_args mo) s (start_entry opts mo st))"
proof -
  obtain fs where fs: "args_fields (op_args mo) = Some fs" "disjoint_fields (op_msk mo) fs"
      "op_msk mo AND op_match mo = op_match mo"
    using rigel_well_formed [OF assms] by (auto simp: well_formed_entry_def split: option.splits)
  have "step_keeps (entry_kept mo (op_msk mo)) (parse_args opts env others (op_args mo) s (start_entry opts mo st))"
    using fs(1) disjoint_fields_apart [OF fs(2)]
    by (intro args_keep [OF rigel_string [OF assms]]) (auto simp: entry_kept_def start_entry_def create_insn_def)
  then show ?thesis
    using fs(3) by (auto simp: step_keeps_def entry_kept_def opcode_matches_def and.commute split: ip_step.splits)
qed

text \<open>An assertion fails only at a comma.\<close>

lemma letter_assert:
  assumes "map_of rigel_letter_fields c = Some fs" and "step_letter opts env others c args s st = Step_assert"
  shows "c = CHR '','' \<and> (args = [] \<or> hd args \<notin> {CHR ''b'', CHR ''5'', CHR ''-'', CHR ''4''})"
  using assms
  by (auto simp: rigel_letter_fields_def step_letter_def step_comma_def step_bracket_def match_char_def
      reg_letters_def step_register_def step_immediate_def step_relative_def Let_def
      split: if_splits prod.splits option.splits)

lemma assert_needs_comma:
  assumes "rigel_letter_string args" and "parse_args opts env others args s st = Step_assert"
  shows "CHR '','' \<in> set args"
  using assms
proof (induction args arbitrary: s st)
  case (Cons c args)
  obtain fs where fs: "map_of rigel_letter_fields c = Some fs"
    using Cons.prems(1) by (auto simp: rigel_letter_string_def)
  then have c: "c \<noteq> CHR ''+''" using rigel_letter_fields_bits by blast
  show ?case
  proof (cases "step_letter opts env others c args (skip_blanks s) st")
    case (Step_next e st')
    then show ?thesis using Cons c by (simp add: rigel_letter_string_def)
  next
    case Step_assert
    then show ?thesis using letter_assert [OF fs] by auto
  qed (use Cons.prems(2) c in \<open>simp_all add: Let_def\<close>)
qed (simp split: if_splits)

text \<open>What a line leads to.\<close>

lemma line_outcome:
  assumes "rigel_opts opts"
  shows "case mips_ip opts env mips_builtin_opcodes (first_entry mips_builtin_opcodes) str st of
      Ip_done st' \<Rightarrow>
        (case ip_error st' of
           None \<Rightarrow> \<exists>i s. find_mnemonic (first_entry mips_builtin_opcodes) str = Some (i, s)
             \<and> insn_mo (ip_insn st') = mips_builtin_opcodes ! i
             \<and> (\<forall>mo\<in>set mips_builtin_opcodes.
                  opcode_matches mo (insn_opcode (ip_insn st')) \<longleftrightarrow> mo = mips_builtin_opcodes ! i)
         | Some e \<Rightarrow> e = (if find_mnemonic (first_entry mips_builtin_opcodes) str = None
                         then Unrecognized_opcode else Illegal_operands))
    | Ip_assertion_failed \<Rightarrow> \<exists>i s. find_mnemonic (first_entry mips_builtin_opcodes) str = Some (i, s)
        \<and> CHR '','' \<in> set (op_args (mips_builtin_opcodes ! i))
    | Ip_internal_error \<Rightarrow> False | Ip_null_pointer \<Rightarrow> False"
proof (cases "find_mnemonic (first_entry mips_builtin_opcodes) str")
  case None
  then show ?thesis by (simp add: rigel_mips_ip [OF assms])
next
  case (Some r)
  obtain i s where r: "r = (i, s)" by fastforce
  have i: "i < 138" using find_mnemonic_index [of str i s] Some r by simp
  let ?mo = "mips_builtin_opcodes ! i"
  let ?p = "parse_args opts env False (op_args ?mo) s (start_entry opts ?mo (st\<lparr>lastpos := 0\<rparr>))"
  have "step_keeps (\<lambda>st. insn_mo (ip_insn st) = ?mo \<and> opcode_matches ?mo (insn_opcode (ip_insn st)) \<and> ip_error st = None) ?p"
    by (rule rigel_args_keep [OF rigel_nth_mem [OF i]])
  moreover have "?p = Step_assert \<Longrightarrow> CHR '','' \<in> set (op_args ?mo)"
    using assert_needs_comma rigel_string [OF rigel_nth_mem [OF i]] by blast
  ultimately show ?thesis
    using Some r rigel_entries_apart [OF _ rigel_nth_mem [OF i]]
    by (cases ?p) (auto simp: rigel_mips_ip [OF assms] ip_result_of_def step_keeps_def)
qed

section \<open>Operands as they are meant\<close>

text \<open>A numbered register, or an expression with what \<open>expression\<close> makes of its text.\<close>

datatype operand_src = Reg_op nat | Expr_op cstring expressionS

fun op_text :: "operand_src \<Rightarrow> cstring" where
  "op_text (Reg_op n) = dollar n"
| "op_text (Expr_op t ep) = t"

fun operands_text :: "operand_src list \<Rightarrow> cstring" where
  "operands_text [] = []"
| "operands_text [opd] = op_text opd"
| "operands_text (opd # opds) = op_text opd @ CHR '','' # operands_text opds"

definition operand_ends :: "cstring \<Rightarrow> bool" where
  "operand_ends rest \<longleftrightarrow> rest = [] \<or> hd rest = CHR '',''"

definition reads_as :: "expr_env \<Rightarrow> cstring \<Rightarrow> expressionS \<Rightarrow> bool" where
  "reads_as env t ep \<longleftrightarrow> t \<noteq> [] \<and> hd t \<notin> {CHR ''('', CHR ''%'', CHR '' '', CHR 0x09}
     \<and> (\<forall>rest. operand_ends rest \<longrightarrow> x_expression env (t @ rest) = (ep, rest))"

definition within_bounds :: "char \<Rightarrow> expressionS \<Rightarrow> bool" where
  "within_bounds c ep \<longleftrightarrow> X_op ep = O_constant
     \<and> (let (lo, hi) = imm_bounds c False in lo \<le> sint (X_add_number ep) \<and> sint (X_add_number ep) \<le> hi)"

fun operand_ok :: "expr_env \<Rightarrow> char \<Rightarrow> operand_src \<Rightarrow> bool" where
  "operand_ok env c (Reg_op n) \<longleftrightarrow> c \<in> {CHR ''d'', CHR ''s'', CHR ''t'', CHR ''A''} \<and> n < 64"
| "operand_ok env c (Expr_op t ep) \<longleftrightarrow> reads_as env t ep
     \<and> (c \<in> {CHR ''p'', CHR ''a''} \<or> c \<in> {CHR ''i'', CHR ''j'', CHR ''5''} \<and> within_bounds c ep)"

fun take_operand :: "char \<Rightarrow> operand_src \<Rightarrow> ip_state \<Rightarrow> ip_state" where
  "take_operand c (Reg_op n) st =
     (case map_of reg_letters c of Some f \<Rightarrow> set_field f (word_of_nat n) st | None \<Rightarrow> st)"
| "take_operand c (Expr_op t ep) st =
     (if c = CHR ''p'' then st\<lparr>offset_expr := ep, offset_reloc := (offset_reloc st)[0 := BFD_RELOC_16_PCREL_S2]\<rparr>
      else if c = CHR ''a'' then st\<lparr>offset_expr := ep, offset_reloc := (offset_reloc st)[0 := BFD_RELOC_MIPS_JMP]\<rparr>
      else if c = CHR ''5'' then
        set_imm 0 (set_field F_IMM5 (X_add_number ep) (st\<lparr>imm_expr := ep, imm_reloc := (imm_reloc st)[0 := BFD_RELOC_LO16]\<rparr>))
      else st\<lparr>imm_expr := ep, imm_reloc := (imm_reloc st)[0 := BFD_RELOC_LO16]\<rparr>)"

lemma operand_ends_name: "operand_ends rest \<Longrightarrow> name_stops rest"
  by (auto simp: operand_ends_def name_stops_def is_part_of_name_def is_name_beginner_def isdigit_def char_code_def)

lemma skip_no_blank: "hd s \<noteq> CHR '' '' \<Longrightarrow> hd s \<noteq> CHR 0x09 \<Longrightarrow> skip_blanks s = s"
  by (cases s) (simp_all add: skip_blanks_def)

lemma find_crux_plain:
  assumes "hd s \<notin> {CHR ''('', CHR ''%'', CHR '' '', CHR 0x09}"
  shows "find_crux opts env k s 0 = ([], [], s, 0)"
proof (cases k)
  case (Suc m)
  have "skip_brackets s 0 = (s, 0)" using assms by (cases s) simp_all
  then show ?thesis using Suc assms by simp
qed simp

lemma small_expression_reads:
  assumes "reads_as env t ep" and "operand_ends rest" and "o_mips16 opts = 0"
  shows "my_getSmallExpression opts abi env relocs (t @ rest) = (0, [], ep, rest, relocs)"
proof -
  have "hd (t @ rest) \<notin> {CHR ''('', CHR ''%'', CHR '' '', CHR 0x09}" using assms(1) by (simp add: reads_as_def)
  then show ?thesis
    using assms find_crux_plain [of "t @ rest" opts env "if HAVE_NEWABI abi then 3 else 1"]
    by (simp add: my_getSmallExpression_def my_getExpression_def reads_as_def)
qed

lemma say_nothing [simp]: "say [] st = st"
  by (simp add: say_def)

lemma immediate_reads:
  assumes "reads_as (env_expr env) t ep" and "operand_ends rest" and "o_mips16 opts = 0" and "within_bounds c ep"
  shows "step_immediate opts env False c (t @ rest) st = Step_next rest
     (let st1 = st\<lparr>imm_expr := ep, imm_reloc := (imm_reloc st)[0 := BFD_RELOC_LO16]\<rparr>
      in if c = CHR ''5'' then set_imm 0 (set_field F_IMM5 (X_add_number ep) st1) else st1)"
  using assms(4)
  by (cases "imm_bounds c False")
     (simp add: step_immediate_def small_expression_reads [OF assms(1,2,3)] unsigned_alternative_def within_bounds_def Let_def)

lemma register_reads:
  assumes "registers_known abi (env_regs env)" and "n < 64" and "operand_ends rest"
  shows "step_register opts env others c f (dollar n @ rest) st = Step_next rest (set_field f (word_of_nat n) st)"
proof -
  have r: "reg_lookup (env_regs env) (dollar n @ rest) gpr_types = (Some (word_of_nat n), rest, False)"
    by (rule reg_lookup_dollar [OF assms(1,2) operand_ends_name [OF assms(3)]])
  have e: "(if rest \<noteq> [] \<and> hd rest = CHR '' '' then tl rest else rest) = rest"
    using assms(3) by (auto simp: operand_ends_def)
  have "ucast (word_of_nat n :: uint) = (word_of_nat n :: ulong)"
    using assms(2) by (simp add: word_unat_eq_iff unat_of_nat unsigned_ucast_eq take_bit_nat_eq_self)
  then show ?thesis unfolding step_register_def r prod.case option.case e by simp
qed

lemma letter_reads:
  assumes "registers_known abi (env_regs env)" and "o_mips16 opts = 0" and "operand_ok (env_expr env) c opd"
    and "operand_ends rest"
  shows "step_letter opts env False c args (op_text opd @ rest) st = Step_next rest (take_operand c opd st)"
proof (cases opd)
  case (Reg_op n)
  then have "c \<in> {CHR ''d'', CHR ''s'', CHR ''t'', CHR ''A''}" "n < 64" using assms(3) by auto
  then show ?thesis
    using Reg_op register_reads [OF assms(1) _ assms(4)] by (auto simp: step_letter_def reg_letters_def)
next
  case (Expr_op t ep)
  then have p: "reads_as (env_expr env) t ep" and x: "x_expression (env_expr env) (t @ rest) = (ep, rest)"
    using assms(3,4) by (auto simp: reads_as_def)
  have c: "c \<in> {CHR ''p'', CHR ''a''} \<or> c \<in> {CHR ''i'', CHR ''j'', CHR ''5''} \<and> within_bounds c ep"
    using assms(3) Expr_op by simp
  show ?thesis
  proof (cases "c \<in> {CHR ''p'', CHR ''a''}")
    case True
    have r: "step_relative opts env rel (t @ rest) st
        = Step_next rest (st\<lparr>offset_expr := ep, offset_reloc := (offset_reloc st)[0 := rel]\<rparr>)" for rel
      by (simp add: step_relative_def my_getExpression_def x assms(2))
    have "c = CHR ''p'' \<or> c = CHR ''a''" using True by blast
    then show ?thesis
      by (elim disjE) (simp_all add: step_letter_def reg_letters_def r Expr_op)
  next
    case False
    then have "c = CHR ''i'' \<or> c = CHR ''j'' \<or> c = CHR ''5''" using c by blast
    then have l: "step_letter opts env False c args s st = step_immediate opts env False c s st" for s
      by (elim disjE) (simp_all add: step_letter_def reg_letters_def)
    have "within_bounds c ep" using False c by blast
    note i = immediate_reads [OF p assms(4,2) this, of st]
    have "take_operand c opd st = (let st1 = st\<lparr>imm_expr := ep, imm_reloc := (imm_reloc st)[0 := BFD_RELOC_LO16]\<rparr>
        in if c = CHR ''5'' then set_imm 0 (set_field F_IMM5 (X_add_number ep) st1) else st1)"
      using False Expr_op by (simp add: Let_def)
    then show ?thesis unfolding l Expr_op op_text.simps i by (simp only:)
  qed
qed

text \<open>All operands of an entry, whose letters are separated by commas.\<close>

fun alternating :: "cstring \<Rightarrow> bool" where
  "alternating [] \<longleftrightarrow> True"
| "alternating [c] \<longleftrightarrow> c \<noteq> CHR '','' \<and> c \<noteq> CHR ''+''"
| "alternating (c # d # args) \<longleftrightarrow> c \<noteq> CHR '','' \<and> c \<noteq> CHR ''+'' \<and> d = CHR '','' \<and> args \<noteq> [] \<and> alternating args"

definition operand_letters_of :: "cstring \<Rightarrow> cstring" where
  "operand_letters_of args = filter (\<lambda>c. c \<noteq> CHR '','') args"

definition take_operands :: "cstring \<Rightarrow> operand_src list \<Rightarrow> ip_state \<Rightarrow> ip_state" where
  "take_operands letters opds st = fold (\<lambda>(c, opd). take_operand c opd) (zip letters opds) st"

lemma operands_text_ends: "opds = [] \<or> operand_ends (CHR '','' # operands_text opds)"
  by (simp add: operand_ends_def)

lemma op_text_no_blank:
  assumes "operand_ok env c opd"
  shows "skip_blanks (op_text opd @ rest) = op_text opd @ rest"
proof (cases opd)
  case (Reg_op n)
  then show ?thesis by (simp add: dollar_def skip_blanks_def)
next
  case (Expr_op t ep)
  then have "reads_as env t ep" using assms by simp
  then show ?thesis using Expr_op by (cases t) (simp_all add: reads_as_def skip_blanks_def)
qed

lemma parse_operands:
  assumes "registers_known abi (env_regs env)" and "o_mips16 opts = 0"
    and "alternating args" and "list_all2 (operand_ok (env_expr env)) (operand_letters_of args) opds"
  shows "parse_args opts env False args (operands_text opds) st
    = Step_return (take_operands (operand_letters_of args) opds st)"
  using assms(3,4)
proof (induction args arbitrary: opds st rule: alternating.induct)
  case 1
  then show ?case by (simp add: operand_letters_of_def take_operands_def skip_blanks_def)
next
  case (2 c)
  then obtain opd where opd: "opds = [opd]" "operand_ok (env_expr env) c opd"
    by (auto simp: operand_letters_of_def list_all2_Cons1)
  have "parse_args opts env False [c] (op_text opd @ []) st = Step_return (take_operand c opd st)"
    using 2 letter_reads [OF assms(1,2) opd(2), of "[]" "[]" st] op_text_no_blank [OF opd(2), of "[]"]
    by (simp add: operand_ends_def skip_blanks_def)
  then show ?case using 2 opd(1) by (simp add: operand_letters_of_def take_operands_def)
next
  case (3 c d args)
  then obtain opd opds' where opd: "opds = opd # opds'" "operand_ok (env_expr env) c opd"
      "list_all2 (operand_ok (env_expr env)) (operand_letters_of args) opds'"
    by (auto simp: operand_letters_of_def list_all2_Cons1)
  have "operand_letters_of args \<noteq> []" using 3(2) by (cases args rule: alternating.cases) (auto simp: operand_letters_of_def)
  then have "opds' \<noteq> []" using opd(3) by auto
  then have t: "operands_text opds = op_text opd @ CHR '','' # operands_text opds'" using opd(1) by (cases opds') simp_all
  have "parse_args opts env False (c # d # args) (operands_text opds) st
      = parse_args opts env False (d # args) (CHR '','' # operands_text opds') (take_operand c opd st)"
    using 3(2) letter_reads [OF assms(1,2) opd(2), of "CHR '','' # operands_text opds'" "d # args" st]
      op_text_no_blank [OF opd(2)] unfolding t by (simp add: operand_ends_def)
  also have "\<dots> = parse_args opts env False args (operands_text opds') (take_operand c opd st)"
    using 3(2) by (simp add: skip_blanks_def step_letter_def step_comma_def)
  also have "\<dots> = Step_return (take_operands (operand_letters_of args) opds' (take_operand c opd st))"
    using 3 opd(3) by simp
  also have "take_operands (operand_letters_of args) opds' (take_operand c opd st)
      = take_operands (operand_letters_of (c # d # args)) opds st"
    using 3(2) opd(1) by (simp add: operand_letters_of_def take_operands_def)
  finally show ?case .
qed

lemma rigel_args_alternating: "list_all alternating rigel_args"
  by (simp add: rigel_args_def)

section \<open>Mnemonics\<close>

lemma rigel_names_plain: "list_all (\<lambda>mo. op_name mo \<noteq> [] \<and> list_all (\<lambda>c. \<not> isspace c) (op_name mo)) mips_builtin_opcodes"
  unfolding mips_builtin_opcodes_def list.pred_inject opcode_sel by (simp add: isspace_def char_code_def)

lemma rigel_first_entry: "i < 138 \<Longrightarrow> first_entry mips_builtin_opcodes (op_name (mips_builtin_opcodes ! i)) = Some i"
proof -
  assume i: "i < 138"
  obtain j where j: "first_entry mips_builtin_opcodes (op_name (mips_builtin_opcodes ! i)) = Some j"
    using i first_entry_dom [of mips_builtin_opcodes] rigel_nth_mem [OF i] by (metis domD imageI)
  then have "j < 138" "map op_name mips_builtin_opcodes ! j = map op_name mips_builtin_opcodes ! i"
    using i by (auto simp: first_entry_def rigel_length dest!: find_index_SomeD)
  then show ?thesis
    using i j nth_eq_iff_index_eq [OF rigel_names_distinct, of j i] by (simp add: rigel_length)
qed

lemma rigel_mnemonic:
  assumes "i < 138" and "s = [] \<or> s = CHR '' '' # t"
  shows "find_mnemonic (first_entry mips_builtin_opcodes) (op_name (mips_builtin_opcodes ! i) @ s) = Some (i, drop 1 s)"
proof -
  let ?n = "op_name (mips_builtin_opcodes ! i)"
  have n: "\<forall>c\<in>set ?n. \<not> isspace c" using rigel_names_plain rigel_nth_mem [OF assms(1)] by (auto simp: list_all_iff)
  have "isspace (CHR '' '')" by (simp add: isspace_def char_code_def)
  then have "takeWhile (\<lambda>c. \<not> isspace c) (?n @ s) = ?n" "dropWhile (\<lambda>c. \<not> isspace c) (?n @ s) = s"
    using n assms(2) by (auto simp: takeWhile_append dropWhile_append takeWhile_eq_all_conv)
  then show ?thesis by (simp add: find_mnemonic_def rigel_first_entry [OF assms(1)])
qed

text \<open>A line for an entry: the mnemonic, a blank and the operands.\<close>

definition line_text :: "nat \<Rightarrow> operand_src list \<Rightarrow> cstring" where
  "line_text i opds = op_name (mips_builtin_opcodes ! i) @ (if opds = [] then [] else CHR '' '' # operands_text opds)"

lemma line_parses:
  assumes "registers_known abi (env_regs env)" and "rigel_opts opts" and "i < 138"
    and "list_all2 (operand_ok (env_expr env)) (operand_letters_of (op_args (mips_builtin_opcodes ! i))) opds"
  shows "mips_ip opts env mips_builtin_opcodes (first_entry mips_builtin_opcodes) (line_text i opds) st
    = Ip_done (take_operands (operand_letters_of (op_args (mips_builtin_opcodes ! i))) opds
        (start_entry opts (mips_builtin_opcodes ! i) (st\<lparr>lastpos := 0\<rparr>)))"
proof -
  have "alternating (op_args (mips_builtin_opcodes ! i))"
    using rigel_args_alternating rigel_args_of [OF rigel_nth_mem [OF assms(3)]] by (simp add: list_all_iff)
  moreover have "find_mnemonic (first_entry mips_builtin_opcodes) (line_text i opds) = Some (i, operands_text opds)"
    using rigel_mnemonic [OF assms(3), of "[]"] rigel_mnemonic [OF assms(3), of "CHR '' '' # operands_text opds"]
    by (simp add: line_text_def)
  moreover have "o_mips16 opts = 0" using assms(2) by (simp add: rigel_opts_def)
  ultimately show ?thesis
    using parse_operands [OF assms(1) _ _ assms(4)] by (simp add: rigel_mips_ip [OF assms(2)] ip_result_of_def)
qed

end
