(* ===== verification/Gas_Append.thy ===== *)
theory Gas_Append
  imports Gas_Hazards Gas_Relax Gas_Expr
begin

text \<open>
  \<open>append_insn\<close> (\<open>gas/config/tc-mips.c\<close>), the one way an instruction reaches the output: the nops that hazards ask
  for, the choice of a frag, the constant or the fixups of the operand, the masks of registers used, the
  delay slot of a branch, the history and the labels.

  The state holds the frags of the current section (\<open>frag_store\<close>, and how the closed ones end), its fixups in the
  order of the chain, and the static variables. Assertions, \<open>internalError\<close> and accesses outside an array are
  \<open>None\<close>. The listing and the DWARF line table are left out. Memory is not modelled: \<open>frag_grow\<close> does nothing, and
  the free room of the current frag is a parameter of the one test that reads it.
\<close>

section \<open>State\<close>

text \<open>A symbol of a frag or a fixup: named, or one that \<open>make_expr_symbol\<close> made of an expression.\<close>

datatype any_symbol = Named cstring | Expr_symbol expressionS

record frag_tail =
  ft_subtype :: uint
  ft_symbol :: "any_symbol option"
  ft_offset :: ulong
  ft_fixup :: "nat option"

text \<open>A closed frag: the length of its fixed part, and the variant part of an \<open>rs_machine_dependent\<close> frag.\<close>

record frag_end =
  fe_fix :: nat
  fe_tail :: "frag_tail option"

record fix_info =
  fx_size :: nat
  fx_addsy :: "any_symbol option"
  fx_subsy :: "any_symbol option"
  fx_offset :: ulong
  fx_pcrel :: bool
  fx_r_type :: bfd_reloc
  fx_no_overflow :: bool
  fx_tcbit :: bool

record label_info =
  lb_frag :: nat
  lb_value :: ulong
  lb_mips16 :: bool
  lb_preemptible :: bool        \<comment> \<open>weak, external or in a link-once section\<close>

record prev_nop =
  pn_frag :: nat
  pn_holds :: int
  pn_required :: int
  pn_since :: nat

datatype append_msg =
  Jump_misaligned ulong | Branch_misaligned ulong | Branch_overflow ulong | Extended_in_slot | Register_as_expression

record gas_state =
  g_store :: frag_store
  g_now :: nat                       \<comment> \<open>\<open>frag_now\<close>\<close>
  g_ends :: "nat \<Rightarrow> frag_end option"  \<comment> \<open>closed frags; the next number is fresh\<close>
  g_fixes :: "fix_info list"
  g_history :: "mips_cl_insn list"
  g_nop :: mips_cl_insn              \<comment> \<open>\<open>*NOP_INSN\<close>\<close>
  g_prev_nop :: "prev_nop option"
  g_gprmask :: ulong
  g_cprmask1 :: ulong
  g_labels :: "nat list"             \<comment> \<open>\<open>label_list\<close>\<close>
  g_label :: "nat \<Rightarrow> label_info"
  g_sequence :: nat                  \<comment> \<open>\<open>mips_relax\<close>\<close>
  g_sizes :: "nat \<times> nat"
  g_first_fixup :: "nat option"
  g_relax_symbol :: "any_symbol option"
  g_warn_sizes :: "nat \<times> nat"        \<comment> \<open>\<open>mips_macro_warning\<close>\<close>
  g_warn_frag :: "nat option"
  g_hi_fixups :: "nat list"
  g_jump16 :: "any_symbol list"      \<comment> \<open>symbols of mips16 jumps\<close>
  g_msgs :: "append_msg list"

text \<open>Command line options, the byte order, the relocations of the output format, and the free room.\<close>

record append_env =
  a_optimize :: int
  a_relax_branch :: bool
  a_pic :: mips_pic_level
  a_abi :: mips_abi_level
  a_big :: bool
  a_fix :: fix_flags
  a_small :: bool
  a_ext :: bool
  a_reloc_size :: "bfd_reloc \<Rightarrow> nat"
  a_partial_inplace :: "bfd_reloc \<Rightarrow> bool"
  a_room :: "gas_state \<Rightarrow> nat"

definition tell :: "append_msg list \<Rightarrow> gas_state \<Rightarrow> gas_state" where
  "tell ms g = g\<lparr>g_msgs := g_msgs g @ ms\<rparr>"

section \<open>Frags\<close>

definition emit_fixed :: "mips_set_options \<Rightarrow> append_env \<Rightarrow> mips_cl_insn \<Rightarrow> gas_state \<Rightarrow> (mips_cl_insn \<times> gas_state) option" where
  "emit_fixed opts env ip g =
     map_option (\<lambda>(ip', s). (ip', g\<lparr>g_store := s\<rparr>)) (add_fixed_insn opts (a_big env) (g_now g) ip (g_store g))"

definition move_to :: "mips_set_options \<Rightarrow> append_env \<Rightarrow> mips_cl_insn \<Rightarrow> nat \<Rightarrow> nat \<Rightarrow> gas_state
    \<Rightarrow> (mips_cl_insn \<times> gas_state) option" where
  "move_to opts env ip fr at g =
     map_option (\<lambda>(ip', s). (ip', g\<lparr>g_store := s\<rparr>)) (move_insn opts (a_big env) ip fr at (g_store g))"

definition reinstall :: "mips_set_options \<Rightarrow> append_env \<Rightarrow> mips_cl_insn \<Rightarrow> gas_state \<Rightarrow> gas_state option" where
  "reinstall opts env ip g = map_option (\<lambda>s. g\<lparr>g_store := s\<rparr>) (install_insn opts (a_big env) ip (g_store g))"

text \<open>\<open>frag_now_fix\<close>, \<open>frag_new\<close> and \<open>frag_var\<close>. The new frag has the next number.\<close>

definition now_fix :: "gas_state \<Rightarrow> nat option" where
  "now_fix g = map_option length (fr_literal (g_store g) (g_now g))"

definition frag_new :: "nat \<Rightarrow> frag_tail option \<Rightarrow> gas_state \<Rightarrow> gas_state option" where
  "frag_new old_var tail g = map_option (\<lambda>n.
     (let now = Suc (g_now g) in
      g\<lparr>g_ends := (g_ends g)(g_now g \<mapsto> \<lparr>fe_fix = n - old_var, fe_tail = tail\<rparr>), g_now := now,
        g_store := (g_store g)\<lparr>fr_literal := (fr_literal (g_store g))(now \<mapsto> [])\<rparr>\<rparr>)) (now_fix g)"

definition frag_var :: "nat \<Rightarrow> frag_tail \<Rightarrow> gas_state \<Rightarrow> gas_state option" where
  "frag_var max_chars tail g =
     do { (_, s) \<leftarrow> frag_more (g_now g) max_chars (g_store g);
          frag_new max_chars (Some tail) (g\<lparr>g_store := s\<rparr>) }"

text \<open>\<open>add_relaxed_insn\<close>: the instruction is written into the room that \<open>frag_var\<close> then takes.\<close>

definition add_relaxed_insn :: "mips_set_options \<Rightarrow> append_env \<Rightarrow> mips_cl_insn \<Rightarrow> nat \<Rightarrow> uint \<Rightarrow> any_symbol option
    \<Rightarrow> ulong \<Rightarrow> gas_state \<Rightarrow> (mips_cl_insn \<times> gas_state) option" where
  "add_relaxed_insn opts env ip max_chars subtype symb offset g =
     do { (at, s) \<leftarrow> frag_more (g_now g) max_chars (g_store g);
          (ip', g') \<leftarrow> move_to opts env ip (g_now g) at (g\<lparr>g_store := s\<rparr>);
          g'' \<leftarrow> frag_new max_chars (Some \<lparr>ft_subtype = subtype, ft_symbol = symb, ft_offset = offset,
                    ft_fixup = None\<rparr>) g';
          Some (ip'\<lparr>fixed_p := True\<rparr>, g'') }"

definition relax_close_frag :: "gas_state \<Rightarrow> gas_state option" where
  "relax_close_frag g = map_option (\<lambda>g'. g'\<lparr>g_sizes := (0, 0), g_first_fixup := None\<rparr>)
     (frag_var 0 \<lparr>ft_subtype = RELAX_ENCODE (word_of_nat (fst (g_sizes g))) (word_of_nat (snd (g_sizes g))),
        ft_symbol = g_relax_symbol g, ft_offset = 0, ft_fixup = g_first_fixup g\<rparr> (g\<lparr>g_warn_frag := Some (g_now g)\<rparr>))"

definition shrink_frag :: "nat \<Rightarrow> nat \<Rightarrow> gas_state \<Rightarrow> gas_state" where
  "shrink_frag fr n g = g\<lparr>g_ends := (g_ends g)(fr := map_option (\<lambda>e. e\<lparr>fe_fix := fe_fix e - n\<rparr>) (g_ends g fr))\<rparr>"

section \<open>Labels and nops\<close>

definition mips_move_labels :: "mips_set_options \<Rightarrow> gas_state \<Rightarrow> gas_state option" where
  "mips_move_labels opts g = map_option (\<lambda>n. g\<lparr>g_label := (\<lambda>l. if l \<in> set (g_labels g)
       then (g_label g l)\<lparr>lb_frag := g_now g, lb_value := word_of_nat (n + (if o_mips16 opts \<noteq> 0 then 1 else 0))\<rparr>
       else g_label g l)\<rparr>) (now_fix g)"

definition mips16_mark_labels :: "mips_set_options \<Rightarrow> gas_state \<Rightarrow> gas_state" where
  "mips16_mark_labels opts g =
     (if o_mips16 opts = 0 then g
      else g\<lparr>g_label := (\<lambda>l. if l \<in> set (g_labels g)
          then (let i = g_label g l in i\<lparr>lb_mips16 := True,
                  lb_value := (if lb_value i AND 1 = 0 \<and> \<not> lb_preemptible i then lb_value i OR 1 else lb_value i)\<rparr>)
          else g_label g l)\<rparr>)"

definition mips_clear_insn_labels :: "gas_state \<Rightarrow> gas_state" where
  "mips_clear_insn_labels g = g\<lparr>g_labels := []\<rparr>"

definition record_insn :: "nat \<Rightarrow> nat \<Rightarrow> mips_cl_insn \<Rightarrow> gas_state \<Rightarrow> gas_state" where
  "record_insn first n ip g = g\<lparr>g_history := insert_into_history (g_sequence g) first n ip (g_history g)\<rparr>"

text \<open>\<open>add_fixed_insn (NOP_INSN)\<close> moves the nop itself, so what the history then records has its position.\<close>

definition add_nop :: "mips_set_options \<Rightarrow> append_env \<Rightarrow> gas_state \<Rightarrow> gas_state option" where
  "add_nop opts env g = map_option (\<lambda>(n, g'). g'\<lparr>g_nop := n\<rparr>) (emit_fixed opts env (g_nop g) g)"

definition emit_nop :: "mips_set_options \<Rightarrow> append_env \<Rightarrow> gas_state \<Rightarrow> gas_state option" where
  "emit_nop opts env g = map_option (\<lambda>g'. record_insn 0 1 (g_nop g') g') (add_nop opts env g)"

fun repeat_opt :: "nat \<Rightarrow> ('s \<Rightarrow> 's option) \<Rightarrow> 's \<Rightarrow> 's option" where
  "repeat_opt 0 f s = Some s"
| "repeat_opt (Suc n) f s = Option.bind (f s) (repeat_opt n f)"

definition mips_no_prev_insn :: "gas_state \<Rightarrow> gas_state" where
  "mips_no_prev_insn g = mips_clear_insn_labels
     (record_insn 0 (length (g_history g)) (g_nop g) (g\<lparr>g_prev_nop := None\<rparr>))"

definition mips_emit_delays :: "mips_set_options \<Rightarrow> append_env \<Rightarrow> gas_state \<Rightarrow> gas_state option" where
  "mips_emit_delays opts env g =
     (if o_noreorder opts = 0 then
        do { nops \<leftarrow> nops_for_insn opts (a_fix env) (g_history g) None;
             (if nops > 0 then
                do { g1 \<leftarrow> repeat_opt (nat nops) (add_nop opts env) g;
                     map_option mips_no_prev_insn (mips_move_labels opts g1) }
              else Some (mips_no_prev_insn g)) }
      else Some (mips_no_prev_insn g))"

section \<open>Nops before an instruction\<close>

text \<open>Inside \<open>.set noreorder\<close>, the nops in \<open>prev_nop_frag\<close> that the instruction does not need are taken back.\<close>

definition insn_bytes :: "mips_set_options \<Rightarrow> nat" where
  "insn_bytes opts = (if o_mips16 opts \<noteq> 0 then 2 else 4)"

definition reuse_nops :: "mips_set_options \<Rightarrow> int \<Rightarrow> prev_nop \<Rightarrow> gas_state \<Rightarrow> gas_state option" where
  "reuse_nops opts nops pn g =
     (if pn_holds pn < nops then None
      else
        (let required = (if nops > pn_required pn then nops else pn_required pn)
         in if pn_holds pn = required
            then Some (record_insn (pn_since pn) (nat (pn_holds pn)) (g_nop g) (g\<lparr>g_prev_nop := None\<rparr>))
            else Some ((shrink_frag (pn_frag pn) (insn_bytes opts) g)
              \<lparr>g_prev_nop := Some (pn\<lparr>pn_required := required, pn_holds := pn_holds pn - 1, pn_since := pn_since pn + 1\<rparr>)\<rparr>)))"

definition append_nops :: "mips_set_options \<Rightarrow> append_env \<Rightarrow> mips_cl_insn \<Rightarrow> gas_state \<Rightarrow> gas_state option" where
  "append_nops opts env ip g =
     (if g_sequence g = 2 then Some g
      else if o_noreorder opts = 0 then
        do { nops \<leftarrow> (if a_optimize env = 0 then nops_for_insn opts (a_fix env) (g_history g) None
                     else nops_for_insn_or_target opts (a_fix env) (g_nop g) (g_history g) ip);
             (if nops > 0
              then Option.bind (repeat_opt (nat nops) (emit_nop opts env) g) (mips_move_labels opts)
              else Some g) }
      else (case g_prev_nop g of
              None \<Rightarrow> Some g
            | Some pn \<Rightarrow>
                do { nops \<leftarrow> nops_for_insn_or_target opts (a_fix env) (g_nop g) (g_history g) ip;
                     reuse_nops opts nops pn g }))"

section \<open>The place of an instruction\<close>

definition any_branch :: ulong where "any_branch = INSN_UNCOND_BRANCH_DELAY OR INSN_COND_BRANCH_DELAY OR INSN_COND_BRANCH_LIKELY"

definition relaxes_branch :: "mips_set_options \<Rightarrow> append_env \<Rightarrow> mips_cl_insn \<Rightarrow> expressionS option \<Rightarrow> bfd_reloc \<Rightarrow> bool" where
  "relaxes_branch opts env ip addr reloc \<longleftrightarrow>
     addr \<noteq> None \<and> reloc = BFD_RELOC_16_PCREL_S2 \<and> flag (op_pinfo (insn_mo ip)) any_branch
     \<and> a_relax_branch env \<and> o_warn_about_macros opts = 0 \<and> \<not> (o_noat opts \<noteq> 0 \<and> a_pic env \<noteq> NO_PIC) \<and> o_mips16 opts = 0"

text \<open>The frag of an instruction that is not relaxed, with the sizes that macros keep.\<close>

definition count_sizes :: "gas_state \<Rightarrow> gas_state" where
  "count_sizes g =
     (let (s0, s1) = g_sizes g; (w0, w1) = g_warn_sizes g; q = g_sequence g
      in g\<lparr>g_sizes := (if q = 1 then (s0 + 4, s1) else if q = 0 then (s0, s1) else (s0, s1 + 4)),
           g_warn_sizes := (if q \<noteq> 2 then w0 + 4 else w0, if q \<noteq> 1 then w1 + 4 else w1)\<rparr>)"

definition place_plain :: "mips_set_options \<Rightarrow> append_env \<Rightarrow> ulong \<Rightarrow> mips_cl_insn \<Rightarrow> bfd_reloc \<Rightarrow> gas_state
    \<Rightarrow> (mips_cl_insn \<times> gas_state) option" where
  "place_plain opts env prev_pinfo ip reloc g =
     (let g1 = (if o_mips16 opts \<noteq> 0 \<and> o_noreorder opts \<noteq> 0 \<and> flag prev_pinfo INSN_UNCOND_BRANCH_DELAY
                then tell [Extended_in_slot] g else g);
          ip' = (if o_mips16 opts \<noteq> 0 then ip\<lparr>fixed_p := True, mips16_absolute_jump_p := (reloc = BFD_RELOC_MIPS16_JMP)\<rparr>
                 else ip)
      in do { g2 \<leftarrow> (if g_sequence g1 \<noteq> 0 \<and> a_room env g1 < 4 then relax_close_frag g1 else Some g1);
              emit_fixed opts env ip' (count_sizes g2) })"

text \<open>Which of the four ways; the first field of the result is \<open>relaxed_branch\<close>, the last relocation is what is
  left of \<open>*reloc_type\<close>.\<close>

definition place_insn :: "mips_set_options \<Rightarrow> append_env \<Rightarrow> ulong \<Rightarrow> bool \<Rightarrow> mips_cl_insn \<Rightarrow> expressionS option \<Rightarrow> bfd_reloc
    \<Rightarrow> gas_state \<Rightarrow> (bool \<times> bfd_reloc \<times> mips_cl_insn \<times> gas_state) option" where
  "place_insn opts env prev_pinfo prev_jump ip addr reloc g =
     (let pinfo = op_pinfo (insn_mo ip) in
      if relaxes_branch opts env ip addr reloc then
        (let update = (if flag pinfo INSN_UNCOND_BRANCH_DELAY then - 1 else if flag pinfo INSN_COND_BRANCH_LIKELY then 1 else 0)
         in map_option (\<lambda>(ip', g'). (True, BFD_RELOC_UNUSED, ip', g'))
              (add_relaxed_insn opts env ip (nat (fst (relaxed_branch_length opts (a_pic env) None 0 update)))
                 (RELAX_BRANCH_ENCODE (flag pinfo INSN_UNCOND_BRANCH_DELAY) (flag pinfo INSN_COND_BRANCH_LIKELY)
                    (flag pinfo INSN_WRITE_GPR_31) False)
                 (Option.bind addr (\<lambda>e. map_option Named (X_add_symbol e)))
                 (case addr of Some e \<Rightarrow> X_add_number e | None \<Rightarrow> 0) g))
      else (case reloc of
          BFD_RELOC_UNUSED_PLUS c \<Rightarrow>
            (if o_mips16 opts \<noteq> 0 \<and> addr \<noteq> None then
               map_option (\<lambda>(ip', g'). (False, reloc, ip', g'))
                 (add_relaxed_insn opts env ip 4
                    (RELAX_MIPS16_ENCODE (word_of_nat (char_code c)) (a_small env) (a_ext env)
                       (flag prev_pinfo INSN_UNCOND_BRANCH_DELAY) prev_jump)
                    (map_option Expr_symbol addr) 0 g)
             else None)
        | _ \<Rightarrow> map_option (\<lambda>(ip', g'). (False, reloc, ip', g'))
            (if o_mips16 opts \<noteq> 0 \<and> \<not> use_extend ip \<and> reloc \<noteq> BFD_RELOC_MIPS16_JMP then emit_fixed opts env ip g
             else place_plain opts env prev_pinfo ip reloc g)))"

section \<open>The operand: a constant or fixups\<close>

datatype const_result = Const_word ulong | Const_reloc | Const_internal_error

definition pcrel_outside :: "ulong \<Rightarrow> bool" where
  "pcrel_outside x \<longleftrightarrow> (x + 0x20000) AND NOT 0x3ffff \<noteq> 0"

definition constant_operand :: "bool \<Rightarrow> bfd_reloc \<Rightarrow> ulong \<Rightarrow> ulong \<Rightarrow> append_msg list \<times> const_result" where
  "constant_operand relax_branch reloc x opc =
     (case reloc of
        BFD_RELOC_32 \<Rightarrow> ([], Const_word (opc OR x))
      | BFD_RELOC_MIPS_HIGHEST \<Rightarrow> ([], Const_word (opc OR (drop_bit 48 (x + 0x800080008000) AND 0xffff)))
      | BFD_RELOC_MIPS_HIGHER \<Rightarrow> ([], Const_word (opc OR (drop_bit 32 (x + 0x80008000) AND 0xffff)))
      | BFD_RELOC_HI16_S \<Rightarrow> ([], Const_word (opc OR (drop_bit 16 (x + 0x8000) AND 0xffff)))
      | BFD_RELOC_HI16 \<Rightarrow> ([], Const_word (opc OR (drop_bit 16 x AND 0xffff)))
      | BFD_RELOC_UNUSED \<Rightarrow> ([], Const_word (opc OR (x AND 0xffff)))
      | BFD_RELOC_LO16 \<Rightarrow> ([], Const_word (opc OR (x AND 0xffff)))
      | BFD_RELOC_MIPS_GOT_DISP \<Rightarrow> ([], Const_word (opc OR (x AND 0xffff)))
      | BFD_RELOC_MIPS_JMP \<Rightarrow>
          (if x AND 3 \<noteq> 0 then [Jump_misaligned x] else [], Const_word (opc OR (drop_bit 2 x AND 0x3ffffff)))
      | BFD_RELOC_MIPS16_JMP \<Rightarrow>
          (if x AND 3 \<noteq> 0 then [Jump_misaligned x] else [],
           Const_word (opc OR (push_bit 3 (x AND 0x7c0000) OR drop_bit 7 (x AND 0xf800000) OR drop_bit 2 (x AND 0x3fffc))))
      | BFD_RELOC_16_PCREL_S2 \<Rightarrow>
          (let m = (if x AND 3 \<noteq> 0 then [Branch_misaligned x] else [])
           in if relax_branch then (m, Const_reloc)
              else (m @ (if pcrel_outside x then [Branch_overflow x] else []), Const_word (opc OR (drop_bit 2 x AND 0xffff))))
      | _ \<Rightarrow> ([], Const_internal_error))"

text \<open>\<open>fix_new_exp\<close> (\<open>gas/write.c\<close>): the fixup goes to the end of the chain. An \<open>O_add\<close> is first made a symbol.\<close>

definition fix_parts :: "expressionS \<Rightarrow> bfd_reloc \<Rightarrow> any_symbol option \<times> any_symbol option \<times> ulong \<times> bfd_reloc" where
  "fix_parts ex r =
     (let add = map_option Named (X_add_symbol ex); off = X_add_number ex in
      case X_op ex of
        O_absent \<Rightarrow> (None, None, 0, r)
      | O_register \<Rightarrow> (None, None, 0, r)
      | O_symbol_rva \<Rightarrow> (add, None, off, BFD_RELOC_RVA)
      | O_uminus \<Rightarrow> (None, add, off, r)
      | O_subtract \<Rightarrow> (add, map_option Named (X_op_symbol ex), off, r)
      | O_symbol \<Rightarrow> (add, None, off, r)
      | O_constant \<Rightarrow> (None, None, off, r)
      | O_add \<Rightarrow> (Some (Expr_symbol ex), None, 0, r)
      | _ \<Rightarrow> (Some (Expr_symbol ex), None, 0, r))"

definition fix_new :: "nat \<Rightarrow> nat \<Rightarrow> nat \<Rightarrow> any_symbol option \<times> any_symbol option \<times> ulong \<times> bfd_reloc \<Rightarrow> bool \<Rightarrow> gas_state
    \<Rightarrow> nat \<times> gas_state" where
  "fix_new fr at sz parts pcrel g =
     (let (add, sub, off, r) = parts; n = length (g_fixes g)
      in (n, g\<lparr>g_fixes := g_fixes g @ [\<lparr>fx_size = sz, fx_addsy = add, fx_subsy = sub, fx_offset = off, fx_pcrel = pcrel,
                 fx_r_type = r, fx_no_overflow = False, fx_tcbit = False\<rparr>],
               g_store := (g_store g)\<lparr>fixes_of := (fixes_of (g_store g))(n \<mapsto> \<lparr>fx_frag = fr, fx_where = at\<rparr>)\<rparr>\<rparr>))"

definition set_fix :: "nat \<Rightarrow> (fix_info \<Rightarrow> fix_info) \<Rightarrow> gas_state \<Rightarrow> gas_state" where
  "set_fix n f g = g\<lparr>g_fixes := (g_fixes g)[n := f (g_fixes g ! n)]\<rparr>"

definition reloc_needs_lo_p :: "append_env \<Rightarrow> bfd_reloc \<Rightarrow> bool" where
  "reloc_needs_lo_p env r \<longleftrightarrow> \<not> HAVE_NEWABI (a_abi env) \<and> (r = BFD_RELOC_HI16_S \<or> r = BFD_RELOC_MIPS16_HI16_S
     \<or> (r = BFD_RELOC_MIPS_GOT16 \<and> a_pic env \<noteq> VXWORKS_PIC))"

definition fixup_has_matching_lo_p :: "fix_info list \<Rightarrow> nat \<Rightarrow> bool" where
  "fixup_has_matching_lo_p fixes n \<longleftrightarrow> Suc n < length fixes
     \<and> (let f = fixes ! n; f' = fixes ! Suc n in
        (fx_r_type f' = BFD_RELOC_LO16 \<or> fx_r_type f' = BFD_RELOC_MIPS16_LO16)
        \<and> fx_addsy f = fx_addsy f' \<and> fx_offset f = fx_offset f')"

definition note_hi_fixup :: "nat \<Rightarrow> gas_state \<Rightarrow> gas_state" where
  "note_hi_fixup n g = g\<lparr>g_hi_fixups :=
     (case g_hi_fixups g of
        [] \<Rightarrow> [n]
      | h # hs \<Rightarrow> if fixup_has_matching_lo_p (g_fixes g) h then n # hs else n # h # hs)\<rparr>"

definition wide_addend :: "bfd_reloc \<Rightarrow> bool" where
  "wide_addend r \<longleftrightarrow> r \<in> set [BFD_RELOC_16, BFD_RELOC_32, BFD_RELOC_MIPS_JMP, BFD_RELOC_HI16_S, BFD_RELOC_LO16,
     BFD_RELOC_GPREL16, BFD_RELOC_MIPS_LITERAL, BFD_RELOC_GPREL32, BFD_RELOC_64, BFD_RELOC_CTOR, BFD_RELOC_MIPS_SUB,
     BFD_RELOC_MIPS_HIGHEST, BFD_RELOC_MIPS_HIGHER, BFD_RELOC_MIPS_SCN_DISP, BFD_RELOC_MIPS_REL16,
     BFD_RELOC_MIPS_RELGOT, BFD_RELOC_MIPS16_GPREL, BFD_RELOC_MIPS16_HI16_S, BFD_RELOC_MIPS16_LO16]"

text \<open>The second and third relocations of a compound operator.\<close>

fun extra_fixes :: "nat \<Rightarrow> nat \<Rightarrow> nat \<Rightarrow> nat \<Rightarrow> nat \<Rightarrow> bfd_reloc list \<Rightarrow> mips_cl_insn \<Rightarrow> gas_state \<Rightarrow> mips_cl_insn \<times> gas_state" where
  "extra_fixes fr at sz n0 i [] ip g = (ip, g)"
| "extra_fixes fr at sz n0 i (r # rs) ip g =
     (if r = BFD_RELOC_UNUSED then extra_fixes fr at sz n0 (Suc i) rs ip g
      else
        (let (n, g1) = fix_new fr at sz (None, None, 0, r) False g;
             g2 = set_fix n (\<lambda>f. f\<lparr>fx_tcbit := True\<rparr>) (set_fix n0 (\<lambda>f. f\<lparr>fx_tcbit := True\<rparr>) g1)
         in extra_fixes fr at sz n0 (Suc i) rs (ip\<lparr>insn_fixp := (insn_fixp ip)[i := Some n]\<rparr>) g2))"

definition add_fixups :: "mips_set_options \<Rightarrow> append_env \<Rightarrow> expressionS \<Rightarrow> bfd_reloc list \<Rightarrow> mips_cl_insn \<Rightarrow> gas_state
    \<Rightarrow> (mips_cl_insn \<times> gas_state) option" where
  "add_fixups opts env ex relocs ip g =
     do { fr \<leftarrow> insn_frag ip;
          (let r0 = hd relocs;
               outer = last (r0 # takeWhile (\<lambda>r. r \<noteq> BFD_RELOC_UNUSED) (tl relocs));
               at = insn_where ip; sz = a_reloc_size env outer;
               (n, g1) = fix_new fr at sz (fix_parts ex r0) (r0 = BFD_RELOC_16_PCREL_S2)
                  (if X_op ex = O_register then tell [Register_as_expression] g else g);
               g2 = (case fx_addsy (g_fixes g1 ! n) of
                       Some sy \<Rightarrow> if r0 = BFD_RELOC_MIPS16_JMP then g1\<lparr>g_jump16 := sy # g_jump16 g1\<rparr> else g1
                     | None \<Rightarrow> g1);
               g3 = (if \<not> HAVE_32BIT_GPRS opts \<and> \<not> a_partial_inplace env outer \<and> wide_addend r0
                     then set_fix n (\<lambda>f. f\<lparr>fx_no_overflow := True\<rparr>) g2 else g2);
               g4 = (if g_sequence g3 \<noteq> 0
                     then (if g_first_fixup g3 = None then g3\<lparr>g_first_fixup := Some n\<rparr> else g3)
                     else if reloc_needs_lo_p env r0 then note_hi_fixup n g3 else g3)
           in Some (extra_fixes fr at sz n 1 (tl relocs) (ip\<lparr>insn_fixp := (insn_fixp ip)[0 := Some n]\<rparr>) g4)) }"

text \<open>The operand of the instruction, with \<open>*reloc_type\<close> first in \<open>relocs\<close>.\<close>

definition put_operand :: "mips_set_options \<Rightarrow> append_env \<Rightarrow> expressionS option \<Rightarrow> bfd_reloc list \<Rightarrow> mips_cl_insn \<Rightarrow> gas_state
    \<Rightarrow> (mips_cl_insn \<times> gas_state) option" where
  "put_operand opts env addr relocs ip g =
     (case addr of
        None \<Rightarrow> Some (ip, g)
      | Some ex \<Rightarrow>
          if reloc_above_unused (hd relocs) then Some (ip, g)
          else if X_op ex = O_constant then
            (case constant_operand (a_relax_branch env) (hd relocs) (X_add_number ex) (insn_opcode ip) of
               (ms, Const_word w) \<Rightarrow> Some (ip\<lparr>insn_opcode := w\<rparr>, tell ms g)
             | (ms, Const_reloc) \<Rightarrow> add_fixups opts env ex relocs ip (tell ms g)
             | (ms, Const_internal_error) \<Rightarrow> None)
          else if reloc_below_unused (hd relocs) then add_fixups opts env ex relocs ip g
          else Some (ip, g))"

section \<open>Masks of the registers used\<close>

text \<open>\<open>1 << r\<close> is an \<open>int\<close>, and the masks are \<open>unsigned long\<close>: the bit of register 31 extends to the upper half.\<close>

definition bit_of :: "ulong \<Rightarrow> ulong" where "bit_of r = scast (push_bit (unat r) 1 :: uint)"

definition mask_when :: "bool \<Rightarrow> ulong \<Rightarrow> ulong \<Rightarrow> ulong" where
  "mask_when b r m = (if b then m OR bit_of r else m)"

definition note_registers :: "mips_set_options \<Rightarrow> mips_cl_insn \<Rightarrow> gas_state \<Rightarrow> gas_state" where
  "note_registers opts ip g =
     (let p = op_pinfo (insn_mo ip); x = (\<lambda>f. EXTRACT_OPERAND f ip) in
      if o_mips16 opts = 0 then
        g\<lparr>g_gprmask :=
            ((mask_when (flag p INSN_WRITE_GPR_31) RA
             \<circ> mask_when (flag p INSN_READ_GPR_S) (x F_RS)
             \<circ> mask_when (flag p (INSN_WRITE_GPR_T OR INSN_READ_GPR_T)) (x F_RT)
             \<circ> mask_when (flag p INSN_WRITE_GPR_D) (x F_RD)) (g_gprmask g)) AND NOT 1,
          g_cprmask1 :=
            (mask_when (flag p INSN_READ_FPR_R) (x F_FR)
             \<circ> mask_when (flag p (INSN_WRITE_FPR_T OR INSN_READ_FPR_T)) (x F_FT)
             \<circ> mask_when (flag p (INSN_WRITE_FPR_S OR INSN_READ_FPR_S)) (x F_FS)
             \<circ> mask_when (flag p INSN_WRITE_FPR_D) (x F_FD)) (g_cprmask1 g)\<rparr>
      else
        g\<lparr>g_gprmask :=
            (mask_when (flag p MIPS16_INSN_READ_GPR_X) (x F16_REGR32)
             \<circ> mask_when (flag p MIPS16_INSN_READ_Z) (x F16_MOVE32Z)
             \<circ> mask_when (flag p MIPS16_INSN_WRITE_GPR_Y) (MIPS16OP_EXTRACT_REG32R (insn_opcode ip))
             \<circ> mask_when (flag p (MIPS16_INSN_WRITE_31 OR MIPS16_INSN_READ_31)) RA
             \<circ> mask_when (flag p (MIPS16_INSN_WRITE_SP OR MIPS16_INSN_READ_SP)) SP
             \<circ> mask_when (flag p (MIPS16_INSN_WRITE_T OR MIPS16_INSN_READ_T)) TREG
             \<circ> mask_when (flag p MIPS16_INSN_WRITE_Z) (x F16_RZ)
             \<circ> mask_when (flag p (MIPS16_INSN_WRITE_Y OR MIPS16_INSN_READ_Y)) (x F16_RY)
             \<circ> mask_when (flag p (MIPS16_INSN_WRITE_X OR MIPS16_INSN_READ_X)) (x F16_RX)) (g_gprmask g)\<rparr>)"

section \<open>The delay slot of a branch\<close>

definition or_else :: "bool option \<Rightarrow> bool option \<Rightarrow> bool option" where
  "or_else a b = do { x \<leftarrow> a; if x then Some True else b }"

definition any_true :: "bool option list \<Rightarrow> bool option" where
  "any_true cs = foldr or_else cs (Some False)"

definition and_then :: "bool \<Rightarrow> bool option \<Rightarrow> bool option" where
  "and_then b r = (if b then r else Some False)"

definition reads_gpr :: "mips_set_options \<Rightarrow> mips_cl_insn \<Rightarrow> ulong \<Rightarrow> bool option" where
  "reads_gpr opts ip r = insn_uses_reg opts ip r MIPS_GR_REG"

text \<open>Conflicts between the branch and the instruction before it, for 32 bit code and for mips16; \<open>pp\<close> and \<open>p\<close>
  are the flags of the two.\<close>

definition conflict32 :: "mips_set_options \<Rightarrow> ulong \<Rightarrow> ulong \<Rightarrow> mips_cl_insn \<Rightarrow> mips_cl_insn \<Rightarrow> bool option" where
  "conflict32 opts pp p prev ip =
     (let rt = EXTRACT_OPERAND F_RT prev; rd = EXTRACT_OPERAND F_RD prev; brd = EXTRACT_OPERAND F_RD ip in
      any_true [and_then (flag pp INSN_WRITE_GPR_T) (reads_gpr opts ip rt),
        and_then (flag pp INSN_WRITE_GPR_D) (reads_gpr opts ip rd),
        Some (flag pp INSN_WRITE_GPR_T \<and> (flag p INSN_WRITE_GPR_D \<and> rt = brd \<or> flag p INSN_WRITE_GPR_31 \<and> rt = RA)),
        Some (flag pp INSN_WRITE_GPR_D \<and> (flag p INSN_WRITE_GPR_D \<and> rd = brd \<or> flag p INSN_WRITE_GPR_31 \<and> rd = RA)),
        and_then (flag p INSN_WRITE_GPR_D) (reads_gpr opts prev brd),
        and_then (flag p INSN_WRITE_GPR_31) (reads_gpr opts prev RA)])"

definition conflict16 :: "mips_set_options \<Rightarrow> ulong \<Rightarrow> ulong \<Rightarrow> mips_cl_insn \<Rightarrow> mips_cl_insn \<Rightarrow> bool option" where
  "conflict16 opts pp p prev ip =
     (let r32 = MIPS16OP_EXTRACT_REG32R (insn_opcode prev) in
      any_true [and_then (flag pp MIPS16_INSN_WRITE_X) (insn_uses_reg opts ip (EXTRACT_OPERAND F16_RX prev) MIPS16_REG),
        and_then (flag pp MIPS16_INSN_WRITE_Y) (insn_uses_reg opts ip (EXTRACT_OPERAND F16_RY prev) MIPS16_REG),
        and_then (flag pp MIPS16_INSN_WRITE_Z) (insn_uses_reg opts ip (EXTRACT_OPERAND F16_RZ prev) MIPS16_REG),
        and_then (flag pp MIPS16_INSN_WRITE_T) (reads_gpr opts ip TREG),
        and_then (flag pp MIPS16_INSN_WRITE_31) (reads_gpr opts ip RA),
        and_then (flag pp MIPS16_INSN_WRITE_GPR_Y) (reads_gpr opts ip r32),
        Some (flag p MIPS16_INSN_WRITE_31 \<and> (flag pp MIPS16_INSN_WRITE_31 \<or> flag pp MIPS16_INSN_WRITE_GPR_Y \<and> r32 = RA)),
        and_then (flag p MIPS16_INSN_WRITE_31) (reads_gpr opts prev RA),
        Some (flag pp MIPS16_INSN_READ_PC),
        Some (nth_opt (insn_fixp prev) 0 \<noteq> Some None)])"

definition swap_refused :: "mips_set_options \<Rightarrow> append_env \<Rightarrow> ulong \<Rightarrow> bool \<Rightarrow> mips_cl_insn \<Rightarrow> gas_state \<Rightarrow> bool option" where
  "swap_refused opts env pp variant ip g =
     do { prev \<leftarrow> nth_opt (g_history g) 0;
          prev2 \<leftarrow> nth_opt (g_history g) 1;
          (let p = op_pinfo (insn_mo ip); older = tl (g_history g) in
           any_true [Some (a_optimize env < 2 \<or> o_nomove opts \<noteq> 0 \<or> fixed_p prev \<or> noreorder_p prev2 \<or> g_labels g \<noteq> []
               \<or> o_mips16 opts = 0 \<and> variant),
             map_option (\<lambda>n. n > 0) (nops_for_insn opts (a_fix env) older (Some ip)),
             map_option (\<lambda>n. n > 0) (nops_for_sequence opts (a_fix env) older [ip, prev]),
             Some (flag pp INSN_TRAP),
             (if o_mips16 opts = 0 then conflict32 opts pp p prev ip else conflict16 opts pp p prev ip),
             Some (flag p INSN_READ_COND_CODE \<and> flag pp INSN_WRITE_COND_CODE
               \<or> flag p INSN_WRITE_COND_CODE \<and> flag pp INSN_READ_COND_CODE),
             Some (flag pp INSN_SYNC)]) }"

text \<open>The swap: the branch goes first.\<close>

definition swap_insns :: "mips_set_options \<Rightarrow> append_env \<Rightarrow> bool \<Rightarrow> mips_cl_insn \<Rightarrow> gas_state \<Rightarrow> gas_state option" where
  "swap_insns opts env relaxed ip g =
     do { delay \<leftarrow> nth_opt (g_history g) 0;
          dfr \<leftarrow> insn_frag delay;
          ifr \<leftarrow> insn_frag ip;
          (delay', ip', g') \<leftarrow>
            (if o_mips16 opts \<noteq> 0 then
               do { (i, g1) \<leftarrow> move_to opts env ip dfr (insn_where delay) g;
                    (d, g2) \<leftarrow> move_to opts env delay dfr (insn_where i + insn_length opts i) g1;
                    Some (d, i, g2) }
             else if relaxed then
               (let g0 = shrink_frag dfr 4 g in
                do { (i, g1) \<leftarrow> (if dfr = ifr then move_to opts env ip ifr (insn_where ip - 4) g0 else Some (ip, g0));
                     (d, g2) \<leftarrow> emit_fixed opts env delay g1;
                     Some (d, i, g2) })
             else
               do { (d, g1) \<leftarrow> move_to opts env delay ifr (insn_where ip) g;
                    (i, g2) \<leftarrow> move_to opts env ip dfr (insn_where delay) g1;
                    Some (d, i, g2) });
          Some (record_insn 0 1 (delay'\<lparr>fixed_p := True\<rparr>) (g'\<lparr>g_history := (g_history g')[0 := ip']\<rparr>)) }"

definition fill_slot :: "mips_set_options \<Rightarrow> append_env \<Rightarrow> ulong \<Rightarrow> bool \<Rightarrow> bool \<Rightarrow> mips_cl_insn \<Rightarrow> gas_state \<Rightarrow> gas_state option" where
  "fill_slot opts env pp variant relaxed ip g =
     (let p = op_pinfo (insn_mo ip) in
      do { refused \<leftarrow> swap_refused opts env pp variant ip g;
           g1 \<leftarrow> (if refused then
               map_option (\<lambda>g'. if g_sequence g' \<noteq> 0 then g'\<lparr>g_sizes := (fst (g_sizes g') + 4, snd (g_sizes g'))\<rparr> else g')
                 (if o_mips16 opts \<noteq> 0 \<and> flag p INSN_UNCOND_BRANCH_DELAY
                     \<and> flag p (MIPS16_INSN_READ_X OR MIPS16_INSN_READ_31) \<and> ISA_SUPPORTS_MIPS16E opts
                  then (let ip' = ip\<lparr>insn_opcode := insn_opcode ip OR 0x80\<rparr>
                        in map_option (record_insn 0 1 ip') (reinstall opts env ip' g))
                  else emit_nop opts env (record_insn 0 1 ip g))
             else swap_insns opts env relaxed ip g);
           Some (if flag p INSN_UNCOND_BRANCH_DELAY then mips_no_prev_insn g1 else g1) })"

section \<open>\<open>append_insn\<close>\<close>

definition in_variant_frag :: "gas_state \<Rightarrow> mips_cl_insn \<Rightarrow> bool" where
  "in_variant_frag g ip = (case insn_frag ip of
       None \<Rightarrow> False
     | Some fr \<Rightarrow> (case g_ends g fr of None \<Rightarrow> False | Some e \<Rightarrow> fe_tail e \<noteq> None))"

definition finish_insn :: "mips_set_options \<Rightarrow> append_env \<Rightarrow> ulong \<Rightarrow> bool \<Rightarrow> bool \<Rightarrow> mips_cl_insn \<Rightarrow> gas_state \<Rightarrow> gas_state option" where
  "finish_insn opts env pp variant relaxed ip g =
     (let p = op_pinfo (insn_mo ip) in
      if g_sequence g \<noteq> 2 \<and> o_noreorder opts = 0 then
        (if flag p INSN_UNCOND_BRANCH_DELAY \<or> flag p INSN_COND_BRANCH_DELAY then fill_slot opts env pp variant relaxed ip g
         else if flag p INSN_COND_BRANCH_LIKELY then emit_nop opts env (record_insn 0 1 ip g)
         else Some (record_insn 0 1 ip g))
      else Some (record_insn 0 1 ip g))"

definition append_insn :: "mips_set_options \<Rightarrow> append_env \<Rightarrow> mips_cl_insn \<Rightarrow> expressionS option \<Rightarrow> bfd_reloc list
    \<Rightarrow> gas_state \<Rightarrow> gas_state option" where
  "append_insn opts env ip addr relocs g =
     do { prev \<leftarrow> nth_opt (g_history g) 0;
          g1 \<leftarrow> append_nops opts env ip (mips16_mark_labels opts g);
          prev' \<leftarrow> nth_opt (g_history g1) 0;
          (relaxed, r0, ip1, g2) \<leftarrow> place_insn opts env (op_pinfo (insn_mo prev)) (mips16_absolute_jump_p prev') ip addr
             (hd relocs) g1;
          (ip2, g3) \<leftarrow> put_operand opts env addr (r0 # tl relocs) ip1 g2;
          g4 \<leftarrow> reinstall opts env ip2 g3;
          g5 \<leftarrow> finish_insn opts env (op_pinfo (insn_mo prev)) (in_variant_frag g1 prev') relaxed ip2
             (note_registers opts ip2 g4);
          Some (mips_clear_insn_labels g5) }"

section \<open>Blocks of \<open>.set noreorder\<close>\<close>

definition start_noreorder :: "mips_set_options \<Rightarrow> append_env \<Rightarrow> gas_state \<Rightarrow> (mips_set_options \<times> gas_state) option" where
  "start_noreorder opts env g =
     map_option (\<lambda>g'. (opts\<lparr>o_noreorder := o_noreorder opts + 1\<rparr>, g'))
       (if o_noreorder opts = 0 then
          (let g0 = g\<lparr>g_history := map (\<lambda>i. i\<lparr>fixed_p := True\<rparr>) (g_history g)\<rparr> in
           do { nops \<leftarrow> nops_for_insn opts (a_fix env) (g_history g0) None;
                g3 \<leftarrow> (if nops > 0 then
                    do { g2 \<leftarrow> repeat_opt (nat nops) (add_nop opts env)
                           (if a_optimize env \<noteq> 0
                            then g0\<lparr>g_prev_nop := Some \<lparr>pn_frag = g_now g0, pn_holds = nops, pn_required = 0, pn_since = 0\<rparr>\<rparr>
                            else g0);
                         Option.bind (frag_new 0 None g2) (mips_move_labels opts) }
                  else Some g0);
                Some (mips_clear_insn_labels (mips16_mark_labels opts g3)) })
        else Some g)"

definition end_noreorder :: "mips_set_options \<Rightarrow> gas_state \<Rightarrow> mips_set_options \<times> gas_state" where
  "end_noreorder opts g =
     (let opts' = opts\<lparr>o_noreorder := o_noreorder opts - 1\<rparr> in
      (opts', if o_noreorder opts' = 0
              then (case g_prev_nop g of
                      None \<Rightarrow> g
                    | Some pn \<Rightarrow> (record_insn (pn_since pn) (nat (pn_required pn)) (g_nop g)
                        (shrink_frag (pn_frag pn) (nat (pn_holds pn - pn_required pn) * insn_bytes opts) g))\<lparr>g_prev_nop := None\<rparr>)
              else g))"

end
