(* ===== verification/Rigel_Assemble.thy ===== *)
theory Rigel_Assemble
  imports Rigel_Parse Gas_Append
begin

text \<open>
  \<open>md_assemble\<close> (\<open>gas/config/tc-mips.c\<close>), a line of text to bytes in a frag, and what it comes to for Rigel code:
  \<open>append_insn\<close> puts one word at the end of the current frag and nothing else.
\<close>

section \<open>Rewriting the last instruction\<close>

lemma install_rewrites:
  assumes "o_mips16 opts = 0" and "insn_frag ip = Some fr" and "insn_where ip = length mem"
    and "fr_literal st fr = Some (mem @ bs)" and "length bs = 4"
  shows "\<exists>bs'. install_insn opts big ip st = Some (st\<lparr>fr_literal := (fr_literal st)(fr \<mapsto> mem @ bs')\<rparr>)
    \<and> length bs' = 4 \<and> bfd_get_32 big bs' = take_bit 32 (insn_opcode ip)"
proof -
  obtain mem' where m: "store_number big (length mem) (insn_opcode ip) 4 (mem @ bs) = Some mem'"
      "length mem' = length (mem @ bs)"
      "bfd_get_32 big (take 4 (drop (length mem) mem')) = take_bit 32 (insn_opcode ip)"
      "\<And>i. i < length mem \<or> length mem + 4 \<le> i \<Longrightarrow> mem' ! i = (mem @ bs) ! i"
    by (rule store_number_32 [of "length mem" "mem @ bs" big "insn_opcode ip"]) (use assms(5) in auto)
  have "take (length mem) mem' = mem"
    using m(2,4) assms(5) by (intro take_append_zeros [of _ _ 4]) (auto simp: nth_append)
  then have "mem' = mem @ drop (length mem) mem'" by (metis append_take_drop_id)
  moreover have "length (drop (length mem) mem') = 4" using m(2) assms(5) by simp
  ultimately show ?thesis
    using m(1,3) assms by (intro exI [of _ "drop (length mem) mem'"]) (simp add: install_insn_def install_bytes_def)
qed

section \<open>Appending a Rigel instruction\<close>

text \<open>An instruction without fixups of its own leaves those of the section where they are.\<close>

definition no_fixups :: "mips_cl_insn \<Rightarrow> bool" where
  "no_fixups ip \<longleftrightarrow> set (insn_fixp ip) \<subseteq> {None}"

lemma move_no_fixups: "set ps \<subseteq> {None} \<Longrightarrow> move_fixups fr at ps fx = fx"
  by (induction fr at ps fx rule: move_fixups.induct) simp_all

lemma add_fixed_no_fixups:
  "add_fixed_insn opts big fr ip st = Some (ip', st') \<Longrightarrow> no_fixups ip \<Longrightarrow> fixes_of st' = fixes_of st"
  by (auto simp: add_fixed_insn_def frag_more_def move_insn_def install_insn_def no_fixups_def move_no_fixups
      Option.bind_eq_Some_conv Let_def)

definition quiet_state :: "gas_state \<Rightarrow> bool" where
  "quiet_state g \<longleftrightarrow> (\<forall>h\<in>set (g_history g). no_hazard (insn_mo h)) \<and> length (g_history g) = 5
     \<and> g_sequence g = 0 \<and> g_prev_nop g = None"

lemma quiet_nops:
  assumes "quiet_state g" and "no_hazard (insn_mo ip)" and "o_mips16 opts = 0"
  shows "append_nops opts env ip g = Some g"
  using assms no_hazard_nops_for_insn [of "g_history g" opts "a_fix env"] no_hazard_flags(8) [OF assms(2)]
  by (simp add: quiet_state_def append_nops_def nops_for_insn_or_target_def MAX_NOPS_def Let_def)

lemma quiet_flags:
  assumes "no_hazard mo"
  shows "\<not> flag (op_pinfo mo) INSN_UNCOND_BRANCH_DELAY" "\<not> flag (op_pinfo mo) INSN_COND_BRANCH_DELAY"
    "\<not> flag (op_pinfo mo) INSN_COND_BRANCH_LIKELY" "\<not> flag (op_pinfo mo) any_branch"
  by (rule no_hazard_flag [OF assms]; simp add: delay_flags_value rigel_const any_branch_def)+

lemma quiet_finish:
  assumes "no_hazard (insn_mo ip)"
  shows "finish_insn opts env pp variant relaxed ip g = Some (record_insn 0 1 ip g)"
  using quiet_flags [OF assms] by (simp add: finish_insn_def Let_def)

lemma count_sizes_keeps [simp]:
  "g_history (count_sizes g) = g_history g" "g_now (count_sizes g) = g_now g" "g_sequence (count_sizes g) = g_sequence g"
  "g_prev_nop (count_sizes g) = g_prev_nop g" "g_msgs (count_sizes g) = g_msgs g" "g_fixes (count_sizes g) = g_fixes g"
  "g_ends (count_sizes g) = g_ends g" "g_store (count_sizes g) = g_store g"
  by (simp_all add: count_sizes_def Let_def split: prod.split)

text \<open>The place: the end of the current frag.\<close>

definition placed :: "mips_cl_insn \<Rightarrow> gas_state \<Rightarrow> nat \<Rightarrow> mips_cl_insn" where
  "placed ip g at = ip\<lparr>insn_frag := Some (g_now g), insn_where := at\<rparr>"

lemma quiet_place:
  assumes "quiet_state g" and "no_hazard (insn_mo ip)" and "o_mips16 opts = 0" and "\<not> reloc_above_unused r"
    and "fr_literal (g_store g) (g_now g) = Some mem"
  obtains s bs where "place_insn opts env pp pj ip addr r g = Some (False, r, placed ip g (length mem),
      (count_sizes g)\<lparr>g_store := s\<rparr>)"
    and "fr_literal s (g_now g) = Some (mem @ bs)" and "length bs = 4"
    and "\<forall>fr. fr \<noteq> g_now g \<longrightarrow> fr_literal s fr = fr_literal (g_store g) fr"
    and "no_fixups ip \<longrightarrow> fixes_of s = fixes_of (g_store g)"
proof -
  obtain ip' s bs where a: "add_fixed_insn opts (a_big env) (g_now g) ip (g_store g) = Some (ip', s)"
      "fr_literal s (g_now g) = Some (mem @ bs)" "length bs = 4"
      "\<forall>fr. fr \<noteq> g_now g \<longrightarrow> fr_literal s fr = fr_literal (g_store g) fr" "ip' = placed ip g (length mem)"
    using add_fixed_insn_appends [OF assms(3,5), of "a_big env" ip] unfolding placed_def by blast
  have "place_plain opts env pp ip r g = Some (placed ip g (length mem), (count_sizes g)\<lparr>g_store := s\<rparr>)"
    using assms(1,3) a(1,5) by (simp add: place_plain_def emit_fixed_def quiet_state_def Let_def)
  moreover have "\<not> relaxes_branch opts env ip addr r" using quiet_flags(4) [OF assms(2)] by (simp add: relaxes_branch_def)
  ultimately have "place_insn opts env pp pj ip addr r g = Some (False, r, placed ip g (length mem),
      (count_sizes g)\<lparr>g_store := s\<rparr>)"
    using assms(3,4) by (simp add: place_insn_def reloc_above_unused_def Let_def split: bfd_reloc.splits)
  moreover have "no_fixups ip \<longrightarrow> fixes_of s = fixes_of (g_store g)" using add_fixed_no_fixups [OF a(1)] by blast
  ultimately show ?thesis using a(2,3,4) by (intro that)
qed

text \<open>What a constant operand, or none, makes of the word.\<close>

definition operand_word :: "bool \<Rightarrow> expressionS option \<Rightarrow> bfd_reloc \<Rightarrow> ulong \<Rightarrow> (append_msg list \<times> ulong) option" where
  "operand_word relax_branch addr r opc = (case addr of
       None \<Rightarrow> Some ([], opc)
     | Some ex \<Rightarrow> (if X_op ex \<noteq> O_constant then None
         else case constant_operand relax_branch r (X_add_number ex) opc of
             (ms, Const_word w) \<Rightarrow> Some (ms, w) | _ \<Rightarrow> None))"

lemma operand_word_put:
  assumes "operand_word (a_relax_branch env) addr r (insn_opcode ip) = Some (ms, w)"
    and "\<not> reloc_above_unused r"
  shows "put_operand opts env addr (r # rs) ip g = Some (ip\<lparr>insn_opcode := w\<rparr>, tell ms g)"
  using assms by (auto simp: operand_word_def put_operand_def tell_def split: option.splits if_splits prod.splits const_result.splits)

lemma note_registers_keeps [simp]:
  "g_history (note_registers opts ip g) = g_history g" "g_now (note_registers opts ip g) = g_now g"
  "g_sequence (note_registers opts ip g) = g_sequence g" "g_prev_nop (note_registers opts ip g) = g_prev_nop g"
  "g_msgs (note_registers opts ip g) = g_msgs g" "g_fixes (note_registers opts ip g) = g_fixes g"
  "g_ends (note_registers opts ip g) = g_ends g" "g_store (note_registers opts ip g) = g_store g"
  by (simp_all add: note_registers_def Let_def)

lemma insert_history_set: "set (insert_into_history q 0 1 ip hist) \<subseteq> insert ip (set hist)"
proof
  fix x
  assume "x \<in> set (insert_into_history q 0 1 ip hist)"
  then consider "x \<in> set hist" | k where "k < length hist" "x = shift_history 0 1 ip (length hist) hist ! k"
    by (auto simp: insert_into_history_def in_set_conv_nth split: if_splits)
  then show "x \<in> insert ip (set hist)"
    by cases (auto simp: shift_history_nth)
qed

lemma insert_history_length [simp]: "length (insert_into_history q first n ip hist) = length hist"
  by (simp add: insert_into_history_def)

text \<open>What \<open>put_operand\<close> may change on the way: \<open>F\<close>.\<close>

definition operand_effect :: "(gas_state \<Rightarrow> gas_state) \<Rightarrow> bool" where
  "operand_effect F \<longleftrightarrow> (\<forall>g. g_history (F g) = g_history g \<and> g_now (F g) = g_now g \<and> g_sequence (F g) = g_sequence g
     \<and> g_prev_nop (F g) = g_prev_nop g \<and> g_ends (F g) = g_ends g \<and> fr_literal (g_store (F g)) = fr_literal (g_store g))"

lemma quiet_append_via:
  assumes "quiet_state g" and "no_hazard (insn_mo ip)" and "o_mips16 opts = 0"
    and "fr_literal (g_store g) (g_now g) = Some mem" and "\<not> reloc_above_unused r"
    and "operand_effect F" and "insn_mo ip2 = insn_mo ip" and "insn_frag ip2 = Some (g_now g)" and "insn_where ip2 = length mem"
    and "\<And>g1. g_sequence g1 = 0 \<Longrightarrow> g_fixes g1 = g_fixes g \<Longrightarrow>
      put_operand opts env addr (r # rs) (placed ip g (length mem)) g1 = Some (ip2, F g1)"
  shows "\<exists>g' g1 bs. append_insn opts env ip addr (r # rs) g = Some g' \<and> quiet_state g'
    \<and> fr_literal (g_store g') (g_now g) = Some (mem @ bs) \<and> length bs = 4
    \<and> bfd_get_32 (a_big env) bs = take_bit 32 (insn_opcode ip2)
    \<and> (\<forall>fr. fr \<noteq> g_now g \<longrightarrow> fr_literal (g_store g') fr = fr_literal (g_store g) fr)
    \<and> g_now g' = g_now g \<and> g_ends g' = g_ends g \<and> g_labels g' = []
    \<and> g_history g' = insert_into_history 0 0 1 ip2 (g_history g)
    \<and> g_fixes g1 = g_fixes g \<and> g_msgs g1 = g_msgs g \<and> g_fixes g' = g_fixes (F g1) \<and> g_msgs g' = g_msgs (F g1)
    \<and> fixes_of (g_store g') = fixes_of (g_store (F g1)) \<and> (no_fixups ip \<longrightarrow> fixes_of (g_store g1) = fixes_of (g_store g))"
proof -
  obtain prev where prev: "nth_opt (g_history g) 0 = Some prev"
    using assms(1) by (cases "g_history g") (auto simp: quiet_state_def nth_opt_def)
  obtain s bs where p: "place_insn opts env (op_pinfo (insn_mo prev)) (mips16_absolute_jump_p prev) ip addr r g
        = Some (False, r, placed ip g (length mem), (count_sizes g)\<lparr>g_store := s\<rparr>)"
      "fr_literal s (g_now g) = Some (mem @ bs)" "length bs = 4"
      "\<forall>fr. fr \<noteq> g_now g \<longrightarrow> fr_literal s fr = fr_literal (g_store g) fr"
      "no_fixups ip \<longrightarrow> fixes_of s = fixes_of (g_store g)"
    using quiet_place [OF assms(1,2,3,5,4)] by blast
  let ?g2 = "(count_sizes g)\<lparr>g_store := s\<rparr>"
  let ?s3 = "g_store (F ?g2)"
  have o: "put_operand opts env addr (r # rs) (placed ip g (length mem)) ?g2 = Some (ip2, F ?g2)"
    using assms(1) by (intro assms(10)) (simp_all add: quiet_state_def)
  note F = assms(6) [unfolded operand_effect_def, rule_format, of ?g2]
  obtain bs' where i: "install_insn opts (a_big env) ip2 ?s3 = Some (?s3\<lparr>fr_literal := (fr_literal ?s3)(g_now g \<mapsto> mem @ bs')\<rparr>)"
      "length bs' = 4" "bfd_get_32 (a_big env) bs' = take_bit 32 (insn_opcode ip2)"
    using install_rewrites [OF assms(3,8,9), of ?s3 bs "a_big env"] p(2,3) F by auto
  let ?g4 = "(F ?g2)\<lparr>g_store := ?s3\<lparr>fr_literal := (fr_literal ?s3)(g_now g \<mapsto> mem @ bs')\<rparr>\<rparr>"
  let ?g' = "mips_clear_insn_labels (record_insn 0 1 ip2 (note_registers opts ip2 ?g4))"
  have r: "reinstall opts env ip2 (F ?g2) = Some ?g4" using i(1) by (simp add: reinstall_def)
  have f: "finish_insn opts env pp v x ip2 g1 = Some (record_insn 0 1 ip2 g1)" for pp v x g1
    using quiet_finish [of ip2] assms(2,7) by simp
  have "append_insn opts env ip addr (r # rs) g = Some ?g'"
    unfolding append_insn_def mips16_mark_labels_def if_P [OF assms(3)] quiet_nops [OF assms(1,2,3)]
    by (simp add: prev p(1) o r f)
  moreover have "quiet_state ?g'"
    using assms(1,2,7) F insert_history_set [of "g_sequence g" ip2 "g_history g"]
    by (auto simp: quiet_state_def record_insn_def mips_clear_insn_labels_def)
  ultimately show ?thesis
    using i p(4,5) assms(1) F
    by (intro exI [of _ ?g'] exI [of _ ?g2] exI [of _ bs'])
       (simp add: record_insn_def mips_clear_insn_labels_def quiet_state_def)
qed

text \<open>A constant, or no operand.\<close>

lemma quiet_append:
  assumes "quiet_state g" and "no_hazard (insn_mo ip)" and "o_mips16 opts = 0"
    and "fr_literal (g_store g) (g_now g) = Some mem" and "\<not> reloc_above_unused r"
    and "operand_word (a_relax_branch env) addr r (insn_opcode ip) = Some (ms, w)"
  shows "\<exists>g' bs. append_insn opts env ip addr (r # rs) g = Some g' \<and> quiet_state g'
    \<and> fr_literal (g_store g') (g_now g) = Some (mem @ bs) \<and> length bs = 4 \<and> bfd_get_32 (a_big env) bs = take_bit 32 w
    \<and> (\<forall>fr. fr \<noteq> g_now g \<longrightarrow> fr_literal (g_store g') fr = fr_literal (g_store g) fr)
    \<and> g_now g' = g_now g \<and> g_ends g' = g_ends g \<and> g_fixes g' = g_fixes g \<and> g_msgs g' = g_msgs g @ ms
    \<and> g_labels g' = []
    \<and> g_history g' = insert_into_history 0 0 1 (placed (ip\<lparr>insn_opcode := w\<rparr>) g (length mem)) (g_history g)
    \<and> (no_fixups ip \<longrightarrow> fixes_of (g_store g') = fixes_of (g_store g))"
proof -
  let ?ip = "placed (ip\<lparr>insn_opcode := w\<rparr>) g (length mem)"
  have "operand_effect (tell ms)" by (simp add: operand_effect_def tell_def)
  moreover have "put_operand opts env addr (r # rs) (placed ip g (length mem)) g1 = Some (?ip, tell ms g1)" for g1
    using operand_word_put [of env addr r "placed ip g (length mem)" ms w opts rs] assms(5,6)
    by (simp add: placed_def)
  moreover have "insn_mo ?ip = insn_mo ip" "insn_frag ?ip = Some (g_now g)" "insn_where ?ip = length mem" "insn_opcode ?ip = w"
    by (simp_all add: placed_def)
  ultimately obtain g' g1 bs where "append_insn opts env ip addr (r # rs) g = Some g'" "quiet_state g'"
      "fr_literal (g_store g') (g_now g) = Some (mem @ bs)" "length bs = 4" "bfd_get_32 (a_big env) bs = take_bit 32 w"
      "\<forall>fr. fr \<noteq> g_now g \<longrightarrow> fr_literal (g_store g') fr = fr_literal (g_store g) fr"
      "g_now g' = g_now g" "g_ends g' = g_ends g" "g_labels g' = []"
      "g_history g' = insert_into_history 0 0 1 ?ip (g_history g)"
      "g_fixes g1 = g_fixes g" "g_msgs g1 = g_msgs g" "g_fixes g' = g_fixes (tell ms g1)" "g_msgs g' = g_msgs (tell ms g1)"
      "fixes_of (g_store g') = fixes_of (g_store (tell ms g1))" "no_fixups ip \<longrightarrow> fixes_of (g_store g1) = fixes_of (g_store g)"
    using quiet_append_via [OF assms(1-5), of "tell ms" ?ip env addr rs] by auto
  then show ?thesis by (intro exI [of _ g'] exI [of _ bs]) (simp add: tell_def)
qed

text \<open>A symbol: the word keeps its empty field, and a fixup is left for it.\<close>

definition symbol_fix :: "append_env \<Rightarrow> cstring \<Rightarrow> ulong \<Rightarrow> bfd_reloc \<Rightarrow> fix_info" where
  "symbol_fix env name off r = \<lparr>fx_size = a_reloc_size env r, fx_addsy = Some (Named name), fx_subsy = None, fx_offset = off,
     fx_pcrel = (r = BFD_RELOC_16_PCREL_S2), fx_r_type = r, fx_no_overflow = False, fx_tcbit = False\<rparr>"

lemma quiet_append_symbol:
  assumes "quiet_state g" and "no_hazard (insn_mo ip)" and "o_mips16 opts = 0"
    and "fr_literal (g_store g) (g_now g) = Some mem" and "HAVE_32BIT_GPRS opts"
    and "r \<in> {BFD_RELOC_LO16, BFD_RELOC_16_PCREL_S2, BFD_RELOC_MIPS_JMP}"
    and "X_op ex = O_symbol" and "X_add_symbol ex = Some name"
  shows "\<exists>g' bs. append_insn opts env ip (Some ex) [r, BFD_RELOC_UNUSED, BFD_RELOC_UNUSED] g = Some g' \<and> quiet_state g'
    \<and> fr_literal (g_store g') (g_now g) = Some (mem @ bs) \<and> length bs = 4
    \<and> bfd_get_32 (a_big env) bs = take_bit 32 (insn_opcode ip)
    \<and> (\<forall>fr. fr \<noteq> g_now g \<longrightarrow> fr_literal (g_store g') fr = fr_literal (g_store g) fr)
    \<and> g_now g' = g_now g \<and> g_ends g' = g_ends g \<and> g_msgs g' = g_msgs g \<and> g_labels g' = []
    \<and> g_fixes g' = g_fixes g @ [symbol_fix env name (X_add_number ex) r]
    \<and> fixes_of (g_store g') (length (g_fixes g)) = Some \<lparr>fx_frag = g_now g, fx_where = length mem\<rparr>
    \<and> (no_fixups ip \<longrightarrow> (\<forall>n. n \<noteq> length (g_fixes g) \<longrightarrow> fixes_of (g_store g') n = fixes_of (g_store g) n))"
proof -
  let ?p = "placed ip g (length mem)"
  let ?ip = "?p\<lparr>insn_fixp := (insn_fixp ?p)[0 := Some (length (g_fixes g))]\<rparr>"
  let ?F = "\<lambda>g1. snd (fix_new (g_now g) (length mem) (a_reloc_size env r) (fix_parts ex r) (r = BFD_RELOC_16_PCREL_S2) g1)"
  have e: "operand_effect ?F" by (simp add: operand_effect_def fix_new_def Let_def split: prod.split)
  have a: "\<not> reloc_above_unused r" using assms(6) by (auto simp: reloc_above_unused_def)
  have parts: "fix_parts ex r = (Some (Named name), None, X_add_number ex, r)" using assms(7,8) by (simp add: fix_parts_def)
  have fi: "insn_frag ?p = Some (g_now g)" "insn_where ?p = length mem" by (simp_all add: placed_def)
  have r: "r \<noteq> BFD_RELOC_MIPS16_JMP" "\<not> reloc_needs_lo_p env r" "reloc_below_unused r"
    using assms(6) by (auto simp: reloc_needs_lo_p_def reloc_below_unused_def)
  have o: "put_operand opts env (Some ex) [r, BFD_RELOC_UNUSED, BFD_RELOC_UNUSED] ?p g1 = Some (?ip, ?F g1)"
    if g1: "g_sequence g1 = 0" "g_fixes g1 = g_fixes g" for g1
  proof -
    obtain g2 where g2: "fix_new (g_now g) (length mem) (a_reloc_size env r) (fix_parts ex r) (r = BFD_RELOC_16_PCREL_S2) g1
        = (length (g_fixes g), g2)" "g_sequence g2 = 0"
      using g1 by (simp add: fix_new_def parts Let_def)
    have "add_fixups opts env ex [r, BFD_RELOC_UNUSED, BFD_RELOC_UNUSED] ?p g1 = Some (?ip, g2)"
      unfolding add_fixups_def fi using g2 r assms(5,7) by (simp add: Let_def split: option.split)
    then show ?thesis using a assms(7) r(3) g2(1) by (simp add: put_operand_def)
  qed
  have i: "insn_mo ?ip = insn_mo ip" "insn_frag ?ip = Some (g_now g)" "insn_where ?ip = length mem" "insn_opcode ?ip = insn_opcode ip"
    by (simp_all add: placed_def)
  obtain g' g1 bs where q: "append_insn opts env ip (Some ex) [r, BFD_RELOC_UNUSED, BFD_RELOC_UNUSED] g = Some g'" "quiet_state g'"
      "fr_literal (g_store g') (g_now g) = Some (mem @ bs)" "length bs = 4"
      "bfd_get_32 (a_big env) bs = take_bit 32 (insn_opcode ip)"
      "\<forall>fr. fr \<noteq> g_now g \<longrightarrow> fr_literal (g_store g') fr = fr_literal (g_store g) fr"
      "g_now g' = g_now g" "g_ends g' = g_ends g" "g_labels g' = []"
      "g_fixes g1 = g_fixes g" "g_msgs g1 = g_msgs g" "g_fixes g' = g_fixes (?F g1)" "g_msgs g' = g_msgs (?F g1)"
      "fixes_of (g_store g') = fixes_of (g_store (?F g1))" "no_fixups ip \<longrightarrow> fixes_of (g_store g1) = fixes_of (g_store g)"
    using quiet_append_via [OF assms(1-4) a e i(1-3) o] i(4) by auto
  moreover have "g_fixes (?F g1) = g_fixes g @ [symbol_fix env name (X_add_number ex) r]" "g_msgs (?F g1) = g_msgs g"
      "fixes_of (g_store (?F g1)) = (fixes_of (g_store g1))(length (g_fixes g) \<mapsto> \<lparr>fx_frag = g_now g, fx_where = length mem\<rparr>)"
    using q(10,11) by (simp_all add: fix_new_def parts symbol_fix_def Let_def)
  ultimately show ?thesis by (intro exI [of _ g'] exI [of _ bs]) simp
qed

section \<open>\<open>md_assemble\<close>\<close>

text \<open>\<open>Asm_other\<close>: the line is for mips16 or a macro, which is not modelled here. \<open>Asm_stopped\<close>: the assembler does
  not return from the line.\<close>

datatype asm_result = Asm_ok ip_state gas_state | Asm_error insn_error ip_state | Asm_stopped | Asm_other

definition no_relocs :: "bfd_reloc list" where "no_relocs = [BFD_RELOC_UNUSED, BFD_RELOC_UNUSED, BFD_RELOC_UNUSED]"

definition reset_operands :: "ip_state \<Rightarrow> ip_state" where
  "reset_operands st = st\<lparr>imm_expr := (imm_expr st)\<lparr>X_op := O_absent\<rparr>, imm2_expr := (imm2_expr st)\<lparr>X_op := O_absent\<rparr>,
     offset_expr := (offset_expr st)\<lparr>X_op := O_absent\<rparr>, imm_reloc := no_relocs, offset_reloc := no_relocs\<rparr>"

definition operand_of :: "ip_state \<Rightarrow> expressionS option \<times> bfd_reloc list" where
  "operand_of st =
     (if X_op (imm_expr st) \<noteq> O_absent then (Some (imm_expr st), imm_reloc st)
      else if X_op (offset_expr st) \<noteq> O_absent then (Some (offset_expr st), offset_reloc st)
      else (None, no_relocs))"

definition md_assemble :: "mips_set_options \<Rightarrow> ip_env \<Rightarrow> append_env \<Rightarrow> mips_opcode list \<Rightarrow> (cstring \<Rightarrow> nat option)
    \<Rightarrow> cstring \<Rightarrow> ip_state \<Rightarrow> gas_state \<Rightarrow> asm_result" where
  "md_assemble opts ienv aenv tab op_find str st g =
     (if o_mips16 opts \<noteq> 0 then Asm_other
      else (case mips_ip opts ienv tab op_find str (reset_operands st) of
          Ip_assertion_failed \<Rightarrow> Asm_stopped
        | Ip_internal_error \<Rightarrow> Asm_stopped
        | Ip_null_pointer \<Rightarrow> Asm_stopped
        | Ip_done st' \<Rightarrow>
            (case ip_error st' of
               Some e \<Rightarrow> Asm_error e st'
             | None \<Rightarrow>
                 if op_pinfo (insn_mo (ip_insn st')) = INSN_MACRO then Asm_other
                 else (let (addr, relocs) = operand_of st' in
                   case append_insn opts aenv (ip_insn st') addr relocs g of
                     None \<Rightarrow> Asm_stopped | Some g' \<Rightarrow> Asm_ok st' g'))))"

section \<open>The word of a line\<close>

text \<open>Registers come first, and at most one other operand, the last.\<close>

definition register_letter :: "char \<Rightarrow> bool" where
  "register_letter c \<longleftrightarrow> c \<in> {CHR ''d'', CHR ''s'', CHR ''t'', CHR ''A''}"

definition register_fields :: "cstring \<Rightarrow> op_field list" where
  "register_fields letters = map (\<lambda>c. the (map_of reg_letters c)) letters"

lemma args_shape:
  assumes "args \<in> set rigel_args"
  obtains regs where "list_all register_letter regs" and "operand_letters_of args = regs"
      and "args_fields args = Some (register_fields regs)"
  | regs c f where "list_all register_letter regs" and "operand_letters_of args = regs @ [c]"
      and "args_fields args = Some (register_fields regs @ [f])"
      and "(c, f) \<in> {(CHR ''i'', F_IMMEDIATE), (CHR ''j'', F_DELTA), (CHR ''5'', F_IMM5), (CHR ''p'', F_DELTA), (CHR ''a'', F_TARGET)}"
proof -
  have "\<exists>regs. list_all register_letter regs \<and> (operand_letters_of a = regs \<and> args_fields a = Some (register_fields regs)
      \<or> (\<exists>c f. operand_letters_of a = regs @ [c] \<and> args_fields a = Some (register_fields regs @ [f])
          \<and> (c, f) \<in> {(CHR ''i'', F_IMMEDIATE), (CHR ''j'', F_DELTA), (CHR ''5'', F_IMM5), (CHR ''p'', F_DELTA), (CHR ''a'', F_TARGET)}))"
    if "regs = (if operand_letters_of a = [] \<or> register_letter (last (operand_letters_of a)) then operand_letters_of a
          else butlast (operand_letters_of a))" "a \<in> set rigel_args" for a regs
    using that(2) unfolding rigel_args_def
    by (auto intro!: exI [of _ regs] simp: that(1) operand_letters_of_def register_letter_def register_fields_def
        reg_letters_def rigel_args_fields simp del: args_fields.simps(2))
  then show ?thesis using assms that by blast
qed

lemma take_registers:
  assumes "list_all register_letter regs" and "list_all2 (operand_ok env) regs opds"
  shows "\<exists>ns. opds = map Reg_op ns \<and> (\<forall>st. take_operands regs opds st = st\<lparr>ip_insn := (ip_insn st)\<lparr>insn_opcode :=
      insert_fields (register_fields regs) (map word_of_nat ns) (insn_opcode (ip_insn st))\<rparr>\<rparr>)"
  using assms
proof (induction regs arbitrary: opds)
  case Nil
  then show ?case by (simp add: take_operands_def register_fields_def)
next
  case (Cons c regs)
  obtain opd opds' where o: "opds = opd # opds'" "operand_ok env c opd" "list_all2 (operand_ok env) regs opds'"
    using Cons.prems(2) by (auto simp: list_all2_Cons1)
  have c: "register_letter c" using Cons.prems(1) by simp
  then obtain n where n: "opd = Reg_op n" using o(2) by (cases opd) (auto simp: register_letter_def)
  obtain ns where ns: "opds' = map Reg_op ns" and t: "\<forall>st. take_operands regs opds' st = st\<lparr>ip_insn := (ip_insn st)\<lparr>insn_opcode :=
      insert_fields (register_fields regs) (map word_of_nat ns) (insn_opcode (ip_insn st))\<rparr>\<rparr>"
    using Cons.IH [OF _ o(3)] Cons.prems(1) by auto
  obtain f where f: "map_of reg_letters c = Some f" using c by (auto simp: register_letter_def reg_letters_def)
  have "take_operands (c # regs) opds st = take_operands regs opds' (set_field f (word_of_nat n) st)" for st
    by (simp add: take_operands_def o(1) n f)
  then show ?case
    using ns o(1) n f t by (intro exI [of _ "n # ns"]) (simp add: register_fields_def set_field_def INSERT_OPERAND_def)
qed

lemma insert_fields_append:
  "length fs = length vs \<Longrightarrow> insert_fields (fs @ [f]) (vs @ [v]) w = INSERT_BITS (insert_fields fs vs w) v (op_mask f) (op_sh f)"
  by (induction fs vs arbitrary: w rule: list_induct2) simp_all

lemma disjoint_last:
  "disjoint_fields m (fs @ [f]) \<Longrightarrow> m AND field_mask f = 0 \<and> (\<forall>g\<in>set fs. field_mask g AND field_mask f = 0)"
proof (induction fs arbitrary: m)
  case (Cons g fs)
  then have "USE_BITS m g AND field_mask f = 0" "\<forall>g\<in>set fs. field_mask g AND field_mask f = 0" by auto
  then show ?case by (auto simp: USE_BITS_mask and_or_zero)
qed simp

lemma insert_fields_clear:
  "\<forall>g\<in>set fs. field_mask g AND k = 0 \<Longrightarrow> insert_fields fs vs w AND k = w AND k"
proof (induction fs vs w rule: insert_fields.induct)
  case (1 f fs v vs w)
  then show ?case using insert_outside [of k "op_sh f" "op_mask f" w v] by (simp add: field_mask_def and.commute)
qed simp_all

text \<open>So the last field is empty when the operand is put into it, by a logical or.\<close>

lemma last_field_or:
  assumes "disjoint_fields m (fs @ [f])" and "m AND w = w" and "length fs = length vs"
  shows "insert_fields (fs @ [f]) (vs @ [v]) w = insert_fields fs vs w OR push_bit (op_sh f) (v AND op_mask f)"
proof -
  have "w AND field_mask f = w AND (m AND field_mask f)" using assms(2) by (metis and.assoc and.commute)
  then have "insert_fields fs vs w AND field_mask f = 0"
    using disjoint_last [OF assms(1)] insert_fields_clear [of fs "field_mask f" vs w] by simp
  then have "insert_fields fs vs w AND NOT (field_mask f) = insert_fields fs vs w"
    by (auto simp: bit_eq_iff bit_simps)
  then show ?thesis by (simp add: insert_fields_append [OF assms(3)] INSERT_BITS_def field_mask_def)
qed

text \<open>Constants that need no message: jumps and branches go to words, and a branch stays in reach.\<close>

fun operand_exact :: "char \<Rightarrow> operand_src \<Rightarrow> bool" where
  "operand_exact c (Reg_op n) \<longleftrightarrow> True"
| "operand_exact c (Expr_op t ep) \<longleftrightarrow> X_op ep = O_constant
     \<and> (c \<in> {CHR ''p'', CHR ''a''} \<longrightarrow> X_add_number ep AND 3 = 0) \<and> (c = CHR ''p'' \<longrightarrow> \<not> pcrel_outside (X_add_number ep))"

fun operand_value :: "char \<Rightarrow> operand_src \<Rightarrow> ulong" where
  "operand_value c (Reg_op n) = word_of_nat n"
| "operand_value c (Expr_op t ep) =
     (if c \<in> {CHR ''p'', CHR ''a''} then drop_bit 2 (X_add_number ep) else X_add_number ep)"

definition fresh_operands :: "mips_opcode \<Rightarrow> ip_state \<Rightarrow> bool" where
  "fresh_operands mo s \<longleftrightarrow> X_op (imm_expr s) = O_absent \<and> X_op (offset_expr s) = O_absent
     \<and> imm_reloc s = no_relocs \<and> offset_reloc s = no_relocs \<and> insn_opcode (ip_insn s) = op_match mo"

definition yields_word :: "bool \<Rightarrow> ip_state \<Rightarrow> ulong \<Rightarrow> bool" where
  "yields_word relax_branch s w \<longleftrightarrow> (case operand_of s of
     (addr, relocs) \<Rightarrow> length relocs = 3 \<and> \<not> reloc_above_unused (hd relocs)
       \<and> operand_word relax_branch addr (hd relocs) (insn_opcode (ip_insn s)) = Some ([], w))"

text \<open>The last operand.\<close>

lemma last_operand_word:
  assumes "(c, f) \<in> {(CHR ''i'', F_IMMEDIATE), (CHR ''j'', F_DELTA), (CHR ''5'', F_IMM5), (CHR ''p'', F_DELTA), (CHR ''a'', F_TARGET)}"
    and "fresh_operands mo s" and "operand_exact c (Expr_op t ep)" and "\<not> (relax_branch \<and> c = CHR ''p'')"
    and "insn_opcode ip AND field_mask f = 0"
  shows "yields_word relax_branch (take_operand c (Expr_op t ep) (s\<lparr>ip_insn := ip\<rparr>))
    (insn_opcode ip OR push_bit (op_sh f) (operand_value c (Expr_op t ep) AND op_mask f))"
proof -
  consider "c = CHR ''i''" "f = F_IMMEDIATE" | "c = CHR ''j''" "f = F_DELTA" | "c = CHR ''5''" "f = F_IMM5"
    | "c = CHR ''p''" "f = F_DELTA" | "c = CHR ''a''" "f = F_TARGET" using assms(1) by auto
  then show ?thesis
  proof cases
    case 3
    have "INSERT_BITS (insn_opcode ip) (X_add_number ep) (op_mask F_IMM5) (op_sh F_IMM5)
        = insn_opcode ip OR push_bit (op_sh F_IMM5) (X_add_number ep AND op_mask F_IMM5)"
    proof -
      have "insn_opcode ip AND NOT (field_mask F_IMM5) = insn_opcode ip"
        using assms(5) 3 by (auto simp: bit_eq_iff bit_simps)
      then show ?thesis by (simp add: INSERT_BITS_def field_mask_def)
    qed
    then show ?thesis
      using assms(2,3) 3
      by (simp add: yields_word_def operand_of_def fresh_operands_def set_imm_def set_field_def INSERT_OPERAND_def
          no_relocs_def operand_word_def constant_operand_def reloc_above_unused_def)
  qed (use assms(2,3,4) in \<open>simp_all add: yields_word_def operand_of_def fresh_operands_def no_relocs_def
      operand_word_def constant_operand_def reloc_above_unused_def F_IMMEDIATE_def F_DELTA_def F_TARGET_def Let_def\<close>)
qed

lemma line_word:
  assumes "mo \<in> set mips_builtin_opcodes" and "list_all2 (operand_ok env) (operand_letters_of (op_args mo)) opds"
    and "list_all2 operand_exact (operand_letters_of (op_args mo)) opds" and "fresh_operands mo s"
    and "\<not> (relax_branch \<and> CHR ''p'' \<in> set (op_args mo))"
  shows "yields_word relax_branch (take_operands (operand_letters_of (op_args mo)) opds s)
    (encode_insn opts mo (map2 operand_value (operand_letters_of (op_args mo)) opds))"
proof -
  obtain fs where fs: "args_fields (op_args mo) = Some fs" "disjoint_fields (op_msk mo) fs"
      "op_msk mo AND op_match mo = op_match mo"
    using rigel_well_formed [OF assms(1)] by (auto simp: well_formed_entry_def split: option.splits)
  note enc = encode_insn_fields [OF fs(1)]
  have m: "insn_opcode (ip_insn s) = op_match mo" using assms(4) by (simp add: fresh_operands_def)
  have vals: "map2 operand_value regs (map Reg_op ns) = map word_of_nat ns" if "length regs = length ns" for regs ns
    using that by (induction regs ns rule: list_induct2) simp_all
  show ?thesis
    using rigel_args_of [OF assms(1)]
  proof (cases rule: args_shape)
    case (1 regs)
    obtain ns where ns: "opds = map Reg_op ns" and t: "\<forall>st. take_operands regs opds st = st\<lparr>ip_insn := (ip_insn st)\<lparr>insn_opcode :=
        insert_fields (register_fields regs) (map word_of_nat ns) (insn_opcode (ip_insn st))\<rparr>\<rparr>"
      using take_registers [OF 1(1)] assms(2) 1(2) by metis
    have "length regs = length ns" using assms(2) 1(2) ns by (auto dest: list_all2_lengthD)
    then show ?thesis
      using assms(4) t 1 fs(1) ns m by (simp add: yields_word_def operand_of_def fresh_operands_def no_relocs_def
          reloc_above_unused_def operand_word_def enc vals)
  next
    case (2 regs c f)
    obtain ropds opd where o: "opds = ropds @ [opd]" "list_all2 (operand_ok env) regs ropds" "operand_ok env c opd"
      using assms(2) 2(2) by (auto simp: list_all2_append1 list_all2_Cons1)
    have "operand_exact c opd" using assms(3) list_all2_lengthD [OF o(2)]
      by (simp add: 2(2) o(1) list_all2_append)
    moreover obtain t ep where e: "opd = Expr_op t ep" using o(3) 2(4) by (cases opd) auto
    ultimately have ex: "operand_exact c (Expr_op t ep)" by simp
    obtain ns where ns: "ropds = map Reg_op ns" and t: "\<forall>st. take_operands regs ropds st = st\<lparr>ip_insn := (ip_insn st)\<lparr>insn_opcode :=
        insert_fields (register_fields regs) (map word_of_nat ns) (insn_opcode (ip_insn st))\<rparr>\<rparr>"
      using take_registers [OF 2(1) o(2)] by blast
    have len: "length regs = length ns" using o(2) ns by (auto dest: list_all2_lengthD)
    let ?w = "insert_fields (register_fields regs) (map word_of_nat ns) (op_match mo)"
    have dis: "disjoint_fields (op_msk mo) (register_fields regs @ [f])" using fs(1,2) 2(3) by simp
    have "op_match mo AND field_mask f = op_match mo AND (op_msk mo AND field_mask f)"
      using fs(3) by (metis and.assoc and.commute)
    then have clear: "?w AND field_mask f = 0"
      using disjoint_last [OF dis] insert_fields_clear [of "register_fields regs" "field_mask f" "map word_of_nat ns" "op_match mo"]
      by simp
    have "CHR ''p'' \<in> set (op_args mo)" if "c = CHR ''p''"
      using 2(2) that unfolding operand_letters_of_def by (metis filter_is_subset in_mono in_set_conv_decomp)
    then have p: "\<not> (relax_branch \<and> c = CHR ''p'')" using assms(5) by blast
    have l: "take_operands (operand_letters_of (op_args mo)) opds s
        = take_operand c opd (take_operands regs ropds s)"
      using o(2) by (simp add: 2(2) o(1) take_operands_def list_all2_lengthD)
    have v: "map2 operand_value (operand_letters_of (op_args mo)) opds = map word_of_nat ns @ [operand_value c opd]"
      using vals [OF len] len by (simp add: 2(2) o(1) ns)
    have w: "encode_insn opts mo (map2 operand_value (operand_letters_of (op_args mo)) opds)
        = ?w OR push_bit (op_sh f) (operand_value c opd AND op_mask f)"
      unfolding enc v using fs(1) 2(3) last_field_or [OF dis fs(3), of "map word_of_nat ns"] len
      by (simp add: register_fields_def)
    show ?thesis
      unfolding w l e t [rule_format] m
      using last_operand_word [OF 2(4) assms(4) ex p, of "(ip_insn s)\<lparr>insn_opcode := ?w\<rparr>"] clear by simp
  qed
qed

end
