(* ===== verification/Rigel_Lines.thy ===== *)
theory Rigel_Lines
  imports Rigel_Assemble
begin

text \<open>
  What the assembler makes of lines of Rigel code, from \<open>md_begin\<close> on: lines with the operands that their entry
  asks for become words; the errors that the port misses are stated as well.
\<close>

section \<open>The assembler after \<open>md_begin\<close>\<close>

text \<open>The opcode table is filled, under whatever options were in force then, and the registers are known, the
  options are those of Rigel code, and the output is a frag that can be extended, with no macro under way.\<close>

record session =
  s_opts :: mips_set_options
  s_abi :: mips_abi_level
  s_ienv :: ip_env
  s_aenv :: append_env
  s_tabs :: opcode_tables

definition rigel_session_ok :: "session \<Rightarrow> bool" where
  "rigel_session_ok se \<longleftrightarrow> rigel_opts (s_opts se) \<and> registers_known (s_abi se) (env_regs (s_ienv se))
     \<and> (\<exists>opts sz. begin_opcodes opts sz mips_builtin_opcodes mips16_opcodes = Inr (s_tabs se))"

definition output_ok :: "gas_state \<Rightarrow> byte list \<Rightarrow> bool" where
  "output_ok g mem \<longleftrightarrow> quiet_state g \<and> fr_literal (g_store g) (g_now g) = Some mem"

definition assemble :: "session \<Rightarrow> cstring \<Rightarrow> ip_state \<Rightarrow> gas_state \<Rightarrow> asm_result" where
  "assemble se = md_assemble (s_opts se) (s_ienv se) (s_aenv se) mips_builtin_opcodes
     (\<lambda>name. fst (hash_find (op_hash (s_tabs se)) name))"

lemma session_first_entry:
  assumes "rigel_session_ok se"
  shows "(\<lambda>name. fst (hash_find (op_hash (s_tabs se)) name)) = first_entry mips_builtin_opcodes"
proof -
  obtain opts sz where sz: "begin_opcodes opts sz mips_builtin_opcodes mips16_opcodes = Inr (s_tabs se)"
    using assms by (auto simp: rigel_session_ok_def)
  obtain tabs where "begin_opcodes opts sz mips_builtin_opcodes mips16_opcodes = Inr tabs"
      "\<forall>name. fst (hash_find (op_hash tabs) name) = find_index (\<lambda>opc. op_name opc = name) mips_builtin_opcodes"
    using rigel_begin_tables [of opts sz] by blast
  then show ?thesis using sz by (auto simp: first_entry_def)
qed

section \<open>Lines that are meant\<close>

lemma session_facts:
  assumes "rigel_session_ok se"
  shows "o_mips16 (s_opts se) = 0" "HAVE_32BIT_GPRS (s_opts se)" "rigel_opts (s_opts se)"
    "registers_known (s_abi se) (env_regs (s_ienv se))"
  using assms rigel_isa_offers(5) [of "s_opts se"] by (simp_all add: rigel_session_ok_def rigel_opts_def)

text \<open>The line is parsed, and its entry is no macro: what is left is to append the instruction.\<close>

lemma assemble_parsed:
  assumes "rigel_session_ok se"
    and "mips_ip (s_opts se) (s_ienv se) mips_builtin_opcodes (first_entry mips_builtin_opcodes) str (reset_operands st) = Ip_done st'"
    and "ip_error st' = None" and "insn_mo (ip_insn st') \<in> set mips_builtin_opcodes"
    and "operand_of st' = (addr, relocs)" and "append_insn (s_opts se) (s_aenv se) (ip_insn st') addr relocs g = Some g'"
  shows "assemble se str st g = Asm_ok st' g'"
  using assms session_facts(1) [OF assms(1)] rigel_plain [OF assms(4)]
  by (simp add: assemble_def md_assemble_def session_first_entry [OF assms(1)] plain_rigel_def)

lemma take_operand_keeps: "insn_mo (ip_insn (take_operand c opd st)) = insn_mo (ip_insn st)
    \<and> insn_fixp (ip_insn (take_operand c opd st)) = insn_fixp (ip_insn st) \<and> ip_error (take_operand c opd st) = ip_error st
    \<and> ip_events (take_operand c opd st) = ip_events st"
  by (cases opd) (simp_all add: set_field_def set_imm_def INSERT_OPERAND_def split: option.split)

lemma take_operands_keep: "insn_mo (ip_insn (take_operands letters opds st)) = insn_mo (ip_insn st)
    \<and> insn_fixp (ip_insn (take_operands letters opds st)) = insn_fixp (ip_insn st)
    \<and> ip_error (take_operands letters opds st) = ip_error st
    \<and> ip_events (take_operands letters opds st) = ip_events st"
  by (induction letters arbitrary: opds st; case_tac opds) (simp_all add: take_operands_def take_operand_keeps)

text \<open>The operands of a line: accepted by the letters of the entry, and exact.\<close>

definition good_operands :: "session \<Rightarrow> nat \<Rightarrow> operand_src list \<Rightarrow> bool" where
  "good_operands se i opds \<longleftrightarrow> i < 138
     \<and> (let args = op_args (mips_builtin_opcodes ! i); letters = operand_letters_of args in
        list_all2 (operand_ok (env_expr (s_ienv se))) letters opds \<and> list_all2 operand_exact letters opds
        \<and> \<not> (a_relax_branch (s_aenv se) \<and> CHR ''p'' \<in> set args))"

definition line_word_of :: "session \<Rightarrow> nat \<Rightarrow> operand_src list \<Rightarrow> ulong" where
  "line_word_of se i opds = encode_insn (s_opts se) (mips_builtin_opcodes ! i)
     (map2 operand_value (operand_letters_of (op_args (mips_builtin_opcodes ! i))) opds)"

lemma entry_fields: "i < 138 \<Longrightarrow> \<exists>fs. args_fields (op_args (mips_builtin_opcodes ! i)) = Some fs"
  using rigel_well_formed [OF rigel_nth_mem, of i] by (auto simp: well_formed_entry_def split: option.splits)

lemma line_word_32: "i < 138 \<Longrightarrow> take_bit 32 (line_word_of se i opds) = line_word_of se i opds"
  using entry_fields encode_matches(2) [OF rigel_well_formed [OF rigel_nth_mem]] unfolding line_word_of_def
  by (meson low_half_word)

lemma operands_fields:
  assumes "good_operands se i opds" and "args_fields (op_args (mips_builtin_opcodes ! i)) = Some fs"
  shows "length (map2 operand_value (operand_letters_of (op_args (mips_builtin_opcodes ! i))) opds) = length fs"
proof -
  have i: "i < 138" and l: "length (operand_letters_of (op_args (mips_builtin_opcodes ! i))) = length opds"
    using assms(1) by (auto simp: good_operands_def Let_def dest: list_all2_lengthD)
  show ?thesis
    by (cases rule: args_shape [OF rigel_args_of [OF rigel_nth_mem [OF i]]])
       (use l assms(2) in \<open>auto simp: register_fields_def\<close>)
qed

lemma line_assembled:
  assumes "rigel_session_ok se" and "good_operands se i opds" and "output_ok g mem"
  shows "\<exists>st' g' bs. assemble se (line_text i opds) st g = Asm_ok st' g' \<and> output_ok g' (mem @ bs) \<and> length bs = 4
    \<and> bfd_get_32 (a_big (s_aenv se)) bs = line_word_of se i opds
    \<and> g_now g' = g_now g \<and> (\<forall>fr. fr \<noteq> g_now g \<longrightarrow> fr_literal (g_store g') fr = fr_literal (g_store g) fr)
    \<and> g_fixes g' = g_fixes g \<and> g_msgs g' = g_msgs g \<and> fixes_of (g_store g') = fixes_of (g_store g) \<and> ip_events st' = ip_events st"
proof -
  note f = session_facts [OF assms(1)]
  let ?mo = "mips_builtin_opcodes ! i"
  let ?letters = "operand_letters_of (op_args ?mo)"
  have i: "i < 138" and ok: "list_all2 (operand_ok (env_expr (s_ienv se))) ?letters opds"
      and ex: "list_all2 operand_exact ?letters opds"
      and rb: "\<not> (a_relax_branch (s_aenv se) \<and> CHR ''p'' \<in> set (op_args ?mo))"
    using assms(2) by (simp_all add: good_operands_def Let_def)
  note m = rigel_nth_mem [OF i]
  let ?s = "start_entry (s_opts se) ?mo ((reset_operands st)\<lparr>lastpos := 0\<rparr>)"
  let ?st = "take_operands ?letters opds ?s"
  have p: "mips_ip (s_opts se) (s_ienv se) mips_builtin_opcodes (first_entry mips_builtin_opcodes) (line_text i opds) (reset_operands st)
      = Ip_done ?st"
    by (rule line_parses [OF f(4,3) i ok])
  have fresh: "fresh_operands ?mo ?s" by (simp add: fresh_operands_def start_entry_def reset_operands_def create_insn_def)
  have k: "insn_mo (ip_insn ?st) = ?mo" "ip_error ?st = None" "no_fixups (ip_insn ?st)" "ip_events ?st = ip_events st"
    using take_operands_keep [of ?letters opds ?s] by (simp_all add: start_entry_def create_insn_def no_fixups_def reset_operands_def)
  obtain addr relocs where a: "operand_of ?st = (addr, relocs)" by fastforce
  have y: "length relocs = 3" "\<not> reloc_above_unused (hd relocs)"
      "operand_word (a_relax_branch (s_aenv se)) addr (hd relocs) (insn_opcode (ip_insn ?st)) = Some ([], line_word_of se i opds)"
    using line_word [OF m ok ex fresh rb, of "s_opts se"] a by (simp_all add: yields_word_def line_word_of_def)
  have r: "relocs = hd relocs # tl relocs" using y(1) by (cases relocs) auto
  have h: "no_hazard (insn_mo (ip_insn ?st))" using rigel_no_hazard [OF m] k(1) by simp
  obtain g' bs where q: "append_insn (s_opts se) (s_aenv se) (ip_insn ?st) addr (hd relocs # tl relocs) g = Some g'"
      "quiet_state g'" "fr_literal (g_store g') (g_now g) = Some (mem @ bs)" "length bs = 4"
      "bfd_get_32 (a_big (s_aenv se)) bs = take_bit 32 (line_word_of se i opds)"
      "\<forall>fr. fr \<noteq> g_now g \<longrightarrow> fr_literal (g_store g') fr = fr_literal (g_store g) fr"
      "g_now g' = g_now g" "g_fixes g' = g_fixes g" "g_msgs g' = g_msgs g" "fixes_of (g_store g') = fixes_of (g_store g)"
    using quiet_append [OF _ h f(1) _ y(2,3), of g mem "tl relocs"] assms(3) k(3) by (auto simp: output_ok_def)
  have "assemble se (line_text i opds) st g = Asm_ok ?st g'"
    using q(1) k(1) m unfolding r [symmetric] by (intro assemble_parsed [OF assms(1) p k(2) _ a]) simp_all
  then show ?thesis using q k(4) line_word_32 [OF i] by (intro exI [of _ ?st] exI [of _ g'] exI [of _ bs]) (simp add: output_ok_def)
qed

text \<open>Several lines, one after the other, as the reader of the file hands them over.\<close>

fun assemble_lines :: "session \<Rightarrow> cstring list \<Rightarrow> ip_state \<Rightarrow> gas_state \<Rightarrow> asm_result" where
  "assemble_lines se [] st g = Asm_ok st g"
| "assemble_lines se (l # ls) st g =
     (case assemble se l st g of Asm_ok st' g' \<Rightarrow> assemble_lines se ls st' g' | r \<Rightarrow> r)"

lemma lines_assembled:
  assumes "rigel_session_ok se" and "\<forall>(i, opds)\<in>set prog. good_operands se i opds" and "output_ok g mem"
  shows "\<exists>st' g' words. assemble_lines se (map (\<lambda>(i, opds). line_text i opds) prog) st g = Asm_ok st' g'
    \<and> output_ok g' (mem @ concat words) \<and> list_all (\<lambda>bs. length bs = 4) words
    \<and> map (bfd_get_32 (a_big (s_aenv se))) words = map (\<lambda>(i, opds). line_word_of se i opds) prog
    \<and> g_fixes g' = g_fixes g \<and> g_msgs g' = g_msgs g \<and> ip_events st' = ip_events st"
  using assms(2,3)
proof (induction prog arbitrary: st g mem)
  case Nil
  then show ?case by (auto intro!: exI [of _ "[]"])
next
  case (Cons l prog)
  obtain i opds where l: "l = (i, opds)" by fastforce
  obtain st1 g1 bs where a: "assemble se (line_text i opds) st g = Asm_ok st1 g1" "output_ok g1 (mem @ bs)" "length bs = 4"
      "bfd_get_32 (a_big (s_aenv se)) bs = line_word_of se i opds" "g_fixes g1 = g_fixes g" "g_msgs g1 = g_msgs g" "ip_events st1 = ip_events st"
    using line_assembled [OF assms(1) _ Cons.prems(2), of i opds st] Cons.prems(1) l by auto
  obtain st' g' words where "assemble_lines se (map (\<lambda>(i, opds). line_text i opds) prog) st1 g1 = Asm_ok st' g'"
      "output_ok g' ((mem @ bs) @ concat words)" "list_all (\<lambda>bs. length bs = 4) words"
      "map (bfd_get_32 (a_big (s_aenv se))) words = map (\<lambda>(i, opds). line_word_of se i opds) prog"
      "g_fixes g' = g_fixes g1" "g_msgs g' = g_msgs g1" "ip_events st' = ip_events st1"
    using Cons.IH [OF _ a(2), of st1] Cons.prems(1) by auto
  then show ?case using a l by (intro exI [of _ st'] exI [of _ g'] exI [of _ "bs # words"]) simp
qed

section \<open>Operands that are missing\<close>

lemma missing_operand:
  assumes "rigel_session_ok se" and "i < 138" and "op_args (mips_builtin_opcodes ! i) = c # CHR '','' # d # rest"
    and "operand_ok (env_expr (s_ienv se)) c opd" and "d \<notin> {CHR ''b'', CHR ''5'', CHR ''-'', CHR ''4''}"
  shows "assemble se (line_text i [opd]) st g = Asm_stopped"
proof -
  note f = session_facts [OF assms(1)]
  let ?s = "start_entry (s_opts se) (mips_builtin_opcodes ! i) ((reset_operands st)\<lparr>lastpos := 0\<rparr>)"
  have e: "operand_ends []" by (simp add: operand_ends_def)
  have c: "c \<noteq> CHR ''+''" using assms(4) by (cases opd) auto
  have p: "parse_args (s_opts se) (s_ienv se) False (c # CHR '','' # d # rest) (op_text opd) ?s = Step_assert"
    using c assms(5) letter_reads [OF f(4,1) assms(4) e, of "CHR '','' # d # rest" ?s] op_text_no_blank [OF assms(4), of "[]"]
    by (simp add: skip_blanks_def step_letter_def step_comma_def step_bracket_def)
  have "find_mnemonic (first_entry mips_builtin_opcodes) (line_text i [opd]) = Some (i, op_text opd)"
    using rigel_mnemonic [OF assms(2), of "CHR '' '' # op_text opd"] by (simp add: line_text_def)
  then have "mips_ip (s_opts se) (s_ienv se) mips_builtin_opcodes (first_entry mips_builtin_opcodes) (line_text i [opd])
      (reset_operands st) = Ip_assertion_failed"
    using p assms(3) by (simp add: rigel_mips_ip [OF f(3)] ip_result_of_def)
  then show ?thesis
    using f(1) by (simp add: assemble_def md_assemble_def session_first_entry [OF assms(1)])
qed

section \<open>Operands that are not registers\<close>

text \<open>All names of registers begin with a dollar sign, so a numeral is none of them.\<close>

lemma register_names_dollar:
  "list_all (\<lambda>r. hd (fst r) = CHR ''$'' \<and> fst r \<noteq> []) (register_names abi)"
proof -
  have "list_all (\<lambda>r. hd (fst r) = CHR ''$'' \<and> fst r \<noteq> []) reg_names"
    "list_all (\<lambda>r. hd (fst r) = CHR ''$'' \<and> fst r \<noteq> []) reg_names_o32"
    "list_all (\<lambda>r. hd (fst r) = CHR ''$'' \<and> fst r \<noteq> []) reg_names_n32n64"
    by code_simp+
  then show ?thesis by (simp add: register_names_def)
qed

lemma register_map_no_dollar: "name = [] \<or> hd name \<noteq> CHR ''$'' \<Longrightarrow> register_map abi name = None"
  using register_names_dollar [of abi] by (force simp: register_map_def map_of_eq_None_iff list_all_iff)

definition no_register :: "mips_abi_level \<Rightarrow> cstring \<Rightarrow> bool" where
  "no_register abi t \<longleftrightarrow> hd t \<noteq> CHR ''$'' \<or> reg_token t \<and> named_r t"

lemma reg_lookup_fails:
  assumes "registers_known abi env" and "no_register abi t" and "t \<noteq> []" and "operand_ends rest"
  shows "reg_lookup env (t @ rest) types = (None, t @ rest, types AND RWARN \<noteq> 0)"
proof (cases "hd t \<noteq> CHR ''$''")
  case True
  obtain name e where n: "name_end (t @ rest) = (name, e)" by fastforce
  then have "name = [] \<or> hd name = hd t"
    using assms(3) by (cases t) (auto simp: name_end_def split: if_splits)
  then have "register_map abi name = None" using True register_map_no_dollar by auto
  then show ?thesis
    using assms(1) n by (auto simp: reg_lookup_def symbol_find_map itbl_register_def registers_known_def
        split: option.splits dest!: spec [of _ name])
next
  case False
  then show ?thesis
    using assms reg_lookup_r [OF assms(1) _ _ operand_ends_name [OF assms(4)], of t types] by (auto simp: no_register_def)
qed

text \<open>What the code for a register then accepts as if it were the immediate of the entry.\<close>

definition passes_for_register :: "session \<Rightarrow> cstring \<Rightarrow> expressionS \<Rightarrow> bool" where
  "passes_for_register se t ep \<longleftrightarrow> reads_as (env_expr (s_ienv se)) t ep \<and> no_register (s_abi se) t
     \<and> (X_op ep = O_symbol \<and> X_add_symbol ep \<noteq> None \<or> X_op ep = O_constant \<and> - 0x8000 \<le> sint (X_add_number ep) \<and> sint (X_add_number ep) \<le> 0xffff)"

lemma step_passes:
  assumes "rigel_session_ok se" and "passes_for_register se t ep" and "operand_ends rest" and "register_letter c"
  shows "step_letter (s_opts se) (s_ienv se) False c args (t @ rest) s =
    Step_next rest (s\<lparr>imm_expr := ep, imm_reloc := (imm_reloc s)[0 := BFD_RELOC_LO16]\<rparr>)"
proof -
  note f = session_facts [OF assms(1)]
  have t: "reads_as (env_expr (s_ienv se)) t ep" "t \<noteq> []" "no_register (s_abi se) t"
    using assms(2) by (simp_all add: passes_for_register_def reads_as_def)
  have c: "c \<noteq> CHR ''5''" "imm_bounds c False = (- 0x8000, 0xffff)"
    using assms(4) by (auto simp: register_letter_def imm_bounds_def)
  have "step_immediate (s_opts se) (s_ienv se) False c (t @ rest) s
      = Step_next rest (s\<lparr>imm_expr := ep, imm_reloc := (imm_reloc s)[0 := BFD_RELOC_LO16]\<rparr>)"
    using assms(2) c by (auto simp: step_immediate_def small_expression_reads [OF t(1) assms(3) f(1)]
        unsigned_alternative_def passes_for_register_def Let_def)
  then have r: "step_register (s_opts se) (s_ienv se) False c fl (t @ rest) s
      = Step_next rest (s\<lparr>imm_expr := ep, imm_reloc := (imm_reloc s)[0 := BFD_RELOC_LO16]\<rparr>)" for fl
    by (simp add: step_register_def reg_lookup_fails [OF f(4) t(3,2) assms(3)])
  have "c = CHR ''d'' \<or> c = CHR ''s'' \<or> c = CHR ''t'' \<or> c = CHR ''A''" using assms(4) by (auto simp: register_letter_def)
  then have "\<exists>fl. step_letter (s_opts se) (s_ienv se) False c args (t @ rest) s
      = step_register (s_opts se) (s_ienv se) False c fl (t @ rest) s"
    by (elim disjE) (auto simp: step_letter_def reg_letters_def)
  then show ?thesis using r by auto
qed

text \<open>So three operands that are no registers are read, and only the last one is kept.\<close>

definition three_texts :: "nat \<Rightarrow> cstring \<Rightarrow> cstring \<Rightarrow> cstring \<Rightarrow> cstring" where
  "three_texts i t1 t2 t3 = op_name (mips_builtin_opcodes ! i) @ '' '' @ t1 @ '','' @ t2 @ '','' @ t3"

lemma reads_no_blank: "reads_as env t ep \<Longrightarrow> skip_blanks (t @ rest) = t @ rest"
  by (cases t) (simp_all add: reads_as_def skip_blanks_def)

lemma three_pass:
  assumes "rigel_session_ok se" and "i < 138" and "op_args (mips_builtin_opcodes ! i) = ''d,s,t''"
    and "passes_for_register se t1 e1" and "passes_for_register se t2 e2" and "passes_for_register se t3 e3"
  shows "\<exists>s. mips_ip (s_opts se) (s_ienv se) mips_builtin_opcodes (first_entry mips_builtin_opcodes) (three_texts i t1 t2 t3)
      (reset_operands st) = Ip_done s \<and> ip_error s = None \<and> insn_mo (ip_insn s) = mips_builtin_opcodes ! i
    \<and> insn_opcode (ip_insn s) = op_match (mips_builtin_opcodes ! i) \<and> imm_expr s = e3
    \<and> operand_of s = (Some e3, [BFD_RELOC_LO16, BFD_RELOC_UNUSED, BFD_RELOC_UNUSED]) \<and> ip_events s = ip_events st"
proof -
  note f = session_facts [OF assms(1)]
  let ?s = "start_entry (s_opts se) (mips_builtin_opcodes ! i) ((reset_operands st)\<lparr>lastpos := 0\<rparr>)"
  let ?f = "\<lambda>e s. s\<lparr>imm_expr := e, imm_reloc := (imm_reloc s)[0 := BFD_RELOC_LO16]\<rparr>"
  have r: "reads_as (env_expr (s_ienv se)) t1 e1" "reads_as (env_expr (s_ienv se)) t2 e2" "reads_as (env_expr (s_ienv se)) t3 e3"
    using assms(4-6) by (simp_all add: passes_for_register_def)
  have l: "register_letter (CHR ''d'')" "register_letter (CHR ''s'')" "register_letter (CHR ''t'')" by (simp_all add: register_letter_def)
  have e: "operand_ends (CHR '','' # x)" "operand_ends []" for x by (simp_all add: operand_ends_def)
  have comma: "parse_args (s_opts se) (s_ienv se) False (CHR '','' # args) (CHR '','' # x) s
      = parse_args (s_opts se) (s_ienv se) False args x s" for args x s
    by (simp add: skip_blanks_def step_letter_def step_comma_def)
  have 1: "parse_args (s_opts se) (s_ienv se) False (c # args) (t @ x) s = parse_args (s_opts se) (s_ienv se) False args x (?f ep s)"
    if "passes_for_register se t ep" "register_letter c" "operand_ends x" for c args t x s ep
  proof -
    have "reads_as (env_expr (s_ienv se)) t ep" "c \<noteq> CHR ''+''"
      using that by (auto simp: passes_for_register_def register_letter_def)
    then show ?thesis by (simp add: reads_no_blank step_passes [OF assms(1) that(1,3,2)])
  qed
  have p: "parse_args (s_opts se) (s_ienv se) False ''d,s,t'' (t1 @ '','' @ t2 @ '','' @ t3) ?s
      = Step_return (?f e3 (?f e2 (?f e1 ?s)))"
    using 1 [OF assms(4) l(1) e(1), of "'',s,t''" "t2 @ '','' @ t3" ?s] 1 [OF assms(5) l(2) e(1), of "'',t''" t3 "?f e1 ?s"]
      1 [OF assms(6) l(3) e(2), of "[]" "?f e2 (?f e1 ?s)"]
    by (simp only: comma append_Cons append_Nil append_Nil2) (simp add: skip_blanks_def)
  have "find_mnemonic (first_entry mips_builtin_opcodes) (three_texts i t1 t2 t3) = Some (i, t1 @ '','' @ t2 @ '','' @ t3)"
    using rigel_mnemonic [OF assms(2), of "CHR '' '' # t1 @ '','' @ t2 @ '','' @ t3"] by (simp add: three_texts_def)
  then have "mips_ip (s_opts se) (s_ienv se) mips_builtin_opcodes (first_entry mips_builtin_opcodes) (three_texts i t1 t2 t3)
      (reset_operands st) = Ip_done (?f e3 (?f e2 (?f e1 ?s)))"
    using p assms(3) by (simp add: rigel_mips_ip [OF f(3)] ip_result_of_def)
  then show ?thesis
    using assms(6) by (intro exI [of _ "?f e3 (?f e2 (?f e1 ?s))"])
      (auto simp: start_entry_def create_insn_def reset_operands_def operand_of_def no_relocs_def passes_for_register_def)
qed

lemma three_appended:
  assumes "rigel_session_ok se" and "i < 138" and "op_args (mips_builtin_opcodes ! i) = ''d,s,t''"
    and "passes_for_register se t1 e1" and "passes_for_register se t2 e2" and "passes_for_register se t3 e3"
    and "output_ok g mem"
  shows "\<exists>st' g' bs. assemble se (three_texts i t1 t2 t3) st g = Asm_ok st' g' \<and> ip_events st' = ip_events st
    \<and> g_msgs g' = g_msgs g \<and> output_ok g' (mem @ bs) \<and> length bs = 4
    \<and> bfd_get_32 (a_big (s_aenv se)) bs = take_bit 32 (op_match (mips_builtin_opcodes ! i)
        OR (if X_op e3 = O_constant then X_add_number e3 AND 0xffff else 0))
    \<and> g_fixes g' = g_fixes g @ (if X_op e3 = O_constant then []
        else [symbol_fix (s_aenv se) (the (X_add_symbol e3)) (X_add_number e3) BFD_RELOC_LO16])"
proof -
  note f = session_facts [OF assms(1)]
  let ?mo = "mips_builtin_opcodes ! i"
  note m = rigel_nth_mem [OF assms(2)]
  obtain s where s: "mips_ip (s_opts se) (s_ienv se) mips_builtin_opcodes (first_entry mips_builtin_opcodes) (three_texts i t1 t2 t3)
      (reset_operands st) = Ip_done s" "ip_error s = None" "insn_mo (ip_insn s) = ?mo"
      "insn_opcode (ip_insn s) = op_match ?mo" "operand_of s = (Some e3, [BFD_RELOC_LO16, BFD_RELOC_UNUSED, BFD_RELOC_UNUSED])"
      "ip_events s = ip_events st"
    using three_pass [OF assms(1-6), of st] by blast
  have h: "no_hazard (insn_mo (ip_insn s))" using rigel_no_hazard [OF m] s(3) by simp
  have q: "quiet_state g" "fr_literal (g_store g) (g_now g) = Some mem" using assms(7) by (simp_all add: output_ok_def)
  have r: "\<not> reloc_above_unused BFD_RELOC_LO16" by (simp add: reloc_above_unused_def)
  have asm: "assemble se (three_texts i t1 t2 t3) st g = Asm_ok s g'"
    if "append_insn (s_opts se) (s_aenv se) (ip_insn s) (Some e3) [BFD_RELOC_LO16, BFD_RELOC_UNUSED, BFD_RELOC_UNUSED] g = Some g'" for g'
    using that s(3) m by (intro assemble_parsed [OF assms(1) s(1,2) _ s(5)]) simp_all
  show ?thesis
  proof (cases "X_op e3 = O_constant")
    case True
    have w: "operand_word (a_relax_branch (s_aenv se)) (Some e3) BFD_RELOC_LO16 (insn_opcode (ip_insn s))
        = Some ([], op_match ?mo OR (X_add_number e3 AND 0xffff))"
      using True s(4) by (simp add: operand_word_def constant_operand_def)
    show ?thesis
      using quiet_append [OF q(1) h f(1) q(2) r w, where rs = "[BFD_RELOC_UNUSED, BFD_RELOC_UNUSED]"] True asm s(6)
      by (auto simp: output_ok_def)
  next
    case False
    then have e: "X_op e3 = O_symbol" "X_add_symbol e3 = Some (the (X_add_symbol e3))"
      using assms(6) by (auto simp: passes_for_register_def)
    show ?thesis
      using quiet_append_symbol [OF q(1) h f(1) q(2) f(2) _ e, where r = BFD_RELOC_LO16 and env = "s_aenv se"] False asm s(4,6)
      by (auto simp: output_ok_def)
  qed
qed

section \<open>A sample session\<close>

text \<open>An \<open>expression\<close> that reads decimal numerals and names, as \<open>gas/expr.c\<close> does.\<close>

definition symbol_expr :: "cstring \<Rightarrow> expressionS" where
  "symbol_expr name = (constant_expr 0)\<lparr>X_op := O_symbol, X_add_symbol := Some name\<rparr>"

definition sample_expression :: "cstring \<Rightarrow> expressionS \<times> cstring" where
  "sample_expression s =
     (if s \<noteq> [] \<and> isdigit (hd s)
      then (constant_expr (word_of_nat (read_base 10 (takeWhile isdigit s))), dropWhile isdigit s)
      else (case name_end s of
          ([], e) \<Rightarrow> ((constant_expr 0)\<lparr>X_op := O_absent\<rparr>, e)
        | (c # cs, e) \<Rightarrow> (symbol_expr (c # cs), e)))"

definition sample_session :: session where
  "sample_session = \<lparr>s_opts = initial_mips_opts\<lparr>o_isa := ISA_RIGEL32, o_arch := CPU_RIGEL32, o_mips16 := 0\<rparr>, s_abi = O32_ABI,
     s_ienv = \<lparr>env_regs = \<lparr>e_symbols = begin_registers O32_ABI (empty_tables 0), e_itbl = None\<rparr>,
       env_expr = \<lparr>x_expression = sample_expression, x_dot = (\<lambda>_. False), x_supported = (\<lambda>_. True)\<rparr>,
       env_abi = O32_ABI, env_ase_mips16 = False\<rparr>,
     s_aenv = \<lparr>a_optimize = 2, a_relax_branch = False, a_pic = NO_PIC, a_abi = O32_ABI, a_big = True,
       a_fix = \<lparr>mips_7000_hilo_fix = False, mips_fix_vr4120 = False, mips_fix_vr4130 = False,
         vr4120_conflicts = init_vr4120_conflicts (\<lambda>_. {})\<rparr>,
       a_small = False, a_ext = False, a_reloc_size = (\<lambda>_. 4), a_partial_inplace = (\<lambda>_. True), a_room = (\<lambda>_. 4096)\<rparr>,
     s_tabs = (case begin_opcodes (initial_mips_opts\<lparr>o_isa := ISA_RIGEL32, o_arch := CPU_RIGEL32, o_mips16 := 0\<rparr>) 0
         mips_builtin_opcodes mips16_opcodes of Inr t \<Rightarrow> t)\<rparr>"

definition sample_ip :: ip_state where
  "sample_ip = \<lparr>ip_insn = create_insn initial_mips_opts (mips_builtin_opcodes ! 0), imm_expr = constant_expr 0,
     imm2_expr = constant_expr 0, offset_expr = constant_expr 0, imm_reloc = no_relocs, offset_reloc = no_relocs,
     ip_error = None, ip_events = [], lastpos = 0\<rparr>"

definition sample_output :: gas_state where
  "sample_output = \<lparr>g_store = \<lparr>fr_literal = [0 \<mapsto> []], fixes_of = Map.empty\<rparr>, g_now = 0, g_ends = Map.empty, g_fixes = [],
     g_history = replicate 5 (create_insn initial_mips_opts (mips_builtin_opcodes ! 0)),
     g_nop = create_insn initial_mips_opts (mips_builtin_opcodes ! 0), g_prev_nop = None, g_gprmask = 0, g_cprmask1 = 0,
     g_labels = [], g_label = (\<lambda>_. \<lparr>lb_frag = 0, lb_value = 0, lb_mips16 = False, lb_preemptible = False\<rparr>),
     g_sequence = 0, g_sizes = (0, 0), g_first_fixup = None, g_relax_symbol = None, g_warn_sizes = (0, 0),
     g_warn_frag = None, g_hi_fixups = [], g_jump16 = [], g_msgs = []\<rparr>"

lemma sample_session_ok: "rigel_session_ok sample_session"
proof -
  let ?opts = "initial_mips_opts\<lparr>o_isa := ISA_RIGEL32, o_arch := CPU_RIGEL32, o_mips16 := 0\<rparr>"
  obtain t where "begin_opcodes ?opts 0 mips_builtin_opcodes mips16_opcodes = Inr t"
    using rigel_begin_tables [of ?opts 0] by blast
  then have "begin_opcodes ?opts 0 mips_builtin_opcodes mips16_opcodes = Inr (s_tabs sample_session)"
    by (simp add: sample_session_def)
  moreover have "rigel_opts (s_opts sample_session)" by (simp add: sample_session_def rigel_opts_def)
  moreover have "registers_known (s_abi sample_session) (env_regs (s_ienv sample_session))"
    using begin_registers_known(1) [of O32_ABI 0] by (simp add: sample_session_def)
  ultimately show ?thesis unfolding rigel_session_ok_def by blast
qed

lemma sample_output_ok: "output_ok sample_output []"
  using rigel_no_hazard [OF rigel_nth_mem [of 0]]
  by (simp add: output_ok_def quiet_state_def sample_output_def create_insn_def)

lemma sample_fields:
  "x_expression (env_expr (s_ienv sample_session)) = sample_expression" "a_big (s_aenv sample_session) = True"
  "a_relax_branch (s_aenv sample_session) = False" "s_abi sample_session = O32_ABI"
  by (simp_all add: sample_session_def)

lemma sample_numeral:
  assumes "t \<noteq> []" and "list_all isdigit t"
  shows "reads_as (env_expr (s_ienv sample_session)) t (constant_expr (word_of_nat (read_base 10 t)))"
proof -
  have h: "isdigit (hd t)" using assms by (cases t) auto
  have "takeWhile isdigit (t @ rest) = t" "dropWhile isdigit (t @ rest) = rest" if "operand_ends rest" for rest
    using assms(2) that by (cases rest; simp add: operand_ends_def list_all_iff takeWhile_append dropWhile_append isdigit_def
        char_code_def)+
  then have "sample_expression (t @ rest) = (constant_expr (word_of_nat (read_base 10 t)), rest)" if "operand_ends rest" for rest
    using assms(1) h that by (simp add: sample_expression_def)
  moreover have "hd t \<notin> {CHR ''('', CHR ''%'', CHR '' '', CHR 0x09}" using h by (auto simp: isdigit_def char_code_def)
  ultimately show ?thesis using assms(1) by (simp add: reads_as_def sample_fields)
qed

section \<open>Properties\<close>

text \<open>C4: what a line leads to on the Rigel table, whatever the line, the symbols and the expressions are. An
  unknown mnemonic and operands that do not match are the only errors; the fatal internal error is never
  reached; an assertion can fail only for an entry with several operands; and an accepted line yields an
  instruction of the entry of its mnemonic, which that entry and no other entry of the table matches.\<close>

theorem rigel_line_outcome:
  assumes "rigel_opts opts"
  shows "case mips_ip opts env mips_builtin_opcodes (first_entry mips_builtin_opcodes) str st of
      Ip_done st' \<Rightarrow>
        (case ip_error st' of
           None \<Rightarrow> \<exists>i s. find_mnemonic (first_entry mips_builtin_opcodes) str = Some (i, s)
             \<and> insn_mo (ip_insn st') = mips_builtin_opcodes ! i
             \<and> (\<forall>mo\<in>set mips_builtin_opcodes.
                  opcode_matches mo (insn_opcode (ip_insn st')) \<longleftrightarrow> mo = mips_builtin_opcodes ! i)
         | Some e \<Rightarrow> e = (if find_mnemonic (first_entry mips_builtin_opcodes) str = None
                         then Unrecognized_opcode else Illegal_operands))
    | Ip_assertion_failed \<Rightarrow> \<exists>i s. find_mnemonic (first_entry mips_builtin_opcodes) str = Some (i, s)
        \<and> CHR '','' \<in> set (op_args (mips_builtin_opcodes ! i))
    | Ip_internal_error \<Rightarrow> False | Ip_null_pointer \<Rightarrow> False"
  using assms by (rule line_outcome)

text \<open>C2: a program of Rigel lines is assembled. After \<open>md_begin\<close>, with the registers known, whatever other labels
  were defined, and for any lines with numbered registers and with constants in the range of their letter where
  the entry asks for them (a branch or jump to a multiple of four in reach), \<open>md_assemble\<close> returns from every
  line, neither parsing it nor adding it to the frag reports an error or a warning or leaves a fixup, and the frag has grown by one word for each line, in the byte order of the
  target: the entry of its mnemonic with the values of its operands filled in.\<close>

theorem rigel_program_assembles:
  assumes "rigel_session_ok se" and "\<forall>(i, opds)\<in>set prog. good_operands se i opds" and "output_ok g mem"
  shows "\<exists>st' g' words. assemble_lines se (map (\<lambda>(i, opds). line_text i opds) prog) st g = Asm_ok st' g'
    \<and> output_ok g' (mem @ concat words) \<and> list_all (\<lambda>bs. length bs = 4) words
    \<and> map (bfd_get_32 (a_big (s_aenv se))) words = map (\<lambda>(i, opds). line_word_of se i opds) prog
    \<and> g_fixes g' = g_fixes g \<and> g_msgs g' = g_msgs g \<and> ip_events st' = ip_events st"
  using assms by (rule lines_assembled)

text \<open>C6: a line that ends before its second operand stops the assembler with a failed assertion, instead of the
  message about illegal operands, unless the second operand is a shift amount: where the comma is missing the
  code falls through to the case of an opening bracket, which asserts that a base register follows.\<close>

theorem missing_operand_stops:
  assumes "rigel_session_ok se" and "i < 138" and "op_args (mips_builtin_opcodes ! i) = c # CHR '','' # d # rest"
    and "operand_ok (env_expr (s_ienv se)) c opd" and "d \<notin> {CHR ''b'', CHR ''5'', CHR ''-'', CHR ''4''}"
  shows "assemble se (line_text i [opd]) st g = Asm_stopped"
  using assms by (rule missing_operand)

text \<open>C5: an operand that is no register is accepted where one is required. The case for registers falls through
  to the case for immediates, so three numerals, or three names such as \<open>$r1\<close> that the disassembler prints but
  the assembler does not know, pass for the registers of an entry without any message. The register fields stay
  zero. A constant in the last place is put into the low bits of the word, over the function code; a name
  leaves a fixup that will put the address of that symbol there.\<close>

theorem non_registers_accepted:
  assumes "rigel_session_ok se" and "i < 138" and "op_args (mips_builtin_opcodes ! i) = ''d,s,t''"
    and "passes_for_register se t1 e1" and "passes_for_register se t2 e2" and "passes_for_register se t3 e3"
    and "output_ok g mem"
  shows "\<exists>st' g' bs. assemble se (three_texts i t1 t2 t3) st g = Asm_ok st' g' \<and> ip_events st' = ip_events st
    \<and> g_msgs g' = g_msgs g \<and> output_ok g' (mem @ bs) \<and> length bs = 4
    \<and> bfd_get_32 (a_big (s_aenv se)) bs = take_bit 32 (op_match (mips_builtin_opcodes ! i)
        OR (if X_op e3 = O_constant then X_add_number e3 AND 0xffff else 0))
    \<and> g_fixes g' = g_fixes g @ (if X_op e3 = O_constant then []
        else [symbol_fix (s_aenv se) (the (X_add_symbol e3)) (X_add_number e3) BFD_RELOC_LO16])"
  using assms by (rule three_appended)

text \<open>Concrete runs: \<open>add $1,$2,$3\<close> and \<open>addi $1,$29,5\<close>; \<open>add $1\<close>; and \<open>add 1,2,3\<close>, whose word is that of \<open>subu\<close>.\<close>

lemma sample_add: "good_operands sample_session 0 [Reg_op 1, Reg_op 2, Reg_op 3]"
  unfolding good_operands_def rigel_entry_add by (simp add: operand_letters_of_def)

lemma sample_five: "reads_as (env_expr (s_ienv sample_session)) ''5'' (constant_expr 5)"
  using sample_numeral [of "''5''"] by (simp add: isdigit_def char_code_def read_base_def digit_value_def)

lemma sample_addi: "good_operands sample_session 4 [Reg_op 1, Reg_op 29, Expr_op ''5'' (constant_expr 5)]"
  unfolding good_operands_def rigel_entry_addi
  by (simp add: operand_letters_of_def sample_five [unfolded constant_expr_def] within_bounds_def imm_bounds_def constant_expr_def)

lemma sample_addi_text: "line_text 4 [Reg_op (Suc 0), Reg_op 29, Expr_op ''5'' ep] = ''addi $1,$29,5''"
  by (simp add: line_text_def rigel_entry_addi) code_simp

lemma encode_register_entries:
  "encode_insn opts (opcode nm ''d,s,t'' mt mk p q r) vs = insert_fields [F_RD, F_RS, F_RT] vs mt"
  "encode_insn opts (opcode nm ''d,t,j'' mt mk p q r) vs = insert_fields [F_RD, F_RT, F_DELTA] vs mt"
  by (rule trans [OF encode_insn_fields]; simp only: opcode_sel rigel_args_fields)+

theorem rigel_line_outcome_witness:
  "case mips_ip (s_opts sample_session) (s_ienv sample_session) mips_builtin_opcodes (first_entry mips_builtin_opcodes)
      ''foo $1'' sample_ip of
    Ip_done st' \<Rightarrow> ip_error st' = Some Unrecognized_opcode | Ip_assertion_failed \<Rightarrow> False | Ip_internal_error \<Rightarrow> False
    | Ip_null_pointer \<Rightarrow> False"
proof -
  have n: "find_mnemonic (first_entry mips_builtin_opcodes) ''foo $1'' = None"
    unfolding find_mnemonic_def first_entry_def mips_builtin_opcodes_def by (simp add: isspace_def char_code_def)
  show ?thesis
    using rigel_line_outcome [OF session_facts(3) [OF sample_session_ok], where env = "s_ienv sample_session" and str = "''foo $1''"
        and st = sample_ip]
    by (simp add: n split: ip_result.splits option.splits)
qed

theorem rigel_program_assembles_witness:
  "\<exists>st' g' words. assemble_lines sample_session [''add $1,$2,$3'', ''addi $1,$29,5''] sample_ip sample_output = Asm_ok st' g'
    \<and> output_ok g' (concat words) \<and> map (bfd_get_32 True) words = [0x008c5c00, 0x10F40005]
    \<and> g_msgs g' = [] \<and> ip_events st' = []"
proof -
  have l: "line_text 0 [Reg_op 1, Reg_op 2, Reg_op 3] = ''add $1,$2,$3''"
      "line_text 4 [Reg_op 1, Reg_op 29, Expr_op ''5'' (constant_expr 5)] = ''addi $1,$29,5''"
    by (simp_all add: line_text_def rigel_entry_add rigel_entry_addi) code_simp+
  have w: "line_word_of sample_session 0 [Reg_op 1, Reg_op 2, Reg_op 3] = 0x008c5c00"
      "line_word_of sample_session 4 [Reg_op 1, Reg_op 29, Expr_op ''5'' (constant_expr 5)] = 0x10F40005"
    unfolding line_word_of_def rigel_entry_add rigel_entry_addi opcode_sel
    by (simp_all add: encode_register_entries operand_letters_of_def constant_expr_def INSERT_BITS_def F_RD_def F_RS_def
        F_RT_def F_DELTA_def)
  have m: "g_msgs sample_output = []" "ip_events sample_ip = []" by (simp_all add: sample_output_def sample_ip_def)
  show ?thesis
    using rigel_program_assembles [OF sample_session_ok _ sample_output_ok,
        of "[(0, [Reg_op 1, Reg_op 2, Reg_op 3]), (4, [Reg_op 1, Reg_op 29, Expr_op ''5'' (constant_expr 5)])]" sample_ip]
      sample_add sample_addi
    by (fastforce simp: l [simplified] w [simplified] sample_fields m)
qed

theorem missing_operand_stops_witness:
  "assemble sample_session ''add $1'' sample_ip sample_output = Asm_stopped"
proof -
  have l: "line_text 0 [Reg_op 1] = ''add $1''"
    by (simp add: line_text_def rigel_entry_add) code_simp
  have a: "op_args (mips_builtin_opcodes ! 0) = CHR ''d'' # CHR '','' # CHR ''s'' # '',t''" unfolding rigel_entry_add by simp
  show ?thesis
    using missing_operand_stops [OF sample_session_ok _ a, of "Reg_op 1" sample_ip sample_output] by (simp add: l [simplified])
qed

theorem non_registers_accepted_witness:
  "\<exists>st' g' bs. assemble sample_session ''add 1,2,3'' sample_ip sample_output = Asm_ok st' g' \<and> ip_events st' = []
    \<and> g_msgs g' = [] \<and> output_ok g' bs \<and> bfd_get_32 True bs = 0x1c03
    \<and> op_name (mips_builtin_opcodes ! 3) = ''subu'' \<and> opcode_matches (mips_builtin_opcodes ! 3) 0x1c03"
proof -
  have a: "op_args (mips_builtin_opcodes ! 0) = ''d,s,t''" "op_name (mips_builtin_opcodes ! 0) = ''add''"
      "op_match (mips_builtin_opcodes ! 0) = 0x1c00" unfolding rigel_entry_add by simp_all
  have p: "passes_for_register sample_session ''1'' (constant_expr 1)" "passes_for_register sample_session ''2'' (constant_expr 2)"
      "passes_for_register sample_session ''3'' (constant_expr 3)"
    using sample_numeral [of "''1''"] sample_numeral [of "''2''"] sample_numeral [of "''3''"]
    by (simp_all add: passes_for_register_def no_register_def isdigit_def char_code_def read_base_def digit_value_def
        constant_expr_def)
  have u: "op_name (mips_builtin_opcodes ! 3) = ''subu''" "opcode_matches (mips_builtin_opcodes ! 3) 0x1c03"
    unfolding mips_builtin_opcodes_def by (simp_all add: opcode_matches_def)
  have t: "three_texts 0 ''1'' ''2'' ''3'' = ''add 1,2,3''" by (simp add: three_texts_def a(2))
  have m: "g_msgs sample_output = []" "ip_events sample_ip = []" by (simp_all add: sample_output_def sample_ip_def)
  have k: "X_op (constant_expr 3) = O_constant" "X_add_number (constant_expr 3) = 3" by (simp_all add: constant_expr_def)
  show ?thesis
    using non_registers_accepted [OF sample_session_ok _ a(1) p sample_output_ok, of sample_ip] u
    by (auto simp: t m k a(3) sample_fields)
qed

end
