(* ===== verification/Gas_Options.thy ===== *)
theory Gas_Options
  imports Gas_Cpu Gas_Append
begin

text \<open>
  The command line of the assembler (\<open>gas/config/tc-mips.c\<close>): the table of long options, \<open>md_parse_option\<close>, which
  records each option in static variables, and \<open>mips_after_parse_args\<close>, which settles the processor, the ISA level,
  the sizes of the registers and the extensions from all of them.

  What the build configures is a parameter. A message is a value with its severity; \<open>as_fatal\<close> ends the assembler.
  Reading through a null pointer is \<open>None\<close>.
\<close>

section \<open>State\<close>

datatype opt_msg =
  Bad_value cstring cstring | Different_string cstring cstring | Elf_only cstring | No_64bit_objects
| Invalid_abi cstring | G_not_supported | Isa_conflict cstring cstring | Arch_not_for_abi cstring
| Gp64_with_32bit_processor | Gp32_with_64bit_abi | Gp64_with_32bit_abi | Fp64_with_32bit_fpu
| Fp64_with_32bit_abi | Fp32_with_64bit_abi | Trap_at_isa_1 | Fp32_with_ase cstring | Isa_lacks cstring cstring
| Noreorder_before_nomacro | Unknown_architecture cstring | Unknown_isa_level cstring | Pop_without_push | Unrecognized_symbol cstring

datatype opt_diag = As_bad opt_msg | As_warn opt_msg

text \<open>The static variables that options set; \<open>v_nops\<close> holds \<open>nop_insn\<close> and \<open>mips16_nop_insn\<close>.\<close>

record gas_statics =
  v_opts :: mips_set_options           \<comment> \<open>\<open>mips_opts\<close>\<close>
  v_gp32 :: int                        \<comment> \<open>\<open>file_mips_gp32\<close>\<close>
  v_fp32 :: int
  v_isa :: ulong                       \<comment> \<open>\<open>file_mips_isa\<close>\<close>
  v_arch :: int
  v_arch_string :: "cstring option"
  v_tune :: int
  v_tune_string :: "cstring option"
  v_32bitmode :: int
  v_abi :: mips_abi_level
  v_abicalls :: bool
  v_in_shared :: bool
  v_pic :: mips_pic_level
  v_big_got :: int
  v_trap :: int
  v_no_float_construction :: int
  v_optimize :: int
  v_debug :: int
  v_7000_hilo_fix :: bool
  v_fix_vr4120 :: int
  v_fix_vr4130 :: int
  v_relax_branch :: int
  v_big :: bool                        \<comment> \<open>\<open>target_big_endian\<close>\<close>
  v_g_value :: uint
  v_g_seen :: int
  v_mdebug :: int
  v_pdr :: bool
  v_ases :: "int list"                 \<comment> \<open>\<open>file_ase_mips16\<close> to \<open>file_ase_mt\<close>\<close>
  v_any_noreorder :: bool
  v_nops :: "mips_cl_insn \<times> mips_cl_insn"
  v_diags :: "opt_diag list"

definition report :: "opt_diag list \<Rightarrow> gas_statics \<Rightarrow> gas_statics" where
  "report ms v = v\<lparr>v_diags := v_diags v @ ms\<rparr>"

text \<open>The initialisers; the byte order comes from the configuration, the nops are filled by \<open>md_begin\<close>.\<close>

definition initial_statics :: "bool \<Rightarrow> mips_cl_insn \<times> mips_cl_insn \<Rightarrow> gas_statics" where
  "initial_statics big nops = \<lparr>v_opts = initial_mips_opts, v_gp32 = -1, v_fp32 = -1, v_isa = ISA_UNKNOWN,
     v_arch = CPU_RIGEL32, v_arch_string = None, v_tune = CPU_UNKNOWN, v_tune_string = None, v_32bitmode = 0,
     v_abi = NO_ABI, v_abicalls = False, v_in_shared = True, v_pic = NO_PIC, v_big_got = 0, v_trap = 0,
     v_no_float_construction = 0, v_optimize = 2, v_debug = 0, v_7000_hilo_fix = False, v_fix_vr4120 = 0,
     v_fix_vr4130 = 0, v_relax_branch = 0, v_big = big, v_g_value = 8, v_g_seen = 0, v_mdebug = -1, v_pdr = True,
     v_ases = replicate 7 0, v_any_noreorder = False, v_nops = nops, v_diags = []\<rparr>"

text \<open>What the build fixes; \<open>oe_ecoff\<close> says that ECOFF is compiled in and the format of the output.\<close>

record opt_env =
  oe_elf :: bool                       \<comment> \<open>\<open>IS_ELF\<close>\<close>
  oe_64bit_objects :: bool             \<comment> \<open>\<open>support_64bit_objects\<close>\<close>
  oe_target_os :: cstring
  oe_target_cpu :: cstring
  oe_target_canonical :: cstring
  oe_default_abi :: mips_abi_level
  oe_default_cpu :: cstring
  oe_default_64bit :: bool
  oe_ecoff :: bool

type_synonym gas_vars = "gas_statics \<times> gas_state"

text \<open>\<open>NOP_INSN\<close> is one of two variables, by the current mode: a change of \<open>mips_opts\<close> may switch to the other.\<close>

definition set_opts :: "mips_set_options \<Rightarrow> gas_vars \<Rightarrow> gas_vars" where
  "set_opts opts vg = (case vg of (v, g) \<Rightarrow>
     let nops = (if o_mips16 (v_opts v) \<noteq> 0 then (fst (v_nops v), g_nop g) else (g_nop g, snd (v_nops v)))
     in (v\<lparr>v_opts := opts, v_nops := nops\<rparr>, g\<lparr>g_nop := if o_mips16 opts \<noteq> 0 then snd nops else fst nops\<rparr>))"

section \<open>The options\<close>

text \<open>The options with a long name, grouped as their numbers are, the three short ones, and any other.\<close>

datatype arch_option =
  OPTION_MARCH | OPTION_MTUNE | OPTION_MIPS1 | OPTION_MIPS2 | OPTION_MIPS3 | OPTION_MIPS4 | OPTION_MIPS5
  | OPTION_MIPS32 | OPTION_MIPS64 | OPTION_MIPS32R2 | OPTION_MIPS64R2 | OPTION_RIGEL32

datatype ase_option =
  OPTION_MIPS16 | OPTION_NO_MIPS16 | OPTION_MIPS3D | OPTION_NO_MIPS3D | OPTION_MDMX | OPTION_NO_MDMX
  | OPTION_DSP | OPTION_NO_DSP | OPTION_MT | OPTION_NO_MT | OPTION_SMARTMIPS | OPTION_NO_SMARTMIPS
  | OPTION_DSPR2 | OPTION_NO_DSPR2

datatype compat_arch_option =
  OPTION_M4650 | OPTION_NO_M4650 | OPTION_M4010 | OPTION_NO_M4010 | OPTION_M4100 | OPTION_NO_M4100
  | OPTION_M3900 | OPTION_NO_M3900

datatype fix_option =
  OPTION_M7000_HILO_FIX | OPTION_MNO_7000_HILO_FIX | OPTION_FIX_VR4120 | OPTION_NO_FIX_VR4120
  | OPTION_FIX_VR4130 | OPTION_NO_FIX_VR4130

datatype misc_option =
  OPTION_TRAP | OPTION_BREAK | OPTION_EB | OPTION_EL | OPTION_FP32 | OPTION_GP32 | OPTION_CONSTRUCT_FLOATS
  | OPTION_NO_CONSTRUCT_FLOATS | OPTION_FP64 | OPTION_GP64 | OPTION_RELAX_BRANCH | OPTION_NO_RELAX_BRANCH
  | OPTION_MSHARED | OPTION_MNO_SHARED | OPTION_MSYM32 | OPTION_MNO_SYM32

datatype elf_option =
  OPTION_CALL_SHARED | OPTION_NON_SHARED | OPTION_XGOT | OPTION_MABI | OPTION_32 | OPTION_N32 | OPTION_64
  | OPTION_MDEBUG | OPTION_NO_MDEBUG | OPTION_PDR | OPTION_NO_PDR | OPTION_MVXWORKS_PIC

datatype md_option =
  Arch arch_option | Ase ase_option | Compat_arch compat_arch_option | Fix fix_option | Misc misc_option | Elf elf_option
| Option_O | Option_g | Option_G | Option_other

text \<open>The name, whether an argument is required, and the option.\<close>

definition md_longopts :: "(cstring \<times> bool \<times> md_option) list" where [rigel_tab]:
  "md_longopts = [
   (''march'', True, Arch OPTION_MARCH),
   (''mtune'', True, Arch OPTION_MTUNE),
   (''mips0'', False, Arch OPTION_MIPS1),
   (''mips1'', False, Arch OPTION_MIPS1),
   (''mips2'', False, Arch OPTION_MIPS2),
   (''mips3'', False, Arch OPTION_MIPS3),
   (''mips4'', False, Arch OPTION_MIPS4),
   (''mips5'', False, Arch OPTION_MIPS5),
   (''mips32'', False, Arch OPTION_MIPS32),
   (''mips64'', False, Arch OPTION_MIPS64),
   (''mips32r2'', False, Arch OPTION_MIPS32R2),
   (''mips64r2'', False, Arch OPTION_MIPS64R2),
   (''mipsrigel32'', False, Arch OPTION_RIGEL32),
   (''mips16'', False, Ase OPTION_MIPS16),
   (''no-mips16'', False, Ase OPTION_NO_MIPS16),
   (''mips3d'', False, Ase OPTION_MIPS3D),
   (''no-mips3d'', False, Ase OPTION_NO_MIPS3D),
   (''mdmx'', False, Ase OPTION_MDMX),
   (''no-mdmx'', False, Ase OPTION_NO_MDMX),
   (''mdsp'', False, Ase OPTION_DSP),
   (''mno-dsp'', False, Ase OPTION_NO_DSP),
   (''mmt'', False, Ase OPTION_MT),
   (''mno-mt'', False, Ase OPTION_NO_MT),
   (''msmartmips'', False, Ase OPTION_SMARTMIPS),
   (''mno-smartmips'', False, Ase OPTION_NO_SMARTMIPS),
   (''mdspr2'', False, Ase OPTION_DSPR2),
   (''mno-dspr2'', False, Ase OPTION_NO_DSPR2),
   (''m4650'', False, Compat_arch OPTION_M4650),
   (''no-m4650'', False, Compat_arch OPTION_NO_M4650),
   (''m4010'', False, Compat_arch OPTION_M4010),
   (''no-m4010'', False, Compat_arch OPTION_NO_M4010),
   (''m4100'', False, Compat_arch OPTION_M4100),
   (''no-m4100'', False, Compat_arch OPTION_NO_M4100),
   (''m3900'', False, Compat_arch OPTION_M3900),
   (''no-m3900'', False, Compat_arch OPTION_NO_M3900),
   (''mfix7000'', False, Fix OPTION_M7000_HILO_FIX),
   (''no-fix-7000'', False, Fix OPTION_MNO_7000_HILO_FIX),
   (''mno-fix7000'', False, Fix OPTION_MNO_7000_HILO_FIX),
   (''mfix-vr4120'', False, Fix OPTION_FIX_VR4120),
   (''mno-fix-vr4120'', False, Fix OPTION_NO_FIX_VR4120),
   (''mfix-vr4130'', False, Fix OPTION_FIX_VR4130),
   (''mno-fix-vr4130'', False, Fix OPTION_NO_FIX_VR4130),
   (''trap'', False, Misc OPTION_TRAP),
   (''no-break'', False, Misc OPTION_TRAP),
   (''break'', False, Misc OPTION_BREAK),
   (''no-trap'', False, Misc OPTION_BREAK),
   (''EB'', False, Misc OPTION_EB),
   (''EL'', False, Misc OPTION_EL),
   (''mfp32'', False, Misc OPTION_FP32),
   (''mgp32'', False, Misc OPTION_GP32),
   (''construct-floats'', False, Misc OPTION_CONSTRUCT_FLOATS),
   (''no-construct-floats'', False, Misc OPTION_NO_CONSTRUCT_FLOATS),
   (''mfp64'', False, Misc OPTION_FP64),
   (''mgp64'', False, Misc OPTION_GP64),
   (''relax-branch'', False, Misc OPTION_RELAX_BRANCH),
   (''no-relax-branch'', False, Misc OPTION_NO_RELAX_BRANCH),
   (''mshared'', False, Misc OPTION_MSHARED),
   (''mno-shared'', False, Misc OPTION_MNO_SHARED),
   (''msym32'', False, Misc OPTION_MSYM32),
   (''mno-sym32'', False, Misc OPTION_MNO_SYM32),
   (''KPIC'', False, Elf OPTION_CALL_SHARED),
   (''call_shared'', False, Elf OPTION_CALL_SHARED),
   (''non_shared'', False, Elf OPTION_NON_SHARED),
   (''xgot'', False, Elf OPTION_XGOT),
   (''mabi'', True, Elf OPTION_MABI),
   (''32'', False, Elf OPTION_32),
   (''n32'', False, Elf OPTION_N32),
   (''64'', False, Elf OPTION_64),
   (''mdebug'', False, Elf OPTION_MDEBUG),
   (''no-mdebug'', False, Elf OPTION_NO_MDEBUG),
   (''mpdr'', False, Elf OPTION_PDR),
   (''mno-pdr'', False, Elf OPTION_NO_PDR),
   (''mvxworks-pic'', False, Elf OPTION_MVXWORKS_PIC)]"

section \<open>Recording an option\<close>

text \<open>\<open>md_parse_option\<close> returns whether it knows the option; \<open>as_fatal\<close> and a null pointer do not return.\<close>

datatype opt_outcome = Opt_returns bool gas_vars | Opt_fatal opt_msg | Opt_null_pointer

text \<open>\<open>mips_set_option_string\<close>: the current string, the new one, and the option named in the warning. Both
  strings of a comparison are read.\<close>

definition mips_set_option_string :: "cstring option \<Rightarrow> cstring option \<Rightarrow> cstring \<Rightarrow> (cstring option \<times> opt_diag list) option" where
  "mips_set_option_string old new_value option =
     (case old of
        None \<Rightarrow> Some (new_value, [])
      | Some s \<Rightarrow> (case new_value of
          None \<Rightarrow> None
        | Some n \<Rightarrow> Some (new_value, if \<not> strcasecmp_eq s n then [As_warn (Different_string option n)] else [])))"

definition set_arch_string :: "cstring option \<Rightarrow> gas_statics \<Rightarrow> gas_statics option" where
  "set_arch_string s v = map_option (\<lambda>(s', ms). report ms (v\<lparr>v_arch_string := s'\<rparr>))
     (mips_set_option_string (v_arch_string v) s ''-march'')"

definition set_tune_string :: "cstring option \<Rightarrow> gas_statics \<Rightarrow> gas_statics option" where
  "set_tune_string s v = map_option (\<lambda>(s', ms). report ms (v\<lparr>v_tune_string := s'\<rparr>))
     (mips_set_option_string (v_tune_string v) s ''-mtune'')"

definition statics_outcome :: "gas_state \<Rightarrow> gas_statics option \<Rightarrow> opt_outcome" where
  "statics_outcome g r = (case r of Some v \<Rightarrow> Opt_returns True (v, g) | None \<Rightarrow> Opt_null_pointer)"

text \<open>\<open>atoi\<close>; a value that an \<open>int\<close> cannot hold is undefined in C.\<close>

definition atoi :: "cstring \<Rightarrow> int" where
  "atoi s = (let t = dropWhile isspace s; digits = (\<lambda>u. int (read_base 10 (takeWhile isdigit u))) in
     if char_at t 0 = CHR ''-'' then - digits (drop 1 t) else if char_at t 0 = CHR ''+'' then digits (drop 1 t) else digits t)"

fun parse_arch_option :: "arch_option \<Rightarrow> cstring option \<Rightarrow> gas_statics \<Rightarrow> gas_statics option" where
  "parse_arch_option OPTION_MIPS1 arg v = Some (v\<lparr>v_isa := ISA_MIPS1\<rparr>)"
| "parse_arch_option OPTION_RIGEL32 arg v = Some (v\<lparr>v_isa := ISA_RIGEL32\<rparr>)"
| "parse_arch_option OPTION_MIPS2 arg v = Some (v\<lparr>v_isa := ISA_MIPS2\<rparr>)"
| "parse_arch_option OPTION_MIPS3 arg v = Some (v\<lparr>v_isa := ISA_MIPS3\<rparr>)"
| "parse_arch_option OPTION_MIPS4 arg v = Some (v\<lparr>v_isa := ISA_MIPS4\<rparr>)"
| "parse_arch_option OPTION_MIPS5 arg v = Some (v\<lparr>v_isa := ISA_MIPS5\<rparr>)"
| "parse_arch_option OPTION_MIPS32 arg v = Some (v\<lparr>v_isa := ISA_MIPS32\<rparr>)"
| "parse_arch_option OPTION_MIPS32R2 arg v = Some (v\<lparr>v_isa := ISA_MIPS32R2\<rparr>)"
| "parse_arch_option OPTION_MIPS64R2 arg v = Some (v\<lparr>v_isa := ISA_MIPS64R2\<rparr>)"
| "parse_arch_option OPTION_MIPS64 arg v = Some (v\<lparr>v_isa := ISA_MIPS64\<rparr>)"
| "parse_arch_option OPTION_MTUNE arg v = set_tune_string arg v"
| "parse_arch_option OPTION_MARCH arg v = set_arch_string arg v"

definition both_strings :: "cstring \<Rightarrow> gas_statics \<Rightarrow> gas_statics option" where
  "both_strings s v = Option.bind (set_arch_string (Some s) v) (set_tune_string (Some s))"

fun parse_compat_arch_option :: "compat_arch_option \<Rightarrow> gas_statics \<Rightarrow> gas_statics option" where
  "parse_compat_arch_option OPTION_M4650 v = both_strings ''4650'' v"
| "parse_compat_arch_option OPTION_NO_M4650 v = Some v"
| "parse_compat_arch_option OPTION_M4010 v = both_strings ''4010'' v"
| "parse_compat_arch_option OPTION_NO_M4010 v = Some v"
| "parse_compat_arch_option OPTION_M4100 v = both_strings ''4100'' v"
| "parse_compat_arch_option OPTION_NO_M4100 v = Some v"
| "parse_compat_arch_option OPTION_M3900 v = both_strings ''3900'' v"
| "parse_compat_arch_option OPTION_NO_M3900 v = Some v"

text \<open>The extensions are fields of \<open>mips_opts\<close>; a change of the mode forgets the previous instructions.\<close>

fun ase_options :: "ase_option \<Rightarrow> mips_set_options \<Rightarrow> mips_set_options" where
  "ase_options OPTION_MDMX opts = opts\<lparr>o_ase_mdmx := 1\<rparr>"
| "ase_options OPTION_NO_MDMX opts = opts\<lparr>o_ase_mdmx := 0\<rparr>"
| "ase_options OPTION_DSP opts = opts\<lparr>o_ase_dsp := 1, o_ase_dspr2 := 0\<rparr>"
| "ase_options OPTION_NO_DSP opts = opts\<lparr>o_ase_dsp := 0, o_ase_dspr2 := 0\<rparr>"
| "ase_options OPTION_DSPR2 opts = opts\<lparr>o_ase_dspr2 := 1, o_ase_dsp := 1\<rparr>"
| "ase_options OPTION_NO_DSPR2 opts = opts\<lparr>o_ase_dspr2 := 0, o_ase_dsp := 0\<rparr>"
| "ase_options OPTION_MT opts = opts\<lparr>o_ase_mt := 1\<rparr>"
| "ase_options OPTION_NO_MT opts = opts\<lparr>o_ase_mt := 0\<rparr>"
| "ase_options OPTION_MIPS16 opts = opts\<lparr>o_mips16 := 1\<rparr>"
| "ase_options OPTION_NO_MIPS16 opts = opts\<lparr>o_mips16 := 0\<rparr>"
| "ase_options OPTION_MIPS3D opts = opts\<lparr>o_ase_mips3d := 1\<rparr>"
| "ase_options OPTION_NO_MIPS3D opts = opts\<lparr>o_ase_mips3d := 0\<rparr>"
| "ase_options OPTION_SMARTMIPS opts = opts\<lparr>o_ase_smartmips := 1\<rparr>"
| "ase_options OPTION_NO_SMARTMIPS opts = opts\<lparr>o_ase_smartmips := 0\<rparr>"

definition parse_ase_option :: "ase_option \<Rightarrow> gas_vars \<Rightarrow> gas_vars" where
  "parse_ase_option c vg = (case vg of (v, g) \<Rightarrow>
     let vg' = set_opts (ase_options c (v_opts v)) (v, g) in
     if c = OPTION_MIPS16 \<or> c = OPTION_NO_MIPS16 then apsnd mips_no_prev_insn vg' else vg')"

fun parse_fix_option :: "fix_option \<Rightarrow> gas_statics \<Rightarrow> gas_statics" where
  "parse_fix_option OPTION_M7000_HILO_FIX v = v\<lparr>v_7000_hilo_fix := True\<rparr>"
| "parse_fix_option OPTION_MNO_7000_HILO_FIX v = v\<lparr>v_7000_hilo_fix := False\<rparr>"
| "parse_fix_option OPTION_FIX_VR4120 v = v\<lparr>v_fix_vr4120 := 1\<rparr>"
| "parse_fix_option OPTION_NO_FIX_VR4120 v = v\<lparr>v_fix_vr4120 := 0\<rparr>"
| "parse_fix_option OPTION_FIX_VR4130 v = v\<lparr>v_fix_vr4130 := 1\<rparr>"
| "parse_fix_option OPTION_NO_FIX_VR4130 v = v\<lparr>v_fix_vr4130 := 0\<rparr>"

fun parse_misc_option :: "misc_option \<Rightarrow> gas_statics \<Rightarrow> gas_statics" where
  "parse_misc_option OPTION_CONSTRUCT_FLOATS v = v\<lparr>v_no_float_construction := 0\<rparr>"
| "parse_misc_option OPTION_NO_CONSTRUCT_FLOATS v = v\<lparr>v_no_float_construction := 1\<rparr>"
| "parse_misc_option OPTION_TRAP v = v\<lparr>v_trap := 1\<rparr>"
| "parse_misc_option OPTION_BREAK v = v\<lparr>v_trap := 0\<rparr>"
| "parse_misc_option OPTION_EB v = v\<lparr>v_big := True\<rparr>"
| "parse_misc_option OPTION_EL v = v\<lparr>v_big := False\<rparr>"
| "parse_misc_option OPTION_RELAX_BRANCH v = v\<lparr>v_relax_branch := 1\<rparr>"
| "parse_misc_option OPTION_NO_RELAX_BRANCH v = v\<lparr>v_relax_branch := 0\<rparr>"
| "parse_misc_option OPTION_MSHARED v = v\<lparr>v_in_shared := True\<rparr>"
| "parse_misc_option OPTION_MNO_SHARED v = v\<lparr>v_in_shared := False\<rparr>"
| "parse_misc_option OPTION_MSYM32 v = v\<lparr>v_opts := (v_opts v)\<lparr>o_sym32 := True\<rparr>\<rparr>"
| "parse_misc_option OPTION_MNO_SYM32 v = v\<lparr>v_opts := (v_opts v)\<lparr>o_sym32 := False\<rparr>\<rparr>"
| "parse_misc_option OPTION_GP32 v = v\<lparr>v_gp32 := 1\<rparr>"
| "parse_misc_option OPTION_GP64 v = v\<lparr>v_gp32 := 0\<rparr>"
| "parse_misc_option OPTION_FP32 v = v\<lparr>v_fp32 := 1\<rparr>"
| "parse_misc_option OPTION_FP64 v = v\<lparr>v_fp32 := 0\<rparr>"

text \<open>The options for ELF: some refuse another format of the output.\<close>

definition elf_only :: "opt_env \<Rightarrow> cstring \<Rightarrow> gas_vars \<Rightarrow> opt_outcome \<Rightarrow> opt_outcome" where
  "elf_only env name vg r =
     (if \<not> oe_elf env then Opt_returns False (apfst (report [As_bad (Elf_only name)]) vg) else r)"

definition set_abi :: "mips_abi_level \<Rightarrow> gas_vars \<Rightarrow> opt_outcome" where
  "set_abi abi vg = Opt_returns True (apfst (\<lambda>v. v\<lparr>v_abi := abi\<rparr>) vg)"

definition set_n64_abi :: "opt_env \<Rightarrow> gas_vars \<Rightarrow> opt_outcome" where
  "set_n64_abi env vg = (if oe_64bit_objects env then set_abi N64_ABI vg else Opt_fatal No_64bit_objects)"

fun parse_elf_option :: "opt_env \<Rightarrow> elf_option \<Rightarrow> cstring option \<Rightarrow> gas_vars \<Rightarrow> opt_outcome" where
  "parse_elf_option env OPTION_CALL_SHARED arg (v, g) = elf_only env ''-call_shared'' (v, g)
     (Opt_returns True (v\<lparr>v_pic := SVR4_PIC, v_abicalls := True\<rparr>, g))"
| "parse_elf_option env OPTION_NON_SHARED arg (v, g) = elf_only env ''-non_shared'' (v, g)
     (Opt_returns True (v\<lparr>v_pic := NO_PIC, v_abicalls := False\<rparr>, g))"
| "parse_elf_option env OPTION_XGOT arg (v, g) = Opt_returns True (v\<lparr>v_big_got := 1\<rparr>, g)"
| "parse_elf_option env OPTION_32 arg vg = elf_only env ''-32'' vg (set_abi O32_ABI vg)"
| "parse_elf_option env OPTION_N32 arg vg = elf_only env ''-n32'' vg (set_abi N32_ABI vg)"
| "parse_elf_option env OPTION_64 arg vg = elf_only env ''-64'' vg (set_n64_abi env vg)"
| "parse_elf_option env OPTION_MABI arg vg = elf_only env ''-mabi'' vg
     (case arg of None \<Rightarrow> Opt_null_pointer
      | Some a \<Rightarrow>
          if a = ''32'' then set_abi O32_ABI vg else if a = ''o64'' then set_abi O64_ABI vg
          else if a = ''n32'' then set_abi N32_ABI vg else if a = ''64'' then set_n64_abi env vg
          else if a = ''eabi'' then set_abi EABI_ABI vg else Opt_fatal (Invalid_abi a))"
| "parse_elf_option env OPTION_MDEBUG arg (v, g) = Opt_returns True (v\<lparr>v_mdebug := 1\<rparr>, g)"
| "parse_elf_option env OPTION_NO_MDEBUG arg (v, g) = Opt_returns True (v\<lparr>v_mdebug := 0\<rparr>, g)"
| "parse_elf_option env OPTION_PDR arg (v, g) = Opt_returns True (v\<lparr>v_pdr := True\<rparr>, g)"
| "parse_elf_option env OPTION_NO_PDR arg (v, g) = Opt_returns True (v\<lparr>v_pdr := False\<rparr>, g)"
| "parse_elf_option env OPTION_MVXWORKS_PIC arg (v, g) = Opt_returns True (v\<lparr>v_pic := VXWORKS_PIC\<rparr>, g)"

fun md_parse_option :: "opt_env \<Rightarrow> md_option \<Rightarrow> cstring option \<Rightarrow> gas_vars \<Rightarrow> opt_outcome" where
  "md_parse_option env (Arch c) arg (v, g) = statics_outcome g (parse_arch_option c arg v)"
| "md_parse_option env (Compat_arch c) arg (v, g) = statics_outcome g (parse_compat_arch_option c v)"
| "md_parse_option env (Ase c) arg (v, g) = Opt_returns True (parse_ase_option c (v, g))"
| "md_parse_option env (Fix c) arg (v, g) = Opt_returns True (parse_fix_option c v, g)"
| "md_parse_option env (Misc c) arg (v, g) = Opt_returns True (parse_misc_option c v, g)"
| "md_parse_option env (Elf c) arg (v, g) = parse_elf_option env c arg (v, g)"
| "md_parse_option env Option_O arg (v, g) = Opt_returns True
     (v\<lparr>v_optimize := (case arg of Some a \<Rightarrow> if char_at a 0 = CHR ''0'' then 1 else 2 | None \<Rightarrow> 2)\<rparr>, g)"
| "md_parse_option env Option_g arg (v, g) = Opt_returns True
     (v\<lparr>v_debug := (case arg of None \<Rightarrow> 2 | Some a \<Rightarrow> atoi a)\<rparr>, g)"
| "md_parse_option env Option_G arg (v, g) =
     (case arg of None \<Rightarrow> Opt_null_pointer
      | Some a \<Rightarrow> Opt_returns True (v\<lparr>v_g_value := word_of_int (atoi a), v_g_seen := 1\<rparr>, g))"
| "md_parse_option env Option_other arg vg = Opt_returns False vg"

section \<open>After the command line\<close>

definition ISA_SUPPORTS_DSPR2_ASE :: "mips_set_options \<Rightarrow> bool" where
  "ISA_SUPPORTS_DSPR2_ASE opts \<longleftrightarrow> o_isa opts = ISA_MIPS32R2 \<or> o_isa opts = ISA_MIPS64R2"

text \<open>\<open>CPU_HAS_MIPS16\<close> looks at the target of the build only.\<close>

definition CPU_HAS_MIPS16 :: "opt_env \<Rightarrow> bool" where
  "CPU_HAS_MIPS16 env \<longleftrightarrow> strncmp_eq (oe_target_cpu env) ''mips16'' 6
     \<or> strncmp_eq (oe_target_canonical env) ''mips-lsi-elf'' 12"

definition drop_pe_switch :: "opt_env \<Rightarrow> gas_statics \<Rightarrow> gas_statics" where
  "drop_pe_switch env v =
     (if strncmp_eq (oe_target_os env) ''pe'' 2
      then (if v_g_seen v \<noteq> 0 \<and> v_g_value v \<noteq> 0 then report [As_bad G_not_supported] v else v)\<lparr>v_g_value := 0\<rparr>
      else v)"

definition default_abi :: "opt_env \<Rightarrow> gas_statics \<Rightarrow> gas_statics" where
  "default_abi env v = (if v_abi v = NO_ABI then v\<lparr>v_abi := oe_default_abi env\<rparr> else v)"

text \<open>\<open>mips_parse_cpu\<close> on the static variables, with its message.\<close>

definition parse_cpu :: "opt_env \<Rightarrow> cstring \<Rightarrow> cstring \<Rightarrow> gas_statics \<Rightarrow> mips_cpu_info option \<times> gas_statics" where
  "parse_cpu env option s v = (case mips_parse_cpu (v_abi v) (v_gp32 v) (oe_default_64bit env) s of
     (p, bad) \<Rightarrow> (p, if bad then report [As_bad (Bad_value s option)] v else v))"

text \<open>\<open>-march\<close>, the ISA option, and the configured processor; the names in a message are read from the table.\<close>

definition march_cpu :: "opt_env \<Rightarrow> gas_statics \<Rightarrow> mips_cpu_info option \<times> gas_statics" where
  "march_cpu env v = (case v_arch_string v of None \<Rightarrow> (None, v) | Some s \<Rightarrow> parse_cpu env ''-march'' s v)"

definition mix_isa :: "mips_cpu_info option \<Rightarrow> gas_statics \<Rightarrow> (mips_cpu_info option \<times> gas_statics) option" where
  "mix_isa arch v =
     (if v_isa v \<noteq> ISA_UNKNOWN then
        (case arch of
           Some a \<Rightarrow>
             if v_isa v \<noteq> ci_isa a then
               do { p \<leftarrow> mips_cpu_info_from_isa (v_isa v);
                    q \<leftarrow> mips_cpu_info_from_isa (ci_isa a);
                    Some (arch, report [As_bad (Isa_conflict (ci_name p) (ci_name q))] v) }
             else Some (arch, v)
         | None \<Rightarrow> Some (mips_cpu_info_from_isa (v_isa v), v))
      else Some (arch, v))"

definition default_arch :: "opt_env \<Rightarrow> mips_cpu_info option \<times> gas_statics \<Rightarrow> mips_cpu_info option \<times> gas_statics" where
  "default_arch env av = (if fst av = None then parse_cpu env ''default CPU'' (oe_default_cpu env) (snd av) else av)"

definition check_arch_abi :: "mips_cpu_info option \<Rightarrow> gas_statics \<Rightarrow> gas_statics option" where
  "check_arch_abi arch v =
     (if ABI_NEEDS_64BIT_REGS (v_abi v) then
        map_option (\<lambda>a. if \<not> ISA_HAS_64BIT_REGS (ci_isa a) then report [As_bad (Arch_not_for_abi (ci_name a))] v else v) arch
      else Some v)"

definition mips_set_architecture :: "mips_cpu_info option \<Rightarrow> gas_statics \<Rightarrow> gas_statics" where
  "mips_set_architecture info v = (case info of None \<Rightarrow> v
     | Some i \<Rightarrow> v\<lparr>v_arch := ci_cpu i, v_opts := (v_opts v)\<lparr>o_arch := ci_cpu i, o_isa := ci_isa i\<rparr>\<rparr>)"

definition mips_set_tune :: "mips_cpu_info option \<Rightarrow> gas_statics \<Rightarrow> gas_statics" where
  "mips_set_tune info v = (case info of None \<Rightarrow> v | Some i \<Rightarrow> v\<lparr>v_tune := ci_cpu i\<rparr>)"

definition choose_tune :: "opt_env \<Rightarrow> mips_cpu_info option \<Rightarrow> gas_statics \<Rightarrow> gas_statics" where
  "choose_tune env arch v =
     (case (case v_tune_string v of None \<Rightarrow> (None, v) | Some s \<Rightarrow> parse_cpu env ''-mtune'' s v) of
        (None, v') \<Rightarrow> mips_set_tune arch v'
      | (tune, v') \<Rightarrow> mips_set_tune tune v')"

text \<open>The size of the integer registers: checked when the user gave it, inferred otherwise.\<close>

definition settle_gp :: "gas_statics \<Rightarrow> gas_statics" where
  "settle_gp v = (let isa = o_isa (v_opts v) in
     if 0 \<le> v_gp32 v then
       (if v_gp32 v = 0 \<and> \<not> ISA_HAS_64BIT_REGS isa then report [As_bad Gp64_with_32bit_processor] v
        else if v_gp32 v = 1 \<and> ABI_NEEDS_64BIT_REGS (v_abi v) then report [As_bad Gp32_with_64bit_abi] v
        else if v_gp32 v = 0 \<and> ABI_NEEDS_32BIT_REGS (v_abi v) then report [As_bad Gp64_with_32bit_abi] v
        else v)
     else v\<lparr>v_gp32 := (if ABI_NEEDS_32BIT_REGS (v_abi v) \<or> \<not> ISA_HAS_64BIT_REGS isa then 1 else 0)\<rparr>)"

definition settle_fp :: "gas_statics \<Rightarrow> gas_statics" where
  "settle_fp v = (let opts = v_opts v; isa = o_isa opts in
     if v_fp32 v = 0 then
       (if \<not> ISA_HAS_64BIT_FPRS isa then report [As_bad Fp64_with_32bit_fpu] v
        else if ABI_NEEDS_32BIT_REGS (v_abi v) \<and> \<not> ISA_HAS_MXHC1 isa then report [As_warn Fp64_with_32bit_abi] v
        else v)
     else if v_fp32 v = 1 then
       (if ABI_NEEDS_64BIT_REGS (v_abi v) then report [As_warn Fp32_with_64bit_abi] v else v)
     else v\<lparr>v_fp32 :=
       (if v_gp32 v = 0 then 0
        else if (o_ase_mips3d opts > 0 \<or> o_ase_mdmx opts > 0) \<and> ISA_HAS_64BIT_FPRS isa then 0
        else 1)\<rparr>)"

definition settle_mode :: "gas_statics \<Rightarrow> gas_statics" where
  "settle_mode v =
     (let v' = (if ISA_HAS_64BIT_REGS (o_isa (v_opts v)) \<and> (v_abi v = NO_ABI \<and> v_gp32 v = 1 \<or> v_abi v = O32_ABI)
                then v\<lparr>v_32bitmode := 1\<rparr> else v)
      in if o_isa (v_opts v) = ISA_MIPS1 \<and> v_trap v \<noteq> 0 then report [As_bad Trap_at_isa_1] v' else v')"

text \<open>An extension that no option set is taken from the processor; one that the ISA lacks is warned about. For
  MIPS-3D and MDMX the size of the floating point registers counts.\<close>

definition cpu_flag :: "mips_cpu_info option \<Rightarrow> uint \<Rightarrow> int option" where
  "cpu_flag arch f = map_option (\<lambda>a. if ci_flags a AND f \<noteq> 0 then 1 else 0) arch"

definition update_opts :: "(mips_set_options \<Rightarrow> mips_set_options) \<Rightarrow> gas_statics \<Rightarrow> gas_statics" where
  "update_opts f v = v\<lparr>v_opts := f (v_opts v)\<rparr>"

definition settle_mips3d :: "mips_cpu_info option \<Rightarrow> gas_statics \<Rightarrow> gas_statics option" where
  "settle_mips3d arch v =
     do { v' \<leftarrow> (if o_ase_mips3d (v_opts v) = -1 then
                    map_option (\<lambda>b. update_opts (\<lambda>p. p\<lparr>o_ase_mips3d := (if v_fp32 v = 0 then b else 0)\<rparr>) v)
                      (cpu_flag arch MIPS_CPU_ASE_MIPS3D)
                  else Some v);
          Some (if o_ase_mips3d (v_opts v') \<noteq> 0 \<and> v_fp32 v' = 1 then report [As_bad (Fp32_with_ase ''-mips3d'')] v' else v') }"

definition settle_mdmx :: "mips_cpu_info option \<Rightarrow> gas_statics \<Rightarrow> gas_statics option" where
  "settle_mdmx arch v =
     do { v' \<leftarrow> (if o_ase_mdmx (v_opts v) = -1 then
                    map_option (\<lambda>b. update_opts (\<lambda>p. p\<lparr>o_ase_mdmx := (if v_fp32 v = 0 then b else 0)\<rparr>) v)
                      (cpu_flag arch MIPS_CPU_ASE_MDMX)
                  else Some v);
          Some (if o_ase_mdmx (v_opts v') \<noteq> 0 \<and> v_fp32 v' = 1 then report [As_bad (Fp32_with_ase ''-mdmx'')] v' else v') }"

definition warn_isa :: "cstring \<Rightarrow> bool \<Rightarrow> gas_statics \<Rightarrow> gas_statics option" where
  "warn_isa ase lacks v =
     (if lacks then map_option (\<lambda>p. report [As_warn (Isa_lacks (ci_name p) ase)] v) (mips_cpu_info_from_isa (o_isa (v_opts v)))
      else Some v)"

definition settle_smartmips :: "mips_cpu_info option \<Rightarrow> gas_statics \<Rightarrow> gas_statics option" where
  "settle_smartmips arch v =
     do { v' \<leftarrow> (if o_ase_smartmips (v_opts v) = -1 then
                    map_option (\<lambda>b. update_opts (\<lambda>p. p\<lparr>o_ase_smartmips := b\<rparr>) v) (cpu_flag arch MIPS_CPU_ASE_SMARTMIPS)
                  else Some v);
          warn_isa ''SmartMIPS'' (o_ase_smartmips (v_opts v') \<noteq> 0 \<and> \<not> ISA_SUPPORTS_SMARTMIPS (v_opts v')) v' }"

definition settle_dsp :: "mips_cpu_info option \<Rightarrow> gas_statics \<Rightarrow> gas_statics option" where
  "settle_dsp arch v =
     do { v' \<leftarrow> (if o_ase_dsp (v_opts v) = -1 then
                    map_option (\<lambda>b. update_opts (\<lambda>p. p\<lparr>o_ase_dsp := b\<rparr>) v) (cpu_flag arch MIPS_CPU_ASE_DSP)
                  else Some v);
          warn_isa ''DSP ASE'' (o_ase_dsp (v_opts v') \<noteq> 0 \<and> \<not> ISA_SUPPORTS_DSP_ASE (v_opts v')) v' }"

definition settle_dspr2 :: "mips_cpu_info option \<Rightarrow> gas_statics \<Rightarrow> gas_statics option" where
  "settle_dspr2 arch v =
     do { v' \<leftarrow> (if o_ase_dspr2 (v_opts v) = -1 then
                    do { r2 \<leftarrow> cpu_flag arch MIPS_CPU_ASE_DSPR2;
                         dsp \<leftarrow> cpu_flag arch MIPS_CPU_ASE_DSP;
                         Some (update_opts (\<lambda>p. p\<lparr>o_ase_dspr2 := r2, o_ase_dsp := dsp\<rparr>) v) }
                  else Some v);
          warn_isa ''DSP R2 ASE'' (o_ase_dspr2 (v_opts v') \<noteq> 0 \<and> \<not> ISA_SUPPORTS_DSPR2_ASE (v_opts v')) v' }"

definition settle_mt :: "mips_cpu_info option \<Rightarrow> gas_statics \<Rightarrow> gas_statics option" where
  "settle_mt arch v =
     do { v' \<leftarrow> (if o_ase_mt (v_opts v) = -1 then
                    map_option (\<lambda>b. update_opts (\<lambda>p. p\<lparr>o_ase_mt := b\<rparr>) v) (cpu_flag arch MIPS_CPU_ASE_MT)
                  else Some v);
          warn_isa ''MT ASE'' (o_ase_mt (v_opts v') \<noteq> 0 \<and> \<not> ISA_SUPPORTS_MT_ASE (v_opts v')) v' }"

definition settle_mips16 :: "opt_env \<Rightarrow> gas_vars \<Rightarrow> gas_vars" where
  "settle_mips16 env vg = (let opts = v_opts (fst vg) in
     if o_mips16 opts = -1 then set_opts (opts\<lparr>o_mips16 := (if CPU_HAS_MIPS16 env then 1 else 0)\<rparr>) vg else vg)"

definition save_file_options :: "gas_statics \<Rightarrow> gas_statics" where
  "save_file_options v = (let opts = v_opts v in
     v\<lparr>v_isa := o_isa opts,
       v_ases := [o_mips16 opts, o_ase_mips3d opts, o_ase_mdmx opts, o_ase_smartmips opts, o_ase_dsp opts,
                  o_ase_dspr2 opts, o_ase_mt opts],
       v_opts := opts\<lparr>o_gp32 := v_gp32 v, o_fp32 := v_fp32 v\<rparr>\<rparr>)"

definition settle_mdebug :: "opt_env \<Rightarrow> gas_statics \<Rightarrow> gas_statics" where
  "settle_mdebug env v = (if v_mdebug v < 0 then v\<lparr>v_mdebug := (if oe_ecoff env then 1 else 0)\<rparr> else v)"

definition select_arch :: "opt_env \<Rightarrow> gas_statics \<Rightarrow> (mips_cpu_info option \<times> gas_statics) option" where
  "select_arch env v = (case march_cpu env (default_abi env (drop_pe_switch env v)) of
     (march, v1) \<Rightarrow> map_option (default_arch env) (mix_isa march v1))"

definition settle_ases :: "mips_cpu_info option \<Rightarrow> gas_statics \<Rightarrow> gas_statics option" where
  "settle_ases arch v =
     do { v1 \<leftarrow> settle_mips3d arch v; v2 \<leftarrow> settle_mdmx arch v1; v3 \<leftarrow> settle_smartmips arch v2;
          v4 \<leftarrow> settle_dsp arch v3; v5 \<leftarrow> settle_dspr2 arch v4; settle_mt arch v5 }"

definition mips_after_parse_args :: "opt_env \<Rightarrow> gas_vars \<Rightarrow> gas_vars option" where
  "mips_after_parse_args env vg = (case vg of (v, g) \<Rightarrow>
     do { (arch, v1) \<leftarrow> select_arch env v;
          v2 \<leftarrow> check_arch_abi arch v1;
          let v3 = settle_mode (settle_fp (settle_gp (choose_tune env arch (mips_set_architecture arch v2))));
          let (v4, g4) = settle_mips16 env (v3, g);
          v5 \<leftarrow> settle_ases arch v4;
          Some (settle_mdebug env (save_file_options v5), g4) })"

section \<open>Command lines\<close>

text \<open>The options in their order, as \<open>parse_args\<close> of \<open>gas/as.c\<close> hands them over; one that is not known ends it.\<close>

fun give_options :: "opt_env \<Rightarrow> (md_option \<times> cstring option) list \<Rightarrow> gas_vars \<Rightarrow> opt_outcome" where
  "give_options env [] vg = Opt_returns True vg"
| "give_options env ((c, arg) # cs) vg =
     (case md_parse_option env c arg vg of
        Opt_returns True vg' \<Rightarrow> give_options env cs vg'
      | r \<Rightarrow> r)"

text \<open>What every option keeps of the static variables.\<close>

definition trit :: "int \<Rightarrow> bool" where
  "trit i \<longleftrightarrow> i = -1 \<or> i = 0 \<or> i = 1"

definition bit_int :: "int \<Rightarrow> bool" where
  "bit_int i \<longleftrightarrow> i = 0 \<or> i = 1"

definition opts_ok :: "mips_set_options \<Rightarrow> bool" where
  "opts_ok p \<longleftrightarrow> trit (o_ase_mips3d p) \<and> trit (o_ase_mdmx p) \<and> bit_int (o_ase_smartmips p) \<and> trit (o_ase_dsp p)
     \<and> trit (o_ase_dspr2 p) \<and> trit (o_ase_mt p) \<and> trit (o_mips16 p)"

definition statics_ok :: "gas_statics \<Rightarrow> bool" where
  "statics_ok v \<longleftrightarrow> trit (v_gp32 v) \<and> trit (v_fp32 v) \<and> (v_isa v = ISA_UNKNOWN \<or> v_isa v \<in> set known_isas)
     \<and> opts_ok (v_opts v)"

lemma report_simps [simp]:
  "v_opts (report ms v) = v_opts v" "v_gp32 (report ms v) = v_gp32 v" "v_fp32 (report ms v) = v_fp32 v"
  "v_isa (report ms v) = v_isa v" "v_arch (report ms v) = v_arch v" "v_arch_string (report ms v) = v_arch_string v"
  "v_tune_string (report ms v) = v_tune_string v" "v_abi (report ms v) = v_abi v" "v_nops (report ms v) = v_nops v"
  "v_diags (report ms v) = v_diags v @ ms" "v_trap (report ms v) = v_trap v"
  by (simp_all add: report_def)

lemma bits [simp]:
  "trit (-1)" "trit 0" "trit 1" "bit_int 0" "bit_int 1" "bit_int i \<Longrightarrow> trit i"
  by (auto simp: trit_def bit_int_def)

lemma statics_ok_initial: "statics_ok (initial_statics big nops)"
  by (simp add: statics_ok_def initial_statics_def opts_ok_def initial_mips_opts_def)

lemma statics_ok_others [simp]:
  "statics_ok (report ms v) = statics_ok v" "statics_ok (v\<lparr>v_arch_string := s\<rparr>) = statics_ok v"
  "statics_ok (v\<lparr>v_tune_string := s\<rparr>) = statics_ok v" "statics_ok (v\<lparr>v_abi := a\<rparr>) = statics_ok v"
  "statics_ok (v\<lparr>v_abicalls := b\<rparr>) = statics_ok v" "statics_ok (v\<lparr>v_in_shared := b\<rparr>) = statics_ok v"
  "statics_ok (v\<lparr>v_pic := q\<rparr>) = statics_ok v" "statics_ok (v\<lparr>v_big_got := i\<rparr>) = statics_ok v"
  "statics_ok (v\<lparr>v_trap := i\<rparr>) = statics_ok v" "statics_ok (v\<lparr>v_no_float_construction := i\<rparr>) = statics_ok v"
  "statics_ok (v\<lparr>v_optimize := i\<rparr>) = statics_ok v" "statics_ok (v\<lparr>v_debug := i\<rparr>) = statics_ok v"
  "statics_ok (v\<lparr>v_7000_hilo_fix := b\<rparr>) = statics_ok v" "statics_ok (v\<lparr>v_fix_vr4120 := i\<rparr>) = statics_ok v"
  "statics_ok (v\<lparr>v_fix_vr4130 := i\<rparr>) = statics_ok v" "statics_ok (v\<lparr>v_relax_branch := i\<rparr>) = statics_ok v"
  "statics_ok (v\<lparr>v_big := b\<rparr>) = statics_ok v" "statics_ok (v\<lparr>v_g_value := u\<rparr>) = statics_ok v"
  "statics_ok (v\<lparr>v_g_seen := i\<rparr>) = statics_ok v" "statics_ok (v\<lparr>v_mdebug := i\<rparr>) = statics_ok v"
  "statics_ok (v\<lparr>v_pdr := b\<rparr>) = statics_ok v" "statics_ok (v\<lparr>v_nops := ns\<rparr>) = statics_ok v"
  "statics_ok (v\<lparr>v_32bitmode := i\<rparr>) = statics_ok v" "statics_ok (v\<lparr>v_tune := i\<rparr>) = statics_ok v"
  by (simp_all add: statics_ok_def)

lemma statics_ok_opts: "statics_ok v \<Longrightarrow> opts_ok p \<Longrightarrow> statics_ok (v\<lparr>v_opts := p\<rparr>)"
  by (simp add: statics_ok_def)

lemma set_string_ok:
  "set_arch_string s v = Some v' \<Longrightarrow> statics_ok v' = statics_ok v \<and> v_isa v' = v_isa v \<and> v_opts v' = v_opts v
     \<and> v_arch_string v' = s"
  "set_tune_string s v = Some v' \<Longrightarrow> statics_ok v' = statics_ok v \<and> v_isa v' = v_isa v \<and> v_opts v' = v_opts v
     \<and> v_arch_string v' = v_arch_string v"
  by (auto simp: set_arch_string_def set_tune_string_def mips_set_option_string_def
      split: option.splits if_splits)

lemma both_strings_ok: "both_strings s v = Some v' \<Longrightarrow> statics_ok v' = statics_ok v"
  unfolding both_strings_def by (auto simp: bind_eq_Some_conv set_string_ok)

lemma isas_known:
  "ISA_MIPS1 \<in> set known_isas" "ISA_MIPS2 \<in> set known_isas" "ISA_MIPS3 \<in> set known_isas"
  "ISA_MIPS4 \<in> set known_isas" "ISA_MIPS5 \<in> set known_isas" "ISA_MIPS32 \<in> set known_isas"
  "ISA_MIPS32R2 \<in> set known_isas" "ISA_MIPS64 \<in> set known_isas" "ISA_MIPS64R2 \<in> set known_isas"
  "ISA_RIGEL32 \<in> set known_isas"
  by (simp_all add: known_isas_def)

lemma parse_arch_ok: "parse_arch_option c arg v = Some v' \<Longrightarrow> statics_ok v \<Longrightarrow> statics_ok v'"
  by (cases c) (auto simp: statics_ok_def isas_known dest!: set_string_ok)

lemma parse_compat_ok: "parse_compat_arch_option c v = Some v' \<Longrightarrow> statics_ok v \<Longrightarrow> statics_ok v'"
  by (cases c) (auto dest: both_strings_ok)

lemma ase_options_ok: "opts_ok p \<Longrightarrow> opts_ok (ase_options c p)"
  by (cases c) (auto simp: opts_ok_def)

lemma set_opts_ok: "statics_ok v \<Longrightarrow> opts_ok p \<Longrightarrow> statics_ok (fst (set_opts p (v, g)))"
  by (simp add: set_opts_def statics_ok_def Let_def)

lemma set_opts_v: "v_opts (fst (set_opts p vg)) = p"
  by (simp add: set_opts_def Let_def split: prod.split)

lemma parse_ase_ok: "statics_ok v \<Longrightarrow> statics_ok (fst (parse_ase_option c (v, g)))"
  by (simp add: parse_ase_option_def Let_def set_opts_ok ase_options_ok statics_ok_def [of v])

lemma parse_fix_ok: "statics_ok v \<Longrightarrow> statics_ok (parse_fix_option c v)"
  by (cases c) simp_all

lemma parse_misc_ok: "statics_ok v \<Longrightarrow> statics_ok (parse_misc_option c v)"
  by (cases c) (simp_all, simp_all add: statics_ok_def opts_ok_def)

lemma parse_elf_ok:
  "parse_elf_option env c arg (v, g) = Opt_returns b vg' \<Longrightarrow> statics_ok v \<Longrightarrow> statics_ok (fst vg')"
  by (cases c) (auto simp: elf_only_def set_abi_def set_n64_abi_def split: if_splits option.splits)

lemma statics_outcome_iff:
  "statics_outcome g r = Opt_returns b vg' \<longleftrightarrow> b \<and> (\<exists>v. r = Some v \<and> vg' = (v, g))"
  by (auto simp: statics_outcome_def split: option.splits)

lemma md_parse_option_ok:
  assumes "md_parse_option env c arg vg = Opt_returns b vg'" "statics_ok (fst vg)"
  shows "statics_ok (fst vg')"
proof -
  obtain v g where vg: "vg = (v, g)" by fastforce
  from assms show ?thesis unfolding vg
    by (cases c) (auto simp: statics_outcome_iff parse_fix_ok parse_misc_ok parse_ase_ok
        dest: parse_arch_ok parse_compat_ok parse_elf_ok split: option.splits)
qed

lemma give_options_ok:
  "give_options env cs vg = Opt_returns True vg' \<Longrightarrow> statics_ok (fst vg) \<Longrightarrow> statics_ok (fst vg')"
  by (induction env cs vg rule: give_options.induct)
    (auto split: opt_outcome.splits bool.splits dest: md_parse_option_ok)

end
