(* ===== verification/Gas_Startup.thy ===== *)
theory Gas_Startup
  imports Gas_Options Rigel_Assemble
begin

text \<open>
  What a command line amounts to: whatever the options, \<open>mips_after_parse_args\<close> reads through no null pointer and
  leaves an entry of the table of processors in force, with every size and extension settled. A command line for
  Rigel yields the options under which Rigel code is assembled; without one, every Rigel instruction is refused.
\<close>

section \<open>The choice of the processor\<close>

text \<open>The processor of the configuration is one that \<open>mips_parse_cpu\<close> knows.\<close>

definition default_cpu_known :: "opt_env \<Rightarrow> bool" where
  "default_cpu_known env \<longleftrightarrow> map tolower (oe_default_cpu env) = ''from-abi''
     \<or> (\<exists>ci \<in> set mips_cpu_info_table. map tolower (oe_default_cpu env) = ci_name ci)"

lemma isa_info_defaults:
  "mips_cpu_info_from_isa ISA_MIPS1 = Some (mips_cpu_entry ''mips1'' MIPS_CPU_IS_ISA ISA_MIPS1 CPU_R3000)"
  "mips_cpu_info_from_isa ISA_MIPS3 = Some (mips_cpu_entry ''mips3'' MIPS_CPU_IS_ISA ISA_MIPS3 CPU_R4000)"
  by (simp_all add: mips_cpu_info_from_isa_def mips_cpu_info_table_def mips_cpu_entry_def rigel_const)

lemma from_abi_parsed:
  assumes "map tolower s = ''from-abi''"
  obtains ci where "mips_parse_cpu abi gp d s = (Some ci, False)" "ci \<in> set mips_cpu_info_table"
    "ci_isa ci = ISA_MIPS1 \<or> ci_isa ci = ISA_MIPS3"
proof -
  have s: "strcasecmp_eq s ''from-abi''" using assms by (simp add: strcasecmp_eq_def tolower_def char_code_def)
  have "mips_parse_cpu abi gp d s = (mips_cpu_info_from_isa ISA_MIPS1, False)
      \<or> mips_parse_cpu abi gp d s = (mips_cpu_info_from_isa ISA_MIPS3, False)"
    by (simp add: mips_parse_cpu_def s)
  then show thesis
    using that isa_info_defaults info_from_isa_known by (metis option.distinct(1))
qed

lemma default_cpu_parsed:
  assumes "default_cpu_known env"
  obtains ci where "mips_parse_cpu abi gp d (oe_default_cpu env) = (Some ci, False)" "ci \<in> set mips_cpu_info_table"
  using assms from_abi_parsed [of "oe_default_cpu env" abi gp d] parse_cpu_name
  unfolding default_cpu_known_def by metis

lemma parse_cpu_says:
  "parse_cpu env opt s v = (p, v') \<Longrightarrow> (\<exists>ms. v' = report ms v) \<and> (\<forall>ci. p = Some ci \<longrightarrow> ci \<in> set mips_cpu_info_table)"
  by (auto simp: parse_cpu_def report_def split: prod.splits if_splits intro: exI [of _ "[]"] dest: parse_cpu_known)

lemma report_report [simp]: "report ms' (report ms v) = report (ms @ ms') v" "report [] v = v"
  by (simp_all add: report_def)

text \<open>Before the choice: the ABI and the switch of the small data section.\<close>

definition prepared :: "opt_env \<Rightarrow> gas_statics \<Rightarrow> gas_statics" where
  "prepared env v = default_abi env (drop_pe_switch env v)"

lemma prepared_simps [simp]:
  "v_opts (prepared env v) = v_opts v" "v_gp32 (prepared env v) = v_gp32 v" "v_fp32 (prepared env v) = v_fp32 v"
  "v_isa (prepared env v) = v_isa v" "v_arch_string (prepared env v) = v_arch_string v"
  "v_tune_string (prepared env v) = v_tune_string v" "v_trap (prepared env v) = v_trap v"
  by (simp_all add: prepared_def default_abi_def drop_pe_switch_def)

lemma march_cpu_says:
  "march_cpu env v = (p, v') \<Longrightarrow> (\<exists>ms. v' = report ms v) \<and> (\<forall>ci. p = Some ci \<longrightarrow> ci \<in> set mips_cpu_info_table)"
  by (auto simp: march_cpu_def split: option.splits dest: parse_cpu_says intro: exI [of _ "[]"])

lemma mix_isa_says:
  assumes "v_isa v = ISA_UNKNOWN \<or> v_isa v \<in> set known_isas" and "\<And>ci. p = Some ci \<Longrightarrow> ci \<in> set mips_cpu_info_table"
  shows "\<exists>q ms. mix_isa p v = Some (q, report ms v) \<and> (\<forall>ci. q = Some ci \<longrightarrow> ci \<in> set mips_cpu_info_table)"
proof (cases "v_isa v = ISA_UNKNOWN")
  case True
  then show ?thesis using assms(2) by (auto simp: mix_isa_def intro: exI [of _ "[]"])
next
  case False
  then have k: "v_isa v \<in> set known_isas" using assms(1) by simp
  show ?thesis
  proof (cases p)
    case None
    with False show ?thesis
      by (auto simp: mix_isa_def intro!: exI [of _ "[]"] dest: info_from_isa_known)
  next
    case (Some a)
    then have a: "a \<in> set mips_cpu_info_table" using assms(2) by simp
    obtain x y where "mips_cpu_info_from_isa (v_isa v) = Some x" "mips_cpu_info_from_isa (ci_isa a) = Some y"
      using known_isas_named [OF k] known_isas_named [OF table_isas [OF a]] by auto
    with False Some have "mix_isa p v = Some (p, report
        (if v_isa v \<noteq> ci_isa a then [As_bad (Isa_conflict (ci_name x) (ci_name y))] else []) v)"
      by (simp add: mix_isa_def)
    with assms(2) show ?thesis by blast
  qed
qed

lemma select_arch_total:
  assumes "statics_ok v" "default_cpu_known env"
  shows "\<exists>ci ms. select_arch env v = Some (Some ci, report ms (prepared env v)) \<and> ci \<in> set mips_cpu_info_table"
proof -
  obtain p v1 where m: "march_cpu env (prepared env v) = (p, v1)" by fastforce
  from march_cpu_says [OF m] obtain ms where v1: "v1 = report ms (prepared env v)"
    and p: "\<And>ci. p = Some ci \<Longrightarrow> ci \<in> set mips_cpu_info_table" by auto
  have "v_isa v1 = ISA_UNKNOWN \<or> v_isa v1 \<in> set known_isas" using assms(1) v1 by (simp add: statics_ok_def)
  from mix_isa_says [OF this p] obtain q ms' where q: "mix_isa p v1 = Some (q, report ms' v1)"
    and qt: "\<And>ci. q = Some ci \<Longrightarrow> ci \<in> set mips_cpu_info_table" by blast
  obtain d v2 where d: "parse_cpu env ''default CPU'' (oe_default_cpu env) (report ms' v1) = (d, v2)" by fastforce
  obtain c where "mips_parse_cpu (v_abi (report ms' v1)) (v_gp32 (report ms' v1)) (oe_default_64bit env)
      (oe_default_cpu env) = (Some c, False)"
    using default_cpu_parsed [OF assms(2)] .
  with d have "d \<noteq> None" by (auto simp: parse_cpu_def)
  with parse_cpu_says [OF d] obtain ci ms'' where "d = Some ci" "v2 = report ms'' (report ms' v1)" "ci \<in> set mips_cpu_info_table"
    by auto
  with m q qt d v1 show ?thesis
    by (cases q) (auto simp: select_arch_def prepared_def [symmetric] default_arch_def)
qed

section \<open>Settling\<close>

lemma choose_tune_frame:
  "v_opts (choose_tune env arch v) = v_opts v \<and> v_gp32 (choose_tune env arch v) = v_gp32 v
     \<and> v_fp32 (choose_tune env arch v) = v_fp32 v \<and> v_arch (choose_tune env arch v) = v_arch v
     \<and> v_abi (choose_tune env arch v) = v_abi v"
proof -
  obtain t v' where t: "(case v_tune_string v of None \<Rightarrow> (None, v) | Some s \<Rightarrow> parse_cpu env ''-mtune'' s v) = (t, v')"
    by fastforce
  then obtain ms where "v' = report ms v"
    by (auto split: option.splits dest: parse_cpu_says intro: that [of "[]"])
  with t show ?thesis
    by (simp add: choose_tune_def mips_set_tune_def split: option.split)
qed

lemma settle_gp_frame [simp]:
  "v_opts (settle_gp v) = v_opts v" "v_fp32 (settle_gp v) = v_fp32 v" "v_arch (settle_gp v) = v_arch v"
  "v_abi (settle_gp v) = v_abi v"
  by (simp_all add: settle_gp_def Let_def)

lemma settle_fp_frame [simp]:
  "v_opts (settle_fp v) = v_opts v" "v_gp32 (settle_fp v) = v_gp32 v" "v_arch (settle_fp v) = v_arch v"
  "v_abi (settle_fp v) = v_abi v"
  by (simp_all add: settle_fp_def Let_def)

lemma settle_mode_frame [simp]:
  "v_opts (settle_mode v) = v_opts v" "v_gp32 (settle_mode v) = v_gp32 v" "v_fp32 (settle_mode v) = v_fp32 v"
  "v_arch (settle_mode v) = v_arch v"
  by (simp_all add: settle_mode_def Let_def)

lemma settle_bits:
  "trit (v_gp32 v) \<Longrightarrow> bit_int (v_gp32 (settle_gp v))" "trit (v_fp32 v) \<Longrightarrow> bit_int (v_fp32 (settle_fp v))"
  by (auto simp: settle_gp_def settle_fp_def Let_def trit_def)

text \<open>What each extension keeps: the processor, the sizes, and the extensions that are settled already.\<close>

definition ases :: "mips_set_options \<Rightarrow> int list" where
  "ases p = [o_ase_mips3d p, o_ase_mdmx p, o_ase_smartmips p, o_ase_dsp p, o_ase_dspr2 p, o_ase_mt p]"

definition ase_step :: "gas_statics \<Rightarrow> gas_statics \<Rightarrow> bool" where
  "ase_step v v' \<longleftrightarrow> o_isa (v_opts v') = o_isa (v_opts v) \<and> o_arch (v_opts v') = o_arch (v_opts v)
     \<and> o_mips16 (v_opts v') = o_mips16 (v_opts v) \<and> v_arch v' = v_arch v \<and> v_gp32 v' = v_gp32 v \<and> v_fp32 v' = v_fp32 v
     \<and> list_all2 (\<lambda>a b. bit_int a \<longrightarrow> bit_int b) (ases (v_opts v)) (ases (v_opts v'))
     \<and> (opts_ok (v_opts v) \<longrightarrow> opts_ok (v_opts v'))"

lemma ase_step_trans: "ase_step u v \<Longrightarrow> ase_step v w \<Longrightarrow> ase_step u w"
  by (auto simp: ase_step_def ases_def)

lemma cpu_flag_bit: "\<exists>b. cpu_flag (Some ci) f = Some b \<and> bit_int b"
  by (auto simp: cpu_flag_def)

lemma ase_step_refl [simp]: "ase_step v v" "ase_step v (report ms v)"
  by (simp_all add: ase_step_def ases_def)

lemma ase_step_update:
  assumes "bit_int b"
  shows "ase_step v (update_opts (\<lambda>p. p\<lparr>o_ase_mips3d := b\<rparr>) v)" "ase_step v (update_opts (\<lambda>p. p\<lparr>o_ase_mdmx := b\<rparr>) v)"
    "ase_step v (update_opts (\<lambda>p. p\<lparr>o_ase_smartmips := b\<rparr>) v)" "ase_step v (update_opts (\<lambda>p. p\<lparr>o_ase_dsp := b\<rparr>) v)"
    "ase_step v (update_opts (\<lambda>p. p\<lparr>o_ase_mt := b\<rparr>) v)"
    "bit_int c \<Longrightarrow> ase_step v (update_opts (\<lambda>p. p\<lparr>o_ase_dspr2 := c, o_ase_dsp := b\<rparr>) v)"
  using assms by (simp_all add: ase_step_def ases_def update_opts_def opts_ok_def)

lemma trit_unset: "trit i \<Longrightarrow> i \<noteq> -1 \<Longrightarrow> bit_int i"
  by (simp add: trit_def bit_int_def)

text \<open>The two shapes: a message about the registers, or a warning about the ISA, after the default.\<close>

lemma warn_isa_step:
  assumes "o_isa (v_opts v) \<in> set known_isas" "ase_step v u"
  shows "\<exists>w. warn_isa s b u = Some w \<and> ase_step v w \<and> v_opts w = v_opts u"
proof -
  have "o_isa (v_opts u) \<in> set known_isas" using assms by (simp add: ase_step_def)
  then obtain p where "mips_cpu_info_from_isa (o_isa (v_opts u)) = Some p" using known_isas_named by blast
  then show ?thesis using ase_step_trans [OF assms(2) ase_step_refl(2)] assms(2) by (cases b) (simp_all add: warn_isa_def)
qed

lemma settle_mips3d_step:
  "\<exists>w. settle_mips3d (Some ci) v = Some w \<and> ase_step v w \<and> (opts_ok (v_opts v) \<longrightarrow> bit_int (o_ase_mips3d (v_opts w)))"
proof -
  obtain b where b: "cpu_flag (Some ci) MIPS_CPU_ASE_MIPS3D = Some b" "bit_int b" using cpu_flag_bit by blast
  define u where "u = (if o_ase_mips3d (v_opts v) = -1
    then update_opts (\<lambda>p. p\<lparr>o_ase_mips3d := (if v_fp32 v = 0 then b else 0)\<rparr>) v else v)"
  have u: "ase_step v u" using ase_step_update(1) b(2) by (simp add: u_def)
  have "opts_ok (v_opts v) \<longrightarrow> bit_int (o_ase_mips3d (v_opts u))"
    using b(2) trit_unset by (simp add: u_def update_opts_def opts_ok_def)
  moreover have "settle_mips3d (Some ci) v =
      Some (if o_ase_mips3d (v_opts u) \<noteq> 0 \<and> v_fp32 u = 1 then report [As_bad (Fp32_with_ase ''-mips3d'')] u else u)"
    by (simp add: settle_mips3d_def u_def b(1))
  ultimately show ?thesis using ase_step_trans [OF u ase_step_refl(2)] u by simp
qed

lemma settle_mdmx_step:
  "\<exists>w. settle_mdmx (Some ci) v = Some w \<and> ase_step v w \<and> (opts_ok (v_opts v) \<longrightarrow> bit_int (o_ase_mdmx (v_opts w)))"
proof -
  obtain b where b: "cpu_flag (Some ci) MIPS_CPU_ASE_MDMX = Some b" "bit_int b" using cpu_flag_bit by blast
  define u where "u = (if o_ase_mdmx (v_opts v) = -1
    then update_opts (\<lambda>p. p\<lparr>o_ase_mdmx := (if v_fp32 v = 0 then b else 0)\<rparr>) v else v)"
  have u: "ase_step v u" using ase_step_update(2) b(2) by (simp add: u_def)
  have "opts_ok (v_opts v) \<longrightarrow> bit_int (o_ase_mdmx (v_opts u))"
    using b(2) trit_unset by (simp add: u_def update_opts_def opts_ok_def)
  moreover have "settle_mdmx (Some ci) v =
      Some (if o_ase_mdmx (v_opts u) \<noteq> 0 \<and> v_fp32 u = 1 then report [As_bad (Fp32_with_ase ''-mdmx'')] u else u)"
    by (simp add: settle_mdmx_def u_def b(1))
  ultimately show ?thesis using ase_step_trans [OF u ase_step_refl(2)] u by simp
qed

lemma settle_smartmips_step:
  assumes "o_isa (v_opts v) \<in> set known_isas"
  shows "\<exists>w. settle_smartmips (Some ci) v = Some w \<and> ase_step v w
    \<and> (opts_ok (v_opts v) \<longrightarrow> bit_int (o_ase_smartmips (v_opts w)))"
proof -
  obtain b where b: "cpu_flag (Some ci) MIPS_CPU_ASE_SMARTMIPS = Some b" "bit_int b" using cpu_flag_bit by blast
  define u where "u = (if o_ase_smartmips (v_opts v) = -1 then update_opts (\<lambda>p. p\<lparr>o_ase_smartmips := b\<rparr>) v else v)"
  have "ase_step v u" using ase_step_update(3) b(2) by (simp add: u_def)
  moreover have "opts_ok (v_opts v) \<longrightarrow> bit_int (o_ase_smartmips (v_opts u))"
    using b(2) by (simp add: u_def update_opts_def opts_ok_def)
  moreover have "settle_smartmips (Some ci) v =
      warn_isa ''SmartMIPS'' (o_ase_smartmips (v_opts u) \<noteq> 0 \<and> \<not> ISA_SUPPORTS_SMARTMIPS (v_opts u)) u"
    by (simp add: settle_smartmips_def u_def b(1))
  ultimately show ?thesis using warn_isa_step [OF assms] by metis
qed

lemma settle_dsp_step:
  assumes "o_isa (v_opts v) \<in> set known_isas"
  shows "\<exists>w. settle_dsp (Some ci) v = Some w \<and> ase_step v w \<and> (opts_ok (v_opts v) \<longrightarrow> bit_int (o_ase_dsp (v_opts w)))"
proof -
  obtain b where b: "cpu_flag (Some ci) MIPS_CPU_ASE_DSP = Some b" "bit_int b" using cpu_flag_bit by blast
  define u where "u = (if o_ase_dsp (v_opts v) = -1 then update_opts (\<lambda>p. p\<lparr>o_ase_dsp := b\<rparr>) v else v)"
  have "ase_step v u" using ase_step_update(4) b(2) by (simp add: u_def)
  moreover have "opts_ok (v_opts v) \<longrightarrow> bit_int (o_ase_dsp (v_opts u))"
    using b(2) trit_unset by (simp add: u_def update_opts_def opts_ok_def)
  moreover have "settle_dsp (Some ci) v =
      warn_isa ''DSP ASE'' (o_ase_dsp (v_opts u) \<noteq> 0 \<and> \<not> ISA_SUPPORTS_DSP_ASE (v_opts u)) u"
    by (simp add: settle_dsp_def u_def b(1))
  ultimately show ?thesis using warn_isa_step [OF assms] by metis
qed

lemma settle_dspr2_step:
  assumes "o_isa (v_opts v) \<in> set known_isas"
  shows "\<exists>w. settle_dspr2 (Some ci) v = Some w \<and> ase_step v w \<and> (opts_ok (v_opts v) \<longrightarrow> bit_int (o_ase_dspr2 (v_opts w)))"
proof -
  obtain b c where b: "cpu_flag (Some ci) MIPS_CPU_ASE_DSPR2 = Some b" "bit_int b"
      "cpu_flag (Some ci) MIPS_CPU_ASE_DSP = Some c" "bit_int c"
    using cpu_flag_bit by metis
  define u where "u = (if o_ase_dspr2 (v_opts v) = -1 then update_opts (\<lambda>p. p\<lparr>o_ase_dspr2 := b, o_ase_dsp := c\<rparr>) v else v)"
  have "ase_step v u" using ase_step_update(6) b(2,4) by (simp add: u_def)
  moreover have "opts_ok (v_opts v) \<longrightarrow> bit_int (o_ase_dspr2 (v_opts u))"
    using b(2) trit_unset by (simp add: u_def update_opts_def opts_ok_def)
  moreover have "settle_dspr2 (Some ci) v =
      warn_isa ''DSP R2 ASE'' (o_ase_dspr2 (v_opts u) \<noteq> 0 \<and> \<not> ISA_SUPPORTS_DSPR2_ASE (v_opts u)) u"
    by (simp add: settle_dspr2_def u_def b(1,3))
  ultimately show ?thesis using warn_isa_step [OF assms] by metis
qed

lemma settle_mt_step:
  assumes "o_isa (v_opts v) \<in> set known_isas"
  shows "\<exists>w. settle_mt (Some ci) v = Some w \<and> ase_step v w \<and> (opts_ok (v_opts v) \<longrightarrow> bit_int (o_ase_mt (v_opts w)))"
proof -
  obtain b where b: "cpu_flag (Some ci) MIPS_CPU_ASE_MT = Some b" "bit_int b" using cpu_flag_bit by blast
  define u where "u = (if o_ase_mt (v_opts v) = -1 then update_opts (\<lambda>p. p\<lparr>o_ase_mt := b\<rparr>) v else v)"
  have "ase_step v u" using ase_step_update(5) b(2) by (simp add: u_def)
  moreover have "opts_ok (v_opts v) \<longrightarrow> bit_int (o_ase_mt (v_opts u))"
    using b(2) trit_unset by (simp add: u_def update_opts_def opts_ok_def)
  moreover have "settle_mt (Some ci) v =
      warn_isa ''MT ASE'' (o_ase_mt (v_opts u) \<noteq> 0 \<and> \<not> ISA_SUPPORTS_MT_ASE (v_opts u)) u"
    by (simp add: settle_mt_def u_def b(1))
  ultimately show ?thesis using warn_isa_step [OF assms] by metis
qed

section \<open>Any command line\<close>

lemma settle_ases_total:
  assumes isa: "o_isa (v_opts v) \<in> set known_isas" and ok: "opts_ok (v_opts v)"
  shows "\<exists>w. settle_ases (Some ci) v = Some w \<and> ase_step v w \<and> list_all bit_int (ases (v_opts w))"
proof -
  obtain v1 where v1: "settle_mips3d (Some ci) v = Some v1" "ase_step v v1" "bit_int (o_ase_mips3d (v_opts v1))"
    using settle_mips3d_step ok by blast
  obtain v2 where v2: "settle_mdmx (Some ci) v1 = Some v2" "ase_step v1 v2" "opts_ok (v_opts v1) \<longrightarrow> bit_int (o_ase_mdmx (v_opts v2))"
    using settle_mdmx_step by blast
  have i2: "o_isa (v_opts v2) \<in> set known_isas" using isa v1(2) v2(2) by (simp add: ase_step_def)
  obtain v3 where v3: "settle_smartmips (Some ci) v2 = Some v3" "ase_step v2 v3"
      "opts_ok (v_opts v2) \<longrightarrow> bit_int (o_ase_smartmips (v_opts v3))"
    using settle_smartmips_step [OF i2] by blast
  have i3: "o_isa (v_opts v3) \<in> set known_isas" using i2 v3(2) by (simp add: ase_step_def)
  obtain v4 where v4: "settle_dsp (Some ci) v3 = Some v4" "ase_step v3 v4" "opts_ok (v_opts v3) \<longrightarrow> bit_int (o_ase_dsp (v_opts v4))"
    using settle_dsp_step [OF i3] by blast
  have i4: "o_isa (v_opts v4) \<in> set known_isas" using i3 v4(2) by (simp add: ase_step_def)
  obtain v5 where v5: "settle_dspr2 (Some ci) v4 = Some v5" "ase_step v4 v5"
      "opts_ok (v_opts v4) \<longrightarrow> bit_int (o_ase_dspr2 (v_opts v5))"
    using settle_dspr2_step [OF i4] by blast
  have i5: "o_isa (v_opts v5) \<in> set known_isas" using i4 v5(2) by (simp add: ase_step_def)
  obtain v6 where v6: "settle_mt (Some ci) v5 = Some v6" "ase_step v5 v6" "opts_ok (v_opts v5) \<longrightarrow> bit_int (o_ase_mt (v_opts v6))"
    using settle_mt_step [OF i5] by blast
  note steps = v1(2) v2(2) v3(2) v4(2) v5(2) v6(2)
  have "settle_ases (Some ci) v = Some v6"
    by (simp add: settle_ases_def v1(1) v2(1) v3(1) v4(1) v5(1) v6(1))
  moreover have "ase_step v v6" using steps by (blast intro: ase_step_trans)
  moreover have "list_all bit_int (ases (v_opts v6))"
    using steps ok v1(3) v2(3) v3(3) v4(3) v5(3) v6(3) by (simp add: ase_step_def ases_def)
  ultimately show ?thesis by blast
qed

text \<open>The state in which the assembler starts on its input.\<close>

definition settled :: "gas_statics \<Rightarrow> bool" where
  "settled v \<longleftrightarrow> (\<exists>ci \<in> set mips_cpu_info_table. o_isa (v_opts v) = ci_isa ci \<and> o_arch (v_opts v) = ci_cpu ci
       \<and> v_isa v = ci_isa ci \<and> v_arch v = ci_cpu ci)
     \<and> list_all bit_int (ases (v_opts v)) \<and> bit_int (o_mips16 (v_opts v))
     \<and> bit_int (v_gp32 v) \<and> bit_int (v_fp32 v) \<and> o_gp32 (v_opts v) = v_gp32 v \<and> o_fp32 (v_opts v) = v_fp32 v
     \<and> v_ases v = o_mips16 (v_opts v) # ases (v_opts v)"

lemma settle_mips16_facts:
  assumes "settle_mips16 env (v, g) = (v', g')"
  shows "v_opts v' = (v_opts v)\<lparr>o_mips16 := (if o_mips16 (v_opts v) = -1 then (if CPU_HAS_MIPS16 env then 1 else 0)
      else o_mips16 (v_opts v))\<rparr> \<and> v_gp32 v' = v_gp32 v \<and> v_fp32 v' = v_fp32 v \<and> v_arch v' = v_arch v \<and> v_diags v' = v_diags v"
  using assms by (auto simp: settle_mips16_def set_opts_def Let_def split: if_splits)

lemma final_steps:
  assumes "ci \<in> set mips_cpu_info_table" "o_isa (v_opts v) = ci_isa ci" "o_arch (v_opts v) = ci_cpu ci" "v_arch v = ci_cpu ci"
    and "list_all bit_int (ases (v_opts v))" "bit_int (o_mips16 (v_opts v))" "bit_int (v_gp32 v)" "bit_int (v_fp32 v)"
  shows "settled (settle_mdebug env (save_file_options v))"
  using assms by (auto simp: settled_def settle_mdebug_def save_file_options_def Let_def ases_def)

lemma check_arch_abi_says: "\<exists>ms. check_arch_abi (Some ci) v = Some (report ms v)"
  unfolding check_arch_abi_def
  by (cases "ABI_NEEDS_64BIT_REGS (v_abi v)"; cases "ISA_HAS_64BIT_REGS (ci_isa ci)")
    (auto intro: exI [of _ "[]"])

lemma after_parse_args_runs:
  assumes "statics_ok v" and ci: "ci \<in> set mips_cpu_info_table"
    and sel: "select_arch env v = Some (Some ci, report ms (prepared env v))"
  shows "\<exists>v' g'. mips_after_parse_args env (v, g) = Some (v', g') \<and> settled v' \<and> o_isa (v_opts v') = ci_isa ci
    \<and> o_mips16 (v_opts v') = (if o_mips16 (v_opts v) = -1 then if CPU_HAS_MIPS16 env then 1 else 0 else o_mips16 (v_opts v))"
proof -
  obtain ms2 where chk: "check_arch_abi (Some ci) (report ms (prepared env v)) = Some (report ms2 (prepared env v))"
    using check_arch_abi_says [of ci "report ms (prepared env v)"] by auto
  define v3 where "v3 = settle_mode (settle_fp (settle_gp (choose_tune env (Some ci)
    (mips_set_architecture (Some ci) (report ms2 (prepared env v))))))"
  have v3: "v_opts v3 = (v_opts v)\<lparr>o_arch := ci_cpu ci, o_isa := ci_isa ci\<rparr>" "v_arch v3 = ci_cpu ci"
      "bit_int (v_gp32 v3)" "bit_int (v_fp32 v3)"
    using assms(1) by (simp_all add: v3_def choose_tune_frame mips_set_architecture_def settle_bits statics_ok_def)
  obtain v4 g4 where m16: "settle_mips16 env (v3, g) = (v4, g4)" by fastforce
  note v4 = settle_mips16_facts [OF m16]
  have b16: "bit_int (o_mips16 (v_opts v4))"
    using v4 v3(1) assms(1) by (simp add: statics_ok_def opts_ok_def trit_unset)
  have "opts_ok (v_opts v4)" using b16 v4 v3(1) assms(1) by (simp add: statics_ok_def opts_ok_def)
  moreover have "o_isa (v_opts v4) \<in> set known_isas" using v4 v3(1) table_isas [OF ci] by simp
  ultimately obtain v5 where v5: "settle_ases (Some ci) v4 = Some v5" "ase_step v4 v5" "list_all bit_int (ases (v_opts v5))"
    using settle_ases_total by blast
  have "settled (settle_mdebug env (save_file_options v5))"
    by (rule final_steps [OF ci]) (use v3 v4 v5 b16 in \<open>simp_all add: ase_step_def\<close>)
  moreover have "o_isa (v_opts (settle_mdebug env (save_file_options v5))) = ci_isa ci"
    using v3 v4 v5(2) by (simp add: ase_step_def settle_mdebug_def save_file_options_def Let_def)
  moreover have "o_mips16 (v_opts (settle_mdebug env (save_file_options v5)))
      = (if o_mips16 (v_opts v) = -1 then if CPU_HAS_MIPS16 env then 1 else 0 else o_mips16 (v_opts v))"
    using v3 v4 v5(2) by (simp add: ase_step_def settle_mdebug_def save_file_options_def Let_def)
  moreover have "mips_after_parse_args env (v, g) = Some (settle_mdebug env (save_file_options v5), g4)"
    by (simp add: mips_after_parse_args_def sel chk v3_def [symmetric] m16 v5(1) Let_def)
  ultimately show ?thesis by blast
qed

text \<open>\<open>ase_smartmips\<close> is initialised to 0 and never becomes -1: the flag of the processor is not looked at.\<close>

lemma smartmips_flag_unused: "opts_ok (v_opts v) \<Longrightarrow> settle_smartmips arch v = settle_smartmips None v"
  by (auto simp: settle_smartmips_def opts_ok_def bit_int_def)

section \<open>A command line for Rigel\<close>

text \<open>Options that neither choose another processor nor ask for what a Rigel processor does not have.\<close>

fun quiet_option :: "md_option \<Rightarrow> bool" where
  "quiet_option (Arch c) = (c = OPTION_RIGEL32)"
| "quiet_option (Ase c) = (c \<in> {OPTION_NO_MIPS16, OPTION_NO_MIPS3D, OPTION_NO_MDMX, OPTION_NO_DSP, OPTION_NO_MT,
     OPTION_NO_SMARTMIPS, OPTION_NO_DSPR2})"
| "quiet_option (Compat_arch c) = False"
| "quiet_option (Fix c) = True"
| "quiet_option (Misc c) = (c \<noteq> OPTION_GP64 \<and> c \<noteq> OPTION_FP64)"
| "quiet_option (Elf c) = (c \<noteq> OPTION_N32 \<and> c \<noteq> OPTION_64 \<and> c \<noteq> OPTION_MABI)"
| "quiet_option Option_O = True"
| "quiet_option Option_g = True"
| "quiet_option Option_G = False"
| "quiet_option Option_other = False"

definition unset :: "int \<Rightarrow> bool" where
  "unset i \<longleftrightarrow> i = -1 \<or> i = 0"

lemma unset_simps [simp]: "unset 0" "unset (-1)"
  by (simp_all add: unset_def)

definition quiet_opts :: "mips_set_options \<Rightarrow> bool" where
  "quiet_opts p \<longleftrightarrow> list_all unset (o_mips16 p # ases p)"

definition not_64bit :: "int \<Rightarrow> bool" where
  "not_64bit i \<longleftrightarrow> i = -1 \<or> i = 1"

definition abi_of_32bit :: "mips_abi_level \<Rightarrow> bool" where
  "abi_of_32bit abi \<longleftrightarrow> abi = NO_ABI \<or> abi = O32_ABI"

lemma quiet_simps [simp]: "not_64bit 1" "not_64bit (-1)" "abi_of_32bit NO_ABI" "abi_of_32bit O32_ABI"
  by (simp_all add: not_64bit_def abi_of_32bit_def)

definition quiet_statics :: "gas_statics \<Rightarrow> bool" where
  "quiet_statics v \<longleftrightarrow> v_arch_string v = None \<and> v_tune_string v = None \<and> not_64bit (v_gp32 v) \<and> not_64bit (v_fp32 v)
     \<and> abi_of_32bit (v_abi v) \<and> v_g_seen v = 0
     \<and> v_diags v = [] \<and> quiet_opts (v_opts v)"

lemma quiet_initial: "quiet_statics (initial_statics big nops)"
  by (simp add: quiet_statics_def initial_statics_def quiet_opts_def ases_def initial_mips_opts_def)

lemma quiet_ase:
  assumes "quiet_option (Ase c)" "quiet_statics v"
  shows "quiet_statics (fst (parse_ase_option c (v, g))) \<and> v_isa (fst (parse_ase_option c (v, g))) = v_isa v"
proof -
  have "quiet_opts (ase_options c (v_opts v))"
    using assms by (cases c) (simp_all add: quiet_statics_def quiet_opts_def ases_def)
  with assms(2) show ?thesis by (simp add: parse_ase_option_def Let_def set_opts_def quiet_statics_def)
qed

lemma quiet_fix: "quiet_statics (parse_fix_option c v) = quiet_statics v \<and> v_isa (parse_fix_option c v) = v_isa v"
  by (cases c) (simp_all add: quiet_statics_def)

lemma quiet_misc:
  "quiet_option (Misc c) \<Longrightarrow> quiet_statics v \<Longrightarrow>
     quiet_statics (parse_misc_option c v) \<and> v_isa (parse_misc_option c v) = v_isa v"
  by (cases c) (simp_all add: quiet_statics_def quiet_opts_def ases_def)

lemma quiet_elf:
  "quiet_option (Elf c) \<Longrightarrow> quiet_statics v \<Longrightarrow> parse_elf_option env c arg (v, g) = Opt_returns True vg'
     \<Longrightarrow> quiet_statics (fst vg') \<and> v_isa (fst vg') = v_isa v"
  by (cases c) (auto simp: elf_only_def set_abi_def quiet_statics_def split: if_splits)

lemma quiet_step:
  assumes "md_parse_option env c arg vg = Opt_returns True vg'" "quiet_option c" "quiet_statics (fst vg)"
  shows "quiet_statics (fst vg') \<and> v_isa (fst vg') = (if c = Arch OPTION_RIGEL32 then ISA_RIGEL32 else v_isa (fst vg))"
proof -
  obtain v g where vg: "vg = (v, g)" by fastforce
  have arch: "quiet_statics (v\<lparr>v_isa := isa\<rparr>) = quiet_statics v" "quiet_statics (v\<lparr>v_optimize := i\<rparr>) = quiet_statics v"
      "quiet_statics (v\<lparr>v_debug := i\<rparr>) = quiet_statics v" for isa i
    by (simp_all add: quiet_statics_def)
  from assms show ?thesis unfolding vg
    by (cases c) (auto simp: statics_outcome_iff arch quiet_fix simp del: quiet_option.simps(2,5,6)
        dest: quiet_ase quiet_misc quiet_elf)
qed

lemma give_quiet_options:
  assumes "give_options env cs vg = Opt_returns True vg'" "list_all (\<lambda>c. quiet_option (fst c)) cs" "quiet_statics (fst vg)"
  shows "quiet_statics (fst vg')
    \<and> v_isa (fst vg') = (if Arch OPTION_RIGEL32 \<in> fst ` set cs then ISA_RIGEL32 else v_isa (fst vg))"
  using assms
proof (induction env cs vg rule: give_options.induct)
  case (2 env c arg cs vg)
  from 2(2) obtain u where u: "md_parse_option env c arg vg = Opt_returns True u" "give_options env cs u = Opt_returns True vg'"
    by (auto split: opt_outcome.splits bool.splits)
  from quiet_step [OF u(1)] 2(3,4) have q: "quiet_statics (fst u)"
      "v_isa (fst u) = (if c = Arch OPTION_RIGEL32 then ISA_RIGEL32 else v_isa (fst vg))" by simp_all
  with 2(1) [OF u(1) refl u(2)] 2(3) show ?case by auto
qed simp

lemma rigel_isa_regs: "\<not> ISA_HAS_64BIT_REGS ISA_RIGEL32" "\<not> ISA_HAS_64BIT_FPRS ISA_RIGEL32" "ISA_RIGEL32 \<noteq> ISA_MIPS1"
    "ISA_RIGEL32 \<noteq> ISA_UNKNOWN"
  by (simp_all add: ISA_HAS_64BIT_REGS_def ISA_HAS_64BIT_FPRS_def rigel_const)

definition rigel_cpu :: mips_cpu_info where
  "rigel_cpu = mips_cpu_entry ''mipsrigel32'' MIPS_CPU_IS_ISA ISA_RIGEL32 CPU_RIGEL32"

lemma rigel_cpu_simps [simp]:
  "ci_isa rigel_cpu = ISA_RIGEL32" "ci_cpu rigel_cpu = CPU_RIGEL32"
  "cpu_flag (Some rigel_cpu) MIPS_CPU_ASE_SMARTMIPS = Some 0" "cpu_flag (Some rigel_cpu) MIPS_CPU_ASE_DSP = Some 0"
  "cpu_flag (Some rigel_cpu) MIPS_CPU_ASE_MT = Some 0" "cpu_flag (Some rigel_cpu) MIPS_CPU_ASE_MIPS3D = Some 0"
  "cpu_flag (Some rigel_cpu) MIPS_CPU_ASE_MDMX = Some 0" "cpu_flag (Some rigel_cpu) MIPS_CPU_ASE_DSPR2 = Some 0"
  by (simp_all add: rigel_cpu_def mips_cpu_entry_def cpu_flag_def MIPS_CPU_IS_ISA_def MIPS_CPU_ASE_SMARTMIPS_def
      MIPS_CPU_ASE_DSP_def MIPS_CPU_ASE_MT_def MIPS_CPU_ASE_MIPS3D_def MIPS_CPU_ASE_MDMX_def MIPS_CPU_ASE_DSPR2_def)

lemma quiet_select:
  assumes "quiet_statics v" "v_isa v = ISA_RIGEL32"
  shows "select_arch env v = Some (Some rigel_cpu, prepared env v)"
  using assms
  by (simp add: select_arch_def prepared_def [symmetric] march_cpu_def mix_isa_def default_arch_def rigel_isa_regs
      rigel_isa_info rigel_cpu_def [symmetric] quiet_statics_def)

lemma quiet_prepared:
  assumes "quiet_statics v" "\<not> ABI_NEEDS_64BIT_REGS (oe_default_abi env)"
  shows "v_diags (prepared env v) = []" "\<not> ABI_NEEDS_64BIT_REGS (v_abi (prepared env v))"
  using assms
  by (auto simp: prepared_def default_abi_def drop_pe_switch_def quiet_statics_def abi_of_32bit_def ABI_NEEDS_64BIT_REGS_def)

lemma unset_default: "unset i \<Longrightarrow> (if i = -1 then 0 else i) = 0"
  by (auto simp: unset_def)

lemma unset_step: "unset i \<Longrightarrow> i \<noteq> -1 \<Longrightarrow> i = 0"
  by (simp add: unset_def)

text \<open>On a 32 bit processor without extensions nothing is reported.\<close>

lemma rigel_settle_regs:
  assumes "o_isa (v_opts v) = ISA_RIGEL32" "\<not> ABI_NEEDS_64BIT_REGS (v_abi v)" "not_64bit (v_gp32 v)" "not_64bit (v_fp32 v)"
    and "quiet_opts (v_opts v)" and v': "v' = settle_mode (settle_fp (settle_gp v))"
  shows "v_opts v' = v_opts v \<and> v_gp32 v' = 1 \<and> v_fp32 v' = 1 \<and> v_diags v' = v_diags v"
proof -
  have gp: "v_gp32 (settle_gp v) = 1" "v_diags (settle_gp v) = v_diags v" "v_fp32 (settle_gp v) = v_fp32 v"
    using assms(1-3) rigel_isa_regs by (auto simp: settle_gp_def Let_def not_64bit_def)
  have un: "\<not> (o_ase_mips3d (v_opts v) > 0 \<or> o_ase_mdmx (v_opts v) > 0)"
    using assms(5) by (auto simp: quiet_opts_def ases_def unset_def)
  have fp: "v_fp32 (settle_fp (settle_gp v)) = 1" "v_diags (settle_fp (settle_gp v)) = v_diags v"
    using assms(1,2,4) gp un by (auto simp: settle_fp_def Let_def not_64bit_def)
  then show ?thesis
    using v' gp assms(1) rigel_isa_regs by (simp add: settle_mode_def Let_def)
qed

lemma rigel_settle_ases:
  assumes "quiet_opts (v_opts v)"
  shows "settle_ases (Some rigel_cpu) v = Some (update_opts (\<lambda>p. p\<lparr>o_ase_mips3d := 0, o_ase_mdmx := 0,
    o_ase_smartmips := 0, o_ase_dsp := 0, o_ase_dspr2 := 0, o_ase_mt := 0\<rparr>) v)"
proof -
  obtain p where p: "v_opts v = p" by simp
  have u: "unset (o_ase_mips3d p)" "unset (o_ase_mdmx p)" "unset (o_ase_smartmips p)" "unset (o_ase_dsp p)"
      "unset (o_ase_dspr2 p)" "unset (o_ase_mt p)"
    using assms p by (simp_all add: quiet_opts_def ases_def)
  have 1: "settle_mips3d (Some rigel_cpu) w = Some (update_opts (\<lambda>p. p\<lparr>o_ase_mips3d := 0\<rparr>) w)"
    if "unset (o_ase_mips3d (v_opts w))" for w
    using unset_step [OF that] by (cases "o_ase_mips3d (v_opts w) = -1") (simp_all add: settle_mips3d_def update_opts_def)
  have 2: "settle_mdmx (Some rigel_cpu) w = Some (update_opts (\<lambda>p. p\<lparr>o_ase_mdmx := 0\<rparr>) w)"
    if "unset (o_ase_mdmx (v_opts w))" for w
    using unset_step [OF that] by (cases "o_ase_mdmx (v_opts w) = -1") (simp_all add: settle_mdmx_def update_opts_def)
  have 3: "settle_smartmips (Some rigel_cpu) w = Some (update_opts (\<lambda>p. p\<lparr>o_ase_smartmips := 0\<rparr>) w)"
    if "unset (o_ase_smartmips (v_opts w))" for w
    using unset_step [OF that]
    by (cases "o_ase_smartmips (v_opts w) = -1") (simp_all add: settle_smartmips_def update_opts_def warn_isa_def)
  have 4: "settle_dsp (Some rigel_cpu) w = Some (update_opts (\<lambda>p. p\<lparr>o_ase_dsp := 0\<rparr>) w)"
    if "unset (o_ase_dsp (v_opts w))" for w
    using unset_step [OF that] by (cases "o_ase_dsp (v_opts w) = -1") (simp_all add: settle_dsp_def update_opts_def warn_isa_def)
  have 5: "settle_dspr2 (Some rigel_cpu) w = Some (update_opts (\<lambda>p. p\<lparr>o_ase_dspr2 := 0\<rparr>) w)"
    if "unset (o_ase_dspr2 (v_opts w))" "o_ase_dsp (v_opts w) = 0" for w
    using unset_step [OF that(1)] that(2)
    by (cases "o_ase_dspr2 (v_opts w) = -1") (simp_all add: settle_dspr2_def update_opts_def warn_isa_def)
  have 6: "settle_mt (Some rigel_cpu) w = Some (update_opts (\<lambda>p. p\<lparr>o_ase_mt := 0\<rparr>) w)"
    if "unset (o_ase_mt (v_opts w))" for w
    using unset_step [OF that] by (cases "o_ase_mt (v_opts w) = -1") (simp_all add: settle_mt_def update_opts_def warn_isa_def)
  show ?thesis
    using u p by (simp add: settle_ases_def 1 2 3 4 5 6 update_opts_def)
qed

lemma quiet_after:
  assumes q: "quiet_statics v" "v_isa v = ISA_RIGEL32" and env: "\<not> ABI_NEEDS_64BIT_REGS (oe_default_abi env)" "\<not> CPU_HAS_MIPS16 env"
  shows "\<exists>v' g'. mips_after_parse_args env (v, g) = Some (v', g') \<and> rigel_opts (v_opts v') \<and> o_gp32 (v_opts v') = 1
    \<and> o_fp32 (v_opts v') = 1 \<and> list_all (\<lambda>i. i = 0) (ases (v_opts v')) \<and> v_diags v' = []
    \<and> v_isa v' = ISA_RIGEL32 \<and> v_arch v' = CPU_RIGEL32"
proof -
  define v2 where "v2 = choose_tune env (Some rigel_cpu) (mips_set_architecture (Some rigel_cpu) (prepared env v))"
  note prep = quiet_prepared [OF q(1) env(1)]
  have chk: "check_arch_abi (Some rigel_cpu) (prepared env v) = Some (prepared env v)"
    using prep(2) by (simp add: check_arch_abi_def)
  have tune: "v_tune_string (mips_set_architecture (Some rigel_cpu) (prepared env v)) = None"
    using q(1) by (simp add: mips_set_architecture_def quiet_statics_def)
  have v2: "v_opts v2 = (v_opts v)\<lparr>o_arch := CPU_RIGEL32, o_isa := ISA_RIGEL32\<rparr>" "v_diags v2 = []" "v_gp32 v2 = v_gp32 v"
      "v_fp32 v2 = v_fp32 v" "\<not> ABI_NEEDS_64BIT_REGS (v_abi v2)"
    using prep tune by (simp_all add: v2_def choose_tune_def mips_set_tune_def mips_set_architecture_def)
  have quiet: "quiet_opts (v_opts v2)" using q(1) v2(1) by (simp add: quiet_statics_def quiet_opts_def ases_def)
  define v3 where "v3 = settle_mode (settle_fp (settle_gp v2))"
  have arch: "v_arch v3 = CPU_RIGEL32"
    using tune by (simp add: v3_def v2_def choose_tune_def mips_set_tune_def mips_set_architecture_def)
  have "v_opts v3 = v_opts v2 \<and> v_gp32 v3 = 1 \<and> v_fp32 v3 = 1 \<and> v_diags v3 = v_diags v2"
    by (rule rigel_settle_regs) (use v2 quiet q(1) in \<open>simp_all add: v3_def quiet_statics_def\<close>)
  note v3 = this
  obtain v4 g4 where m16: "settle_mips16 env (v3, g) = (v4, g4)" by fastforce
  have "unset (o_mips16 (v_opts v3))" using quiet v3 by (simp add: quiet_opts_def)
  with settle_mips16_facts [OF m16] env(2) have v4: "v_opts v4 = (v_opts v3)\<lparr>o_mips16 := 0\<rparr>" "v_gp32 v4 = 1" "v_fp32 v4 = 1"
      "v_diags v4 = []" "v_arch v4 = CPU_RIGEL32"
    using v3 v2(2) arch unset_default by (simp_all add: unset_step)
  have "quiet_opts (v_opts v4)" using quiet v3 v4(1) by (simp add: quiet_opts_def ases_def)
  note ases4 = rigel_settle_ases [OF this]
  define w where "w = settle_mdebug env (save_file_options (update_opts (\<lambda>p. p\<lparr>o_ase_mips3d := 0, o_ase_mdmx := 0,
    o_ase_smartmips := 0, o_ase_dsp := 0, o_ase_dspr2 := 0, o_ase_mt := 0\<rparr>) v4))"
  have "mips_after_parse_args env (v, g) = Some (w, g4)"
    by (simp add: mips_after_parse_args_def quiet_select [OF q] chk v2_def [symmetric] v3_def [symmetric] m16 ases4 Let_def w_def)
  moreover have "rigel_opts (v_opts w) \<and> o_gp32 (v_opts w) = 1 \<and> o_fp32 (v_opts w) = 1
      \<and> list_all (\<lambda>i. i = 0) (ases (v_opts w)) \<and> v_diags w = [] \<and> v_isa w = ISA_RIGEL32 \<and> v_arch w = CPU_RIGEL32"
    using v2 v3 v4 by (simp add: w_def settle_mdebug_def save_file_options_def update_opts_def rigel_opts_def Let_def ases_def)
  ultimately show ?thesis by blast
qed

section \<open>No processor chosen\<close>

text \<open>No option names an ISA level or a processor.\<close>

fun names_no_cpu :: "md_option \<Rightarrow> bool" where
  "names_no_cpu (Arch c) = (c = OPTION_MTUNE)"
| "names_no_cpu (Compat_arch c) = (c \<in> {OPTION_NO_M4650, OPTION_NO_M4010, OPTION_NO_M4100, OPTION_NO_M3900})"
| "names_no_cpu c = True"

lemma unnamed_arch:
  "names_no_cpu (Arch c) \<Longrightarrow> parse_arch_option c arg v = Some v' \<Longrightarrow> v_arch_string v' = v_arch_string v \<and> v_isa v' = v_isa v"
  by (cases c) (auto dest: set_string_ok)

lemma unnamed_compat:
  "names_no_cpu (Compat_arch c) \<Longrightarrow> parse_compat_arch_option c v = Some v' \<Longrightarrow> v' = v"
  by (cases c) auto

lemma unnamed_rest:
  "v_arch_string (fst (parse_ase_option a (v, g))) = v_arch_string v \<and> v_isa (fst (parse_ase_option a (v, g))) = v_isa v"
  "v_arch_string (parse_fix_option f v) = v_arch_string v \<and> v_isa (parse_fix_option f v) = v_isa v"
  "v_arch_string (parse_misc_option m v) = v_arch_string v \<and> v_isa (parse_misc_option m v) = v_isa v"
  by (simp add: parse_ase_option_def Let_def set_opts_def, (cases f; simp), (cases m; simp))

lemma unnamed_elf:
  "parse_elf_option env c arg (v, g) = Opt_returns True vg' \<Longrightarrow> v_arch_string (fst vg') = v_arch_string v \<and> v_isa (fst vg') = v_isa v"
  by (cases c) (auto simp: elf_only_def set_abi_def set_n64_abi_def split: if_splits option.splits)

lemma unnamed_step:
  assumes "md_parse_option env c arg vg = Opt_returns True vg'" "names_no_cpu c"
  shows "v_arch_string (fst vg') = v_arch_string (fst vg) \<and> v_isa (fst vg') = v_isa (fst vg)"
proof -
  obtain v g where vg: "vg = (v, g)" by fastforce
  from assms show ?thesis unfolding vg
    by (cases c) (auto simp: statics_outcome_iff unnamed_rest simp del: names_no_cpu.simps(1,2)
        dest: unnamed_arch unnamed_compat unnamed_elf split: option.splits)
qed

lemma give_unnamed:
  assumes "give_options env cs vg = Opt_returns True vg'" "list_all (\<lambda>c. names_no_cpu (fst c)) cs"
  shows "v_arch_string (fst vg') = v_arch_string (fst vg) \<and> v_isa (fst vg') = v_isa (fst vg)"
  using assms
proof (induction env cs vg rule: give_options.induct)
  case (2 env c arg cs vg)
  from 2(2) obtain u where u: "md_parse_option env c arg vg = Opt_returns True u" "give_options env cs u = Opt_returns True vg'"
    by (auto split: opt_outcome.splits bool.splits)
  from unnamed_step [OF u(1)] 2(3) have "v_arch_string (fst u) = v_arch_string (fst vg) \<and> v_isa (fst u) = v_isa (fst vg)"
    by simp
  with 2(1) [OF u(1) refl u(2)] 2(3) show ?case by simp
qed simp

text \<open>Nor does one turn on the MIPS16 mode, unless it is \<open>-mips16\<close>.\<close>

lemma mode_step:
  assumes "md_parse_option env c arg vg = Opt_returns True vg'" "c \<noteq> Ase OPTION_MIPS16" "unset (o_mips16 (v_opts (fst vg)))"
  shows "unset (o_mips16 (v_opts (fst vg')))"
proof -
  obtain v g where vg: "vg = (v, g)" by fastforce
  have ase: "unset (o_mips16 (v_opts (fst (parse_ase_option a (v, g)))))" if "a \<noteq> OPTION_MIPS16" "unset (o_mips16 (v_opts v))" for a
    using that by (cases a) (simp_all add: parse_ase_option_def Let_def set_opts_def)
  have fx: "v_opts (parse_fix_option f v) = v_opts v" for f by (cases f) simp_all
  have misc: "o_mips16 (v_opts (parse_misc_option m v)) = o_mips16 (v_opts v)" for m by (cases m) simp_all
  have arch: "v_opts u = v_opts v" if "parse_arch_option a arg v = Some u" for a u
    using that by (cases a) (auto dest: set_string_ok)
  have compat: "v_opts u = v_opts v" if "parse_compat_arch_option a v = Some u" for a u
    using that by (cases a) (auto simp: both_strings_def Option.bind_eq_Some_conv dest!: set_string_ok)
  have elf: "v_opts (fst u) = v_opts v" if "parse_elf_option env e arg (v, g) = Opt_returns True u" for e u
    using that by (cases e) (auto simp: elf_only_def set_abi_def set_n64_abi_def split: if_splits option.splits)
  from assms show ?thesis unfolding vg
    by (cases c) (auto simp: statics_outcome_iff ase fx misc dest: arch compat elf split: option.splits)
qed

lemma give_mode:
  assumes "give_options env cs vg = Opt_returns True vg'" "Ase OPTION_MIPS16 \<notin> fst ` set cs" "unset (o_mips16 (v_opts (fst vg)))"
  shows "unset (o_mips16 (v_opts (fst vg')))"
  using assms
proof (induction env cs vg rule: give_options.induct)
  case (2 env c arg cs vg)
  from 2(2) obtain u where u: "md_parse_option env c arg vg = Opt_returns True u" "give_options env cs u = Opt_returns True vg'"
    by (auto split: opt_outcome.splits bool.splits)
  have "unset (o_mips16 (v_opts (fst u)))" using mode_step [OF u(1)] 2(3,4) by auto
  with 2(1) [OF u(1) refl u(2)] 2(3) show ?case by simp
qed simp

text \<open>Then \<open>from-abi\<close> selects MIPS I or MIPS III.\<close>

lemma unnamed_select:
  assumes "v_arch_string v = None" "v_isa v = ISA_UNKNOWN" "map tolower (oe_default_cpu env) = ''from-abi''"
  shows "\<exists>ci. select_arch env v = Some (Some ci, report [] (prepared env v)) \<and> ci \<in> set mips_cpu_info_table
    \<and> (ci_isa ci = ISA_MIPS1 \<or> ci_isa ci = ISA_MIPS3)"
proof -
  obtain ci where ci: "mips_parse_cpu (v_abi (prepared env v)) (v_gp32 (prepared env v)) (oe_default_64bit env) (oe_default_cpu env)
      = (Some ci, False)" "ci \<in> set mips_cpu_info_table" "ci_isa ci = ISA_MIPS1 \<or> ci_isa ci = ISA_MIPS3"
    using from_abi_parsed [OF assms(3)] by blast
  then have "select_arch env v = Some (Some ci, report [] (prepared env v))"
    using assms(1,2) by (simp add: select_arch_def prepared_def [symmetric] march_cpu_def mix_isa_def default_arch_def parse_cpu_def)
  with ci show ?thesis by blast
qed

text \<open>Outside the ISA of Rigel no entry of its table is supported, so every line with a known mnemonic is refused.\<close>

lemma rigel_bit_of_isa:
  assumes "o_isa opts = ISA_MIPS1 \<or> o_isa opts = ISA_MIPS3"
  shows "INSN_RIGEL32 AND ip_isa opts env = 0"
  using assms by (elim disjE) (simp_all add: ip_isa_def bit.conj_disj_distrib rigel_const)

lemma rigel_entry_refused:
  assumes "o_isa opts = ISA_MIPS1 \<or> o_isa opts = ISA_MIPS3" "insn \<in> set mips_builtin_opcodes"
  shows "\<not> entry_ok opts env insn"
proof -
  have m: "op_membership insn = INSN_RIGEL32" using rigel_plain [OF assms(2)] by (simp add: plain_rigel_def)
  show ?thesis
    using rigel_bit_of_isa [OF assms(1), of env]
    by (simp add: entry_ok_def OPCODE_IS_MEMBER_def m) (simp add: rigel_const)
qed

lemma try_entries_refused:
  assumes "\<And>insn. insn \<in> set tab \<Longrightarrow> \<not> entry_ok opts env insn" "i < length tab" "ip_error st = None" "processor_named opts"
  shows "try_entries opts env tab i s st = Ip_done (st\<lparr>ip_error := Some Opcode_not_supported\<rparr>)"
  using assms
proof (induction opts env tab i s st rule: try_entries.induct)
  case (1 opts env tab i s st)
  have no: "\<not> entry_ok opts env (tab ! i)" using 1(3,4) by simp
  show ?case
  proof (cases "more_entries tab i")
    case True
    then have "i + 1 < length tab" by (simp add: more_entries_def)
    with 1 no True show ?thesis by (subst try_entries.simps) simp
  next
    case False
    with no 1(5,6) show ?thesis by (subst try_entries.simps) simp
  qed
qed

lemma settled_named:
  assumes "settled v" shows "processor_named (v_opts v)"
proof -
  obtain ci where ci: "ci \<in> set mips_cpu_info_table" "o_isa (v_opts v) = ci_isa ci" "o_arch (v_opts v) = ci_cpu ci"
    using assms by (auto simp: settled_def)
  have "mips_cpu_info_from_arch (ci_cpu ci) \<noteq> None"
    using ci(1) by (auto simp: mips_cpu_info_from_arch_def find_None_iff)
  then show ?thesis using known_isas_named [OF table_isas [OF ci(1)]] ci(2,3) by (simp add: processor_named_def)
qed

section \<open>Properties\<close>

text \<open>C10: Whatever options \<open>md_parse_option\<close> accepted, \<open>mips_after_parse_args\<close> reads through no null pointer as long as
  the configured processor is one of the table, and leaves the ISA level and the processor of one entry of the table,
  and every extension, the mode and both sizes of registers as 0 or 1.\<close>

theorem command_line_settles:
  assumes "give_options env cs (initial_statics big nops, g) = Opt_returns True (v, g1)" "default_cpu_known env"
  shows "\<exists>v' g'. mips_after_parse_args env (v, g1) = Some (v', g') \<and> settled v'"
proof -
  have ok: "statics_ok v" using give_options_ok [OF assms(1)] statics_ok_initial by simp
  from select_arch_total [OF ok assms(2)] after_parse_args_runs [OF ok] show ?thesis by blast
qed

text \<open>C9: A command line with \<open>-mipsrigel32\<close>, among options that choose no other processor, no 64 bit registers and no
  extension, is accepted without a message and yields the options of Rigel code: its ISA and processor, 32 bit
  registers, and no extension.\<close>

theorem rigel_command_line:
  assumes "give_options env cs (initial_statics big nops, g) = Opt_returns True (v, g1)"
    and "list_all (\<lambda>c. quiet_option (fst c)) cs" "Arch OPTION_RIGEL32 \<in> fst ` set cs"
    and "\<not> ABI_NEEDS_64BIT_REGS (oe_default_abi env)" "\<not> CPU_HAS_MIPS16 env"
  shows "\<exists>v' g'. mips_after_parse_args env (v, g1) = Some (v', g') \<and> rigel_opts (v_opts v') \<and> o_gp32 (v_opts v') = 1
    \<and> o_fp32 (v_opts v') = 1 \<and> list_all (\<lambda>i. i = 0) (ases (v_opts v')) \<and> v_diags v' = []"
proof -
  have "quiet_statics v" "v_isa v = ISA_RIGEL32" using give_quiet_options [OF assms(1,2)] quiet_initial assms(3) by simp_all
  then show ?thesis using quiet_after [OF _ _ assms(4,5)] by blast
qed

text \<open>C8: When no option names a processor or asks for the MIPS16 mode, and the configuration is for a processor without
  MIPS16 and says \<open>from-abi\<close>, as it does for the \<open>mips\<close> targets, the assembler takes MIPS I or MIPS III, whatever
  \<open>file_mips_arch\<close> was initialised to, and starts outside the MIPS16 mode; \<open>md_assemble\<close> then refuses every line whose
  mnemonic is one of Rigel's, with the message that the processor does not support it, whose names of the processor
  and of its ISA are read through no null pointer.\<close>

theorem rigel_needs_option:
  assumes "give_options env cs (initial_statics big nops, g) = Opt_returns True (v, g1)"
    and "list_all (\<lambda>c. names_no_cpu (fst c)) cs" "Ase OPTION_MIPS16 \<notin> fst ` set cs" "\<not> CPU_HAS_MIPS16 env"
    and "map tolower (oe_default_cpu env) = ''from-abi''"
  shows "\<exists>v' g'. mips_after_parse_args env (v, g1) = Some (v', g') \<and> o_mips16 (v_opts v') = 0
    \<and> (o_isa (v_opts v') = ISA_MIPS1 \<or> o_isa (v_opts v') = ISA_MIPS3) \<and> processor_named (v_opts v')
    \<and> (\<forall>ienv aenv str st gst found. find_mnemonic (first_entry mips_builtin_opcodes) str = Some found \<longrightarrow>
         md_assemble (v_opts v') ienv aenv mips_builtin_opcodes (first_entry mips_builtin_opcodes) str st gst
         = Asm_error Opcode_not_supported ((reset_operands st)\<lparr>ip_error := Some Opcode_not_supported, lastpos := 0\<rparr>))"
proof -
  have ok: "statics_ok v" using give_options_ok [OF assms(1)] statics_ok_initial by simp
  have "v_arch_string v = None" "v_isa v = ISA_UNKNOWN"
    using give_unnamed [OF assms(1,2)] by (simp_all add: initial_statics_def)
  from unnamed_select [OF this assms(5)] obtain ci where "select_arch env v = Some (Some ci, report [] (prepared env v))"
    "ci \<in> set mips_cpu_info_table" and isa: "ci_isa ci = ISA_MIPS1 \<or> ci_isa ci = ISA_MIPS3" by blast
  from after_parse_args_runs [OF ok this(2,1)] obtain v' g' where v': "mips_after_parse_args env (v, g1) = Some (v', g')"
    "settled v'" "o_isa (v_opts v') = ci_isa ci"
    "o_mips16 (v_opts v') = (if o_mips16 (v_opts v) = -1 then if CPU_HAS_MIPS16 env then 1 else 0 else o_mips16 (v_opts v))" by blast
  have "unset (o_mips16 (v_opts v))"
    using give_mode [OF assms(1,3)] by (simp add: initial_statics_def initial_mips_opts_def)
  then have mode: "o_mips16 (v_opts v') = 0" using v'(4) assms(4) by (auto simp: unset_def)
  note named = settled_named [OF v'(2)]
  have "md_assemble (v_opts v') ienv aenv mips_builtin_opcodes (first_entry mips_builtin_opcodes) str st gst
      = Asm_error Opcode_not_supported ((reset_operands st)\<lparr>ip_error := Some Opcode_not_supported, lastpos := 0\<rparr>)"
    if found: "find_mnemonic (first_entry mips_builtin_opcodes) str = Some (i, s)" for ienv aenv str st gst i s
  proof -
    from found have "i < length mips_builtin_opcodes"
      by (auto simp: find_mnemonic_def first_entry_def Let_def split: option.splits if_splits dest: find_index_SomeD)
    with rigel_entry_refused [of "v_opts v'"] isa v'(3) named show ?thesis
      by (simp add: md_assemble_def mode mips_ip_def found try_entries_refused)
  qed
  with v' isa mode named show ?thesis by auto
qed

section \<open>Witnesses\<close>

text \<open>A \<open>mips-elf\<close> configuration.\<close>

definition mips_elf_env :: opt_env where
  "mips_elf_env = \<lparr>oe_elf = True, oe_64bit_objects = False, oe_target_os = ''elf'', oe_target_cpu = ''mips'',
     oe_target_canonical = ''mips-unknown-elf'', oe_default_abi = NO_ABI, oe_default_cpu = ''from-abi'',
     oe_default_64bit = False, oe_ecoff = False\<rparr>"

lemma mips_elf_env_facts:
  "default_cpu_known mips_elf_env" "\<not> ABI_NEEDS_64BIT_REGS (oe_default_abi mips_elf_env)" "\<not> CPU_HAS_MIPS16 mips_elf_env"
  "map tolower (oe_default_cpu mips_elf_env) = ''from-abi''"
  by (simp_all add: mips_elf_env_def default_cpu_known_def ABI_NEEDS_64BIT_REGS_def CPU_HAS_MIPS16_def strncmp_eq_def
      tolower_def char_code_def)

theorem command_line_settles_witness:
  "\<forall>big nops g. \<exists>v' g'. Option.bind (case give_options mips_elf_env [(Arch OPTION_MARCH, Some ''4ksc''), (Misc OPTION_TRAP, None)]
       (initial_statics big nops, g) of Opt_returns b vg \<Rightarrow> Some vg | _ \<Rightarrow> None) (mips_after_parse_args mips_elf_env) = Some (v', g')
     \<and> settled v'"
proof (intro allI)
  fix big nops and g :: gas_state
  have "give_options mips_elf_env [(Arch OPTION_MARCH, Some ''4ksc''), (Misc OPTION_TRAP, None)] (initial_statics big nops, g)
      = Opt_returns True ((initial_statics big nops)\<lparr>v_arch_string := Some ''4ksc'', v_trap := 1\<rparr>, g)"
    by (simp add: statics_outcome_def set_arch_string_def mips_set_option_string_def initial_statics_def)
  with command_line_settles [OF this mips_elf_env_facts(1)]
  show "\<exists>v' g'. Option.bind (case give_options mips_elf_env [(Arch OPTION_MARCH, Some ''4ksc''), (Misc OPTION_TRAP, None)]
       (initial_statics big nops, g) of Opt_returns b vg \<Rightarrow> Some vg | _ \<Rightarrow> None) (mips_after_parse_args mips_elf_env) = Some (v', g')
     \<and> settled v'" by simp
qed

theorem rigel_command_line_witness:
  "\<forall>big nops g. \<exists>v g1 v' g'. give_options mips_elf_env [(Arch OPTION_RIGEL32, None), (Option_O, Some ''2''), (Misc OPTION_EL, None)]
       (initial_statics big nops, g) = Opt_returns True (v, g1)
     \<and> mips_after_parse_args mips_elf_env (v, g1) = Some (v', g') \<and> rigel_opts (v_opts v') \<and> v_diags v' = []"
proof (intro allI)
  fix big nops and g :: gas_state
  have g: "give_options mips_elf_env [(Arch OPTION_RIGEL32, None), (Option_O, Some ''2''), (Misc OPTION_EL, None)]
      (initial_statics big nops, g)
      = Opt_returns True ((initial_statics big nops)\<lparr>v_isa := ISA_RIGEL32, v_optimize := 2, v_big := False\<rparr>, g)"
    by (simp add: statics_outcome_def char_at_def)
  show "\<exists>v g1 v' g'. give_options mips_elf_env [(Arch OPTION_RIGEL32, None), (Option_O, Some ''2''), (Misc OPTION_EL, None)]
       (initial_statics big nops, g) = Opt_returns True (v, g1)
     \<and> mips_after_parse_args mips_elf_env (v, g1) = Some (v', g') \<and> rigel_opts (v_opts v') \<and> v_diags v' = []"
    using g rigel_command_line [OF g _ _ mips_elf_env_facts(2,3)] by auto
qed

theorem rigel_needs_option_witness:
  "\<forall>big nops g. \<exists>v' g'. mips_after_parse_args mips_elf_env (initial_statics big nops, g) = Some (v', g')
     \<and> (\<forall>ienv aenv st gst. \<exists>st'. md_assemble (v_opts v') ienv aenv mips_builtin_opcodes (first_entry mips_builtin_opcodes)
          ''addu $1,$2,$3'' st gst = Asm_error Opcode_not_supported st')"
proof (intro allI)
  fix big nops and g :: gas_state
  have g: "give_options mips_elf_env [] (initial_statics big nops, g) = Opt_returns True (initial_statics big nops, g)" by simp
  have "find_mnemonic (first_entry mips_builtin_opcodes) ''addu $1,$2,$3'' \<noteq> None"
    by code_simp
  then obtain found where f: "find_mnemonic (first_entry mips_builtin_opcodes) ''addu $1,$2,$3'' = Some found" by blast
  show "\<exists>v' g'. mips_after_parse_args mips_elf_env (initial_statics big nops, g) = Some (v', g')
     \<and> (\<forall>ienv aenv st gst. \<exists>st'. md_assemble (v_opts v') ienv aenv mips_builtin_opcodes (first_entry mips_builtin_opcodes)
          ''addu $1,$2,$3'' st gst = Asm_error Opcode_not_supported st')"
    using rigel_needs_option [OF g _ _ mips_elf_env_facts(3,4)] f by fastforce
qed

end
