(* ===== verification/Gas_Set.thy ===== *)
theory Gas_Set
  imports Gas_Startup
begin

text \<open>
  The \<open>.set\<close> directive (\<open>s_mipsset\<close> of \<open>gas/config/tc-mips.c\<close>): what it changes of \<open>mips_opts\<close>, the stack of
  \<open>.set push\<close> and \<open>.set pop\<close>, and the blocks of \<open>.set noreorder\<close>, which act on the instructions emitted so far.

  The argument is the rest of the line; the chain of comparisons is read off as one directive, and each directive has
  its effect on the static variables, the stack and the output. Since the argument runs to the end of the line,
  \<open>demand_empty_rest_of_line\<close> after it finds nothing to complain about and changes nothing. A generic \<open>.set symbol, value\<close> is handed to \<open>s_set\<close>,
  which is not modelled.
\<close>

section \<open>The directives\<close>

text \<open>Those that only store a constant in a field, and the others.\<close>

datatype plain_set =
  S_at | S_noat | S_macro | S_move | S_nomove | S_bopt | S_nobopt | S_gp32 | S_fp32 | S_nosmartmips | S_mips3d
| S_nomips3d | S_mdmx | S_nomdmx | S_nodsp | S_nodspr2 | S_nomt | S_autoextend | S_noautoextend | S_sym32 | S_nosym32

datatype set_directive =
  Plain plain_set | Reorder | Noreorder | Nomacro | Gp_default | Gp64 | Fp_default | Fp64 | Mips16 bool | Smartmips
| Dsp | Dspr2 | Mt | Isa_or_arch | Push | Pop | Generic | Unknown

definition set_names :: "(cstring \<times> set_directive) list" where [rigel_tab]:
  "set_names = [
    (''reorder'', Reorder), (''noreorder'', Noreorder), (''at'', Plain S_at), (''noat'', Plain S_noat),
    (''macro'', Plain S_macro), (''nomacro'', Nomacro), (''move'', Plain S_move), (''novolatile'', Plain S_move),
    (''nomove'', Plain S_nomove), (''volatile'', Plain S_nomove), (''bopt'', Plain S_bopt), (''nobopt'', Plain S_nobopt),
    (''gp=default'', Gp_default), (''gp=32'', Plain S_gp32), (''gp=64'', Gp64), (''fp=default'', Fp_default),
    (''fp=32'', Plain S_fp32), (''fp=64'', Fp64), (''mips16'', Mips16 True), (''MIPS-16'', Mips16 True),
    (''nomips16'', Mips16 False), (''noMIPS-16'', Mips16 False), (''smartmips'', Smartmips),
    (''nosmartmips'', Plain S_nosmartmips), (''mips3d'', Plain S_mips3d), (''nomips3d'', Plain S_nomips3d),
    (''mdmx'', Plain S_mdmx), (''nomdmx'', Plain S_nomdmx), (''dsp'', Dsp), (''nodsp'', Plain S_nodsp),
    (''dspr2'', Dspr2), (''nodspr2'', Plain S_nodspr2), (''mt'', Mt), (''nomt'', Plain S_nomt),
    (''autoextend'', Plain S_autoextend), (''noautoextend'', Plain S_noautoextend), (''push'', Push), (''pop'', Pop),
    (''sym32'', Plain S_sym32), (''nosym32'', Plain S_nosym32)]"

text \<open>Names of ISA levels and processors are tested after \<open>mips16\<close> and \<open>mips3d\<close>; no later name starts like them.\<close>

definition parse_set :: "cstring \<Rightarrow> set_directive" where
  "parse_set name = (case map_of set_names name of
     Some d \<Rightarrow> d
   | None \<Rightarrow>
       if strncmp_eq name ''mips'' 4 \<or> strncmp_eq name ''arch='' 5 then Isa_or_arch
       else if CHR '','' \<in> set name then Generic else Unknown)"

section \<open>Their effects\<close>

type_synonym set_vars = "gas_statics \<times> mips_set_options list \<times> gas_state"

text \<open>\<open>Set_generic\<close> leaves the line to \<open>s_set\<close>; \<open>Set_stopped\<close> is a null pointer or a failed assertion.\<close>

datatype set_outcome = Set_returns set_vars | Set_generic set_vars | Set_stopped

fun plain_effect :: "plain_set \<Rightarrow> mips_set_options \<Rightarrow> mips_set_options" where
  "plain_effect S_at p = p\<lparr>o_noat := 0\<rparr>"
| "plain_effect S_noat p = p\<lparr>o_noat := 1\<rparr>"
| "plain_effect S_macro p = p\<lparr>o_warn_about_macros := 0\<rparr>"
| "plain_effect S_move p = p\<lparr>o_nomove := 0\<rparr>"
| "plain_effect S_nomove p = p\<lparr>o_nomove := 1\<rparr>"
| "plain_effect S_bopt p = p\<lparr>o_nobopt := 0\<rparr>"
| "plain_effect S_nobopt p = p\<lparr>o_nobopt := 1\<rparr>"
| "plain_effect S_gp32 p = p\<lparr>o_gp32 := 1\<rparr>"
| "plain_effect S_fp32 p = p\<lparr>o_fp32 := 1\<rparr>"
| "plain_effect S_nosmartmips p = p\<lparr>o_ase_smartmips := 0\<rparr>"
| "plain_effect S_mips3d p = p\<lparr>o_ase_mips3d := 1\<rparr>"
| "plain_effect S_nomips3d p = p\<lparr>o_ase_mips3d := 0\<rparr>"
| "plain_effect S_mdmx p = p\<lparr>o_ase_mdmx := 1\<rparr>"
| "plain_effect S_nomdmx p = p\<lparr>o_ase_mdmx := 0\<rparr>"
| "plain_effect S_nodsp p = p\<lparr>o_ase_dsp := 0, o_ase_dspr2 := 0\<rparr>"
| "plain_effect S_nodspr2 p = p\<lparr>o_ase_dspr2 := 0, o_ase_dsp := 0\<rparr>"
| "plain_effect S_nomt p = p\<lparr>o_ase_mt := 0\<rparr>"
| "plain_effect S_autoextend p = p\<lparr>o_noautoextend := 0\<rparr>"
| "plain_effect S_noautoextend p = p\<lparr>o_noautoextend := 1\<rparr>"
| "plain_effect S_sym32 p = p\<lparr>o_sym32 := True\<rparr>"
| "plain_effect S_nosym32 p = p\<lparr>o_sym32 := False\<rparr>"

definition change_opts :: "(mips_set_options \<Rightarrow> mips_set_options) \<Rightarrow> set_vars \<Rightarrow> set_vars" where
  "change_opts f s = (case s of (v, stk, g) \<Rightarrow> case set_opts (f (v_opts v)) (v, g) of (v', g') \<Rightarrow> (v', stk, g'))"

text \<open>A directive that warns when the ISA lacks what it asks for, then stores.\<close>

definition warned :: "cstring \<Rightarrow> (mips_set_options \<Rightarrow> bool) \<Rightarrow> (mips_set_options \<Rightarrow> mips_set_options) \<Rightarrow> set_vars \<Rightarrow> set_outcome" where
  "warned what lacks f s = (case s of (v, stk, g) \<Rightarrow>
     (case warn_isa what (lacks (v_opts v)) v of
        None \<Rightarrow> Set_stopped
      | Some v' \<Rightarrow> Set_returns (change_opts f (v', stk, g))))"

text \<open>\<open>start_noreorder\<close> and \<open>end_noreorder\<close> on these variables.\<close>

definition begin_noreorder :: "append_env \<Rightarrow> gas_statics \<times> gas_state \<Rightarrow> (gas_statics \<times> gas_state) option" where
  "begin_noreorder aenv vg = (case vg of (v, g) \<Rightarrow>
     map_option (\<lambda>(p, g'). (v\<lparr>v_opts := p, v_any_noreorder := True\<rparr>, g')) (start_noreorder (v_opts v) aenv g))"

definition finish_noreorder :: "gas_statics \<times> gas_state \<Rightarrow> gas_statics \<times> gas_state" where
  "finish_noreorder vg = (case vg of (v, g) \<Rightarrow>
     case end_noreorder (v_opts v) g of (p, g') \<Rightarrow> (v\<lparr>v_opts := p\<rparr>, g'))"

text \<open>\<open>.set mipsN\<close> and \<open>.set arch=name\<close>: the ISA and the processor, then the sizes that go with the ISA.\<close>

definition select_isa :: "opt_env \<Rightarrow> cstring \<Rightarrow> gas_statics \<Rightarrow> gas_statics" where
  "select_isa env name v =
     (if name = ''mips0'' \<or> name = ''arch=default'' then
        update_opts (\<lambda>p. p\<lparr>o_isa := v_isa v, o_arch := v_arch v\<rparr>) v
      else if strncmp_eq name ''arch='' 5 then
        (case parse_cpu env ''internal use'' (drop 5 name) v of
           (None, v') \<Rightarrow> report [As_bad (Unknown_architecture (drop 5 name))] v'
         | (Some i, v') \<Rightarrow> update_opts (\<lambda>p. p\<lparr>o_arch := ci_cpu i, o_isa := ci_isa i\<rparr>) v')
      else
        (case parse_cpu env ''internal use'' name v of
           (None, v') \<Rightarrow> report [As_bad (Unknown_isa_level (drop 4 name))] v'
         | (Some i, v') \<Rightarrow> update_opts (\<lambda>p. p\<lparr>o_arch := ci_cpu i, o_isa := ci_isa i\<rparr>) v'))"

definition size_for_isa :: "cstring \<Rightarrow> gas_statics \<Rightarrow> gas_statics" where
  "size_for_isa name v = (let isa = o_isa (v_opts v) in
     if isa = 0 then v
     else if isa \<in> {ISA_MIPS1, ISA_MIPS2, ISA_MIPS32, ISA_MIPS32R2, ISA_RIGEL32} then
       update_opts (\<lambda>p. p\<lparr>o_gp32 := 1, o_fp32 := 1\<rparr>) v
     else if isa \<in> {ISA_MIPS3, ISA_MIPS4, ISA_MIPS5, ISA_MIPS64, ISA_MIPS64R2} then
       update_opts (\<lambda>p. p\<lparr>o_gp32 := 0, o_fp32 := 0\<rparr>) v
     else report [As_bad (Unknown_isa_level (drop 4 name))] v)"

definition set_isa :: "opt_env \<Rightarrow> cstring \<Rightarrow> gas_statics \<Rightarrow> gas_statics" where
  "set_isa env name v =
     (let v' = size_for_isa name (select_isa env name v) in
      if name = ''mips0'' \<or> name = ''arch=default''
      then update_opts (\<lambda>p. p\<lparr>o_gp32 := v_gp32 v', o_fp32 := v_fp32 v'\<rparr>) v' else v')"

text \<open>\<open>.set pop\<close>: the delay slots are handled when the reorder mode changes, then the saved options come back.\<close>

definition pop_options :: "append_env \<Rightarrow> set_vars \<Rightarrow> set_outcome" where
  "pop_options aenv s = (case s of
     (v, [], g) \<Rightarrow> Set_returns (report [As_bad Pop_without_push] v, [], g)
   | (v, saved # stk, g) \<Rightarrow>
       (case (if o_noreorder saved \<noteq> 0 \<and> o_noreorder (v_opts v) = 0 then begin_noreorder aenv (v, g)
              else if o_noreorder saved = 0 \<and> o_noreorder (v_opts v) \<noteq> 0 then Some (finish_noreorder (v, g))
              else Some (v, g)) of
          None \<Rightarrow> Set_stopped
        | Some vg \<Rightarrow> (case set_opts saved vg of (v', g') \<Rightarrow> Set_returns (v', stk, g'))))"

fun set_effect :: "opt_env \<Rightarrow> append_env \<Rightarrow> cstring \<Rightarrow> set_directive \<Rightarrow> set_vars \<Rightarrow> set_outcome" where
  "set_effect env aenv name (Plain c) s = Set_returns (change_opts (plain_effect c) s)"
| "set_effect env aenv name Reorder (v, stk, g) =
     (case (if o_noreorder (v_opts v) \<noteq> 0 then finish_noreorder (v, g) else (v, g)) of (v', g') \<Rightarrow> Set_returns (v', stk, g'))"
| "set_effect env aenv name Noreorder (v, stk, g) =
     (if o_noreorder (v_opts v) = 0 then
        (case begin_noreorder aenv (v, g) of None \<Rightarrow> Set_stopped | Some (v', g') \<Rightarrow> Set_returns (v', stk, g'))
      else Set_returns (v, stk, g))"
| "set_effect env aenv name Nomacro (v, stk, g) =
     Set_returns (change_opts (\<lambda>p. p\<lparr>o_warn_about_macros := 1\<rparr>)
       (if o_noreorder (v_opts v) = 0 then report [As_bad Noreorder_before_nomacro] v else v, stk, g))"
| "set_effect env aenv name Gp_default (v, stk, g) = Set_returns (change_opts (\<lambda>p. p\<lparr>o_gp32 := v_gp32 v\<rparr>) (v, stk, g))"
| "set_effect env aenv name Gp64 s = warned ''64-bit registers'' (\<lambda>p. \<not> ISA_HAS_64BIT_REGS (o_isa p)) (\<lambda>p. p\<lparr>o_gp32 := 0\<rparr>) s"
| "set_effect env aenv name Fp_default (v, stk, g) = Set_returns (change_opts (\<lambda>p. p\<lparr>o_fp32 := v_fp32 v\<rparr>) (v, stk, g))"
| "set_effect env aenv name Fp64 s =
     warned ''64-bit floating point registers'' (\<lambda>p. \<not> ISA_HAS_64BIT_FPRS (o_isa p)) (\<lambda>p. p\<lparr>o_fp32 := 0\<rparr>) s"
| "set_effect env aenv name (Mips16 b) s = Set_returns (change_opts (\<lambda>p. p\<lparr>o_mips16 := (if b then 1 else 0)\<rparr>) s)"
| "set_effect env aenv name Smartmips s =
     warned ''SmartMIPS ASE'' (\<lambda>p. \<not> ISA_SUPPORTS_SMARTMIPS p) (\<lambda>p. p\<lparr>o_ase_smartmips := 1\<rparr>) s"
| "set_effect env aenv name Dsp s =
     warned ''DSP ASE'' (\<lambda>p. \<not> ISA_SUPPORTS_DSP_ASE p) (\<lambda>p. p\<lparr>o_ase_dsp := 1, o_ase_dspr2 := 0\<rparr>) s"
| "set_effect env aenv name Dspr2 s =
     warned ''DSP R2 ASE'' (\<lambda>p. \<not> ISA_SUPPORTS_DSPR2_ASE p) (\<lambda>p. p\<lparr>o_ase_dspr2 := 1, o_ase_dsp := 1\<rparr>) s"
| "set_effect env aenv name Mt s = warned ''MT ASE'' (\<lambda>p. \<not> ISA_SUPPORTS_MT_ASE p) (\<lambda>p. p\<lparr>o_ase_mt := 1\<rparr>) s"
| "set_effect env aenv name Isa_or_arch (v, stk, g) = Set_returns (set_isa env name v, stk, g)"
| "set_effect env aenv name Push (v, stk, g) = Set_returns (v, v_opts v # stk, g)"
| "set_effect env aenv name Pop s = pop_options aenv s"
| "set_effect env aenv name Generic s = Set_generic s"
| "set_effect env aenv name Unknown (v, stk, g) = Set_returns (report [As_warn (Unrecognized_symbol name)] v, stk, g)"

definition s_mipsset :: "opt_env \<Rightarrow> append_env \<Rightarrow> cstring \<Rightarrow> set_vars \<Rightarrow> set_outcome" where
  "s_mipsset env aenv name s = set_effect env aenv name (parse_set name) s"

section \<open>Lines of directives\<close>

fun run_sets :: "opt_env \<Rightarrow> append_env \<Rightarrow> cstring list \<Rightarrow> set_vars \<Rightarrow> set_outcome" where
  "run_sets env aenv [] s = Set_returns s"
| "run_sets env aenv (d # ds) s =
     (case s_mipsset env aenv d s of Set_returns s' \<Rightarrow> run_sets env aenv ds s' | r \<Rightarrow> r)"

lemma run_sets_append:
  "run_sets env aenv (ds @ es) s = (case run_sets env aenv ds s of Set_returns s' \<Rightarrow> run_sets env aenv es s' | r \<Rightarrow> r)"
  by (induction ds arbitrary: s) (auto split: set_outcome.split)

text \<open>What no directive changes: the options of the file, and what was put out.\<close>

definition same_file :: "gas_statics \<Rightarrow> gas_statics \<Rightarrow> bool" where
  "same_file v v' \<longleftrightarrow> v_isa v' = v_isa v \<and> v_arch v' = v_arch v \<and> v_gp32 v' = v_gp32 v \<and> v_fp32 v' = v_fp32 v \<and> v_abi v' = v_abi v"

definition same_output :: "gas_state \<Rightarrow> gas_state \<Rightarrow> bool" where
  "same_output g g' \<longleftrightarrow> g_store g' = g_store g \<and> g_now g' = g_now g \<and> g_ends g' = g_ends g
     \<and> g_fixes g' = g_fixes g \<and> g_msgs g' = g_msgs g"

lemma same_simps [simp]:
  "same_file v v" "same_output g g" "same_file v (report ms v)" "same_file v (v\<lparr>v_opts := p\<rparr>)"
  "same_file v (update_opts f v)" "same_file v (v\<lparr>v_opts := p, v_any_noreorder := b\<rparr>)"
  "same_output g (g\<lparr>g_nop := n\<rparr>)"
  by (simp_all add: same_file_def same_output_def update_opts_def)

lemma same_trans: "same_file u v \<Longrightarrow> same_file v w \<Longrightarrow> same_file u w" "same_output a b \<Longrightarrow> same_output b c \<Longrightarrow> same_output a c"
  by (simp_all add: same_file_def same_output_def)

lemma set_opts_same:
  assumes "set_opts p (v, g) = (v', g')"
  shows "v_opts v' = p" "same_file v v'" "same_output g g'" "quiet_state g \<Longrightarrow> quiet_state g'"
  using assms by (auto simp: set_opts_def Let_def same_file_def same_output_def quiet_state_def)

lemma start_noreorder_quiet:
  assumes "quiet_state g"
  shows "\<exists>g'. start_noreorder p aenv g = Some (p\<lparr>o_noreorder := o_noreorder p + 1\<rparr>, g') \<and> same_output g g' \<and> quiet_state g'"
proof -
  have q: "quiet_state (g\<lparr>g_history := map (\<lambda>i. i\<lparr>fixed_p := True\<rparr>) (g_history g)\<rparr>)"
    using assms by (simp add: quiet_state_def)
  then have "nops_for_insn p (a_fix aenv) (map (\<lambda>i. i\<lparr>fixed_p := True\<rparr>) (g_history g)) None = Some 0"
    by (intro no_hazard_nops_for_insn) (simp_all add: quiet_state_def MAX_NOPS_def)
  then show ?thesis
    using q assms by (auto simp: start_noreorder_def Let_def mips_clear_insn_labels_def mips16_mark_labels_def same_output_def quiet_state_def)
qed

lemma end_noreorder_quiet:
  "quiet_state g \<Longrightarrow> end_noreorder p g = (p\<lparr>o_noreorder := o_noreorder p - 1\<rparr>, g)"
  by (simp add: end_noreorder_def Let_def quiet_state_def)

lemma begin_noreorder_quiet:
  assumes "quiet_state g"
  shows "\<exists>v' g'. begin_noreorder aenv (v, g) = Some (v', g') \<and> v_opts v' = (v_opts v)\<lparr>o_noreorder := o_noreorder (v_opts v) + 1\<rparr>
    \<and> same_file v v' \<and> same_output g g' \<and> quiet_state g'"
  using start_noreorder_quiet [OF assms, of "v_opts v" aenv] by (auto simp: begin_noreorder_def)

lemma finish_noreorder_quiet:
  assumes "quiet_state g"
  shows "\<exists>v'. finish_noreorder (v, g) = (v', g) \<and> v_opts v' = (v_opts v)\<lparr>o_noreorder := o_noreorder (v_opts v) - 1\<rparr> \<and> same_file v v'"
  using end_noreorder_quiet [OF assms] by (simp add: finish_noreorder_def)

lemma either_noreorder_quiet:
  assumes q: "quiet_state g"
  shows "\<exists>v1 g1. (if a then begin_noreorder aenv (v, g) else if b then Some (finish_noreorder (v, g)) else Some (v, g))
    = Some (v1, g1) \<and> same_file v v1 \<and> same_output g g1 \<and> quiet_state g1"
proof (cases a)
  case True
  with begin_noreorder_quiet [OF q, of aenv v] show ?thesis by (simp only: if_True) blast
next
  case False
  show ?thesis
  proof (cases b)
    case True
    with False finish_noreorder_quiet [OF q, of v] q same_simps(2) [of g] show ?thesis by (simp only: if_True if_False) metis
  qed (use False q in simp)
qed

lemma warn_isa_total:
  "o_isa (v_opts v) \<in> set known_isas \<Longrightarrow> \<exists>ms. warn_isa what b v = Some (report ms v)"
proof -
  assume "o_isa (v_opts v) \<in> set known_isas"
  then obtain p where "mips_cpu_info_from_isa (o_isa (v_opts v)) = Some p" using known_isas_named by blast
  then have "warn_isa what b v = Some (report (if b then [As_warn (Isa_lacks (ci_name p) what)] else []) v)"
    by (simp add: warn_isa_def)
  then show ?thesis by blast
qed

section \<open>An invariant of the options\<close>

text \<open>The interface between a condition on the options and the directives: which directives are allowed, what the
  condition may look at, and that the allowed directives that change the ISA, the processor or the mode keep it.\<close>

locale set_invariant =
  fixes P :: "mips_set_options \<Rightarrow> bool" and F :: "gas_statics \<Rightarrow> bool" and A :: "cstring \<Rightarrow> bool" and env :: opt_env
  assumes known: "P p \<Longrightarrow> o_isa p \<in> set known_isas"
    and unseen: "P p \<Longrightarrow> o_isa q = o_isa p \<Longrightarrow> o_arch q = o_arch p \<Longrightarrow> o_mips16 q = o_mips16 p \<Longrightarrow> P q"
    and frame: "F v \<Longrightarrow> same_file v v' \<Longrightarrow> F v'"
    and isa: "A name \<Longrightarrow> parse_set name = Isa_or_arch \<Longrightarrow> F v \<Longrightarrow> P (v_opts v) \<Longrightarrow> P (v_opts (set_isa env name v))"
    and mode: "A name \<Longrightarrow> parse_set name = Mips16 b \<Longrightarrow> P p \<Longrightarrow> P (p\<lparr>o_mips16 := (if b then 1 else 0)\<rparr>)"
    and generic: "A name \<Longrightarrow> parse_set name \<noteq> Generic"
begin

definition ready :: "set_vars \<Rightarrow> bool" where
  "ready s \<longleftrightarrow> (case s of (v, stk, g) \<Rightarrow> F v \<and> P (v_opts v) \<and> list_all P stk \<and> quiet_state g)"

text \<open>An outcome that returns, is ready, and kept the file and the output.\<close>

definition goes_on :: "set_vars \<Rightarrow> set_outcome \<Rightarrow> bool" where
  "goes_on s r \<longleftrightarrow> (\<exists>v' stk' g'. r = Set_returns (v', stk', g') \<and> ready (v', stk', g')
     \<and> same_file (fst s) v' \<and> same_output (snd (snd s)) g')"

lemma goes_onI:
  "ready (v', stk', g') \<Longrightarrow> same_file v v' \<Longrightarrow> same_output g g' \<Longrightarrow> goes_on (v, stk, g) (Set_returns (v', stk', g'))"
  by (simp add: goes_on_def)

lemma change_opts_goes_on:
  assumes r: "ready (v, stk, g)" and p: "P (f (v_opts u))" and u: "same_file v u"
  shows "goes_on (v, stk, g) (Set_returns (change_opts f (u, stk, g)))"
proof -
  obtain v' g' where s: "set_opts (f (v_opts u)) (u, g) = (v', g')" by fastforce
  note f = set_opts_same [OF s]
  have same: "same_file v v'" using u f(2) by (rule same_trans)
  have "F v" using r by (simp add: ready_def)
  then have "F v'" using same by (rule frame)
  with r p f have "ready (v', stk, g')" by (simp add: ready_def)
  moreover have "change_opts f (u, stk, g) = (v', stk, g')" by (simp add: change_opts_def s)
  ultimately show ?thesis using same f(3) by (simp add: goes_onI)
qed

lemma warned_goes_on:
  assumes r: "ready (v, stk, g)" and p: "P (f (v_opts v))"
  shows "goes_on (v, stk, g) (warned what lacks f (v, stk, g))"
proof -
  have "o_isa (v_opts v) \<in> set known_isas" using r known by (simp add: ready_def)
  then obtain ms where "warn_isa what (lacks (v_opts v)) v = Some (report ms v)"
    using warn_isa_total by blast
  then have "warned what lacks f (v, stk, g) = Set_returns (change_opts f (report ms v, stk, g))" by (simp add: warned_def)
  then show ?thesis using change_opts_goes_on [OF r, of f "report ms v"] p by simp
qed

lemma pop_goes_on:
  assumes "ready (v, stk, g)"
  shows "goes_on (v, stk, g) (pop_options aenv (v, stk, g))"
proof (cases stk)
  case Nil
  then show ?thesis using assms frame [of v "report [As_bad Pop_without_push] v"] by (simp add: pop_options_def goes_onI ready_def)
next
  case (Cons saved rest)
  have q: "quiet_state g" and F: "F v" and saved: "P saved" "list_all P rest" using assms Cons by (simp_all add: ready_def)
  obtain v1 g1 where 1: "(if o_noreorder saved \<noteq> 0 \<and> o_noreorder (v_opts v) = 0 then begin_noreorder aenv (v, g)
      else if o_noreorder saved = 0 \<and> o_noreorder (v_opts v) \<noteq> 0 then Some (finish_noreorder (v, g)) else Some (v, g))
      = Some (v1, g1)" "same_file v v1" "same_output g g1" "quiet_state g1"
    using either_noreorder_quiet [OF q] by blast
  obtain v' g' where s: "set_opts saved (v1, g1) = (v', g')" by fastforce
  note f = set_opts_same [OF s]
  have same: "same_file v v'" "same_output g g'" using 1 f same_trans by blast+
  have "pop_options aenv (v, stk, g) = Set_returns (v', rest, g')"
    by (simp only: pop_options_def Cons prod.case list.case 1(1) option.case s)
  moreover have "ready (v', rest, g')" using saved f 1(4) frame [OF F same(1)] by (simp add: ready_def)
  ultimately show ?thesis using same by (simp add: goes_on_def)
qed

lemma noreorder_goes_on:
  assumes r: "ready (v, stk, g)"
  shows "goes_on (v, stk, g) (set_effect env aenv name Noreorder (v, stk, g))"
    and "goes_on (v, stk, g) (set_effect env aenv name Reorder (v, stk, g))"
proof -
  have q: "quiet_state g" and F: "F v" and P: "P (v_opts v)" and stk: "list_all P stk" using r by (simp_all add: ready_def)
  obtain v' g' where b: "begin_noreorder aenv (v, g) = Some (v', g')" and o: "v_opts v' = (v_opts v)\<lparr>o_noreorder := o_noreorder (v_opts v) + 1\<rparr>"
      and s: "same_file v v'" "same_output g g'" "quiet_state g'"
    using begin_noreorder_quiet [OF q] by blast
  have "P (v_opts v')" by (rule unseen [OF P]) (simp_all add: o)
  then have "ready (v', stk, g')" using frame [OF F s(1)] s(3) stk by (simp add: ready_def)
  then show "goes_on (v, stk, g) (set_effect env aenv name Noreorder (v, stk, g))"
    using r s by (simp add: b goes_onI)
  obtain w where e: "finish_noreorder (v, g) = (w, g)" and o: "v_opts w = (v_opts v)\<lparr>o_noreorder := o_noreorder (v_opts v) - 1\<rparr>"
      and s: "same_file v w"
    using finish_noreorder_quiet [OF q] by blast
  have "P (v_opts w)" by (rule unseen [OF P]) (simp_all add: o)
  then have "ready (w, stk, g)" using frame [OF F s] q stk by (simp add: ready_def)
  then show "goes_on (v, stk, g) (set_effect env aenv name Reorder (v, stk, g))"
    using r s by (simp add: e goes_onI)
qed

lemma plain_unseen: "P p \<Longrightarrow> P (plain_effect c p)"
  by (cases c) (simp_all, (rule unseen [of p]; simp)+)

lemma set_isa_same: "same_file v (set_isa env name v)"
proof -
  have sel: "same_file v (select_isa env name v)"
    using parse_cpu_says [of env "''internal use''" "drop 5 name" v] parse_cpu_says [of env "''internal use''" name v]
    by (auto simp: select_isa_def same_file_def update_opts_def split: prod.split option.split)
  have size: "same_file w (size_for_isa name w)" for w
    by (simp add: size_for_isa_def Let_def)
  have "same_file v (size_for_isa name (select_isa env name v))" using sel size by (rule same_trans)
  then show ?thesis by (simp add: set_isa_def Let_def same_file_def update_opts_def)
qed

lemma directive_goes_on:
  assumes r: "ready (v, stk, g)" and a: "A name"
  shows "goes_on (v, stk, g) (s_mipsset env aenv name (v, stk, g))"
proof -
  have P: "P (v_opts v)" and F: "F v" using r by (simp_all add: ready_def)
  have f: "P (f (v_opts v))"
    if "o_isa (f (v_opts v)) = o_isa (v_opts v)" "o_arch (f (v_opts v)) = o_arch (v_opts v)"
      "o_mips16 (f (v_opts v)) = o_mips16 (v_opts v)" for f
    using that by (rule unseen [OF P])
  have c: "goes_on (v, stk, g) (Set_returns (change_opts f (v, stk, g)))"
    if "o_isa (f (v_opts v)) = o_isa (v_opts v)" "o_arch (f (v_opts v)) = o_arch (v_opts v)"
      "o_mips16 (f (v_opts v)) = o_mips16 (v_opts v)" for f
    using change_opts_goes_on [where f = f and u = v, OF r f [of f, OF that]] by simp
  have w: "goes_on (v, stk, g) (warned what lacks f (v, stk, g))"
    if "o_isa (f (v_opts v)) = o_isa (v_opts v)" "o_arch (f (v_opts v)) = o_arch (v_opts v)"
      "o_mips16 (f (v_opts v)) = o_mips16 (v_opts v)" for what lacks f
    using warned_goes_on [where f = f, OF r f [of f, OF that]] .
  show ?thesis
  proof (cases "parse_set name")
    case (Plain d)
    then show ?thesis using change_opts_goes_on [OF r, of "plain_effect d" v] plain_unseen [OF P] by (simp add: s_mipsset_def)
  next
    case Nomacro
    then show ?thesis
      using change_opts_goes_on [OF r, of "\<lambda>p. p\<lparr>o_warn_about_macros := 1\<rparr>"] f [of "\<lambda>p. p\<lparr>o_warn_about_macros := 1\<rparr>"]
      by (simp add: s_mipsset_def)
  next
    case (Mips16 b)
    with mode [OF a this P] show ?thesis
      using change_opts_goes_on [OF r, of "\<lambda>p. p\<lparr>o_mips16 := (if b then 1 else 0)\<rparr>" v] by (simp add: s_mipsset_def)
  next
    case Isa_or_arch
    have "ready (set_isa env name v, stk, g)"
      using r isa [OF a Isa_or_arch F P] frame [OF F set_isa_same] by (simp add: ready_def)
    with Isa_or_arch show ?thesis by (simp add: s_mipsset_def goes_onI set_isa_same)
  next
    case Push
    with r P show ?thesis by (simp add: s_mipsset_def goes_onI ready_def)
  next
    case Pop
    with pop_goes_on [OF r] show ?thesis by (simp add: s_mipsset_def)
  next
    case Generic
    with generic [OF a] show ?thesis by simp
  next
    case Unknown
    have "F (report [As_warn (Unrecognized_symbol name)] v)" using F by (rule frame) simp
    with Unknown r show ?thesis by (simp add: s_mipsset_def goes_onI ready_def)
  qed (use noreorder_goes_on [OF r] in \<open>simp_all add: s_mipsset_def c w\<close>)
qed

lemma run_goes_on:
  "ready (v, stk, g) \<Longrightarrow> list_all A ds \<Longrightarrow> goes_on (v, stk, g) (run_sets env aenv ds (v, stk, g))"
proof (induction ds arbitrary: v stk g)
  case Nil
  then show ?case by (simp add: goes_onI)
next
  case (Cons d ds)
  then obtain v1 stk1 g1 where 1: "s_mipsset env aenv d (v, stk, g) = Set_returns (v1, stk1, g1)" "ready (v1, stk1, g1)"
      "same_file v v1" "same_output g g1"
    using directive_goes_on [OF Cons.prems(1), of d aenv] by (auto simp: goes_on_def)
  from Cons.IH [OF 1(2)] Cons.prems(2) obtain v2 stk2 g2 where
    2: "run_sets env aenv ds (v1, stk1, g1) = Set_returns (v2, stk2, g2)" "ready (v2, stk2, g2)" "same_file v1 v2" "same_output g1 g2"
    by (auto simp: goes_on_def)
  have "same_file v v2" "same_output g g2" using 1(3,4) 2(3,4) same_trans by blast+
  with 1(1) 2 show ?case by (simp add: goes_onI)
qed

end

section \<open>Two invariants\<close>

lemma size_for_isa_keeps [simp]:
  "o_isa (v_opts (size_for_isa name v)) = o_isa (v_opts v)" "o_arch (v_opts (size_for_isa name v)) = o_arch (v_opts v)"
  "o_mips16 (v_opts (size_for_isa name v)) = o_mips16 (v_opts v)"
  by (simp_all add: size_for_isa_def Let_def update_opts_def)

lemma set_isa_selects:
  "o_isa (v_opts (set_isa env name v)) = o_isa (v_opts (select_isa env name v))"
  "o_arch (v_opts (set_isa env name v)) = o_arch (v_opts (select_isa env name v))"
  "o_mips16 (v_opts (set_isa env name v)) = o_mips16 (v_opts (select_isa env name v))"
  by (simp_all add: set_isa_def Let_def update_opts_def)

text \<open>The ISA level always has a name, whatever the directives.\<close>

definition isa_known :: "mips_set_options \<Rightarrow> bool" where
  "isa_known p \<longleftrightarrow> o_isa p \<in> set known_isas"

definition not_generic :: "cstring \<Rightarrow> bool" where
  "not_generic name \<longleftrightarrow> parse_set name \<noteq> Generic"

lemma internal_cpu:
  "parse_cpu env s name v = (p, w) \<Longrightarrow> (p = None \<longrightarrow> v_opts w = v_opts v) \<and> (\<forall>i. p = Some i \<longrightarrow> ci_isa i \<in> set known_isas)
    \<and> v_opts w = v_opts v"
  using parse_cpu_says [of env s name v p w] table_isas by auto

lemma select_isa_known:
  assumes "v_isa v \<in> set known_isas" "isa_known (v_opts v)"
  shows "isa_known (v_opts (select_isa env name v))"
proof -
  obtain p w where 1: "parse_cpu env ''internal use'' (drop 5 name) v = (p, w)" by fastforce
  obtain q x where 2: "parse_cpu env ''internal use'' name v = (q, x)" by fastforce
  show ?thesis
    using internal_cpu [OF 1] internal_cpu [OF 2] assms
    by (cases p; cases q) (simp_all add: select_isa_def 1 2 isa_known_def update_opts_def)
qed

interpretation known_sets: set_invariant isa_known "\<lambda>v. v_isa v \<in> set known_isas" not_generic env for env
proof
  show "isa_known (v_opts v) \<Longrightarrow> v_isa v \<in> set known_isas \<Longrightarrow> isa_known (v_opts (set_isa env name v))" for v name
    using select_isa_known by (simp add: isa_known_def set_isa_selects)
qed (simp_all add: isa_known_def not_generic_def same_file_def)

text \<open>The options stay those of Rigel code under every directive that does not ask for another ISA or for mips16.\<close>

definition rigel_set :: "cstring \<Rightarrow> bool" where
  "rigel_set name \<longleftrightarrow> parse_set name \<noteq> Generic \<and> parse_set name \<noteq> Mips16 True
     \<and> (parse_set name = Isa_or_arch \<longrightarrow> name = ''mips0'' \<or> name = ''arch=default''
          \<or> map tolower name = ''mipsrigel32'' \<or> take 5 name = ''arch='' \<and> map tolower (drop 5 name) = ''mipsrigel32'')"

lemma rigel_cpu_parsed: "map tolower s = ''mipsrigel32'' \<Longrightarrow> parse_cpu env opt s v = (Some rigel_cpu, v)"
proof -
  assume s: "map tolower s = ''mipsrigel32''"
  have r: "rigel_cpu \<in> set mips_cpu_info_table" "ci_name rigel_cpu = ''mipsrigel32''"
    by (simp_all add: rigel_cpu_def mips_cpu_info_table_def mips_cpu_entry_def)
  show ?thesis using parse_cpu_name [OF r(1)] s r(2) by (simp add: parse_cpu_def)
qed

lemma rigel_select_isa:
  assumes "rigel_set name" "parse_set name = Isa_or_arch" "v_isa v = ISA_RIGEL32" "v_arch v = CPU_RIGEL32" "rigel_opts (v_opts v)"
  shows "rigel_opts (v_opts (select_isa env name v)) \<and> v_diags (select_isa env name v) = v_diags v
    \<and> o_noreorder (v_opts (select_isa env name v)) = o_noreorder (v_opts v)"
proof -
  consider "name = ''mips0'' \<or> name = ''arch=default''"
    | "name \<noteq> ''mips0''" "name \<noteq> ''arch=default''" "map tolower name = ''mipsrigel32''"
    | "name \<noteq> ''mips0''" "name \<noteq> ''arch=default''" "take 5 name = ''arch=''" "map tolower (drop 5 name) = ''mipsrigel32''"
    using assms(1,2) unfolding rigel_set_def by blast
  then show ?thesis
  proof cases
    case 1
    then show ?thesis using assms by (simp add: select_isa_def update_opts_def rigel_opts_def)
  next
    case 2
    have "take 5 name \<noteq> ''arch=''"
    proof
      assume "take 5 name = ''arch=''"
      then have "map tolower ''arch='' = take 5 ''mipsrigel32''" using 2(3) by (metis take_map)
      then show False by (simp add: tolower_def char_code_def)
    qed
    with 2 show ?thesis using assms rigel_cpu_parsed [of name]
      by (simp add: select_isa_def update_opts_def rigel_opts_def strncmp_eq_def)
  next
    case 3
    then show ?thesis using assms rigel_cpu_parsed [of "drop 5 name"]
      by (simp add: select_isa_def update_opts_def rigel_opts_def strncmp_eq_def)
  qed
qed

interpretation rigel_sets: set_invariant rigel_opts "\<lambda>v. v_isa v = ISA_RIGEL32 \<and> v_arch v = CPU_RIGEL32" rigel_set env for env
proof
  show "rigel_opts p \<Longrightarrow> o_isa p \<in> set known_isas" for p by (simp add: rigel_opts_def isas_known)
  show "rigel_set name \<Longrightarrow> parse_set name = Isa_or_arch \<Longrightarrow> v_isa v = ISA_RIGEL32 \<and> v_arch v = CPU_RIGEL32 \<Longrightarrow>
      rigel_opts (v_opts v) \<Longrightarrow> rigel_opts (v_opts (set_isa env name v))" for name v
    using rigel_select_isa by (simp add: rigel_opts_def set_isa_selects)
  show "rigel_set name \<Longrightarrow> parse_set name = Mips16 b \<Longrightarrow> rigel_opts p \<Longrightarrow> rigel_opts (p\<lparr>o_mips16 := (if b then 1 else 0)\<rparr>)" for name b p
    by (cases b) (simp_all add: rigel_opts_def rigel_set_def)
qed (simp_all add: rigel_opts_def rigel_set_def same_file_def)

section \<open>Directives without a message\<close>

lemma change_opts_facts:
  "change_opts f (v, stk, g) = (v', stk', g') \<Longrightarrow> v_diags v' = v_diags v \<and> v_opts v' = f (v_opts v) \<and> stk' = stk"
  by (auto simp: change_opts_def set_opts_def Let_def)

lemma plain_noreorder [simp]: "o_noreorder (plain_effect c p) = o_noreorder p"
  by (cases c) simp_all

lemma begin_noreorder_facts:
  "begin_noreorder aenv (v, g) = Some (v', g') \<Longrightarrow> v_diags v' = v_diags v \<and> o_noreorder (v_opts v') = o_noreorder (v_opts v) + 1"
  by (auto simp: begin_noreorder_def start_noreorder_def Let_def split: option.splits)

lemma finish_noreorder_facts: "finish_noreorder (v, g) = (v', g') \<Longrightarrow> v_diags v' = v_diags v"
  by (auto simp: finish_noreorder_def split: prod.splits)

lemma pop_facts:
  "pop_options aenv (v, saved # stk, g) = Set_returns (v', stk', g') \<Longrightarrow> v_diags v' = v_diags v \<and> stk' = stk \<and> v_opts v' = saved"
  by (auto simp: pop_options_def set_opts_def Let_def split: if_splits option.splits prod.splits
      dest: begin_noreorder_facts finish_noreorder_facts)

lemma rigel_isa_quiet:
  assumes "rigel_set name" "parse_set name = Isa_or_arch" "v_isa v = ISA_RIGEL32" "v_arch v = CPU_RIGEL32" "rigel_opts (v_opts v)"
  shows "v_diags (set_isa env name v) = v_diags v \<and> o_noreorder (v_opts (set_isa env name v)) = o_noreorder (v_opts v)"
proof -
  define w where "w = select_isa env name v"
  have "o_isa (v_opts w) = ISA_RIGEL32" "v_diags w = v_diags v" "o_noreorder (v_opts w) = o_noreorder (v_opts v)"
    using rigel_select_isa [OF assms, of env] by (simp_all add: w_def rigel_opts_def)
  then show ?thesis by (simp add: set_isa_def w_def [symmetric] size_for_isa_def Let_def update_opts_def)
qed

text \<open>What is known of the reorder mode and of the saved ones: whether \<open>noreorder\<close> is certainly in force.\<close>

fun mode_after :: "set_directive \<Rightarrow> bool \<times> bool list \<Rightarrow> (bool \<times> bool list) option" where
  "mode_after Push (b, bs) = Some (b, b # bs)"
| "mode_after Pop (b, bs) = (case bs of [] \<Rightarrow> None | c # cs \<Rightarrow> Some (c, cs))"
| "mode_after Noreorder (b, bs) = Some (True, bs)"
| "mode_after Reorder (b, bs) = Some (False, bs)"
| "mode_after Nomacro (b, bs) = (if b then Some (b, bs) else None)"
| "mode_after (Plain c) m = Some m"
| "mode_after Gp_default m = Some m"
| "mode_after Fp_default m = Some m"
| "mode_after (Mips16 b) m = Some m"
| "mode_after Isa_or_arch m = Some m"
| "mode_after d m = None"

definition mode_known :: "bool \<times> bool list \<Rightarrow> mips_set_options \<Rightarrow> mips_set_options list \<Rightarrow> bool" where
  "mode_known m p stk \<longleftrightarrow> (fst m \<longrightarrow> o_noreorder p \<noteq> 0) \<and> list_all2 (\<lambda>c q. c \<longrightarrow> o_noreorder q \<noteq> 0) (snd m) stk"

lemma directive_quiet:
  assumes "s_mipsset env aenv name (v, stk, g) = Set_returns (v', stk', g')" "rigel_set name"
    and "v_isa v = ISA_RIGEL32" "v_arch v = CPU_RIGEL32" "rigel_opts (v_opts v)"
    and "mode_after (parse_set name) m = Some m'" "mode_known m (v_opts v) stk"
  shows "v_diags v' = v_diags v \<and> mode_known m' (v_opts v') stk'"
proof -
  obtain b bs where m: "m = (b, bs)" by fastforce
  have k: "b \<Longrightarrow> o_noreorder (v_opts v) \<noteq> 0" "list_all2 (\<lambda>c q. c \<longrightarrow> o_noreorder q \<noteq> 0) bs stk"
    using assms(7) by (auto simp: mode_known_def m)
  note s = assms(1) [unfolded s_mipsset_def]
  show ?thesis
  proof (cases "parse_set name")
    case Pop
    then obtain c cs where bs: "bs = c # cs" "m' = (c, cs)" using assms(6) by (auto simp: m split: list.splits)
    then obtain saved rest where stk: "stk = saved # rest" "c \<longrightarrow> o_noreorder saved \<noteq> 0"
        "list_all2 (\<lambda>c q. c \<longrightarrow> o_noreorder q \<noteq> 0) cs rest"
      using k(2) by (auto simp: list_all2_Cons1)
    have "pop_options aenv (v, saved # rest, g) = Set_returns (v', stk', g')" using s Pop stk(1) by simp
    from pop_facts [OF this] show ?thesis using stk(2,3) bs(2) by (simp add: mode_known_def)
  next
    case Noreorder
    then show ?thesis
      using s assms(6) k
      by (auto simp: m mode_known_def split: if_splits option.splits dest: begin_noreorder_facts)
  next
    case Reorder
    then show ?thesis
      using s assms(6) k by (auto simp: m mode_known_def split: if_splits prod.splits dest: finish_noreorder_facts)
  next
    case Isa_or_arch
    then show ?thesis
      using s assms(6) k rigel_isa_quiet [OF assms(2) Isa_or_arch assms(3-5), of env] by (auto simp: m mode_known_def)
  next
    case Nomacro
    then show ?thesis
      using s assms(6) k by (auto simp: m mode_known_def split: if_splits dest!: change_opts_facts)
  qed (use s assms(6) k in \<open>auto simp: m mode_known_def dest!: change_opts_facts\<close>)
qed

section \<open>Blocks of push and pop\<close>

inductive balanced :: "cstring list \<Rightarrow> bool" where
  none: "balanced []"
| other: "parse_set d \<noteq> Push \<Longrightarrow> parse_set d \<noteq> Pop \<Longrightarrow> balanced ds \<Longrightarrow> balanced (d # ds)"
| block: "parse_set p = Push \<Longrightarrow> parse_set q = Pop \<Longrightarrow> balanced ds \<Longrightarrow> balanced es \<Longrightarrow> balanced (p # ds @ q # es)"

lemma change_opts_stack: "change_opts f (v, stk, g) = (v', stk', g') \<Longrightarrow> stk' = stk"
  by (auto simp: change_opts_def split: prod.splits)

lemma warned_stack: "warned what lacks f (v, stk, g) = Set_returns (v', stk', g') \<Longrightarrow> stk' = stk"
  by (auto simp: warned_def split: option.splits dest: change_opts_stack)

lemma directive_stack:
  assumes "s_mipsset env aenv d (v, stk, g) = Set_returns (v', stk', g')" "parse_set d \<noteq> Push" "parse_set d \<noteq> Pop"
  shows "stk' = stk"
  using assms
  by (cases "parse_set d")
    (auto simp: s_mipsset_def split: option.splits prod.splits if_splits dest: change_opts_stack warned_stack)

lemma pop_restores:
  "pop_options aenv (v, saved # stk, g) = Set_returns (v', stk', g') \<Longrightarrow> stk' = stk \<and> v_opts v' = saved"
  by (simp only: pop_options_def prod.case list.case split: option.splits prod.splits) (auto dest: set_opts_same(1))

lemma balanced_stack:
  "balanced ds \<Longrightarrow> run_sets env aenv ds (v, stk, g) = Set_returns (v', stk', g') \<Longrightarrow> stk' = stk"
proof (induction ds arbitrary: v stk g v' stk' g' rule: balanced.induct)
  case none
  then show ?case by simp
next
  case (other d ds)
  then obtain v1 stk1 g1 where "s_mipsset env aenv d (v, stk, g) = Set_returns (v1, stk1, g1)"
      "run_sets env aenv ds (v1, stk1, g1) = Set_returns (v', stk', g')"
    by (auto split: set_outcome.splits)
  with other show ?case using directive_stack by metis
next
  case (block p q ds es)
  then obtain v1 stk1 g1 where 1: "run_sets env aenv ds (v, v_opts v # stk, g) = Set_returns (v1, stk1, g1)"
      "run_sets env aenv (q # es) (v1, stk1, g1) = Set_returns (v', stk', g')"
    by (auto simp: s_mipsset_def run_sets_append split: set_outcome.splits)
  from block.IH(1) [OF 1(1)] have "stk1 = v_opts v # stk" .
  with 1(2) block(2) obtain v2 stk2 g2 where "pop_options aenv (v1, v_opts v # stk, g1) = Set_returns (v2, stk2, g2)"
      "run_sets env aenv es (v2, stk2, g2) = Set_returns (v', stk', g')"
    by (auto simp: s_mipsset_def split: set_outcome.splits)
  with block.IH(2) pop_restores show ?case by metis
qed

lemma block_restores:
  assumes "balanced ds" "parse_set p = Push" "parse_set q = Pop"
    and "run_sets env aenv (p # ds @ [q]) (v, stk, g) = Set_returns (v', stk', g')"
  shows "stk' = stk \<and> v_opts v' = v_opts v"
proof -
  obtain v1 stk1 g1 where 1: "run_sets env aenv ds (v, v_opts v # stk, g) = Set_returns (v1, stk1, g1)"
      "run_sets env aenv [q] (v1, stk1, g1) = Set_returns (v', stk', g')"
    using assms by (auto simp: s_mipsset_def run_sets_append split: set_outcome.splits)
  from balanced_stack [OF assms(1) 1(1)] have "stk1 = v_opts v # stk" .
  with 1(2) assms(3) have "pop_options aenv (v1, v_opts v # stk, g1) = Set_returns (v', stk', g')"
    by (auto simp: s_mipsset_def split: set_outcome.splits)
  then show ?thesis by (rule pop_restores)
qed

section \<open>Properties\<close>

text \<open>C11: \<open>.set push\<close>, any balanced lines of directives and \<open>.set pop\<close> return from every directive without a null
  pointer or a failed assertion, and the options are those before the block: the ISA level, the processor, the reorder
  mode and every other one. The stack and the options of the file are as before too, and nothing is put out, since
  the code so far has no hazards. Only generic directives are excluded.\<close>

theorem push_pop_restores:
  assumes "balanced ds" "list_all not_generic ds" "isa_known (v_opts v)" "v_isa v \<in> set known_isas" "list_all isa_known stk"
    and "quiet_state g"
  shows "\<exists>v' g'. run_sets env aenv (''push'' # ds @ [''pop'']) (v, stk, g) = Set_returns (v', stk, g') \<and> v_opts v' = v_opts v
    \<and> same_file v v' \<and> same_output g g' \<and> quiet_state g'"
proof -
  have n: "parse_set ''push'' = Push" "parse_set ''pop'' = Pop" by (simp_all add: parse_set_def set_names_def)
  have "known_sets.ready (v, stk, g)" using assms by (simp add: known_sets.ready_def)
  moreover have "list_all not_generic (''push'' # ds @ [''pop''])" using assms(2) n by (simp add: not_generic_def)
  ultimately have "known_sets.goes_on (v, stk, g) (run_sets env aenv (''push'' # ds @ [''pop'']) (v, stk, g))"
    by (rule known_sets.run_goes_on)
  then obtain v' stk' g' where r: "run_sets env aenv (''push'' # ds @ [''pop'']) (v, stk, g) = Set_returns (v', stk', g')"
    "known_sets.ready (v', stk', g')" "same_file v v'" "same_output g g'"
    unfolding known_sets.goes_on_def by auto
  with block_restores [OF assms(1) n r(1)] show ?thesis by (auto simp: known_sets.ready_def)
qed

definition set_sample_statics :: gas_statics where
  "set_sample_statics = (initial_statics True (create_insn initial_mips_opts (mips_builtin_opcodes ! 0),
      create_insn initial_mips_opts (mips_builtin_opcodes ! 0)))
     \<lparr>v_opts := initial_mips_opts\<lparr>o_isa := ISA_RIGEL32, o_arch := CPU_RIGEL32, o_mips16 := 0\<rparr>, v_isa := ISA_RIGEL32\<rparr>"

definition set_sample_output :: gas_state where
  "set_sample_output = \<lparr>g_store = \<lparr>fr_literal = [0 \<mapsto> []], fixes_of = Map.empty\<rparr>, g_now = 0, g_ends = Map.empty, g_fixes = [],
     g_history = replicate 5 (create_insn initial_mips_opts (mips_builtin_opcodes ! 0)),
     g_nop = create_insn initial_mips_opts (mips_builtin_opcodes ! 0), g_prev_nop = None, g_gprmask = 0, g_cprmask1 = 0,
     g_labels = [], g_label = (\<lambda>_. \<lparr>lb_frag = 0, lb_value = 0, lb_mips16 = False, lb_preemptible = False\<rparr>),
     g_sequence = 0, g_sizes = (0, 0), g_first_fixup = None, g_relax_symbol = None, g_warn_sizes = (0, 0),
     g_warn_frag = None, g_hi_fixups = [], g_jump16 = [], g_msgs = []\<rparr>"

theorem push_pop_restores_witness:
  "\<forall>env aenv. \<exists>v' g'. run_sets env aenv [''push'', ''noreorder'', ''mips64'', ''pop''] (set_sample_statics, [], set_sample_output)
     = Set_returns (v', [], g') \<and> v_opts v' = v_opts set_sample_statics"
proof (intro allI)
  fix env aenv
  have q: "quiet_state set_sample_output"
    using rigel_no_hazard [OF rigel_nth_mem [of 0]] by (simp add: quiet_state_def set_sample_output_def create_insn_def)
  have p: "parse_set ''noreorder'' = Noreorder" "parse_set ''mips64'' = Isa_or_arch"
    by (simp_all add: parse_set_def set_names_def strncmp_eq_def)
  then have b: "balanced [''noreorder'', ''mips64'']" by (intro balanced.intros) simp_all
  have k: "isa_known (v_opts set_sample_statics)" "v_isa set_sample_statics \<in> set known_isas"
    by (simp_all add: set_sample_statics_def isa_known_def isas_known)
  show "\<exists>v' g'. run_sets env aenv [''push'', ''noreorder'', ''mips64'', ''pop''] (set_sample_statics, [], set_sample_output)
     = Set_returns (v', [], g') \<and> v_opts v' = v_opts set_sample_statics"
    using push_pop_restores [OF b _ k _ q, of "[]" env aenv] p by (auto simp: not_generic_def)
qed

end
