(* ===== verification/Rigel_Source.thy ===== *)
theory Rigel_Source
  imports Gas_Set Rigel_Lines
begin

text \<open>
  Source text of Rigel programs: lines with instructions and \<open>.set\<close> directives in any order, each assembled under the
  options in force at its place, from the command line to the bytes of the section.
\<close>

section \<open>Sources\<close>

datatype source_line = Set_line cstring | Insn_line cstring

type_synonym source_vars = "gas_statics \<times> mips_set_options list \<times> ip_state \<times> gas_state"

text \<open>\<open>mips_opts\<close> is one variable: what a directive changes, the next instruction sees. \<open>None\<close> when a line stops the
  assembler, is refused as an instruction, or is left to a handler that is not modelled; a directive that only reports
  adds its message to \<open>v_diags\<close> and the next line is read, as in the code.\<close>

fun run_source :: "opt_env \<Rightarrow> session \<Rightarrow> source_line list \<Rightarrow> source_vars \<Rightarrow> source_vars option" where
  "run_source env se [] s = Some s"
| "run_source env se (Set_line name # ls) (v, stk, st, g) =
     (case s_mipsset env (s_aenv se) name (v, stk, g) of
        Set_returns (v', stk', g') \<Rightarrow> run_source env se ls (v', stk', st, g')
      | _ \<Rightarrow> None)"
| "run_source env se (Insn_line text # ls) (v, stk, st, g) =
     (case assemble (se\<lparr>s_opts := v_opts v\<rparr>) text st g of
        Asm_ok st' g' \<Rightarrow> run_source env se ls (v, stk, st', g')
      | _ \<Rightarrow> None)"

text \<open>What a source is made of: directives that keep the Rigel options, and instructions with proper operands.\<close>

datatype source_item = Directive cstring | Instruction nat "operand_src list"

fun item_line :: "source_item \<Rightarrow> source_line" where
  "item_line (Directive name) = Set_line name"
| "item_line (Instruction i opds) = Insn_line (line_text i opds)"

fun item_ok :: "session \<Rightarrow> source_item \<Rightarrow> bool" where
  "item_ok se (Directive name) = rigel_set name"
| "item_ok se (Instruction i opds) = good_operands se i opds"

fun item_words :: "session \<Rightarrow> source_item \<Rightarrow> ulong list" where
  "item_words se (Directive name) = []"
| "item_words se (Instruction i opds) = [line_word_of se i opds]"

text \<open>No directive has anything to complain about: a saved state for every \<open>pop\<close>, \<open>noreorder\<close> before \<open>nomacro\<close>, no
  unknown symbol, and none of the 64 bit registers and extensions that a Rigel processor lacks.\<close>

fun sets_accepted :: "bool \<times> bool list \<Rightarrow> source_item list \<Rightarrow> bool" where
  "sets_accepted m [] = True"
| "sets_accepted m (Instruction i opds # items) = sets_accepted m items"
| "sets_accepted m (Directive name # items) =
     (case mode_after (parse_set name) m of None \<Rightarrow> False | Some m' \<Rightarrow> sets_accepted m' items)"

section \<open>One line after the other\<close>

lemma session_opts:
  assumes "rigel_session_ok se" "rigel_opts p"
  shows "rigel_session_ok (se\<lparr>s_opts := p\<rparr>)" "good_operands (se\<lparr>s_opts := p\<rparr>) i opds = good_operands se i opds"
    "good_operands se i opds \<Longrightarrow> line_word_of (se\<lparr>s_opts := p\<rparr>) i opds = line_word_of se i opds"
proof -
  show "rigel_session_ok (se\<lparr>s_opts := p\<rparr>)" using assms by (simp add: rigel_session_ok_def)
  show "good_operands (se\<lparr>s_opts := p\<rparr>) i opds = good_operands se i opds" by (simp add: good_operands_def)
  assume "good_operands se i opds"
  then obtain fs where "args_fields (op_args (mips_builtin_opcodes ! i)) = Some fs"
    using entry_fields by (auto simp: good_operands_def)
  then show "line_word_of (se\<lparr>s_opts := p\<rparr>) i opds = line_word_of se i opds"
    by (simp add: line_word_of_def encode_insn_fields)
qed

lemma output_same:
  "output_ok g mem \<Longrightarrow> same_output g g' \<Longrightarrow> quiet_state g' \<Longrightarrow> output_ok g' mem"
  by (simp add: output_ok_def same_output_def)

lemma source_assembled:
  assumes se: "rigel_session_ok se"
  shows "rigel_sets.ready (v, stk, g) \<Longrightarrow> output_ok g mem \<Longrightarrow> list_all (item_ok se) items \<Longrightarrow>
    sets_accepted m items \<Longrightarrow> mode_known m (v_opts v) stk \<Longrightarrow> v_isa v = ISA_RIGEL32 \<Longrightarrow> v_arch v = CPU_RIGEL32 \<Longrightarrow>
    \<exists>v' stk' st' g' words. run_source env se (map item_line items) (v, stk, st, g) = Some (v', stk', st', g')
      \<and> rigel_opts (v_opts v') \<and> output_ok g' (mem @ concat words) \<and> list_all (\<lambda>bs. length bs = 4) words
      \<and> map (bfd_get_32 (a_big (s_aenv se))) words = concat (map (item_words se) items)
      \<and> g_fixes g' = g_fixes g \<and> g_msgs g' = g_msgs g \<and> ip_events st' = ip_events st \<and> v_diags v' = v_diags v"
proof (induction items arbitrary: v stk st g mem m)
  case Nil
  then show ?case by (auto simp: rigel_sets.ready_def intro!: exI [of _ "[]"])
next
  case (Cons it items)
  show ?case
  proof (cases it)
    case (Directive name)
    have "rigel_sets.goes_on (v, stk, g) (s_mipsset env (s_aenv se) name (v, stk, g))"
      using Cons.prems(1,3) Directive by (intro rigel_sets.directive_goes_on) simp_all
    then obtain v1 stk1 g1 where 1: "s_mipsset env (s_aenv se) name (v, stk, g) = Set_returns (v1, stk1, g1)"
        "rigel_sets.ready (v1, stk1, g1)" "same_output g g1" "same_file v v1"
      unfolding rigel_sets.goes_on_def by auto
    obtain m1 where m1: "mode_after (parse_set name) m = Some m1" "sets_accepted m1 items"
      using Cons.prems(4) Directive by (auto split: option.splits)
    have set: "rigel_set name" "rigel_opts (v_opts v)" using Cons.prems(1,3) Directive by (simp_all add: rigel_sets.ready_def)
    note quiet = directive_quiet [OF 1(1) set(1) Cons.prems(6,7) set(2) m1(1) Cons.prems(5)]
    have arch: "v_isa v1 = ISA_RIGEL32" "v_arch v1 = CPU_RIGEL32" using 1(4) Cons.prems(6,7) by (simp_all add: same_file_def)
    have "quiet_state g1" using 1(2) by (simp add: rigel_sets.ready_def)
    note out = output_same [OF Cons.prems(2) 1(3) this]
    have "list_all (item_ok se) items" using Cons.prems(3) by simp
    from Cons.IH [OF 1(2) out this m1(2) _ arch, of st] quiet obtain v' stk' st' g' words where
      "run_source env se (map item_line items) (v1, stk1, st, g1) = Some (v', stk', st', g')" "rigel_opts (v_opts v')"
      "output_ok g' (mem @ concat words)" "list_all (\<lambda>bs. length bs = 4) words"
      "map (bfd_get_32 (a_big (s_aenv se))) words = concat (map (item_words se) items)"
      "g_fixes g' = g_fixes g1" "g_msgs g' = g_msgs g1" "ip_events st' = ip_events st" "v_diags v' = v_diags v1" by blast
    then show ?thesis
      using 1(1,3) quiet Directive by (intro exI [of _ v'] exI [of _ stk'] exI [of _ st'] exI [of _ g'] exI [of _ words])
        (simp add: same_output_def)
  next
    case (Instruction i opds)
    let ?se = "se\<lparr>s_opts := v_opts v\<rparr>"
    have p: "rigel_opts (v_opts v)" and good: "good_operands se i opds"
      using Cons.prems(1,3) Instruction by (simp_all add: rigel_sets.ready_def)
    note so = session_opts [OF se p]
    obtain st1 g1 bs where 1: "assemble ?se (line_text i opds) st g = Asm_ok st1 g1" "output_ok g1 (mem @ bs)" "length bs = 4"
        "bfd_get_32 (a_big (s_aenv ?se)) bs = line_word_of ?se i opds" "g_fixes g1 = g_fixes g" "g_msgs g1 = g_msgs g"
        "ip_events st1 = ip_events st"
      using line_assembled [OF so(1) _ Cons.prems(2), of i opds st] so(2) good by auto
    have "rigel_sets.ready (v, stk, g1)" using Cons.prems(1) 1(2) by (simp add: rigel_sets.ready_def output_ok_def)
    from Cons.IH [OF this 1(2) _ _ Cons.prems(5,6,7), of st1] Cons.prems(3,4) Instruction obtain v' stk' st' g' words where
      "run_source env se (map item_line items) (v, stk, st1, g1) = Some (v', stk', st', g')" "rigel_opts (v_opts v')"
      "output_ok g' ((mem @ bs) @ concat words)" "list_all (\<lambda>bs. length bs = 4) words"
      "map (bfd_get_32 (a_big (s_aenv se))) words = concat (map (item_words se) items)"
      "g_fixes g' = g_fixes g1" "g_msgs g' = g_msgs g1" "ip_events st' = ip_events st1" "v_diags v' = v_diags v" by auto
    then show ?thesis
      using 1 Instruction so(3) [OF good]
      by (intro exI [of _ v'] exI [of _ stk'] exI [of _ st'] exI [of _ g'] exI [of _ "bs # words"]) simp
  qed
qed

section \<open>Properties\<close>

text \<open>C3: a Rigel source is assembled, from the command line on. After a command line with \<open>-mipsrigel32\<close> and \<open>md_begin\<close>,
  lines with proper operands and \<open>.set\<close> directives that do not ask for another ISA, for mips16 or for a symbol are all
  accepted without an error or a warning, as long as every \<open>pop\<close> has a \<open>push\<close> before it, \<open>nomacro\<close> comes under
  \<open>noreorder\<close>, and no directive is unknown or asks for what a Rigel processor lacks; a \<open>push\<close> need not have its \<open>pop\<close>.
  No directive leaves the Rigel options, and the section grows by the word of each instruction, as if the directives
  were not there.\<close>

theorem rigel_source_assembles:
  assumes "give_options env cs (initial_statics big nops, g0) = Opt_returns True (v, g1)"
    and "list_all (\<lambda>c. quiet_option (fst c)) cs" "Arch OPTION_RIGEL32 \<in> fst ` set cs"
    and "\<not> ABI_NEEDS_64BIT_REGS (oe_default_abi env)" "\<not> CPU_HAS_MIPS16 env"
    and "rigel_session_ok se" "output_ok g mem" "list_all (item_ok se) items" "sets_accepted (False, []) items"
  shows "\<exists>v0 g2 v' stk' st' g' words. mips_after_parse_args env (v, g1) = Some (v0, g2)
    \<and> run_source env se (map item_line items) (v0, [], st, g) = Some (v', stk', st', g')
    \<and> v_diags v' = [] \<and> ip_events st' = ip_events st \<and> g_msgs g' = g_msgs g \<and> g_fixes g' = g_fixes g
    \<and> rigel_opts (v_opts v') \<and> output_ok g' (mem @ concat words) \<and> list_all (\<lambda>bs. length bs = 4) words
    \<and> map (bfd_get_32 (a_big (s_aenv se))) words = concat (map (item_words se) items)"
proof -
  have "quiet_statics v" "v_isa v = ISA_RIGEL32" using give_quiet_options [OF assms(1,2)] quiet_initial assms(3) by simp_all
  then obtain v0 g2 where 0: "mips_after_parse_args env (v, g1) = Some (v0, g2)" "rigel_opts (v_opts v0)"
      "v_isa v0 = ISA_RIGEL32" "v_arch v0 = CPU_RIGEL32" "v_diags v0 = []"
    using quiet_after [OF _ _ assms(4,5)] by blast
  then have "rigel_sets.ready (v0, [], g)" using assms(7) by (simp add: rigel_sets.ready_def output_ok_def)
  moreover have "mode_known (False, []) (v_opts v0) []" by (simp add: mode_known_def)
  ultimately obtain v' stk' st' g' words where
    "run_source env se (map item_line items) (v0, [], st, g) = Some (v', stk', st', g')"
    "rigel_opts (v_opts v')" "output_ok g' (mem @ concat words)" "list_all (\<lambda>bs. length bs = 4) words"
    "map (bfd_get_32 (a_big (s_aenv se))) words = concat (map (item_words se) items)"
    "g_fixes g' = g_fixes g" "g_msgs g' = g_msgs g" "ip_events st' = ip_events st" and d: "v_diags v' = v_diags v0"
    using source_assembled [OF assms(6) _ assms(7-9) _ 0(3,4)] by blast
  moreover have "v_diags v' = []" using d 0(5) by simp
  ultimately show ?thesis using 0(1) by blast
qed

theorem rigel_source_assembles_witness:
  "\<forall>nops g0. \<exists>v0 g2 v' stk' st' g' words.
     mips_after_parse_args mips_elf_env ((initial_statics True nops)\<lparr>v_isa := ISA_RIGEL32\<rparr>, g0) = Some (v0, g2)
     \<and> run_source mips_elf_env sample_session [Set_line ''noreorder'', Insn_line ''add $1,$2,$3'', Set_line ''push'', Set_line ''mips0'',
          Set_line ''reorder'', Insn_line ''addi $1,$29,5'', Set_line ''pop''] (v0, [], sample_ip, sample_output) = Some (v', stk', st', g')
     \<and> v_diags v' = [] \<and> ip_events st' = [] \<and> g_msgs g' = []
     \<and> output_ok g' (concat words) \<and> map (bfd_get_32 True) words = [0x008c5c00, 0x10F40005]"
proof (intro allI)
  fix nops and g0 :: gas_state
  have give: "give_options mips_elf_env [(Arch OPTION_RIGEL32, None)] (initial_statics True nops, g0)
      = Opt_returns True ((initial_statics True nops)\<lparr>v_isa := ISA_RIGEL32\<rparr>, g0)"
    by (simp add: statics_outcome_def)
  let ?add = "[Reg_op 1, Reg_op 2, Reg_op 3]" and ?addi = "[Reg_op 1, Reg_op 29, Expr_op ''5'' (constant_expr 5)]"
  have l: "line_text 0 ?add = ''add $1,$2,$3''" "line_text 4 ?addi = ''addi $1,$29,5''"
    by (simp_all add: line_text_def rigel_entry_add rigel_entry_addi) code_simp+
  have w: "line_word_of sample_session 0 ?add = 0x008c5c00" "line_word_of sample_session 4 ?addi = 0x10F40005"
    unfolding line_word_of_def rigel_entry_add rigel_entry_addi opcode_sel
    by (simp_all add: encode_register_entries operand_letters_of_def constant_expr_def INSERT_BITS_def F_RD_def F_RS_def
        F_RT_def F_DELTA_def)
  have sets: "list_all rigel_set [''noreorder'', ''push'', ''mips0'', ''reorder'', ''pop'']"
    by (simp add: rigel_set_def parse_set_def set_names_def strncmp_eq_def)
  let ?items = "[Directive ''noreorder'', Instruction 0 ?add, Directive ''push'', Directive ''mips0'', Directive ''reorder'',
      Instruction 4 ?addi, Directive ''pop'']"
  have items: "list_all (item_ok sample_session) ?items" using sets sample_add sample_addi by simp
  have accepted: "sets_accepted (False, []) ?items"
    by (simp add: parse_set_def set_names_def strncmp_eq_def)
  have m: "g_msgs sample_output = []" "ip_events sample_ip = []" by (simp_all add: sample_output_def sample_ip_def)
  have lines: "map item_line ?items = [Set_line ''noreorder'', Insn_line ''add $1,$2,$3'', Set_line ''push'', Set_line ''mips0'',
          Set_line ''reorder'', Insn_line ''addi $1,$29,5'', Set_line ''pop'']"
    by (simp add: l [simplified])
  have words: "concat (map (item_words sample_session) ?items) = [0x008c5c00, 0x10F40005]"
    by (simp add: w [simplified])
  have "list_all (\<lambda>c. quiet_option (fst c)) [(Arch OPTION_RIGEL32, None :: cstring option)]"
      "Arch OPTION_RIGEL32 \<in> fst ` set [(Arch OPTION_RIGEL32, None :: cstring option)]" by simp_all
  from rigel_source_assembles [OF give this mips_elf_env_facts(2,3) sample_session_ok sample_output_ok items accepted, of sample_ip]
  show "\<exists>v0 g2 v' stk' st' g' words.
     mips_after_parse_args mips_elf_env ((initial_statics True nops)\<lparr>v_isa := ISA_RIGEL32\<rparr>, g0) = Some (v0, g2)
     \<and> run_source mips_elf_env sample_session [Set_line ''noreorder'', Insn_line ''add $1,$2,$3'', Set_line ''push'', Set_line ''mips0'',
          Set_line ''reorder'', Insn_line ''addi $1,$29,5'', Set_line ''pop''] (v0, [], sample_ip, sample_output) = Some (v', stk', st', g')
     \<and> v_diags v' = [] \<and> ip_events st' = [] \<and> g_msgs g' = []
     \<and> output_ok g' (concat words) \<and> map (bfd_get_32 True) words = [0x008c5c00, 0x10F40005]"
    unfolding lines words sample_fields append_Nil m by (elim exE conjE) (intro exI conjI; assumption)
qed

end
