(* ===== verification/Gas_Fix.thy ===== *)
theory Gas_Fix
  imports Gas_Append
begin

text \<open>
  What happens to a fixup when the addresses are known: \<open>fixup_segment\<close> (\<open>gas/write.c\<close>) computes its value from the
  symbols, \<open>md_apply_fix\<close> (\<open>gas/config/tc-mips.c\<close>) stores the value in the frag or leaves it to a relocation, and
  \<open>tc_gen_reloc\<close> makes that relocation.

  A fixup is \<open>fix_info\<close> with the fields that \<open>fix_new_internal\<close> clears; the state is the bytes of the frags, the
  symbols and the messages. Symbols are resolved: \<open>S_GET_VALUE\<close> is a field. The configuration of \<open>tc-mips.h\<close>
  (\<open>MD_APPLY_SYM_VALUE\<close> is 0, \<open>DIFF_EXPR_OK\<close>, \<open>TC_VALIDATE_FIX\<close> and \<open>WARN_SIGNED_OVERFLOW_WORD\<close> are not defined) is
  substituted. An assertion, \<open>internalError\<close>, a null pointer or an access outside the frag is \<open>None\<close>.
\<close>

section \<open>Sections and symbols\<close>

datatype segT = absolute_section | undefined_section | reg_section | expr_section | Common_section nat | Section nat

definition SEG_NORMAL :: "segT \<Rightarrow> bool" where
  "SEG_NORMAL seg \<longleftrightarrow> seg \<noteq> absolute_section \<and> seg \<noteq> undefined_section \<and> seg \<noteq> reg_section \<and> seg \<noteq> expr_section"

definition bfd_is_com_section :: "segT \<Rightarrow> bool" where
  "bfd_is_com_section seg \<longleftrightarrow> (case seg of Common_section n \<Rightarrow> True | _ \<Rightarrow> False)"

text \<open>A symbol; one with \<open>sy_local\<close> is still a \<open>struct local_symbol\<close>, which has no flags.\<close>

record sym_state =
  sy_local :: bool
  sy_segment :: segT
  sy_value :: ulong
  sy_weak :: bool
  sy_global :: bool
  sy_tls :: bool
  sy_function :: bool
  sy_weakrefr :: "any_symbol option"  \<comment> \<open>the symbol it refers to\<close>
  sy_used_in_reloc :: bool
  sy_mips16 :: bool                   \<comment> \<open>\<open>S_GET_OTHER\<close> is \<open>STO_MIPS16\<close>\<close>
  sy_tc :: bool                       \<comment> \<open>target of a mips16 jump\<close>

type_synonym symtab = "any_symbol \<Rightarrow> sym_state"

definition local_symbol_convert :: "sym_state \<Rightarrow> sym_state" where
  "local_symbol_convert s =
     (if sy_local s then s\<lparr>sy_local := False, sy_weak := False, sy_global := False, sy_tls := False,
        sy_function := False, sy_weakrefr := None, sy_used_in_reloc := False\<rparr> else s)"

text \<open>A chain of weak references that closes on itself makes \<open>S_IS_WEAK\<close> run forever.\<close>

partial_function (option) S_IS_WEAK :: "symtab \<Rightarrow> any_symbol \<Rightarrow> bool option" where
  [code]: "S_IS_WEAK syms s =
     (if sy_local (syms s) then Some False
      else case sy_weakrefr (syms s) of Some t \<Rightarrow> S_IS_WEAK syms t | None \<Rightarrow> Some (sy_weak (syms s)))"

definition S_IS_DEFINED :: "sym_state \<Rightarrow> bool" where
  "S_IS_DEFINED s \<longleftrightarrow> sy_segment s \<noteq> undefined_section"

definition S_FORCE_RELOC :: "bool \<Rightarrow> sym_state \<Rightarrow> bool \<Rightarrow> bool" where
  "S_FORCE_RELOC is_elf s strict \<longleftrightarrow>
     (if sy_local s then sy_segment s = undefined_section
      else (strict \<and> (sy_weak s \<or> (is_elf \<and> sy_global s)))
        \<or> sy_segment s = undefined_section \<or> bfd_is_com_section (sy_segment s))"

definition S_SET_WEAK :: "sym_state \<Rightarrow> sym_state" where
  "S_SET_WEAK s = (local_symbol_convert s)\<lparr>sy_weak := True, sy_global := False\<rparr>"

definition symbol_mark_used_in_reloc :: "sym_state \<Rightarrow> sym_state" where
  "symbol_mark_used_in_reloc s = (local_symbol_convert s)\<lparr>sy_used_in_reloc := True\<rparr>"

section \<open>Fixups and state\<close>

record fix_entry = fix_info +
  fx_at :: fixS
  fx_done :: bool
  fx_signed :: bool
  fx_bit_fixP :: bool
  fx_addnumber :: ulong

datatype fix_msg =
    Relocation_overflow
  | Misaligned_branch ulong
  | Branch_out_of_range
  | Mips16_pcrel_section
  | Function_thread_local any_symbol
  | Not_thread_local any_symbol
  | Cannot_resolve any_symbol
  | Value_too_large ulong nat
  | Cannot_represent bfd_reloc

record fix_env =
  x_big :: bool                        \<comment> \<open>\<open>target_big_endian\<close>\<close>
  x_pic :: mips_pic_level
  x_abi :: mips_abi_level
  x_elf :: bool                        \<comment> \<open>\<open>IS_ELF\<close>\<close>
  x_linkrelax :: bool
  x_howto :: "bfd_reloc \<Rightarrow> bool"       \<comment> \<open>\<open>bfd_reloc_type_lookup\<close> finds it\<close>
  x_address :: "nat \<Rightarrow> ulong"          \<comment> \<open>\<open>fr_address\<close>\<close>
  x_now_seg :: segT
  x_text_section :: segT
  x_text_vma :: ulong
  x_text_size :: ulong
  x_section_symbol :: "segT \<Rightarrow> any_symbol"
  x_sec_tls :: "segT \<Rightarrow> bool"          \<comment> \<open>\<open>SEC_THREAD_LOCAL\<close>\<close>
  x_sec_merge :: "segT \<Rightarrow> bool"        \<comment> \<open>\<open>SEC_MERGE\<close>\<close>

record fix_state =
  xs_literal :: "nat \<Rightarrow> byte list option"
  xs_syms :: symtab
  xs_msgs :: "fix_msg list"

definition complain :: "fix_msg \<Rightarrow> fix_state \<Rightarrow> fix_state" where
  "complain m st = st\<lparr>xs_msgs := xs_msgs st @ [m]\<rparr>"

definition set_sym :: "any_symbol \<Rightarrow> (sym_state \<Rightarrow> sym_state) \<Rightarrow> fix_state \<Rightarrow> fix_state" where
  "set_sym s f st = st\<lparr>xs_syms := (xs_syms st)(s := f (xs_syms st s))\<rparr>"

text \<open>\<open>md_number_to_chars\<close> at \<open>buf + off\<close>.\<close>

definition write_at :: "fix_env \<Rightarrow> fix_entry \<Rightarrow> nat \<Rightarrow> ulong \<Rightarrow> nat \<Rightarrow> fix_state \<Rightarrow> fix_state option" where
  "write_at e f off val n st =
     do { mem \<leftarrow> xs_literal st (fx_frag (fx_at f));
          mem' \<leftarrow> store_number (x_big e) (fx_where (fx_at f) + off) val n mem;
          Some (st\<lparr>xs_literal := (xs_literal st)(fx_frag (fx_at f) \<mapsto> mem')\<rparr>) }"

text \<open>The four bytes of an instruction; they are put together as an \<open>int\<close> and widened to a \<open>long\<close>.\<close>

definition insn_at :: "fix_env \<Rightarrow> fix_entry \<Rightarrow> fix_state \<Rightarrow> ulong option" where
  "insn_at e f st =
     do { mem \<leftarrow> xs_literal st (fx_frag (fx_at f));
          (let at = fx_where (fx_at f); b = (\<lambda>k. ucast (mem ! (at + k)) :: uint) in
           if at + 4 \<le> length mem then
             Some (scast (if x_big e then push_bit 24 (b 0) OR push_bit 16 (b 1) OR push_bit 8 (b 2) OR b 3
                          else push_bit 24 (b 3) OR push_bit 16 (b 2) OR push_bit 8 (b 1) OR b 0))
           else None) }"

definition S_SET_THREAD_LOCAL :: "fix_env \<Rightarrow> any_symbol \<Rightarrow> fix_state \<Rightarrow> fix_state" where
  "S_SET_THREAD_LOCAL e s st =
     (let st = set_sym s local_symbol_convert st; y = xs_syms st s in
      if bfd_is_com_section (sy_segment y) \<and> sy_tls y then st
      else
        (let st = set_sym s (\<lambda>y. y\<lparr>sy_tls := True\<rparr>) st in
         if sy_function y then complain (Function_thread_local s) st
         else if sy_segment y \<noteq> undefined_section \<and> \<not> x_sec_tls e (sy_segment y) then complain (Not_thread_local s) st
         else st))"

section \<open>Applying a fixup\<close>

definition md_pcrel_from :: "fix_env \<Rightarrow> fix_entry \<Rightarrow> fix_state \<Rightarrow> ulong \<times> fix_state" where
  "md_pcrel_from e f st =
     (let addr = of_nat (fx_where (fx_at f)) + x_address e (fx_frag (fx_at f)) in
      if fx_r_type f = BFD_RELOC_16_PCREL_S2 \<or> fx_r_type f = BFD_RELOC_MIPS_JMP then (addr + 4, st)
      else (addr, case fx_addsy f of
                    Some s \<Rightarrow> if sy_segment (xs_syms st s) \<noteq> x_now_seg e then complain Mips16_pcrel_section st else st
                  | None \<Rightarrow> st))"

definition tls_reloc :: "bfd_reloc \<Rightarrow> bool" where
  "tls_reloc r \<longleftrightarrow> r \<in> set [BFD_RELOC_MIPS_TLS_GD, BFD_RELOC_MIPS_TLS_LDM, BFD_RELOC_MIPS_TLS_DTPREL32,
     BFD_RELOC_MIPS_TLS_DTPREL64, BFD_RELOC_MIPS_TLS_DTPREL_HI16, BFD_RELOC_MIPS_TLS_DTPREL_LO16,
     BFD_RELOC_MIPS_TLS_GOTTPREL, BFD_RELOC_MIPS_TLS_TPREL_HI16, BFD_RELOC_MIPS_TLS_TPREL_LO16]"

text \<open>The cases whose value comes from the relocation entry.\<close>

definition entry_reloc :: "bfd_reloc \<Rightarrow> bool" where
  "entry_reloc r \<longleftrightarrow> r \<in> set [BFD_RELOC_MIPS_JMP, BFD_RELOC_MIPS_SHIFT5, BFD_RELOC_MIPS_SHIFT6, BFD_RELOC_MIPS_GOT_DISP,
     BFD_RELOC_MIPS_GOT_PAGE, BFD_RELOC_MIPS_GOT_OFST, BFD_RELOC_MIPS_SUB, BFD_RELOC_MIPS_INSERT_A,
     BFD_RELOC_MIPS_INSERT_B, BFD_RELOC_MIPS_DELETE, BFD_RELOC_MIPS_HIGHEST, BFD_RELOC_MIPS_HIGHER,
     BFD_RELOC_MIPS_SCN_DISP, BFD_RELOC_MIPS_REL16, BFD_RELOC_MIPS_RELGOT, BFD_RELOC_MIPS_JALR, BFD_RELOC_HI16,
     BFD_RELOC_HI16_S, BFD_RELOC_GPREL16, BFD_RELOC_MIPS_LITERAL, BFD_RELOC_MIPS_CALL16, BFD_RELOC_MIPS_GOT16,
     BFD_RELOC_GPREL32, BFD_RELOC_MIPS_GOT_HI16, BFD_RELOC_MIPS_GOT_LO16, BFD_RELOC_MIPS_CALL_HI16,
     BFD_RELOC_MIPS_CALL_LO16, BFD_RELOC_MIPS16_GPREL, BFD_RELOC_MIPS16_HI16, BFD_RELOC_MIPS16_HI16_S,
     BFD_RELOC_MIPS16_JMP]"

definition size_free_reloc :: "bfd_reloc \<Rightarrow> bool" where
  "size_free_reloc r \<longleftrightarrow> r \<in> set [BFD_RELOC_16, BFD_RELOC_64, BFD_RELOC_CTOR, BFD_RELOC_MIPS_SUB,
     BFD_RELOC_VTABLE_INHERIT, BFD_RELOC_VTABLE_ENTRY, BFD_RELOC_MIPS_TLS_DTPREL64]"

text \<open>An unconditional MIPS branch that the assembler turns into \<open>j\<close> or \<open>jal\<close>: \<open>beq $0,$0\<close>, \<open>bgez $0\<close>, \<open>bgezal $0\<close>.\<close>

definition always_branch :: "ulong \<Rightarrow> bool" where
  "always_branch w \<longleftrightarrow> w AND 0xffff0000 = 0x10000000 \<or> w AND 0xffff0000 = 0x04010000 \<or> w AND 0xffff0000 = 0x04110000"

definition in_text :: "fix_env \<Rightarrow> fix_entry \<Rightarrow> bool" where
  "in_text e f \<longleftrightarrow> (let a = x_address e (fx_frag (fx_at f)) in x_text_vma e \<le> a \<and> a < x_text_vma e + x_text_size e)"

text \<open>The case \<open>BFD_RELOC_16_PCREL_S2\<close>.\<close>

definition apply_branch :: "fix_env \<Rightarrow> fix_entry \<Rightarrow> ulong \<Rightarrow> fix_state \<Rightarrow> (fix_entry \<times> ulong \<times> fix_state) option" where
  "apply_branch e f val st =
     (let st = (if val AND 3 \<noteq> 0 then complain (Misaligned_branch val) st else st) in
      if \<not> fx_done f then Some (f, val, st)
      else
        do { w \<leftarrow> insn_at e f st;
             (if val + 0x20000 \<le> 0x3ffff then
                map_option (\<lambda>st. (f, val, st)) (write_at e f 0 (w OR (drop_bit 2 val AND 0xffff)) 4 st)
              else if x_pic e = NO_PIC \<and> in_text e f \<and> always_branch w then
                (let f' = f\<lparr>fx_r_type := BFD_RELOC_MIPS_JMP, fx_done := False,
                           fx_addsy := Some (x_section_symbol e (x_text_section e))\<rparr>;
                     (from, st) = md_pcrel_from e f' st;
                     jump = (if w AND 0xffff0000 = 0x04110000 then 0x0c000000 else 0x08000000)
                 in map_option (\<lambda>st. (f', val + from, st)) (write_at e f' 0 jump 4 st))
              else Some (f, val, complain Branch_out_of_range st)) })"

text \<open>The \<open>switch\<close>. A \<open>valueT\<close> has eight bytes.\<close>

definition apply_value :: "fix_env \<Rightarrow> fix_entry \<Rightarrow> ulong \<Rightarrow> fix_state \<Rightarrow> (fix_entry \<times> ulong \<times> fix_state) option" where
  "apply_value e f val st =
     (let r = fx_r_type f; keep = map_option (\<lambda>st. (f, val, st)) in
      if tls_reloc r then
        (case fx_addsy f of None \<Rightarrow> None | Some s \<Rightarrow> Some (f, val, S_SET_THREAD_LOCAL e s st))
      else if entry_reloc r then Some (f, val, st)
      else if r = BFD_RELOC_64 then (if fx_done f then keep (write_at e f 0 val 8 st) else Some (f, val, st))
      else if r = BFD_RELOC_RVA \<or> r = BFD_RELOC_32 \<or> r = BFD_RELOC_16 then
        (if fx_done f then keep (write_at e f 0 val (fx_size f) st) else Some (f, val, st))
      else if r = BFD_RELOC_LO16 \<or> r = BFD_RELOC_MIPS16_LO16 then
        (if fx_done f then
           (let st = (if val + 0x8000 > 0xffff then complain Relocation_overflow st else st)
            in keep (write_at e f (if x_big e then 2 else 0) val 2 st))
         else Some (f, val, st))
      else if r = BFD_RELOC_16_PCREL_S2 then apply_branch e f val st
      else if r = BFD_RELOC_VTABLE_INHERIT then
        (let f = f\<lparr>fx_done := False\<rparr> in
         case fx_addsy f of
           None \<Rightarrow> Some (f, val, st)
         | Some s \<Rightarrow>
             if S_IS_DEFINED (xs_syms st s) then Some (f, val, st)
             else map_option (\<lambda>weak. (f, val, if weak then st else set_sym s S_SET_WEAK st)) (S_IS_WEAK (xs_syms st) s))
      else if r = BFD_RELOC_VTABLE_ENTRY then Some (f\<lparr>fx_done := False\<rparr>, val, st)
      else None)"

definition md_apply_fix :: "fix_env \<Rightarrow> fix_entry \<Rightarrow> ulong \<Rightarrow> fix_state \<Rightarrow> (fix_entry \<times> ulong \<times> fix_state) option" where
  "md_apply_fix e f val st =
     (if \<not> x_howto e (fx_r_type f) then Some (f, val, st)
      else if fx_size f \<noteq> 4 \<and> \<not> size_free_reloc (fx_r_type f) then None
      else if fx_pcrel f \<and> fx_r_type f \<noteq> BFD_RELOC_16_PCREL_S2 then None
      else
        (let f = (if fx_addsy f = None \<and> \<not> fx_pcrel f \<and> \<not> fx_tcbit f then f\<lparr>fx_done := True\<rparr> else f)
         in map_option (\<lambda>(f, val, st). (f\<lparr>fx_addnumber := val\<rparr>, val, st)) (apply_value e f val st)))"

section \<open>The pass over a section\<close>

definition generic_force_reloc :: "fix_env \<Rightarrow> fix_entry \<Rightarrow> fix_state \<Rightarrow> bool" where
  "generic_force_reloc e f st \<longleftrightarrow>
     fx_r_type f = BFD_RELOC_VTABLE_INHERIT \<or> fx_r_type f = BFD_RELOC_VTABLE_ENTRY
     \<or> (case fx_addsy f of None \<Rightarrow> False | Some s \<Rightarrow> S_FORCE_RELOC (x_elf e) (xs_syms st s) (fx_subsy f = None))"

text \<open>With a new ABI the segment of \<open>fx_addsy\<close> is read without a test for null.\<close>

definition mips_force_relocation :: "fix_env \<Rightarrow> fix_entry \<Rightarrow> fix_state \<Rightarrow> bool option" where
  "mips_force_relocation e f st =
     (if generic_force_reloc e f st then Some True
      else if HAVE_NEWABI (x_abi e) then
        map_option (\<lambda>s. sy_segment (xs_syms st s) = absolute_section
          \<and> (fx_r_type f = BFD_RELOC_MIPS_SUB \<or> fx_r_type f = BFD_RELOC_HI16_S \<or> fx_r_type f = BFD_RELOC_LO16)) (fx_addsy f)
      else Some False)"

text \<open>The subtracted symbol: it goes away with a symbol of the same section, or when it is absolute.\<close>

definition subtract_symbol :: "fix_env \<Rightarrow> fix_entry \<Rightarrow> ulong \<Rightarrow> fix_state \<Rightarrow> (fix_entry \<times> ulong \<times> fix_state) option" where
  "subtract_symbol e f num st =
     (case fx_subsy f of
        None \<Rightarrow> Some (f, num, st)
      | Some b \<Rightarrow>
          (let sub_seg = sy_segment (xs_syms st b); sub = sy_value (xs_syms st b) in
           do { same \<leftarrow> (case fx_addsy f of
                  None \<Rightarrow> Some False
                | Some a \<Rightarrow>
                    if sub_seg \<noteq> sy_segment (xs_syms st a) \<or> \<not> SEG_NORMAL sub_seg then Some False
                    else map_option Not (mips_force_relocation e f st));
                (if same then
                   (let num = num + (case fx_addsy f of None \<Rightarrow> 0 | Some a \<Rightarrow> sy_value (xs_syms st a)) - sub
                    in Some (f\<lparr>fx_offset := num, fx_addsy := None, fx_subsy := None\<rparr>, num, st))
                 else if sub_seg = absolute_section then
                   (let num = num - sub in Some (f\<lparr>fx_offset := num, fx_subsy := None\<rparr>, num, st))
                 else if fx_r_type f \<noteq> BFD_RELOC_GPREL32 \<and> fx_r_type f \<noteq> BFD_RELOC_GPREL16 then
                   Some (f, num, complain (Cannot_resolve b) st)
                 else Some (f, num, st)) }))"

text \<open>The added symbol: a pc-relative reference to this section and a reference to an absolute symbol are resolved,
  all others leave the value alone.\<close>

definition add_symbol :: "fix_env \<Rightarrow> segT \<Rightarrow> fix_entry \<Rightarrow> ulong \<Rightarrow> fix_state \<Rightarrow> (fix_entry \<times> ulong \<times> fix_state) option" where
  "add_symbol e seg f num st =
     (case fx_addsy f of
        None \<Rightarrow> Some (f, num, st)
      | Some a \<Rightarrow>
          (let a_seg = sy_segment (xs_syms st a); num' = num + sy_value (xs_syms st a) in
           do { forced \<leftarrow> mips_force_relocation e f st;
                (if a_seg = seg \<and> fx_pcrel f \<and> \<not> forced then
                   (let f = f\<lparr>fx_offset := num'\<rparr>; (from, st) = md_pcrel_from e f st
                    in Some (f\<lparr>fx_addsy := None, fx_pcrel := False\<rparr>, num' - from, st))
                 else if a_seg = absolute_section \<and> \<not> forced then
                   Some (f\<lparr>fx_offset := num', fx_addsy := None\<rparr>, num', st)
                 else Some (f, num, st)) }))"

definition subtract_pc :: "fix_env \<Rightarrow> fix_entry \<Rightarrow> ulong \<Rightarrow> fix_state \<Rightarrow> fix_entry \<times> ulong \<times> fix_state" where
  "subtract_pc e f num st =
     (if fx_pcrel f then
        (let (from, st) = md_pcrel_from e f st;
             f = (if \<not> fx_done f \<and> fx_addsy f = None
                  then f\<lparr>fx_addsy := Some (x_section_symbol e absolute_section)\<rparr> else f)
         in (f, num - from, st))
      else (f, num, st))"

text \<open>A fixup that is not done needs a relocation, and that a symbol.\<close>

definition mark_used :: "fix_env \<Rightarrow> fix_entry \<Rightarrow> fix_state \<Rightarrow> fix_entry \<times> fix_state" where
  "mark_used e f st =
     (let a = (case fx_addsy f of None \<Rightarrow> x_section_symbol e absolute_section | Some a \<Rightarrow> a);
          st = set_sym a symbol_mark_used_in_reloc st
      in (f\<lparr>fx_addsy := Some a\<rparr>,
          case fx_subsy f of None \<Rightarrow> st | Some b \<Rightarrow> set_sym b symbol_mark_used_in_reloc st))"

definition check_overflow :: "fix_entry \<Rightarrow> ulong \<Rightarrow> fix_state \<Rightarrow> fix_state" where
  "check_overflow f num st =
     (if \<not> fx_bit_fixP f \<and> \<not> fx_no_overflow f \<and> fx_size f \<noteq> 0 \<and> fx_size f < 8 then
        (let mask = push_bit (fx_size f * 8 - (if fx_signed f then 1 else 0)) (- 1 :: ulong) in
         if num AND mask \<noteq> 0 \<and> num AND mask \<noteq> mask then complain (Value_too_large num (fx_size f)) st else st)
      else st)"

definition fixup_one :: "fix_env \<Rightarrow> segT \<Rightarrow> fix_entry \<Rightarrow> fix_state \<Rightarrow> (fix_entry \<times> fix_state) option" where
  "fixup_one e seg f st =
     do { (f, num, st) \<leftarrow> subtract_symbol e f (fx_offset f) st;
          (f, num, st) \<leftarrow> add_symbol e seg f num st;
          (f, num, st) \<leftarrow> Some (subtract_pc e f num st);
          (f, num, st) \<leftarrow> (if fx_done f then Some (f, num, st) else md_apply_fix e f num st);
          (f, st) \<leftarrow> Some (if fx_done f then (f, st) else mark_used e f st);
          Some (f, check_overflow f num st) }"

text \<open>With \<open>linkrelax\<close> nothing is applied.\<close>

definition linkrelax_one :: "fix_env \<Rightarrow> fix_entry \<Rightarrow> fix_state \<Rightarrow> fix_entry \<times> fix_state" where
  "linkrelax_one e f st = (if fx_done f then (f, st) else mark_used e f st)"

text \<open>The number of relocations, the fixups and the state after them.\<close>

fun fixup_segment :: "fix_env \<Rightarrow> segT \<Rightarrow> fix_entry list \<Rightarrow> fix_state \<Rightarrow> (nat \<times> fix_entry list \<times> fix_state) option" where
  "fixup_segment e seg [] st = Some (0, [], st)"
| "fixup_segment e seg (f # fs) st =
     do { (f', st) \<leftarrow> (if x_linkrelax e then Some (linkrelax_one e f st) else fixup_one e seg f st);
          (n, fs', st) \<leftarrow> fixup_segment e seg fs st;
          Some (if fx_done f' then n else Suc n, f' # fs', st) }"

section \<open>Relocations\<close>

definition mips_fix_adjustable :: "append_env \<Rightarrow> fix_env \<Rightarrow> fix_entry \<Rightarrow> fix_state \<Rightarrow> bool" where
  "mips_fix_adjustable env e f st \<longleftrightarrow>
     (let r = fx_r_type f in
      if r = BFD_RELOC_VTABLE_INHERIT \<or> r = BFD_RELOC_VTABLE_ENTRY then False
      else case fx_addsy f of
        None \<Rightarrow> True
      | Some a \<Rightarrow>
          if (r = BFD_RELOC_LO16 \<or> r = BFD_RELOC_MIPS16_LO16 \<or> reloc_needs_lo_p env r) \<and> \<not> HAVE_NEWABI (x_abi e)
             \<and> x_sec_merge e (sy_segment (xs_syms st a)) then False
          else \<not> (x_elf e \<and> fx_subsy f = None \<and> (sy_mips16 (xs_syms st a) \<or> sy_tc (xs_syms st a))))"

record arelent =
  ar_sym :: any_symbol
  ar_address :: ulong
  ar_addend :: ulong
  ar_code :: bfd_reloc

definition tc_gen_reloc :: "fix_env \<Rightarrow> fix_entry \<Rightarrow> fix_state \<Rightarrow> (arelent option \<times> fix_state) option" where
  "tc_gen_reloc e f st =
     do { a \<leftarrow> fx_addsy f;
          (let st = set_sym a local_symbol_convert st;
               address = x_address e (fx_frag (fx_at f)) + of_nat (fx_where (fx_at f));
               code = fx_r_type f in
           if fx_pcrel f \<and> code \<noteq> BFD_RELOC_16_PCREL_S2 then None
           else
             (let addend = fx_addnumber f + (if fx_pcrel f then address + (if x_elf e then 0 else address) else 0);
                  (address, addend) = (if \<not> HAVE_NEWABI (x_abi e) \<and> code = BFD_RELOC_VTABLE_ENTRY then (addend, 0)
                                       else (address, addend))
              in if x_howto e code
                 then Some (Some \<lparr>ar_sym = a, ar_address = address, ar_addend = addend, ar_code = code\<rparr>, st)
                 else Some (None, complain (Cannot_represent code) st))) }"

text \<open>The chain that the instructions of a section left (\<open>fix_new_internal\<close>).\<close>

definition fix_chain :: "gas_state \<Rightarrow> fix_entry list option" where
  "fix_chain g = those (map (\<lambda>n. map_option (\<lambda>at. fix_info.extend (g_fixes g ! n)
     \<lparr>fx_at = at, fx_done = False, fx_signed = False, fx_bit_fixP = False, fx_addnumber = 0\<rparr>)
     (fixes_of (g_store g) n)) [0..<length (g_fixes g)])"

section \<open>Relocations and their symbols\<close>

text \<open>Once a symbol is marked as used in a relocation, it stays marked: the symbol table keeps it.\<close>

definition in_reloc :: "sym_state \<Rightarrow> bool" where
  "in_reloc s \<longleftrightarrow> \<not> sy_local s \<and> sy_used_in_reloc s"

definition marks_stay :: "fix_state \<Rightarrow> fix_state \<Rightarrow> bool" where
  "marks_stay st st' \<longleftrightarrow> (\<forall>a. in_reloc (xs_syms st a) \<longrightarrow> in_reloc (xs_syms st' a))"

definition reloc_ready :: "fix_state \<Rightarrow> fix_entry \<Rightarrow> bool" where
  "reloc_ready st f \<longleftrightarrow> fx_done f \<or> (\<exists>a. fx_addsy f = Some a \<and> in_reloc (xs_syms st a))"

lemma marks_refl [simp]: "marks_stay st st"
  by (simp add: marks_stay_def)

lemma marks_trans: "marks_stay st st1 \<Longrightarrow> marks_stay st1 st2 \<Longrightarrow> marks_stay st st2"
  by (simp add: marks_stay_def)

lemma marks_complain [simp]:
  "marks_stay st (complain m st') = marks_stay st st'" "marks_stay (complain m st) st' = marks_stay st st'"
  by (simp_all add: marks_stay_def complain_def)

lemma marks_syms: "xs_syms st' = xs_syms st \<Longrightarrow> marks_stay st st'"
  by (simp add: marks_stay_def)

lemma marks_set_sym:
  "(\<And>y. in_reloc y \<Longrightarrow> in_reloc (f y)) \<Longrightarrow> marks_stay st (set_sym s f st)"
  by (simp add: marks_stay_def set_sym_def)

lemma in_reloc_updates [simp]:
  "in_reloc (symbol_mark_used_in_reloc y)"
  "in_reloc y \<Longrightarrow> in_reloc (local_symbol_convert y)"
  "in_reloc y \<Longrightarrow> in_reloc (S_SET_WEAK y)"
  "in_reloc y \<Longrightarrow> in_reloc (y\<lparr>sy_tls := True\<rparr>)"
  by (simp_all add: in_reloc_def symbol_mark_used_in_reloc_def local_symbol_convert_def S_SET_WEAK_def)

lemma marks_write: "write_at e f off v n st = Some st' \<Longrightarrow> marks_stay st st'"
  by (auto simp: write_at_def Option.bind_eq_Some_conv intro: marks_syms)

lemma marks_pcrel: "md_pcrel_from e f st = (a, st') \<Longrightarrow> marks_stay st st'"
  by (auto simp: md_pcrel_from_def Let_def split: if_splits option.splits)

lemma marks_thread_local: "marks_stay st (S_SET_THREAD_LOCAL e s st)"
proof -
  let ?st = "set_sym s local_symbol_convert st"
  have "marks_stay st ?st" by (rule marks_set_sym) simp
  moreover have "marks_stay ?st (set_sym s (\<lambda>y. y\<lparr>sy_tls := True\<rparr>) ?st)" by (rule marks_set_sym) simp
  ultimately show ?thesis by (auto simp: S_SET_THREAD_LOCAL_def Let_def intro: marks_trans)
qed

lemma marks_branch: "apply_branch e f v st = Some (f', v', st') \<Longrightarrow> marks_stay st st'"
proof -
  let ?st = "if v AND 3 \<noteq> 0 then complain (Misaligned_branch v) st else st"
  have "marks_stay st ?st" by simp
  moreover assume "apply_branch e f v st = Some (f', v', st')"
  then have "marks_stay ?st st'"
    by (auto simp: apply_branch_def Let_def Option.bind_eq_Some_conv md_pcrel_from_def dest: marks_write
        simp del: bit.conj_cancel_right split: if_splits)
  ultimately show ?thesis by (rule marks_trans)
qed

lemma marks_value: "apply_value e f v st = Some (f', v', st') \<Longrightarrow> marks_stay st st'"
  unfolding apply_value_def Let_def
  by (auto split: if_splits option.splits intro: marks_thread_local marks_set_sym
      dest: marks_write marks_branch)

lemma marks_apply: "md_apply_fix e f v st = Some (f', v', st') \<Longrightarrow> marks_stay st st'"
  by (auto simp: md_apply_fix_def Let_def split: if_splits dest: marks_value)

lemma marks_used:
  assumes "mark_used e f st = (f', st')"
  shows "marks_stay st st'" "reloc_ready st' f'" "fx_done f' = fx_done f"
proof -
  have m: "marks_stay s (set_sym a symbol_mark_used_in_reloc s)" for a s by (rule marks_set_sym) simp
  show "marks_stay st st'" using assms
    by (auto simp: mark_used_def Let_def split: option.splits intro: m marks_trans [OF m m])
  show "reloc_ready st' f'" using assms
    by (auto simp: mark_used_def Let_def reloc_ready_def set_sym_def split: option.splits)
  show "fx_done f' = fx_done f" using assms by (auto simp: mark_used_def Let_def split: option.splits)
qed

lemma check_overflow_syms: "xs_syms (check_overflow f num st) = xs_syms st"
  by (simp add: check_overflow_def complain_def Let_def)

lemma ready_overflow: "reloc_ready (check_overflow f num st) = reloc_ready st"
  by (rule ext) (simp add: reloc_ready_def check_overflow_syms)

lemma ready_stays: "reloc_ready st f \<Longrightarrow> marks_stay st st' \<Longrightarrow> reloc_ready st' f"
  by (auto simp: reloc_ready_def marks_stay_def)

lemma marks_subtract: "subtract_symbol e f num st = Some (f', num', st') \<Longrightarrow> marks_stay st st'"
  by (auto simp: subtract_symbol_def Let_def Option.bind_eq_Some_conv split: option.splits if_splits)

lemma marks_add: "add_symbol e seg f num st = Some (f', num', st') \<Longrightarrow> marks_stay st st'"
  by (auto simp: add_symbol_def Let_def Option.bind_eq_Some_conv split: option.splits if_splits prod.splits dest: marks_pcrel)

lemma marks_pc: "subtract_pc e f num st = (f', num', st') \<Longrightarrow> marks_stay st st'"
  by (auto simp: subtract_pc_def Let_def split: if_splits prod.splits dest: marks_pcrel)

lemma fixup_one_parts:
  assumes "fixup_one e seg f st = Some (f', st')"
  obtains f1 n1 s1 f2 n2 s2 f3 n3 s3 f4 n4 s4 s5 where "subtract_symbol e f (fx_offset f) st = Some (f1, n1, s1)"
    and "add_symbol e seg f1 n1 s1 = Some (f2, n2, s2)" and "subtract_pc e f2 n2 s2 = (f3, n3, s3)"
    and "(if fx_done f3 then Some (f3, n3, s3) else md_apply_fix e f3 n3 s3) = Some (f4, n4, s4)"
    and "(if fx_done f4 then (f4, s4) else mark_used e f4 s4) = (f', s5)" and "st' = check_overflow f' n4 s5"
proof -
  obtain f1 n1 s1 where 1: "subtract_symbol e f (fx_offset f) st = Some (f1, n1, s1)"
    using assms by (auto simp: fixup_one_def Option.bind_eq_Some_conv)
  obtain f2 n2 s2 where 2: "add_symbol e seg f1 n1 s1 = Some (f2, n2, s2)"
    using assms 1 by (auto simp: fixup_one_def Option.bind_eq_Some_conv)
  obtain f3 n3 s3 where 3: "subtract_pc e f2 n2 s2 = (f3, n3, s3)" by (rule prod_cases3)
  obtain f4 n4 s4 where 4: "(if fx_done f3 then Some (f3, n3, s3) else md_apply_fix e f3 n3 s3) = Some (f4, n4, s4)"
    using assms 1 2 3 by (auto simp: fixup_one_def Option.bind_eq_Some_conv)
  obtain f5 s5 where 5: "(if fx_done f4 then (f4, s4) else mark_used e f4 s4) = (f5, s5)" by (rule prod.exhaust)
  have "f' = f5" "st' = check_overflow f5 n4 s5" using assms 1 2 3 4 5 by (auto simp: fixup_one_def)
  then show thesis using that [OF 1 2 3 4] 5 by blast
qed

lemma fixup_one_ready:
  assumes "fixup_one e seg f st = Some (f', st')"
  shows "marks_stay st st'" "reloc_ready st' f'"
proof -
  obtain f1 n1 s1 f2 n2 s2 f3 n3 s3 f4 n4 s4 s5 where 1: "subtract_symbol e f (fx_offset f) st = Some (f1, n1, s1)"
    and 2: "add_symbol e seg f1 n1 s1 = Some (f2, n2, s2)" and 3: "subtract_pc e f2 n2 s2 = (f3, n3, s3)"
    and 4: "(if fx_done f3 then Some (f3, n3, s3) else md_apply_fix e f3 n3 s3) = Some (f4, n4, s4)"
    and 5: "(if fx_done f4 then (f4, s4) else mark_used e f4 s4) = (f', s5)" and r: "st' = check_overflow f' n4 s5"
    by (rule fixup_one_parts [OF assms])
  have m4: "marks_stay s3 s4" using 4 by (auto split: if_splits dest: marks_apply)
  have m5: "marks_stay s4 s5" "reloc_ready s5 f'" using 5 marks_used [of e f4 s4]
    by (auto simp: reloc_ready_def split: if_splits)
  have "marks_stay st s5"
    using marks_subtract [OF 1] marks_add [OF 2] marks_pc [OF 3] m4 m5(1) by (blast intro: marks_trans)
  then show "marks_stay st st'" using r check_overflow_syms by (simp add: marks_stay_def)
  show "reloc_ready st' f'" using m5(2) r by (simp add: ready_overflow)
qed

lemma segment_relocs:
  "fixup_segment e seg fs st = Some (n, fs', st') \<Longrightarrow>
     marks_stay st st' \<and> length fs' = length fs \<and> n = length (filter (\<lambda>f. \<not> fx_done f) fs') \<and> list_all (reloc_ready st') fs'"
proof (induction fs arbitrary: st n fs' st')
  case (Cons f fs)
  obtain f1 s1 where 1: "(if x_linkrelax e then Some (linkrelax_one e f st) else fixup_one e seg f st) = Some (f1, s1)"
    using Cons.prems by (auto simp: Option.bind_eq_Some_conv)
  obtain k fs1 where 2: "fixup_segment e seg fs s1 = Some (k, fs1, st')" "fs' = f1 # fs1"
      "n = (if fx_done f1 then k else Suc k)"
    using Cons.prems 1 by (auto simp: Option.bind_eq_Some_conv split: if_splits)
  have "marks_stay st s1 \<and> reloc_ready s1 f1"
    using 1 fixup_one_ready [of e seg f st f1 s1] marks_used [of e f st]
    by (auto simp: linkrelax_one_def reloc_ready_def split: if_splits)
  then show ?case using Cons.IH [OF 2(1)] 2(2,3) by (auto intro: marks_trans ready_stays)
qed simp

section \<open>Branches\<close>

text \<open>A fixup of a branch to a symbol, as \<open>append_insn\<close> makes it.\<close>

definition branch_fix :: "fix_entry \<Rightarrow> any_symbol \<Rightarrow> bool" where
  "branch_fix f s \<longleftrightarrow> fx_size f = 4 \<and> fx_addsy f = Some s \<and> fx_subsy f = None \<and> fx_pcrel f
     \<and> fx_r_type f = BFD_RELOC_16_PCREL_S2 \<and> \<not> fx_tcbit f \<and> \<not> fx_done f \<and> \<not> fx_signed f"

text \<open>The symbol is a label of this section that no other module can override.\<close>

definition local_label :: "fix_env \<Rightarrow> segT \<Rightarrow> fix_state \<Rightarrow> any_symbol \<Rightarrow> bool" where
  "local_label e seg st s \<longleftrightarrow> sy_segment (xs_syms st s) = seg \<and> \<not> S_FORCE_RELOC (x_elf e) (xs_syms st s) True"

definition fix_address :: "fix_env \<Rightarrow> fix_entry \<Rightarrow> ulong" where
  "fix_address e f = of_nat (fx_where (fx_at f)) + x_address e (fx_frag (fx_at f))"

definition branch_distance :: "fix_env \<Rightarrow> fix_entry \<Rightarrow> ulong \<Rightarrow> ulong" where
  "branch_distance e f target = target - (fix_address e f + 4)"

text \<open>The word at the place of a fixup, and the state with another word there.\<close>

definition holds_word :: "fix_env \<Rightarrow> fix_entry \<Rightarrow> fix_state \<Rightarrow> ulong \<Rightarrow> bool" where
  "holds_word e f st w \<longleftrightarrow> (\<exists>mem. xs_literal st (fx_frag (fx_at f)) = Some mem \<and> fx_where (fx_at f) + 4 \<le> length mem
     \<and> bfd_get_32 (x_big e) (take 4 (drop (fx_where (fx_at f)) mem)) = w)"

definition same_elsewhere :: "fix_entry \<Rightarrow> fix_state \<Rightarrow> fix_state \<Rightarrow> bool" where
  "same_elsewhere f st st' \<longleftrightarrow> xs_syms st' = xs_syms st \<and> xs_msgs st' = xs_msgs st
     \<and> (\<forall>fr. fr \<noteq> fx_frag (fx_at f) \<longrightarrow> xs_literal st' fr = xs_literal st fr)
     \<and> (\<forall>mem. xs_literal st (fx_frag (fx_at f)) = Some mem \<longrightarrow> (\<exists>mem'. xs_literal st' (fx_frag (fx_at f)) = Some mem'
          \<and> length mem' = length mem \<and> (\<forall>i. i < fx_where (fx_at f) \<or> fx_where (fx_at f) + 4 \<le> i \<longrightarrow> mem' ! i = mem ! i)))"

lemma write_word:
  assumes "holds_word e f st w"
  obtains st' where "write_at e f 0 v 4 st = Some st'" "holds_word e f st' (take_bit 32 v)" "same_elsewhere f st st'"
proof -
  obtain mem where m: "xs_literal st (fx_frag (fx_at f)) = Some mem" "fx_where (fx_at f) + 4 \<le> length mem"
    using assms by (auto simp: holds_word_def)
  obtain mem' where s: "store_number (x_big e) (fx_where (fx_at f)) v 4 mem = Some mem'" "length mem' = length mem"
      "bfd_get_32 (x_big e) (take 4 (drop (fx_where (fx_at f)) mem')) = take_bit 32 v"
      "\<And>i. i < fx_where (fx_at f) \<or> fx_where (fx_at f) + 4 \<le> i \<Longrightarrow> mem' ! i = mem ! i"
    by (rule store_number_32 [OF m(2), of "x_big e" v]) blast
  show thesis
    by (rule that [of "st\<lparr>xs_literal := (xs_literal st)(fx_frag (fx_at f) \<mapsto> mem')\<rparr>"])
       (use m s in \<open>auto simp: write_at_def holds_word_def same_elsewhere_def\<close>)
qed

lemma scast_ucast_low: "take_bit 32 (scast (ucast (w :: ulong) :: uint) :: ulong) = take_bit 32 w"
proof (rule bit_word_eqI)
  fix n :: nat
  have "min n 31 = n" if "n < 32" using that by simp
  then show "bit (take_bit 32 (scast (ucast w :: uint) :: ulong)) n = bit (take_bit 32 w) n"
    by (auto simp: bit_simps)
qed

lemma insn_at_word:
  assumes "holds_word e f st w"
  obtains x where "insn_at e f st = Some x" "take_bit 32 x = take_bit 32 w"
proof -
  obtain mem where m: "xs_literal st (fx_frag (fx_at f)) = Some mem" "fx_where (fx_at f) + 4 \<le> length mem"
      "bfd_get_32 (x_big e) (take 4 (drop (fx_where (fx_at f)) mem)) = w"
    using assms by (auto simp: holds_word_def)
  let ?b = "\<lambda>k. ucast (mem ! (fx_where (fx_at f) + k)) :: uint"
  let ?x = "if x_big e then push_bit 24 (?b 0) OR push_bit 16 (?b 1) OR push_bit 8 (?b 2) OR ?b 3
            else push_bit 24 (?b 3) OR push_bit 16 (?b 2) OR push_bit 8 (?b 1) OR ?b 0"
  have "?x = ucast w"
    unfolding m(3) [symmetric] using m(2)
    by (auto simp: bfd_get_32_def bfd_getb32_def bfd_getl32_def bit_eq_iff bit_simps)
  then have "insn_at e f st = Some (scast (ucast w :: uint))" using m(1,2) by (simp add: insn_at_def Let_def)
  then show thesis using scast_ucast_low that by blast
qed

text \<open>A distance within reach is a small signed number.\<close>

definition in_reach :: "ulong \<Rightarrow> bool" where
  "in_reach d \<longleftrightarrow> d + 0x20000 \<le> 0x3ffff"

lemma in_reach_int:
  assumes "in_reach d"
  obtains k where "d = word_of_int k" "- (2 ^ 17) \<le> k" "k < 2 ^ 17"
proof (rule that [of "uint (d + 0x20000) - 0x20000"])
  have b: "uint (d + 0x20000) \<le> 0x3ffff" using assms by (simp add: in_reach_def word_le_def)
  then show "uint (d + 0x20000) - 0x20000 < 2 ^ 17" by simp
  show "- (2 ^ 17) \<le> uint (d + 0x20000) - 0x20000" by simp
  have "(word_of_int (uint (d + 0x20000) - 0x20000) :: ulong) = word_of_int (uint (d + 0x20000)) - 0x20000"
    unfolding of_int_diff by simp
  then show "d = word_of_int (uint (d + 0x20000) - 0x20000)" by simp
qed

lemma small_high_bits:
  assumes "- (2 ^ 17) \<le> k" and "k < 2 ^ 17" and "17 \<le> n"
  shows "bit (k :: int) n = bit k 17"
proof -
  have "signed_take_bit 17 k = k" using assms(1,2) by (simp add: signed_take_bit_int_eq_self_iff)
  then have "bit k n = bit (signed_take_bit 17 k) n" by simp
  also have "\<dots> = bit k 17" using assms(3) by (simp add: bit_signed_take_bit_iff min_def)
  finally show ?thesis .
qed

lemma reach_no_overflow:
  assumes "in_reach d" and "\<not> fx_signed f" and "fx_size f = 4"
  shows "check_overflow f d st = st"
proof -
  obtain k where k: "d = word_of_int k" "- (2 ^ 17) \<le> k" "k < 2 ^ 17" using in_reach_int [OF assms(1)] .
  define m where "m = (push_bit 32 (- 1) :: ulong)"
  have "d AND m = (if bit k 17 then m else 0)"
  proof (rule bit_word_eqI)
    fix n :: nat
    have "bit k n = bit k 17" if "32 \<le> n" using that by (intro small_high_bits [OF k(2,3)]) simp
    then show "bit (d AND m) n = bit (if bit k 17 then m else 0) n"
      unfolding k(1) m_def by (cases "32 \<le> n") (auto simp: bit_simps bit_word_of_int_iff)
  qed
  then have "d AND m = 0 \<or> d AND m = m" by simp
  moreover have "fx_size f * 8 - (if fx_signed f then 1 else 0) = 32" using assms(2,3) by simp
  ultimately show ?thesis unfolding check_overflow_def Let_def m_def by (metis (no_types))
qed

text \<open>A branch to a label of the section is done: the distance is all that \<open>md_apply_fix\<close> sees.\<close>

definition resolved :: "fix_entry \<Rightarrow> ulong \<Rightarrow> fix_entry" where
  "resolved f target = f\<lparr>fx_offset := target, fx_addsy := None, fx_pcrel := False, fx_done := True\<rparr>"

definition settle :: "fix_env \<Rightarrow> fix_entry \<Rightarrow> ulong \<Rightarrow> fix_state \<Rightarrow> fix_entry \<times> fix_state" where
  "settle e f v st = (let f = f\<lparr>fx_addnumber := v\<rparr>; (f, st) = (if fx_done f then (f, st) else mark_used e f st)
     in (f, check_overflow f v st))"

lemma settle_done: "fx_done f \<Longrightarrow> settle e f v st = (f\<lparr>fx_addnumber := v\<rparr>, check_overflow (f\<lparr>fx_addnumber := v\<rparr>) v st)"
  by (simp add: settle_def Let_def)

lemma local_branch_one:
  assumes "branch_fix f s" and "local_label e seg st s" and "x_howto e BFD_RELOC_16_PCREL_S2"
    and "target = fx_offset f + sy_value (xs_syms st s)"
    and "apply_branch e (resolved f target) (branch_distance e f target) st = Some (f', v, st')"
  shows "fixup_one e seg f st = Some (settle e f' v st')"
proof -
  note b = assms(1) [unfolded branch_fix_def]
  have g: "\<not> generic_force_reloc e f st" using b assms(2) by (simp add: generic_force_reloc_def local_label_def)
  have a: "subtract_symbol e f (fx_offset f) st = Some (f, fx_offset f, st)" using b by (simp add: subtract_symbol_def)
  let ?f = "f\<lparr>fx_offset := target, fx_addsy := None, fx_pcrel := False\<rparr>"
  have c: "add_symbol e seg f (fx_offset f) st = Some (?f, branch_distance e f target, st)"
    using b g assms(2,4) by (simp add: add_symbol_def mips_force_relocation_def md_pcrel_from_def local_label_def
        branch_distance_def fix_address_def Let_def)
  have m: "md_apply_fix e ?f (branch_distance e f target) st = Some (f'\<lparr>fx_addnumber := v\<rparr>, v, st')"
    using b assms(3,5) by (simp add: md_apply_fix_def resolved_def apply_value_def tls_reloc_def entry_reloc_def Let_def)
  have n: "subtract_pc e ?f (branch_distance e f target) st = (?f, branch_distance e f target, st)" "\<not> fx_done ?f"
    using b by (simp_all add: subtract_pc_def)
  show ?thesis
    by (simp add: fixup_one_def a c m n settle_def Let_def split: prod.split del: fix_info.simps)
       (use n(2) m in \<open>simp add: settle_def\<close>)?
qed

lemma always_branch_low:
  assumes "take_bit 32 x = take_bit 32 w"
  shows "always_branch x = always_branch w"
proof -
  have "y AND 0xffff0000 = take_bit 32 y AND 0xffff0000" for y :: ulong
    by (simp add: take_bit_eq_mask mask_eq_exp_minus_1 and.assoc)
  then show ?thesis using assms unfolding always_branch_def by metis
qed

lemma resolved_at [simp]: "fx_at (resolved f t) = fx_at f" "fx_done (resolved f t)" "fx_signed (resolved f t) = fx_signed f"
    "fx_size (resolved f t) = fx_size f" "fx_at (f\<lparr>fx_addnumber := v\<rparr>) = fx_at f"
  by (simp_all add: resolved_def)

lemma place_only: "fx_at f' = fx_at f \<Longrightarrow> holds_word e f' = holds_word e f \<and> write_at e f' = write_at e f \<and> insn_at e f' = insn_at e f"
  by (intro conjI ext) (simp_all add: holds_word_def write_at_def insn_at_def)

lemma reach_applied:
  assumes "holds_word e f st w" and "in_reach d" and "d AND 3 = 0"
  obtains st' where "apply_branch e (resolved f t) d st = Some (resolved f t, d, st')"
    "holds_word e f st' (take_bit 32 (w OR (drop_bit 2 d AND 0xffff)))" "same_elsewhere f st st'"
proof -
  note p = place_only [OF resolved_at(1), of e f t]
  obtain x where x: "insn_at e f st = Some x" "take_bit 32 x = take_bit 32 w" using insn_at_word [OF assms(1)] .
  obtain st' where st': "write_at e f 0 (x OR (drop_bit 2 d AND 0xffff)) 4 st = Some st'"
      "holds_word e f st' (take_bit 32 (x OR (drop_bit 2 d AND 0xffff)))" "same_elsewhere f st st'"
    using write_word [OF assms(1)] .
  show thesis
    by (rule that [of st'])
       (use st' x(1) assms(2,3) p in \<open>simp_all add: apply_branch_def in_reach_def Let_def take_bit_or x(2)\<close>)
qed

lemma local_branch_done:
  assumes "branch_fix f s" and "local_label e seg st s" and "x_howto e BFD_RELOC_16_PCREL_S2"
    and "t = fx_offset f + sy_value (xs_syms st s)" and "d = branch_distance e f t"
    and "holds_word e f st w" and "in_reach d" and "d AND 3 = 0"
  obtains st' where "fixup_one e seg f st = Some ((resolved f t)\<lparr>fx_addnumber := d\<rparr>, st')"
    "holds_word e f st' (take_bit 32 (w OR (drop_bit 2 d AND 0xffff)))" "same_elsewhere f st st'"
proof -
  obtain st' where a: "apply_branch e (resolved f t) d st = Some (resolved f t, d, st')"
      "holds_word e f st' (take_bit 32 (w OR (drop_bit 2 d AND 0xffff)))" "same_elsewhere f st st'"
    using reach_applied [OF assms(6-8)] .
  have "check_overflow ((resolved f t)\<lparr>fx_addnumber := d\<rparr>) d st' = st'"
    using assms(1) by (intro reach_no_overflow [OF assms(7)]) (simp_all add: branch_fix_def resolved_def)
  then have "settle e (resolved f t) d st' = ((resolved f t)\<lparr>fx_addnumber := d\<rparr>, st')"
    by (simp add: settle_def resolved_def)
  then show thesis
    using local_branch_one [OF assms(1-4) a(1) [unfolded assms(5)]] a(2,3) that assms(5) by simp
qed

text \<open>Out of reach, a branch whose word is not an unconditional MIPS branch is reported and left alone.\<close>

lemma far_branch_reported:
  assumes "branch_fix f s" and "local_label e seg st s" and "x_howto e BFD_RELOC_16_PCREL_S2"
    and "holds_word e f st w" and "\<not> always_branch w"
    and "\<not> in_reach (branch_distance e f (fx_offset f + sy_value (xs_syms st s)))"
  shows "\<exists>f' st'. fixup_one e seg f st = Some (f', st') \<and> fx_done f' \<and> xs_literal st' = xs_literal st
    \<and> xs_syms st' = xs_syms st \<and> Branch_out_of_range \<in> set (xs_msgs st')"
proof -
  let ?t = "fx_offset f + sy_value (xs_syms st s)"
  let ?d = "branch_distance e f ?t"
  let ?st = "if ?d AND 3 \<noteq> 0 then complain (Misaligned_branch ?d) st else st"
  note p = place_only [OF resolved_at(1), of e f ?t]
  have "holds_word e f ?st w" using assms(4) by (simp add: holds_word_def complain_def)
  then obtain x where x: "insn_at e f ?st = Some x" "take_bit 32 x = take_bit 32 w" using insn_at_word by blast
  have "\<not> always_branch x" using assms(5) always_branch_low [OF x(2)] by simp
  then have "apply_branch e (resolved f ?t) ?d st = Some (resolved f ?t, ?d, complain Branch_out_of_range ?st)"
    using x(1) assms(6) p by (simp add: apply_branch_def in_reach_def Let_def)
  note 1 = local_branch_one [OF assms(1-3) refl this]
  have c: "xs_literal (check_overflow g v s) = xs_literal s" "Branch_out_of_range \<in> set (xs_msgs s) \<Longrightarrow>
      Branch_out_of_range \<in> set (xs_msgs (check_overflow g v s))" for g v s
    by (simp_all add: check_overflow_def complain_def Let_def)
  let ?s = "complain Branch_out_of_range ?st"
  have s: "xs_literal ?s = xs_literal st" "xs_syms ?s = xs_syms st" "Branch_out_of_range \<in> set (xs_msgs ?s)"
    by (simp_all add: complain_def)
  have "settle e (resolved f ?t) ?d ?s = ((resolved f ?t)\<lparr>fx_addnumber := ?d\<rparr>,
      check_overflow ((resolved f ?t)\<lparr>fx_addnumber := ?d\<rparr>) ?d ?s)"
    by (rule settle_done) simp
  moreover have "fx_done ((resolved f ?t)\<lparr>fx_addnumber := ?d\<rparr>)" by (simp add: resolved_def)
  ultimately show ?thesis
    unfolding 1 using c(1) c(2) [OF s(3)] check_overflow_syms s(1,2) by metis
qed

text \<open>A branch to a symbol of another section, or one that the linker may override, is left to the linker.\<close>

definition external_label :: "fix_env \<Rightarrow> segT \<Rightarrow> fix_state \<Rightarrow> any_symbol \<Rightarrow> bool" where
  "external_label e seg st s \<longleftrightarrow> S_FORCE_RELOC (x_elf e) (xs_syms st s) True
     \<or> sy_segment (xs_syms st s) \<noteq> seg \<and> sy_segment (xs_syms st s) \<noteq> absolute_section"

lemma external_branch_left:
  assumes "branch_fix f s" and "external_label e seg st s" and "x_howto e BFD_RELOC_16_PCREL_S2" and "x_elf e"
  shows "\<exists>f' st' st'' r. fixup_one e seg f st = Some (f', st') \<and> \<not> fx_done f' \<and> xs_literal st' = xs_literal st
    \<and> tc_gen_reloc e f' st' = Some (Some r, st'') \<and> ar_sym r = s \<and> ar_code r = BFD_RELOC_16_PCREL_S2
    \<and> ar_address r = fix_address e f \<and> ar_addend r = fx_offset f - 4"
proof -
  note b = assms(1) [unfolded branch_fix_def]
  let ?n = "fx_offset f - (fix_address e f + 4)"
  let ?st = "if ?n AND 3 \<noteq> 0 then complain (Misaligned_branch ?n) st else st"
  let ?f = "f\<lparr>fx_addnumber := ?n\<rparr>"
  let ?m = "mark_used e ?f ?st"
  have force: "mips_force_relocation e f st = Some (S_FORCE_RELOC (x_elf e) (xs_syms st s) True)"
    using b by (auto simp: mips_force_relocation_def generic_force_reloc_def)
  have 1: "subtract_symbol e f (fx_offset f) st = Some (f, fx_offset f, st)" using b by (simp add: subtract_symbol_def)
  have 2: "add_symbol e seg f (fx_offset f) st = Some (f, fx_offset f, st)"
    using b assms(2) force by (auto simp: add_symbol_def external_label_def Let_def)
  have 3: "subtract_pc e f (fx_offset f) st = (f, ?n, st)"
    using b by (simp add: subtract_pc_def md_pcrel_from_def fix_address_def Let_def)
  have 4: "md_apply_fix e f ?n st = Some (?f, ?n, ?st)"
    using b assms(3) by (simp add: md_apply_fix_def apply_value_def tls_reloc_def entry_reloc_def apply_branch_def Let_def)
  have d: "\<not> fx_done ?f" "fx_addsy ?f = Some s" "fx_subsy ?f = None" using b by simp_all
  have m: "?m = (?f, set_sym s symbol_mark_used_in_reloc ?st)" using d by (simp add: mark_used_def Let_def)
  let ?s = "check_overflow ?f ?n (set_sym s symbol_mark_used_in_reloc ?st)"
  have f: "fixup_one e seg f st = Some (?f, ?s)"
    using 1 2 3 4 b m unfolding fixup_one_def by (simp add: Let_def)
  have l: "xs_literal ?s = xs_literal st" by (simp add: check_overflow_def complain_def set_sym_def Let_def)
  have "tc_gen_reloc e ?f s' = Some (Some \<lparr>ar_sym = s, ar_address = fix_address e f, ar_addend = fx_offset f - 4,
      ar_code = BFD_RELOC_16_PCREL_S2\<rparr>, set_sym s local_symbol_convert s')" for s'
    using b assms(3,4) by (simp add: tc_gen_reloc_def fix_address_def Let_def)
  note t = this [of ?s]
  show ?thesis by (intro exI conjI, rule f, rule d(1), rule l, rule t) simp_all
qed

section \<open>Every relocation can be made\<close>

text \<open>Only a fixup that was pc-relative as a branch is pc-relative after \<open>md_apply_fix\<close>.\<close>

definition pcrel_ok :: "fix_entry \<Rightarrow> bool" where
  "pcrel_ok f \<longleftrightarrow> (fx_pcrel f \<longrightarrow> fx_r_type f = BFD_RELOC_16_PCREL_S2)"

lemma branch_pcrel:
  assumes "apply_branch e f v st = Some (f', v', st')" and "fx_done f \<longrightarrow> \<not> fx_pcrel f" and "pcrel_ok f"
  shows "pcrel_ok f'"
  using assms
  by (auto simp: apply_branch_def pcrel_ok_def Let_def Option.bind_eq_Some_conv md_pcrel_from_def split: if_splits)

lemma value_pcrel:
  assumes "apply_value e f v st = Some (f', v', st')" and "fx_done f \<longrightarrow> \<not> fx_pcrel f" and "pcrel_ok f"
  shows "pcrel_ok f'"
  using assms branch_pcrel [OF _ assms(2,3)] unfolding apply_value_def Let_def
  by (auto simp: pcrel_ok_def split: if_splits option.splits)

lemma apply_pcrel:
  assumes "md_apply_fix e f v st = Some (f', v', st')" and "\<not> fx_done f" and "x_howto e (fx_r_type f')"
  shows "pcrel_ok f'"
proof (cases "x_howto e (fx_r_type f)")
  case False
  then show ?thesis using assms by (auto simp: md_apply_fix_def)
next
  case True
  define g where "g = (if fx_addsy f = None \<and> \<not> fx_pcrel f \<and> \<not> fx_tcbit f then f\<lparr>fx_done := True\<rparr> else f)"
  obtain h where h: "apply_value e g v st = Some (h, v', st')" "f' = h\<lparr>fx_addnumber := v'\<rparr>"
    using assms(1) True by (auto simp: md_apply_fix_def g_def [symmetric] Let_def split: if_splits)
  have "pcrel_ok g" "fx_done g \<longrightarrow> \<not> fx_pcrel g"
    using assms(1,2) True by (auto simp: md_apply_fix_def g_def pcrel_ok_def split: if_splits)
  then have "pcrel_ok h" using value_pcrel [OF h(1)] by simp
  then show ?thesis using h(2) by (simp add: pcrel_ok_def)
qed

lemma fixup_one_pcrel:
  assumes "fixup_one e seg f st = Some (f', st')" and "\<not> fx_done f'" and "x_howto e (fx_r_type f')"
  shows "pcrel_ok f'"
proof -
  obtain f3 n3 s3 f4 n4 s4 s5 where 4: "(if fx_done f3 then Some (f3, n3, s3) else md_apply_fix e f3 n3 s3) = Some (f4, n4, s4)"
      and 5: "(if fx_done f4 then (f4, s4) else mark_used e f4 s4) = (f', s5)"
    using fixup_one_parts [OF assms(1)] by metis
  have same: "fx_done f' = fx_done f4 \<and> fx_pcrel f' = fx_pcrel f4 \<and> fx_r_type f' = fx_r_type f4"
    using 5 by (auto simp: mark_used_def Let_def split: option.splits if_splits)
  then have "\<not> fx_done f4" using assms(2) by simp
  then have "\<not> fx_done f3" "md_apply_fix e f3 n3 s3 = Some (f4, n4, s4)" using 4 by (auto split: if_splits)
  then have "pcrel_ok f4" using apply_pcrel assms(3) same by simp
  then show ?thesis using same by (simp add: pcrel_ok_def)
qed

lemma segment_pcrel:
  "fixup_segment e seg fs st = Some (n, fs', st') \<Longrightarrow> \<not> x_linkrelax e \<Longrightarrow>
     list_all (\<lambda>f. \<not> fx_done f \<and> x_howto e (fx_r_type f) \<longrightarrow> pcrel_ok f) fs'"
proof (induction fs arbitrary: st n fs' st')
  case (Cons f fs)
  obtain f1 s1 k fs1 where "fixup_one e seg f st = Some (f1, s1)" "fixup_segment e seg fs s1 = Some (k, fs1, st')" "fs' = f1 # fs1"
    using Cons.prems by (auto simp: Option.bind_eq_Some_conv split: if_splits)
  then show ?case using Cons.IH Cons.prems(2) fixup_one_pcrel by simp
qed simp

lemma reloc_made:
  assumes "fx_addsy f = Some a" and "x_howto e (fx_r_type f)" and "pcrel_ok f"
  shows "\<exists>r st'. tc_gen_reloc e f st = Some (Some r, st') \<and> ar_sym r = a \<and> ar_code r = fx_r_type f"
proof -
  have p: "\<not> (fx_pcrel f \<and> fx_r_type f \<noteq> BFD_RELOC_16_PCREL_S2)" using assms(3) by (simp add: pcrel_ok_def)
  show ?thesis unfolding tc_gen_reloc_def Let_def assms(1) Option.bind.simps if_not_P [OF p] using assms(2)
    by (simp split: prod.split)
qed

section \<open>Properties\<close>

text \<open>C26: what \<open>fixup_segment\<close> counts are the relocations that \<open>tc_gen_reloc\<close> can make. Whatever the fixups, symbols and
  bytes, when the pass ends the count is the number of fixups that are not done; each of them has a symbol, no longer
  a \<open>struct local_symbol\<close>, that is marked as used in a relocation, so that it reaches the symbol table, and no symbol
  marked before loses its mark. Unless the linker relaxes, \<open>tc_gen_reloc\<close> then makes for each of them, when the object
  format knows its type, a relocation of that type to that symbol: the assertion that a pc-relative one is a branch holds.\<close>

theorem relocations_made:
  assumes "fixup_segment e seg fs st = Some (n, fs', st')"
  shows "length fs' = length fs \<and> n = length (filter (\<lambda>f. \<not> fx_done f) fs')
    \<and> (\<forall>f\<in>set fs'. \<not> fx_done f \<longrightarrow> (\<exists>a. fx_addsy f = Some a \<and> \<not> sy_local (xs_syms st' a) \<and> sy_used_in_reloc (xs_syms st' a)
         \<and> (\<not> x_linkrelax e \<and> x_howto e (fx_r_type f) \<longrightarrow>
              (\<exists>r st''. tc_gen_reloc e f st' = Some (Some r, st'') \<and> ar_sym r = a \<and> ar_code r = fx_r_type f))))
    \<and> (\<forall>a. \<not> sy_local (xs_syms st a) \<and> sy_used_in_reloc (xs_syms st a) \<longrightarrow>
         \<not> sy_local (xs_syms st' a) \<and> sy_used_in_reloc (xs_syms st' a))"
proof -
  note s = segment_relocs [OF assms]
  have "\<exists>a. fx_addsy f = Some a \<and> in_reloc (xs_syms st' a) \<and> (\<not> x_linkrelax e \<and> x_howto e (fx_r_type f) \<longrightarrow>
      (\<exists>r st''. tc_gen_reloc e f st' = Some (Some r, st'') \<and> ar_sym r = a \<and> ar_code r = fx_r_type f))"
    if f: "f \<in> set fs'" "\<not> fx_done f" for f
  proof -
    obtain a where a: "fx_addsy f = Some a" "in_reloc (xs_syms st' a)" using s f by (auto simp: list_all_iff reloc_ready_def)
    have "pcrel_ok f" if "\<not> x_linkrelax e" "x_howto e (fx_r_type f)"
      using segment_pcrel [OF assms that(1)] f that(2) by (simp add: list_all_iff)
    then show ?thesis using a reloc_made [OF a(1)] by blast
  qed
  then show ?thesis using s unfolding in_reloc_def marks_stay_def by blast
qed

text \<open>A branch to a symbol that is not defined here, in a section of its own.\<close>

definition sample_fix_env :: fix_env where
  "sample_fix_env = \<lparr>x_big = True, x_pic = NO_PIC, x_abi = O32_ABI, x_elf = True, x_linkrelax = False, x_howto = (\<lambda>_. True),
     x_address = (\<lambda>_. 0x1000), x_now_seg = Section 0, x_text_section = Section 0, x_text_vma = 0, x_text_size = 0x2000,
     x_section_symbol = (\<lambda>_. Named ''*ABS*''), x_sec_tls = (\<lambda>_. False), x_sec_merge = (\<lambda>_. False)\<rparr>"

definition sample_fixup :: fix_entry where
  "sample_fixup = \<lparr>fx_size = 4, fx_addsy = Some (Named ''foo''), fx_subsy = None, fx_offset = 0, fx_pcrel = True,
     fx_r_type = BFD_RELOC_16_PCREL_S2, fx_no_overflow = False, fx_tcbit = False, fx_at = \<lparr>fx_frag = 0, fx_where = 0\<rparr>,
     fx_done = False, fx_signed = False, fx_bit_fixP = False, fx_addnumber = 0\<rparr>"

definition sample_fix_state :: fix_state where
  "sample_fix_state = \<lparr>xs_literal = [0 \<mapsto> [0x50, 0x80, 0, 0]], xs_syms = (\<lambda>_. \<lparr>sy_local = False, sy_segment = undefined_section,
     sy_value = 0, sy_weak = False, sy_global = True, sy_tls = False, sy_function = False, sy_weakrefr = None,
     sy_used_in_reloc = False, sy_mips16 = False, sy_tc = False\<rparr>), xs_msgs = []\<rparr>"

theorem relocations_made_witness:
  "\<exists>f st' r st''. fixup_segment sample_fix_env (Section 0) [sample_fixup] sample_fix_state = Some (1, [f], st')
    \<and> fx_addsy f = Some (Named ''foo'') \<and> sy_used_in_reloc (xs_syms st' (Named ''foo''))
    \<and> tc_gen_reloc sample_fix_env f st' = Some (Some r, st'') \<and> ar_sym r = Named ''foo'' \<and> ar_code r = BFD_RELOC_16_PCREL_S2"
proof -
  have b: "branch_fix sample_fixup (Named ''foo'')" by (simp add: branch_fix_def sample_fixup_def)
  have x: "external_label sample_fix_env (Section 0) sample_fix_state (Named ''foo'')"
    by (simp add: external_label_def S_FORCE_RELOC_def sample_fix_state_def)
  have e: "x_howto sample_fix_env BFD_RELOC_16_PCREL_S2" "x_elf sample_fix_env" "\<not> x_linkrelax sample_fix_env" "\<And>r. x_howto sample_fix_env r"
    by (simp_all add: sample_fix_env_def)
  obtain f st' q st1 where f: "fixup_one sample_fix_env (Section 0) sample_fixup sample_fix_state = Some (f, st')" "\<not> fx_done f"
      "tc_gen_reloc sample_fix_env f st' = Some (Some q, st1)" "ar_sym q = Named ''foo''" "ar_code q = BFD_RELOC_16_PCREL_S2"
    using external_branch_left [OF b x e(1,2)] by blast
  then have s: "fixup_segment sample_fix_env (Section 0) [sample_fixup] sample_fix_state = Some (1, [f], st')" using e(3) by simp
  from relocations_made [OF s] f(2) e(3,4) obtain a r st'' where
    "fx_addsy f = Some a" "sy_used_in_reloc (xs_syms st' a)" "tc_gen_reloc sample_fix_env f st' = Some (Some r, st'')"
    "ar_sym r = a" "ar_code r = fx_r_type f" by auto
  then show ?thesis using s f(3-5) by auto
qed

end
