(* ===== verification/Rigel_Branch.thy ===== *)
theory Rigel_Branch
  imports Rigel_Lines Gas_Fix Dis_Entry
begin

text \<open>
  Rigel branches and jumps to labels, all the way: the line leaves a fixup, \<open>fixup_segment\<close> turns the label into a
  displacement in the bytes of the frag, and the disassembler prints the address of the label.
\<close>

section \<open>From bytes to text\<close>

text \<open>Four bytes that hold the word of an entry, read through the entry point of their byte order.\<close>

lemma word_disassembles:
  assumes "mo \<in> set mips_builtin_opcodes" and "args_fields (op_args mo) = Some fs" and "length vs = length fs"
    and "bfd_get_32 big bs = encode_insn opts mo vs"
    and "hint_ok dst" and "rigel_hash_ok dst" and "rigel_file (i_file info)" and "memaddr AND 1 = 0"
  shows "\<exists>dst' i. dis_print_insn (\<lambda>a n. if a = memaddr \<and> n = 4 then Inr bs else Inl 1) False big memaddr dst info
        = Inr (4, dst', i)
    \<and> i_stream i = i_stream info @ Put (op_name mo) # (if op_args mo = [] then [] else
        Put '' '' # operand_events (parse_mips_dis_options (di_options (i_file info))
            (set_default_mips_dis_options (i_file info) dst)) memaddr (op_args mo)
          (map2 (\<lambda>f v. v AND op_mask f) fs vs))"
proof -
  let ?dst = "parse_mips_dis_options (di_options (i_file info)) (set_default_mips_dis_options (i_file info) dst)"
  obtain dst' i where p: "print_insn_mips mips_builtin_opcodes memaddr (bfd_get_32 big bs) ?dst info
        = Some (INSNLEN, dst', i)"
      "i_stream i = i_stream info @ Put (op_name mo) # (if op_args mo = [] then [] else
        Put '' '' # operand_events ?dst memaddr (op_args mo) (map2 (\<lambda>f v. v AND op_mask f) fs vs))"
    using encode_prints [OF rigel_file_session(1) [OF assms(5-7)] assms(1-3), of memaddr opts info]
    unfolding assms(4) by blast
  have "dis_print_insn (\<lambda>a n. if a = memaddr \<and> n = 4 then Inr bs else Inl 1) False big memaddr dst info
      = Inr (4, dst', i)"
    using p(1) by (simp add: rigel_entry_word [OF assms(7,8)] Let_def in_bounds_def INSNLEN_def bfd_get_32_def)
  then show ?thesis using p(2) by blast
qed

section \<open>The line of a branch\<close>

text \<open>Registers, then a symbol and an offset where the entry has the letter \<open>p\<close>.\<close>

definition branch_operands :: "session \<Rightarrow> nat \<Rightarrow> operand_src list \<Rightarrow> cstring \<Rightarrow> expressionS \<Rightarrow> bool" where
  "branch_operands se i ropds t ep \<longleftrightarrow> i < 138
     \<and> (let letters = operand_letters_of (op_args (mips_builtin_opcodes ! i)) in
        letters \<noteq> [] \<and> last letters = CHR ''p''
        \<and> list_all2 (operand_ok (env_expr (s_ienv se))) letters (ropds @ [Expr_op t ep]))
     \<and> X_op ep = O_symbol \<and> X_add_symbol ep \<noteq> None"

definition branch_values :: "nat \<Rightarrow> operand_src list \<Rightarrow> ulong \<Rightarrow> ulong list" where
  "branch_values i ropds v = map2 operand_value (butlast (operand_letters_of (op_args (mips_builtin_opcodes ! i)))) ropds @ [v]"

definition branch_word :: "session \<Rightarrow> nat \<Rightarrow> operand_src list \<Rightarrow> ulong \<Rightarrow> ulong" where
  "branch_word se i ropds v = encode_insn (s_opts se) (mips_builtin_opcodes ! i) (branch_values i ropds v)"

lemma branch_shape:
  assumes "branch_operands se i ropds t ep"
  obtains regs ns where "i < 138" and "operand_letters_of (op_args (mips_builtin_opcodes ! i)) = regs @ [CHR ''p'']"
    and "list_all register_letter regs" and "ropds = map Reg_op ns" and "length regs = length ns"
    and "args_fields (op_args (mips_builtin_opcodes ! i)) = Some (register_fields regs @ [F_DELTA])"
    and "\<And>st. take_operands regs ropds st = st\<lparr>ip_insn := (ip_insn st)\<lparr>insn_opcode :=
      insert_fields (register_fields regs) (map word_of_nat ns) (insn_opcode (ip_insn st))\<rparr>\<rparr>"
    and "branch_values i ropds = (\<lambda>v. map word_of_nat ns @ [v])"
proof -
  let ?letters = "operand_letters_of (op_args (mips_builtin_opcodes ! i))"
  have i: "i < 138" and p: "?letters \<noteq> []" "last ?letters = CHR ''p''"
      and ok: "list_all2 (operand_ok (env_expr (s_ienv se))) ?letters (ropds @ [Expr_op t ep])"
    using assms by (simp_all add: branch_operands_def Let_def)
  have vals: "map2 operand_value regs (map Reg_op ns) = map word_of_nat ns" if "length regs = length ns" for regs ns
    using that by (induction regs ns rule: list_induct2) simp_all
  show thesis
    using rigel_args_of [OF rigel_nth_mem [OF i]]
  proof (cases rule: args_shape)
    case (1 regs)
    then have "register_letter (CHR ''p'')" using p by (auto simp: list_all_iff dest: last_in_set)
    then show ?thesis by (simp add: register_letter_def)
  next
    case (2 regs c f)
    have c: "c = CHR ''p''" using p 2(2) by simp
    then have f: "f = F_DELTA" using 2(4) by simp
    have r: "list_all2 (operand_ok (env_expr (s_ienv se))) regs ropds"
      using ok unfolding 2(2) by (auto simp: list_all2_append1 list_all2_Cons1)
    obtain ns where ns: "ropds = map Reg_op ns" "\<And>st. take_operands regs ropds st = st\<lparr>ip_insn := (ip_insn st)\<lparr>insn_opcode :=
        insert_fields (register_fields regs) (map word_of_nat ns) (insn_opcode (ip_insn st))\<rparr>\<rparr>"
      using take_registers [OF 2(1) r] by blast
    have l: "length regs = length ns" using r ns(1) by (auto dest: list_all2_lengthD)
    have v: "branch_values i ropds = (\<lambda>v. map word_of_nat ns @ [v])"
      by (rule ext) (simp add: branch_values_def 2(2) ns(1) vals [OF l])
    show ?thesis by (rule that [OF i 2(2) [unfolded c] 2(1) ns(1) l 2(3) [unfolded f] ns(2) v])
  qed
qed

text \<open>The displacement goes into an empty field.\<close>

lemma branch_word_parts:
  assumes "branch_operands se i ropds t ep"
  shows "branch_word se i ropds v = branch_word se i ropds 0 OR (v AND 0xffff)"
    and "take_bit 32 (branch_word se i ropds v) = branch_word se i ropds v"
    and "insn_opcode (ip_insn s) = op_match (mips_builtin_opcodes ! i) \<Longrightarrow>
      insn_opcode (ip_insn (take_operands (operand_letters_of (op_args (mips_builtin_opcodes ! i))) (ropds @ [Expr_op t ep]) s))
        = branch_word se i ropds 0"
    and "fresh_operands (mips_builtin_opcodes ! i) s \<Longrightarrow>
      operand_of (take_operands (operand_letters_of (op_args (mips_builtin_opcodes ! i))) (ropds @ [Expr_op t ep]) s)
        = (Some ep, [BFD_RELOC_16_PCREL_S2, BFD_RELOC_UNUSED, BFD_RELOC_UNUSED])"
proof -
  let ?mo = "mips_builtin_opcodes ! i"
  obtain regs ns where s: "i < 138" "operand_letters_of (op_args ?mo) = regs @ [CHR ''p'']" "list_all register_letter regs"
      "ropds = map Reg_op ns" "length regs = length ns" "args_fields (op_args ?mo) = Some (register_fields regs @ [F_DELTA])"
      "\<And>st. take_operands regs ropds st = st\<lparr>ip_insn := (ip_insn st)\<lparr>insn_opcode :=
        insert_fields (register_fields regs) (map word_of_nat ns) (insn_opcode (ip_insn st))\<rparr>\<rparr>"
      "branch_values i ropds = (\<lambda>v. map word_of_nat ns @ [v])"
    using branch_shape [OF assms] by blast
  have wf: "disjoint_fields (op_msk ?mo) (register_fields regs @ [F_DELTA])" "op_msk ?mo AND op_match ?mo = op_match ?mo"
    using rigel_well_formed [OF rigel_nth_mem [OF s(1)]] s(6) by (simp_all add: well_formed_entry_def)
  have w: "branch_word se i ropds v = insert_fields (register_fields regs) (map word_of_nat ns) (op_match ?mo) OR (v AND 0xffff)" for v
    using last_field_or [OF wf, of "map word_of_nat ns" v] s(5)
    by (simp add: branch_word_def encode_insn_fields [OF s(6)] s(8) register_fields_def F_DELTA_def)
  show "branch_word se i ropds v = branch_word se i ropds 0 OR (v AND 0xffff)" unfolding w by simp
  show "take_bit 32 (branch_word se i ropds v) = branch_word se i ropds v"
    unfolding branch_word_def by (rule low_half_word [OF encode_matches(2) [OF rigel_well_formed [OF rigel_nth_mem [OF s(1)]] s(6)]])
  have t: "take_operands (operand_letters_of (op_args ?mo)) (ropds @ [Expr_op t ep]) s
      = take_operand (CHR ''p'') (Expr_op t ep) (take_operands regs ropds s)"
    using s(4,5) by (simp add: s(2) take_operands_def)
  show "insn_opcode (ip_insn s) = op_match ?mo \<Longrightarrow>
      insn_opcode (ip_insn (take_operands (operand_letters_of (op_args ?mo)) (ropds @ [Expr_op t ep]) s)) = branch_word se i ropds 0"
    unfolding t w by (simp add: s(7))
  show "fresh_operands ?mo s \<Longrightarrow> operand_of (take_operands (operand_letters_of (op_args ?mo)) (ropds @ [Expr_op t ep]) s)
        = (Some ep, [BFD_RELOC_16_PCREL_S2, BFD_RELOC_UNUSED, BFD_RELOC_UNUSED])"
    using assms unfolding t by (simp add: s(7) operand_of_def fresh_operands_def no_relocs_def branch_operands_def)
qed

lemma branch_line_assembled:
  assumes "rigel_session_ok se" and "branch_operands se i ropds t ep" and "output_ok g mem"
  shows "\<exists>st' g' bs. assemble se (line_text i (ropds @ [Expr_op t ep])) st g = Asm_ok st' g' \<and> output_ok g' (mem @ bs) \<and> length bs = 4
    \<and> bfd_get_32 (a_big (s_aenv se)) bs = branch_word se i ropds 0 \<and> g_now g' = g_now g \<and> g_msgs g' = g_msgs g
    \<and> g_fixes g' = g_fixes g @ [symbol_fix (s_aenv se) (the (X_add_symbol ep)) (X_add_number ep) BFD_RELOC_16_PCREL_S2]
    \<and> fixes_of (g_store g') (length (g_fixes g)) = Some \<lparr>fx_frag = g_now g, fx_where = length mem\<rparr>
    \<and> (\<forall>n. n \<noteq> length (g_fixes g) \<longrightarrow> fixes_of (g_store g') n = fixes_of (g_store g) n) \<and> ip_events st' = ip_events st"
proof -
  note f = session_facts [OF assms(1)]
  let ?mo = "mips_builtin_opcodes ! i"
  let ?letters = "operand_letters_of (op_args ?mo)"
  have i: "i < 138" and ok: "list_all2 (operand_ok (env_expr (s_ienv se))) ?letters (ropds @ [Expr_op t ep])"
      and e: "X_op ep = O_symbol" "X_add_symbol ep = Some (the (X_add_symbol ep))"
    using assms(2) by (auto simp: branch_operands_def Let_def)
  note m = rigel_nth_mem [OF i]
  let ?s = "start_entry (s_opts se) ?mo ((reset_operands st)\<lparr>lastpos := 0\<rparr>)"
  let ?st = "take_operands ?letters (ropds @ [Expr_op t ep]) ?s"
  have p: "mips_ip (s_opts se) (s_ienv se) mips_builtin_opcodes (first_entry mips_builtin_opcodes) (line_text i (ropds @ [Expr_op t ep]))
      (reset_operands st) = Ip_done ?st"
    by (rule line_parses [OF f(4,3) i ok])
  have fresh: "fresh_operands ?mo ?s" by (simp add: fresh_operands_def start_entry_def reset_operands_def create_insn_def)
  have k: "insn_mo (ip_insn ?st) = ?mo" "ip_error ?st = None" "no_fixups (ip_insn ?st)" "ip_events ?st = ip_events st"
    using take_operands_keep [of ?letters "ropds @ [Expr_op t ep]" ?s]
    by (simp_all add: start_entry_def create_insn_def no_fixups_def reset_operands_def)
  have w: "insn_opcode (ip_insn ?st) = branch_word se i ropds 0"
    using fresh by (intro branch_word_parts(3) [OF assms(2)]) (simp add: fresh_operands_def)
  have a: "operand_of ?st = (Some ep, [BFD_RELOC_16_PCREL_S2, BFD_RELOC_UNUSED, BFD_RELOC_UNUSED])"
    by (rule branch_word_parts(4) [OF assms(2) fresh])
  have h: "no_hazard (insn_mo (ip_insn ?st))" using rigel_no_hazard [OF m] k(1) by simp
  have q: "quiet_state g" "fr_literal (g_store g) (g_now g) = Some mem" using assms(3) by (simp_all add: output_ok_def)
  obtain g' bs where g': "append_insn (s_opts se) (s_aenv se) (ip_insn ?st) (Some ep)
        [BFD_RELOC_16_PCREL_S2, BFD_RELOC_UNUSED, BFD_RELOC_UNUSED] g = Some g'" "quiet_state g'"
      "fr_literal (g_store g') (g_now g) = Some (mem @ bs)" "length bs = 4"
      "bfd_get_32 (a_big (s_aenv se)) bs = take_bit 32 (insn_opcode (ip_insn ?st))" "g_now g' = g_now g" "g_msgs g' = g_msgs g"
      "g_fixes g' = g_fixes g @ [symbol_fix (s_aenv se) (the (X_add_symbol ep)) (X_add_number ep) BFD_RELOC_16_PCREL_S2]"
      "fixes_of (g_store g') (length (g_fixes g)) = Some \<lparr>fx_frag = g_now g, fx_where = length mem\<rparr>"
      "\<forall>n. n \<noteq> length (g_fixes g) \<longrightarrow> fixes_of (g_store g') n = fixes_of (g_store g) n"
    using quiet_append_symbol [OF q(1) h f(1) q(2) f(2) _ e, where r = BFD_RELOC_16_PCREL_S2 and env = "s_aenv se"] k(3) by auto
  have "assemble se (line_text i (ropds @ [Expr_op t ep])) st g = Asm_ok ?st g'"
    using g'(1) k(1) m by (intro assemble_parsed [OF assms(1) p k(2) _ a]) simp_all
  moreover have "bfd_get_32 (a_big (s_aenv se)) bs = branch_word se i ropds 0"
    unfolding g'(5) w by (rule branch_word_parts(2) [OF assms(2)])
  moreover have "output_ok g' (mem @ bs)" using g'(2,3,6) by (simp add: output_ok_def)
  ultimately show ?thesis using g' k(4) by blast
qed

section \<open>A program with labels\<close>

text \<open>Its lines: with proper operands, or a branch or jump to a symbol and an offset.\<close>

datatype code_line = Plain nat "operand_src list" | To_label nat "operand_src list" cstring expressionS

fun code_text :: "code_line \<Rightarrow> cstring" where
  "code_text (Plain i opds) = line_text i opds"
| "code_text (To_label i ropds t ep) = line_text i (ropds @ [Expr_op t ep])"

fun code_ok :: "session \<Rightarrow> code_line \<Rightarrow> bool" where
  "code_ok se (Plain i opds) = good_operands se i opds"
| "code_ok se (To_label i ropds t ep) = branch_operands se i ropds t ep"

text \<open>The label of a line, and the word of the line when the displacement, in words, is known.\<close>

fun code_label :: "code_line \<Rightarrow> (cstring \<times> ulong) option" where
  "code_label (Plain i opds) = None"
| "code_label (To_label i ropds t ep) = Some (the (X_add_symbol ep), X_add_number ep)"

fun code_word :: "session \<Rightarrow> code_line \<Rightarrow> ulong \<Rightarrow> ulong" where
  "code_word se (Plain i opds) v = line_word_of se i opds"
| "code_word se (To_label i ropds t ep) v = branch_word se i ropds v"

text \<open>The fixups of the lines, the first line at \<open>at\<close>.\<close>

fun code_fixes :: "session \<Rightarrow> nat \<Rightarrow> nat \<Rightarrow> code_line list \<Rightarrow> (fix_info \<times> fixS) list" where
  "code_fixes se fr at [] = []"
| "code_fixes se fr at (l # ls) =
     (case code_label l of
        None \<Rightarrow> []
      | Some (name, off) \<Rightarrow> [(symbol_fix (s_aenv se) name off BFD_RELOC_16_PCREL_S2, \<lparr>fx_frag = fr, fx_where = at\<rparr>)])
     @ code_fixes se fr (at + 4) ls"

definition places_kept :: "gas_state \<Rightarrow> gas_state \<Rightarrow> bool" where
  "places_kept g g' \<longleftrightarrow> length (g_fixes g) \<le> length (g_fixes g')
     \<and> (\<forall>n < length (g_fixes g). fixes_of (g_store g') n = fixes_of (g_store g) n)"

lemma code_assembled:
  assumes "rigel_session_ok se" and "list_all (code_ok se) prog" and "output_ok g mem"
  shows "\<exists>st' g' words fx. assemble_lines se (map code_text prog) st g = Asm_ok st' g'
    \<and> output_ok g' (mem @ concat words) \<and> list_all (\<lambda>bs. length bs = 4) words
    \<and> map (bfd_get_32 (a_big (s_aenv se))) words = map (\<lambda>l. code_word se l 0) prog
    \<and> g_msgs g' = g_msgs g \<and> g_now g' = g_now g \<and> places_kept g g'
    \<and> fx = code_fixes se (g_now g) (length mem) prog \<and> g_fixes g' = g_fixes g @ map fst fx
    \<and> (\<forall>k < length fx. fixes_of (g_store g') (length (g_fixes g) + k) = Some (snd (fx ! k))) \<and> ip_events st' = ip_events st"
  using assms(2,3)
proof (induction prog arbitrary: st g mem)
  case Nil
  then show ?case by (auto simp: places_kept_def intro!: exI [of _ "[]"])
next
  case (Cons l prog)
  define fx1 where "fx1 = (case code_label l of None \<Rightarrow> []
      | Some (name, off) \<Rightarrow> [(symbol_fix (s_aenv se) name off BFD_RELOC_16_PCREL_S2, \<lparr>fx_frag = g_now g, fx_where = length mem\<rparr>)])"
  obtain st1 g1 bs where 1: "assemble se (code_text l) st g = Asm_ok st1 g1" "output_ok g1 (mem @ bs)" "length bs = 4"
      "bfd_get_32 (a_big (s_aenv se)) bs = code_word se l 0" "g_now g1 = g_now g" "g_msgs g1 = g_msgs g"
      "g_fixes g1 = g_fixes g @ map fst fx1"
      "\<forall>k < length fx1. fixes_of (g_store g1) (length (g_fixes g) + k) = Some (snd (fx1 ! k))"
      "\<forall>n < length (g_fixes g). fixes_of (g_store g1) n = fixes_of (g_store g) n" "ip_events st1 = ip_events st"
  proof (cases l)
    case (Plain i opds)
    then show ?thesis
      using line_assembled [OF assms(1) _ Cons.prems(2), of i opds st] Cons.prems(1) that by (auto simp: fx1_def)
  next
    case (To_label i ropds t ep)
    then show ?thesis
      using branch_line_assembled [OF assms(1) _ Cons.prems(2), of i ropds t ep st] Cons.prems(1) that by (fastforce simp: fx1_def)
  qed
  let ?fx2 = "code_fixes se (g_now g) (length mem + 4) prog"
  obtain st' g' words where 2: "assemble_lines se (map code_text prog) st1 g1 = Asm_ok st' g'"
      "output_ok g' ((mem @ bs) @ concat words)" "list_all (\<lambda>bs. length bs = 4) words"
      "map (bfd_get_32 (a_big (s_aenv se))) words = map (\<lambda>l. code_word se l 0) prog"
      "g_msgs g' = g_msgs g1" "g_now g' = g_now g1" "places_kept g1 g'"
      "g_fixes g' = g_fixes g1 @ map fst ?fx2"
      "\<forall>k < length ?fx2. fixes_of (g_store g') (length (g_fixes g1) + k) = Some (snd (?fx2 ! k))" "ip_events st' = ip_events st1"
    using Cons.IH [OF _ 1(2), of st1] Cons.prems(1) 1(3,5) by auto
  have fx: "code_fixes se (g_now g) (length mem) (l # prog) = fx1 @ ?fx2" by (simp add: fx1_def)
  have kept: "places_kept g g'" using 1(7,9) 2(7) by (simp add: places_kept_def)
  have "fixes_of (g_store g') (length (g_fixes g) + k) = Some (snd ((fx1 @ ?fx2) ! k))" if "k < length (fx1 @ ?fx2)" for k
  proof (cases "k < length fx1")
    case True
    then show ?thesis using 1(7,8) 2(7) by (simp add: places_kept_def nth_append)
  next
    case False
    then obtain j where j: "k = length fx1 + j" using le_Suc_ex by (metis not_less)
    then have "j < length ?fx2" using that by simp
    then show ?thesis using 2(9) 1(7) j by (simp add: nth_append add.assoc)
  qed
  then show ?case unfolding fx
    using 1 2 kept by (intro exI [of _ st'] exI [of _ g'] exI [of _ "bs # words"] exI [of _ "fx1 @ ?fx2"]) simp
qed

section \<open>The fixups of a program\<close>

text \<open>Words in the bytes of a frag, and a part of a frag that alone may differ.\<close>

definition word_at :: "fix_env \<Rightarrow> nat \<Rightarrow> fix_state \<Rightarrow> nat \<Rightarrow> ulong \<Rightarrow> bool" where
  "word_at e fr st at w \<longleftrightarrow> (\<exists>mem. xs_literal st fr = Some mem \<and> at + 4 \<le> length mem
     \<and> bfd_get_32 (x_big e) (take 4 (drop at mem)) = w)"

fun words_at :: "fix_env \<Rightarrow> nat \<Rightarrow> fix_state \<Rightarrow> nat \<Rightarrow> ulong list \<Rightarrow> bool" where
  "words_at e fr st at [] \<longleftrightarrow> True"
| "words_at e fr st at (w # ws) \<longleftrightarrow> word_at e fr st at w \<and> words_at e fr st (at + 4) ws"

definition kept_outside :: "nat \<Rightarrow> nat \<Rightarrow> nat \<Rightarrow> fix_state \<Rightarrow> fix_state \<Rightarrow> bool" where
  "kept_outside fr lo hi st st' \<longleftrightarrow> xs_syms st' = xs_syms st \<and> xs_msgs st' = xs_msgs st
     \<and> (\<forall>fr'. fr' \<noteq> fr \<longrightarrow> xs_literal st' fr' = xs_literal st fr')
     \<and> (\<forall>mem. xs_literal st fr = Some mem \<longrightarrow> (\<exists>mem'. xs_literal st' fr = Some mem' \<and> length mem' = length mem
          \<and> (\<forall>i. i < lo \<or> hi \<le> i \<longrightarrow> mem' ! i = mem ! i)))"

lemma kept_refl: "kept_outside fr lo hi st st"
  by (simp add: kept_outside_def)

lemma kept_trans:
  assumes "kept_outside fr lo mid st st1" and "kept_outside fr lo' hi st1 st2" and "lo \<le> lo'" and "mid \<le> hi"
  shows "kept_outside fr lo hi st st2"
  unfolding kept_outside_def
proof (intro conjI allI impI)
  fix mem assume "xs_literal st fr = Some mem"
  then obtain mem1 where 1: "xs_literal st1 fr = Some mem1" "length mem1 = length mem" "\<forall>i. i < lo \<or> mid \<le> i \<longrightarrow> mem1 ! i = mem ! i"
    using assms(1) by (auto simp: kept_outside_def)
  then obtain mem2 where "xs_literal st2 fr = Some mem2" "length mem2 = length mem1" "\<forall>i. i < lo' \<or> hi \<le> i \<longrightarrow> mem2 ! i = mem1 ! i"
    using assms(2) by (auto simp: kept_outside_def)
  then show "\<exists>mem'. xs_literal st2 fr = Some mem' \<and> length mem' = length mem \<and> (\<forall>i. i < lo \<or> hi \<le> i \<longrightarrow> mem' ! i = mem ! i)"
    using 1 assms(3,4) by (intro exI [of _ mem2]) auto
qed (use assms(1,2) in \<open>simp_all add: kept_outside_def\<close>)

lemma word_kept:
  assumes "kept_outside fr lo hi st st'" and "word_at e fr st at w" and "at + 4 \<le> lo \<or> hi \<le> at"
  shows "word_at e fr st' at w"
proof -
  obtain mem where m: "xs_literal st fr = Some mem" "at + 4 \<le> length mem" "bfd_get_32 (x_big e) (take 4 (drop at mem)) = w"
    using assms(2) by (auto simp: word_at_def)
  obtain mem' where m': "xs_literal st' fr = Some mem'" "length mem' = length mem" "\<forall>i. i < lo \<or> hi \<le> i \<longrightarrow> mem' ! i = mem ! i"
    using assms(1) m(1) by (auto simp: kept_outside_def)
  have "take 4 (drop at mem') = take 4 (drop at mem)"
    by (rule nth_equalityI) (use m m' assms(3) in auto)
  then show ?thesis using m m'(1,2) by (simp add: word_at_def)
qed

lemma words_kept: "kept_outside fr lo hi st st' \<Longrightarrow> words_at e fr st at ws \<Longrightarrow> hi \<le> at \<Longrightarrow> words_at e fr st' at ws"
  by (induction ws arbitrary: at) (auto intro: word_kept)

lemma words_nth: "words_at e fr st at ws \<Longrightarrow> k < length ws \<Longrightarrow> word_at e fr st (at + 4 * k) (ws ! k)"
proof (induction ws arbitrary: at k)
  case (Cons w ws)
  then show ?case using Cons.IH [of "at + 4" "k - 1"] by (cases k) (auto simp: algebra_simps)
qed simp

text \<open>The displacement of a line, what is required of its label, and the words that the program comes to.\<close>

definition line_distance :: "fix_env \<Rightarrow> nat \<Rightarrow> symtab \<Rightarrow> nat \<Rightarrow> cstring \<Rightarrow> ulong \<Rightarrow> ulong" where
  "line_distance e fr syms at name off = off + sy_value (syms (Named name)) - (of_nat at + x_address e fr + 4)"

fun labels_ok :: "fix_env \<Rightarrow> segT \<Rightarrow> nat \<Rightarrow> symtab \<Rightarrow> nat \<Rightarrow> code_line list \<Rightarrow> bool" where
  "labels_ok e seg fr syms at [] \<longleftrightarrow> True"
| "labels_ok e seg fr syms at (l # ls) \<longleftrightarrow>
     (case code_label l of
        None \<Rightarrow> True
      | Some (name, off) \<Rightarrow> sy_segment (syms (Named name)) = seg \<and> \<not> S_FORCE_RELOC (x_elf e) (syms (Named name)) True
          \<and> in_reach (line_distance e fr syms at name off) \<and> line_distance e fr syms at name off AND 3 = 0)
     \<and> labels_ok e seg fr syms (at + 4) ls"

definition line_displacement :: "fix_env \<Rightarrow> nat \<Rightarrow> symtab \<Rightarrow> nat \<Rightarrow> code_line \<Rightarrow> ulong" where
  "line_displacement e fr syms at l =
     (case code_label l of None \<Rightarrow> 0 | Some (name, off) \<Rightarrow> drop_bit 2 (line_distance e fr syms at name off))"

fun code_words :: "session \<Rightarrow> fix_env \<Rightarrow> nat \<Rightarrow> symtab \<Rightarrow> nat \<Rightarrow> code_line list \<Rightarrow> ulong list" where
  "code_words se e fr syms at [] = []"
| "code_words se e fr syms at (l # ls) =
     code_word se l (line_displacement e fr syms at l) # code_words se e fr syms (at + 4) ls"

definition fresh_entry :: "fix_info \<times> fixS \<Rightarrow> fix_entry" where
  "fresh_entry p = fix_info.extend (fst p) \<lparr>fx_at = snd p, fx_done = False, fx_signed = False, fx_bit_fixP = False, fx_addnumber = 0\<rparr>"

lemma fresh_entry_sel:
  "fx_at (fresh_entry p) = snd p" "fx_offset (fresh_entry p) = fx_offset (fst p)"
  "a_reloc_size env BFD_RELOC_16_PCREL_S2 = 4 \<Longrightarrow>
     branch_fix (fresh_entry (symbol_fix env name off BFD_RELOC_16_PCREL_S2, at)) (Named name)"
  by (simp_all add: fresh_entry_def fix_info.defs branch_fix_def symbol_fix_def)

lemma chain_of_fresh:
  assumes "g_fixes g = map fst fx" and "\<forall>k < length fx. fixes_of (g_store g) k = Some (snd (fx ! k))"
  shows "fix_chain g = Some (map fresh_entry fx)"
proof -
  have "map (\<lambda>n. map_option (\<lambda>at. fix_info.extend (g_fixes g ! n)
     \<lparr>fx_at = at, fx_done = False, fx_signed = False, fx_bit_fixP = False, fx_addnumber = 0\<rparr>)
     (fixes_of (g_store g) n)) [0..<length (g_fixes g)] = map Some (map fresh_entry fx)"
    by (rule nth_equalityI) (use assms in \<open>simp_all add: fresh_entry_def\<close>)
  moreover have "those (map Some xs) = Some xs" for xs :: "fix_entry list" by (induction xs) simp_all
  ultimately show ?thesis unfolding fix_chain_def by (simp only:)
qed

lemma holds_word_at: "holds_word e f st w = word_at e (fx_frag (fx_at f)) st (fx_where (fx_at f)) w"
  by (simp add: holds_word_def word_at_def)

lemma same_elsewhere_kept:
  "same_elsewhere f st st' = kept_outside (fx_frag (fx_at f)) (fx_where (fx_at f)) (fx_where (fx_at f) + 4) st st'"
  by (simp add: same_elsewhere_def kept_outside_def)

lemma label_word_done:
  assumes "code_ok se l" and "code_label l = Some (name, off)" and "a_reloc_size (s_aenv se) BFD_RELOC_16_PCREL_S2 = 4"
    and "x_howto e BFD_RELOC_16_PCREL_S2" and "labels_ok e seg fr (xs_syms st) at (l # ls)" and "word_at e fr st at (code_word se l 0)"
  obtains st' f' where "fixup_one e seg (fresh_entry (symbol_fix (s_aenv se) name off BFD_RELOC_16_PCREL_S2, \<lparr>fx_frag = fr, fx_where = at\<rparr>)) st
      = Some (f', st')" "fx_done f'"
    "word_at e fr st' at (code_word se l (line_displacement e fr (xs_syms st) at l))" "kept_outside fr at (at + 4) st st'"
proof -
  let ?f = "fresh_entry (symbol_fix (s_aenv se) name off BFD_RELOC_16_PCREL_S2, \<lparr>fx_frag = fr, fx_where = at\<rparr>)"
  let ?d = "line_distance e fr (xs_syms st) at name off"
  obtain i ropds t ep where l: "l = To_label i ropds t ep" "branch_operands se i ropds t ep"
    using assms(1,2) by (cases l) auto
  have f: "branch_fix ?f (Named name)" "fx_frag (fx_at ?f) = fr" "fx_where (fx_at ?f) = at" "fx_offset ?f = off"
    by (rule fresh_entry_sel(3) [OF assms(3)]) (simp_all add: fresh_entry_sel symbol_fix_def)
  have b: "local_label e seg st (Named name)" "in_reach ?d" "?d AND 3 = 0"
    using assms(2,5) by (simp_all add: local_label_def)
  have d: "?d = branch_distance e ?f (fx_offset ?f + sy_value (xs_syms st (Named name)))"
    using f by (simp add: line_distance_def branch_distance_def fix_address_def)
  obtain st' where st': "fixup_one e seg ?f st = Some ((resolved ?f (fx_offset ?f + sy_value (xs_syms st (Named name))))\<lparr>fx_addnumber := ?d\<rparr>, st')"
      "holds_word e ?f st' (take_bit 32 (code_word se l 0 OR (drop_bit 2 ?d AND 0xffff)))" "same_elsewhere ?f st st'"
    using local_branch_done [OF f(1) b(1) assms(4) refl d, of "code_word se l 0"] assms(6) b(2,3) f(2,3)
    unfolding holds_word_at by auto
  have "take_bit 32 (code_word se l 0 OR (drop_bit 2 ?d AND 0xffff)) = branch_word se i ropds (drop_bit 2 ?d)"
    using branch_word_parts(1,2) [OF l(2), of "drop_bit 2 ?d"] by (simp add: l(1))
  then have w: "take_bit 32 (code_word se l 0 OR (drop_bit 2 ?d AND 0xffff)) = code_word se l (line_displacement e fr (xs_syms st) at l)"
    using assms(2) by (simp add: l(1) line_displacement_def)
  show thesis
  proof (rule that [OF st'(1)])
    show "word_at e fr st' at (code_word se l (line_displacement e fr (xs_syms st) at l))"
      using st'(2) unfolding holds_word_at f w .
    show "kept_outside fr at (at + 4) st st'" using st'(3) unfolding same_elsewhere_kept f .
  qed (simp add: resolved_def)
qed

lemma program_pass:
  assumes "a_reloc_size (s_aenv se) BFD_RELOC_16_PCREL_S2 = 4" and "x_howto e BFD_RELOC_16_PCREL_S2" and "\<not> x_linkrelax e"
  shows "list_all (code_ok se) prog \<Longrightarrow> labels_ok e seg fr (xs_syms st) at prog \<Longrightarrow>
    words_at e fr st at (map (\<lambda>l. code_word se l 0) prog) \<Longrightarrow>
    \<exists>st' fs'. fixup_segment e seg (map fresh_entry (code_fixes se fr at prog)) st = Some (0, fs', st')
      \<and> words_at e fr st' at (code_words se e fr (xs_syms st) at prog) \<and> kept_outside fr at (at + 4 * length prog) st st'"
proof (induction prog arbitrary: at st)
  case Nil
  then show ?case by (simp add: kept_refl)
next
  case (Cons l prog)
  let ?d = "line_displacement e fr (xs_syms st) at l"
  obtain st1 fs1 where 1: "word_at e fr st1 at (code_word se l ?d)" "kept_outside fr at (at + 4) st st1"
      "\<And>fs' st'. fixup_segment e seg (map fresh_entry (code_fixes se fr (at + 4) prog)) st1 = Some (0, fs', st') \<Longrightarrow>
        fixup_segment e seg (map fresh_entry (code_fixes se fr at (l # prog))) st = Some (0, fs1 @ fs', st')"
  proof (cases "code_label l")
    case None
    have "code_word se l 0 = code_word se l ?d" using None by (simp add: line_displacement_def)
    then show ?thesis
      using that [of st "[]"] Cons.prems(3) None by (simp add: kept_refl)
  next
    case (Some p)
    then obtain name off where n: "code_label l = Some (name, off)" by (cases p) simp
    have ok: "code_ok se l" "word_at e fr st at (code_word se l 0)" using Cons.prems(1,3) by simp_all
    obtain st1 f' where st1: "fixup_one e seg (fresh_entry (symbol_fix (s_aenv se) name off BFD_RELOC_16_PCREL_S2, \<lparr>fx_frag = fr, fx_where = at\<rparr>)) st
        = Some (f', st1)" "fx_done f'" "word_at e fr st1 at (code_word se l ?d)" "kept_outside fr at (at + 4) st st1"
      using label_word_done [OF ok(1) n assms(1,2) Cons.prems(2) ok(2)] by blast
    then show ?thesis using that [of st1 "[f']"] n assms(3) by simp
  qed
  have s: "xs_syms st1 = xs_syms st" using 1(2) by (simp add: kept_outside_def)
  have "words_at e fr st1 (at + 4) (map (\<lambda>l. code_word se l 0) prog)"
    using words_kept [OF 1(2), of e "at + 4"] Cons.prems(3) by simp
  then obtain st' fs' where 2: "fixup_segment e seg (map fresh_entry (code_fixes se fr (at + 4) prog)) st1 = Some (0, fs', st')"
      "words_at e fr st' (at + 4) (code_words se e fr (xs_syms st) (at + 4) prog)"
      "kept_outside fr (at + 4) (at + 4 + 4 * length prog) st1 st'"
    using Cons.IH [of st1 "at + 4"] Cons.prems(1,2) s by auto
  have "word_at e fr st' at (code_word se l ?d)" using word_kept [OF 2(3) 1(1)] by simp
  moreover have "kept_outside fr at (at + 4 * length (l # prog)) st st'"
    using kept_trans [OF 1(2) 2(3)] by (simp add: algebra_simps)
  ultimately show ?case using 1(3) [OF 2(1)] 2(2) by (intro exI [of _ st'] exI [of _ "fs1 @ fs'"]) simp
qed

section \<open>The label in the text\<close>

lemma reach_target:
  assumes "in_reach d" and "d AND 3 = 0"
  shows "pc + 4 + 4 * scast (ucast (drop_bit 2 d AND 0xffff :: ulong) :: 16 word) = pc + 4 + d"
proof -
  obtain k where k: "d = word_of_int k" "- (2 ^ 17) \<le> k" "k < 2 ^ 17" using in_reach_int [OF assms(1)] .
  have "take_bit 2 d = 0" using assms(2) by (simp add: take_bit_eq_mask mask_eq_exp_minus_1)
  then have "\<not> bit k 0" "\<not> bit k 1" unfolding k(1) by (auto simp: bit_eq_iff bit_simps bit_word_of_int_iff)
  then have "take_bit 2 k = 0" by (intro bit_eqI) (auto simp: bit_simps less_2_cases_iff intro!: gr0I)
  then have dvd: "4 dvd k" by (simp add: take_bit_eq_0_iff)
  have "bit (k div 4) n = bit k (n + 2)" for n
    using bit_drop_bit_eq [of 2 k] by (simp add: drop_bit_eq_div fun_eq_iff add.commute)
  then have "drop_bit 2 d AND 0xffff = word_of_int (k div 4) AND 0xffff"
    unfolding k(1) by (intro bit_word_eqI) (auto simp: bit_simps bit_word_of_int_iff bit_0xffff)
  then show ?thesis using branch_reaches [OF dvd k(2,3), of pc] by (simp only: k(1))
qed

text \<open>What is printed for a line: the entry and the values of its operands.\<close>

fun code_entry :: "code_line \<Rightarrow> nat" where
  "code_entry (Plain i opds) = i"
| "code_entry (To_label i ropds t ep) = i"

fun code_values :: "code_line \<Rightarrow> ulong \<Rightarrow> ulong list" where
  "code_values (Plain i opds) v = map2 operand_value (operand_letters_of (op_args (mips_builtin_opcodes ! i))) opds"
| "code_values (To_label i ropds t ep) v = branch_values i ropds v"

definition code_events :: "dis_state \<Rightarrow> ulong \<Rightarrow> code_line \<Rightarrow> ulong \<Rightarrow> dis_event list" where
  "code_events dst pc l v = (let mo = mips_builtin_opcodes ! code_entry l in
     Put (op_name mo) # (if op_args mo = [] then [] else
       Put '' '' # operand_events dst pc (op_args mo)
         (map2 (\<lambda>f v. v AND op_mask f) (the (args_fields (op_args mo))) (code_values l v))))"

lemma code_events_not_nil: "code_events dst pc l v \<noteq> []"
  by (simp add: code_events_def Let_def)

lemma code_facts:
  assumes "code_ok se l"
  obtains fs where "code_entry l < 138" and "args_fields (op_args (mips_builtin_opcodes ! code_entry l)) = Some fs"
    and "length (code_values l v) = length fs"
    and "code_word se l v = encode_insn (s_opts se) (mips_builtin_opcodes ! code_entry l) (code_values l v)"
proof (cases l)
  case (Plain i opds)
  then have "i < 138" using assms by (simp add: good_operands_def)
  then obtain fs where "args_fields (op_args (mips_builtin_opcodes ! i)) = Some fs" using entry_fields by blast
  then show ?thesis using that Plain \<open>i < 138\<close> operands_fields [of se i opds fs] assms by (simp add: line_word_of_def)
next
  case (To_label i ropds t ep)
  then obtain regs ns where "i < 138" "args_fields (op_args (mips_builtin_opcodes ! i)) = Some (register_fields regs @ [F_DELTA])"
      "length regs = length ns" "branch_values i ropds = (\<lambda>v. map word_of_nat ns @ [v])"
    using branch_shape assms by (metis code_ok.simps(2))
  then show ?thesis using that To_label by (simp add: branch_word_def register_fields_def)
qed

lemma label_event:
  assumes "branch_operands se i ropds t ep" and "in_reach d" and "d AND 3 = 0"
  shows "last (code_events dst pc (To_label i ropds t ep) (drop_bit 2 d)) = Put_address (pc + 4 + d)"
proof -
  let ?mo = "mips_builtin_opcodes ! i"
  obtain regs ns where s: "i < 138" "operand_letters_of (op_args ?mo) = regs @ [CHR ''p'']" "length regs = length ns"
      "args_fields (op_args ?mo) = Some (register_fields regs @ [F_DELTA])" "branch_values i ropds = (\<lambda>v. map word_of_nat ns @ [v])"
    using branch_shape [OF assms(1)] by metis
  have a: "op_args ?mo \<in> {''d,t,p'', ''p'', ''t,p''}"
    using rigel_args_of [OF rigel_nth_mem [OF s(1)]] s(2) unfolding rigel_args_def
    by (auto simp: operand_letters_of_def)
  have n: "length (map2 (\<lambda>f v. v AND op_mask f) (register_fields regs) (map word_of_nat ns)) = length regs"
    using s(3) by (simp add: register_fields_def)
  define vs where "vs = map2 (\<lambda>f v. v AND op_mask f) (register_fields regs) (map word_of_nat ns :: ulong list)"
  have v: "map2 (\<lambda>f v. v AND op_mask f) (register_fields regs @ [F_DELTA]) (branch_values i ropds (drop_bit 2 d))
      = vs @ [drop_bit 2 d AND 0xffff]"
    using s(3) by (simp add: s(5) vs_def register_fields_def F_DELTA_def)
  have e: "operand_event dst pc (CHR ''p'') (drop_bit 2 d AND 0xffff) = Put_address (pc + 4 + d)"
    using reach_target [OF assms(2,3), of pc] by (simp add: operand_event_def)
  have l: "length vs = length (operand_letters_of (op_args ?mo)) - 1" using n s(2) by (simp add: vs_def)
  consider "op_args ?mo = ''d,t,p''" "length vs = Suc (Suc 0)" | "op_args ?mo = ''p''" "length vs = 0" | "op_args ?mo = ''t,p''" "length vs = Suc 0"
    using a l by (auto simp: operand_letters_of_def)
  then have "last (operand_events dst pc (op_args ?mo) (vs @ [drop_bit 2 d AND 0xffff])) = Put_address (pc + 4 + d)
      \<and> operand_events dst pc (op_args ?mo) (vs @ [drop_bit 2 d AND 0xffff]) \<noteq> [] \<and> op_args ?mo \<noteq> []"
    by cases (auto simp: e length_Suc_conv)
  then show ?thesis by (simp add: code_events_def Let_def s(4) v)
qed

lemma code_words_nth:
  "k < length prog \<Longrightarrow> code_words se e fr syms at prog ! k = code_word se (prog ! k) (line_displacement e fr syms (at + 4 * k) (prog ! k))"
  by (induction prog arbitrary: at k) (auto simp: nth_Cons algebra_simps split: nat.split)

lemma code_words_length [simp]: "length (code_words se e fr syms at prog) = length prog"
  by (induction prog arbitrary: at) simp_all

lemma labels_ok_nth:
  "labels_ok e seg fr syms at prog \<Longrightarrow> k < length prog \<Longrightarrow> labels_ok e seg fr syms (at + 4 * k) (prog ! k # drop (Suc k) prog)"
proof (induction prog arbitrary: at k)
  case (Cons l prog)
  then show ?case using Cons.IH [of "at + 4" "k - 1"] by (cases k) (auto simp: algebra_simps)
qed simp

lemma words_put:
  "xs_literal st fr = Some (mem @ concat words) \<Longrightarrow> list_all (\<lambda>bs. length bs = 4) words \<Longrightarrow>
     words_at e fr st (length mem) (map (bfd_get_32 (x_big e)) words)"
proof (induction words arbitrary: mem)
  case (Cons bs words)
  have "words_at e fr st (length (mem @ bs)) (map (bfd_get_32 (x_big e)) words)" using Cons.prems by (intro Cons.IH) simp_all
  then show ?case using Cons.prems by (simp add: word_at_def)
qed simp

lemma line_printed:
  assumes "code_ok se l" and "labels_ok e seg fr (xs_syms st) at (l # ls)" and "pc = of_nat at + x_address e fr" and "pc AND 1 = 0"
    and "word_at e fr st' at (code_word se l (line_displacement e fr (xs_syms st) at l))"
    and "hint_ok dst" and "rigel_hash_ok dst" and "rigel_file (i_file info)"
  shows "\<exists>mem dst' di. xs_literal st' fr = Some mem
    \<and> dis_print_insn (\<lambda>a n. if a = pc \<and> n = 4 then Inr (take 4 (drop at mem)) else Inl 1) False (x_big e) pc dst info = Inr (4, dst', di)
    \<and> i_stream di = i_stream info @ code_events (parse_mips_dis_options (di_options (i_file info))
        (set_default_mips_dis_options (i_file info) dst)) pc l (line_displacement e fr (xs_syms st) at l)
    \<and> (\<forall>name off. code_label l = Some (name, off) \<longrightarrow> last (i_stream di) = Put_address (off + sy_value (xs_syms st (Named name))))"
proof -
  let ?v = "line_displacement e fr (xs_syms st) at l"
  obtain fs where f: "code_entry l < 138" "args_fields (op_args (mips_builtin_opcodes ! code_entry l)) = Some fs"
      "length (code_values l ?v) = length fs"
      "code_word se l ?v = encode_insn (s_opts se) (mips_builtin_opcodes ! code_entry l) (code_values l ?v)"
    using code_facts [OF assms(1)] by metis
  obtain mem where m: "xs_literal st' fr = Some mem"
      "bfd_get_32 (x_big e) (take 4 (drop at mem)) = encode_insn (s_opts se) (mips_builtin_opcodes ! code_entry l) (code_values l ?v)"
    using assms(5) f(4) by (auto simp: word_at_def)
  obtain dst' di where d: "dis_print_insn (\<lambda>a n. if a = pc \<and> n = 4 then Inr (take 4 (drop at mem)) else Inl 1) False (x_big e) pc dst info
        = Inr (4, dst', di)"
      "i_stream di = i_stream info @ code_events (parse_mips_dis_options (di_options (i_file info))
        (set_default_mips_dis_options (i_file info) dst)) pc l ?v"
    using word_disassembles [OF rigel_nth_mem [OF f(1)] f(2,3) m(2) assms(6-8,4)] f(2) by (auto simp: code_events_def Let_def)
  have "last (i_stream di) = Put_address (off + sy_value (xs_syms st (Named name)))" if n: "code_label l = Some (name, off)" for name off
  proof -
    obtain i ropds t ep where l: "l = To_label i ropds t ep" "branch_operands se i ropds t ep" using assms(1) n by (cases l) auto
    have r: "in_reach (line_distance e fr (xs_syms st) at name off)" "line_distance e fr (xs_syms st) at name off AND 3 = 0"
      using assms(2) n by simp_all
    have v: "?v = drop_bit 2 (line_distance e fr (xs_syms st) at name off)" using n by (simp add: line_displacement_def)
    have "last (i_stream di) = Put_address (pc + 4 + line_distance e fr (xs_syms st) at name off)"
      unfolding d(2) v last_appendR [OF code_events_not_nil] unfolding l(1) by (rule label_event [OF l(2) r])
    then show ?thesis by (simp add: line_distance_def assms(3))
  qed
  then show ?thesis using m(1) d by blast
qed

section \<open>Labels out of reach\<close>

text \<open>No entry with a displacement shares its upper bits with a MIPS branch that can become a jump.\<close>

definition not_mips_branch :: "mips_opcode \<Rightarrow> bool" where
  "not_mips_branch mo \<longleftrightarrow> (CHR ''p'' \<in> set (op_args mo) \<longrightarrow> op_msk mo AND 0xf0000000 = 0xf0000000
     \<and> op_match mo AND 0xf0000000 \<noteq> 0 \<and> op_match mo AND 0xf0000000 \<noteq> 0x10000000)"

lemma rigel_not_mips_branch: "list_all not_mips_branch mips_builtin_opcodes"
  unfolding mips_builtin_opcodes_def list.pred_inject not_mips_branch_def opcode_sel by simp

lemma matched_not_always:
  assumes "mo \<in> set mips_builtin_opcodes" and "CHR ''p'' \<in> set (op_args mo)" and "opcode_matches mo w"
  shows "\<not> always_branch w"
proof
  have b: "op_msk mo AND 0xf0000000 = 0xf0000000" "op_match mo AND 0xf0000000 \<noteq> 0" "op_match mo AND 0xf0000000 \<noteq> 0x10000000"
    using rigel_not_mips_branch assms(1,2) by (simp_all add: list_all_iff not_mips_branch_def)
  have "w AND 0xf0000000 = (w AND op_msk mo) AND 0xf0000000" using b(1) by (simp add: and.assoc)
  then have w: "w AND 0xf0000000 = op_match mo AND 0xf0000000" using assms(3) by (simp only: opcode_matches_def)
  have h: "w AND 0xf0000000 = (w AND 0xffff0000) AND 0xf0000000" by (simp add: and.assoc)
  assume "always_branch w"
  then have "(w AND 0xffff0000) AND 0xf0000000 = 0x10000000 \<or> (w AND 0xffff0000) AND 0xf0000000 = 0"
    unfolding always_branch_def by (elim disjE) (simp_all only: and_numerals, simp_all)
  then show False using b(2,3) w h by simp
qed

lemma branch_word_kept:
  assumes "branch_operands se i ropds t ep"
  shows "\<not> always_branch (branch_word se i ropds v)"
proof -
  let ?mo = "mips_builtin_opcodes ! i"
  obtain regs ns where s: "i < 138" "operand_letters_of (op_args ?mo) = regs @ [CHR ''p'']"
      "args_fields (op_args ?mo) = Some (register_fields regs @ [F_DELTA])"
    using branch_shape [OF assms] by metis
  have "CHR ''p'' \<in> set (operand_letters_of (op_args ?mo))" using s(2) by simp
  then have "CHR ''p'' \<in> set (op_args ?mo)" by (auto simp: operand_letters_of_def)
  then show ?thesis
    unfolding branch_word_def
    by (rule matched_not_always [OF rigel_nth_mem [OF s(1)] _ encode_matches(1) [OF rigel_well_formed [OF rigel_nth_mem [OF s(1)]] s(3)]])
qed

section \<open>Properties\<close>

text \<open>C24: branches and jumps to labels go round. A program of Rigel lines, some with a label and an offset where the
  entry takes a displacement, is assembled without an error or a warning; its fixups are all resolved by \<open>fixup_segment\<close> when
  the labels are defined in the section, cannot be overridden and are in reach at a distance of whole words; and the
  disassembler prints for every line, at an even address of a Rigel object, its mnemonic and operands, and as the
  target of each branch or jump the address of its label plus the offset.\<close>

theorem labels_print_back:
  assumes "rigel_session_ok se" and "list_all (code_ok se) prog" and "output_ok g mem" and "g_fixes g = []"
    and "a_reloc_size (s_aenv se) BFD_RELOC_16_PCREL_S2 = 4" and "x_big e = a_big (s_aenv se)"
    and "x_howto e BFD_RELOC_16_PCREL_S2" and "\<not> x_linkrelax e"
    and "labels_ok e seg (g_now g) syms (length mem) prog"
    and "pc = (\<lambda>k. of_nat (length mem + 4 * k) + x_address e (g_now g))" and "\<forall>k < length prog. pc k AND 1 = 0"
    and "hint_ok dst" and "rigel_hash_ok dst" and "rigel_file (i_file info)"
  shows "\<exists>st' g' chain fs' fst'. assemble_lines se (map code_text prog) st g = Asm_ok st' g' \<and> g_msgs g' = g_msgs g
    \<and> ip_events st' = ip_events st \<and> fix_chain g' = Some chain
    \<and> fixup_segment e seg chain \<lparr>xs_literal = fr_literal (g_store g'), xs_syms = syms, xs_msgs = []\<rparr> = Some (0, fs', fst')
    \<and> xs_msgs fst' = []
    \<and> (\<forall>k < length prog. \<exists>code dst' di. xs_literal fst' (g_now g) = Some code
        \<and> dis_print_insn (\<lambda>a n. if a = pc k \<and> n = 4 then Inr (take 4 (drop (length mem + 4 * k) code)) else Inl 1)
            False (x_big e) (pc k) dst info = Inr (4, dst', di)
        \<and> i_stream di = i_stream info @ code_events (parse_mips_dis_options (di_options (i_file info))
            (set_default_mips_dis_options (i_file info) dst)) (pc k) (prog ! k)
            (line_displacement e (g_now g) syms (length mem + 4 * k) (prog ! k))
        \<and> (\<forall>name off. code_label (prog ! k) = Some (name, off) \<longrightarrow>
             last (i_stream di) = Put_address (off + sy_value (syms (Named name)))))"
proof -
  obtain st' g' words where a: "assemble_lines se (map code_text prog) st g = Asm_ok st' g'"
      "output_ok g' (mem @ concat words)" "list_all (\<lambda>bs. length bs = 4) words"
      "map (bfd_get_32 (a_big (s_aenv se))) words = map (\<lambda>l. code_word se l 0) prog"
      "g_msgs g' = g_msgs g" "ip_events st' = ip_events st" "g_now g' = g_now g" "g_fixes g' = map fst (code_fixes se (g_now g) (length mem) prog)"
      "\<forall>k < length (code_fixes se (g_now g) (length mem) prog).
         fixes_of (g_store g') k = Some (snd (code_fixes se (g_now g) (length mem) prog ! k))"
    using code_assembled [OF assms(1-3), of st] assms(4) by auto
  let ?st = "\<lparr>xs_literal = fr_literal (g_store g'), xs_syms = syms, xs_msgs = []\<rparr>"
  note chain = chain_of_fresh [OF a(8,9)]
  have "xs_literal ?st (g_now g) = Some (mem @ concat words)" using a(2,7) by (simp add: output_ok_def)
  then have "words_at e (g_now g) ?st (length mem) (map (\<lambda>l. code_word se l 0) prog)"
    using words_put [of ?st "g_now g" mem words e] a(3,4) assms(6) by simp
  then obtain fst' fs' where p: "fixup_segment e seg (map fresh_entry (code_fixes se (g_now g) (length mem) prog)) ?st = Some (0, fs', fst')"
      "words_at e (g_now g) fst' (length mem) (code_words se e (g_now g) syms (length mem) prog)" "xs_msgs fst' = []"
    using program_pass [OF assms(5,7,8,2), of seg "g_now g" ?st "length mem"] assms(9) by (auto simp: kept_outside_def)
  have "\<exists>code dst' di. xs_literal fst' (g_now g) = Some code
        \<and> dis_print_insn (\<lambda>a n. if a = pc k \<and> n = 4 then Inr (take 4 (drop (length mem + 4 * k) code)) else Inl 1)
            False (x_big e) (pc k) dst info = Inr (4, dst', di)
        \<and> i_stream di = i_stream info @ code_events (parse_mips_dis_options (di_options (i_file info))
            (set_default_mips_dis_options (i_file info) dst)) (pc k) (prog ! k)
            (line_displacement e (g_now g) syms (length mem + 4 * k) (prog ! k))
        \<and> (\<forall>name off. code_label (prog ! k) = Some (name, off) \<longrightarrow>
             last (i_stream di) = Put_address (off + sy_value (syms (Named name))))" if k: "k < length prog" for k
  proof -
    have c: "code_ok se (prog ! k)" using assms(2) k by (simp add: list_all_length)
    have w: "word_at e (g_now g) fst' (length mem + 4 * k)
        (code_word se (prog ! k) (line_displacement e (g_now g) (xs_syms ?st) (length mem + 4 * k) (prog ! k)))"
      using words_nth [OF p(2)] k by (simp add: code_words_nth)
    have l: "labels_ok e seg (g_now g) (xs_syms ?st) (length mem + 4 * k) (prog ! k # drop (Suc k) prog)"
      using labels_ok_nth [OF assms(9) k] by simp
    show ?thesis
      using line_printed [OF c l fun_cong [OF assms(10)] assms(11) [rule_format, OF k] w assms(12-14)]
      by (simp only: fix_state.select_convs)
  qed
  then show ?thesis using a(1,5,6) chain p(1,3) by blast
qed

text \<open>C25: a label out of reach is always reported. When the label of a Rigel branch or jump is defined in the section
  and cannot be overridden, but lies too far away for the displacement, \<open>fixup_segment\<close> reports it, in PIC code or
  not and whether or not the frag is in the text section, and leaves the word as it was assembled, with an empty
  displacement: no branch or jump of the Rigel table is taken for one of the unconditional MIPS branches that
  \<open>md_apply_fix\<close> turns into \<open>j\<close> or \<open>jal\<close>, and no relocation is left to the linker.\<close>

theorem far_label_reported:
  assumes "rigel_session_ok se" and "branch_operands se i ropds t ep" and "output_ok g mem" and "g_fixes g = []"
    and "a_reloc_size (s_aenv se) BFD_RELOC_16_PCREL_S2 = 4" and "x_big e = a_big (s_aenv se)"
    and "x_howto e BFD_RELOC_16_PCREL_S2" and "\<not> x_linkrelax e" and "name = the (X_add_symbol ep)"
    and "sy_segment (syms (Named name)) = seg" and "\<not> S_FORCE_RELOC (x_elf e) (syms (Named name)) True"
    and "\<not> in_reach (line_distance e (g_now g) syms (length mem) name (X_add_number ep))"
  shows "\<exists>st' g' bs chain f' fst'. assemble se (line_text i (ropds @ [Expr_op t ep])) st g = Asm_ok st' g'
    \<and> fr_literal (g_store g') (g_now g) = Some (mem @ bs) \<and> length bs = 4
    \<and> bfd_get_32 (a_big (s_aenv se)) bs = branch_word se i ropds 0 \<and> fix_chain g' = Some chain
    \<and> fixup_segment e seg chain \<lparr>xs_literal = fr_literal (g_store g'), xs_syms = syms, xs_msgs = []\<rparr> = Some (0, [f'], fst')
    \<and> Branch_out_of_range \<in> set (xs_msgs fst') \<and> xs_literal fst' = fr_literal (g_store g')"
proof -
  obtain st' g' bs where a: "assemble se (line_text i (ropds @ [Expr_op t ep])) st g = Asm_ok st' g'" "output_ok g' (mem @ bs)"
      "length bs = 4" "bfd_get_32 (a_big (s_aenv se)) bs = branch_word se i ropds 0" "g_now g' = g_now g"
      "g_fixes g' = [symbol_fix (s_aenv se) name (X_add_number ep) BFD_RELOC_16_PCREL_S2]"
      "fixes_of (g_store g') 0 = Some \<lparr>fx_frag = g_now g, fx_where = length mem\<rparr>"
    using branch_line_assembled [OF assms(1-3), of st] assms(4,9) by auto
  let ?fx = "(symbol_fix (s_aenv se) name (X_add_number ep) BFD_RELOC_16_PCREL_S2, \<lparr>fx_frag = g_now g, fx_where = length mem\<rparr>)"
  let ?f = "fresh_entry ?fx" and ?st = "\<lparr>xs_literal = fr_literal (g_store g'), xs_syms = syms, xs_msgs = []\<rparr>"
  have chain: "fix_chain g' = Some [?f]" using chain_of_fresh [of g' "[?fx]"] a(6,7) by simp
  have f: "branch_fix ?f (Named name)" "fx_frag (fx_at ?f) = g_now g" "fx_where (fx_at ?f) = length mem" "fx_offset ?f = X_add_number ep"
    by (rule fresh_entry_sel(3) [OF assms(5)]) (simp_all add: fresh_entry_sel symbol_fix_def)
  have m: "fr_literal (g_store g') (g_now g) = Some (mem @ bs)" using a(2,5) by (simp add: output_ok_def)
  have w: "holds_word e ?f ?st (branch_word se i ropds 0)"
    using m a(3,4) assms(6) by (simp add: holds_word_def f)
  have l: "local_label e seg ?st (Named name)" using assms(10,11) by (simp add: local_label_def)
  have d: "\<not> in_reach (branch_distance e ?f (fx_offset ?f + sy_value (xs_syms ?st (Named name))))"
    using assms(12) by (simp add: line_distance_def branch_distance_def fix_address_def f)
  obtain f' fst' where "fixup_one e seg ?f ?st = Some (f', fst')" "fx_done f'" "xs_literal fst' = fr_literal (g_store g')"
      "Branch_out_of_range \<in> set (xs_msgs fst')"
    using far_branch_reported [OF f(1) l assms(7) w branch_word_kept [OF assms(2)] d] by auto
  then have "fixup_segment e seg [?f] ?st = Some (0, [f'], fst')" "xs_literal fst' = fr_literal (g_store g')"
      "Branch_out_of_range \<in> set (xs_msgs fst')"
    using assms(8) by simp_all
  then show ?thesis using a(1,3,4) m chain by blast
qed

text \<open>A concrete run: \<open>foo\<close> is the second of three lines, the target of the branches before and after it.\<close>

definition label_sym :: "segT \<Rightarrow> ulong \<Rightarrow> sym_state" where
  "label_sym seg v = \<lparr>sy_local = False, sy_segment = seg, sy_value = v, sy_weak = False, sy_global = False, sy_tls = False,
     sy_function = False, sy_weakrefr = None, sy_used_in_reloc = False, sy_mips16 = False, sy_tc = False\<rparr>"

lemma sample_foo: "reads_as (env_expr (s_ienv sample_session)) ''foo'' (symbol_expr ''foo'')"
proof -
  have "name_end (''foo'' @ rest) = (''foo'', rest)" if "operand_ends rest" for rest
    using that by (cases rest) (auto simp: operand_ends_def name_end_def is_part_of_name_def is_name_beginner_def isdigit_def char_code_def)
  then show ?thesis by (simp add: reads_as_def sample_fields sample_expression_def isdigit_def char_code_def)
qed

lemma sample_branch: "branch_operands sample_session 40 [Reg_op 2] ''foo'' (symbol_expr ''foo'')"
proof -
  have "op_args (mips_builtin_opcodes ! 40) = ''t,p''" unfolding rigel_entry_be by simp
  then show ?thesis
    using sample_foo by (simp add: branch_operands_def operand_letters_of_def symbol_expr_def constant_expr_def)
qed

theorem labels_print_back_witness:
  "\<exists>st' g' chain fs' fst' code dst' di.
     assemble_lines sample_session [''be $2,foo'', ''add $1,$2,$3'', ''be $2,foo''] sample_ip sample_output = Asm_ok st' g'
    \<and> fix_chain g' = Some chain
    \<and> fixup_segment sample_fix_env (Section 0) chain \<lparr>xs_literal = fr_literal (g_store g'),
        xs_syms = (\<lambda>_. label_sym (Section 0) 0x1004), xs_msgs = []\<rparr> = Some (0, fs', fst')
    \<and> xs_msgs fst' = [] \<and> xs_literal fst' 0 = Some code
    \<and> dis_print_insn (\<lambda>a n. if a = 0x1008 \<and> n = 4 then Inr (take 4 (drop 8 code)) else Inl 1) False True 0x1008
        initial_dis_state rigel_info = Inr (4, dst', di)
    \<and> last (i_stream di) = Put_address 0x1004"
proof -
  let ?be = "To_label 40 [Reg_op 2] ''foo'' (symbol_expr ''foo'')"
  let ?prog = "[?be, Plain 0 [Reg_op 1, Reg_op 2, Reg_op 3], ?be]"
  let ?syms = "\<lambda>_. label_sym (Section 0) 0x1004"
  have t: "map code_text ?prog = [''be $2,foo'', ''add $1,$2,$3'', ''be $2,foo'']"
    by (simp add: line_text_def rigel_entry_be rigel_entry_add) code_simp
  have ok: "list_all (code_ok sample_session) ?prog" using sample_branch sample_add by simp
  have g: "g_fixes sample_output = []" "g_now sample_output = 0" by (simp_all add: sample_output_def)
  have e: "a_reloc_size (s_aenv sample_session) BFD_RELOC_16_PCREL_S2 = 4" "x_big sample_fix_env = a_big (s_aenv sample_session)"
      "x_howto sample_fix_env BFD_RELOC_16_PCREL_S2" "\<not> x_linkrelax sample_fix_env"
    by (simp_all add: sample_session_def sample_fix_env_def)
  have s: "X_add_symbol (symbol_expr ''foo'') = Some ''foo''" "X_add_number (symbol_expr ''foo'') = 0"
    by (simp_all add: symbol_expr_def constant_expr_def)
  have l: "labels_ok sample_fix_env (Section 0) (g_now sample_output) ?syms (length ([] :: byte list)) ?prog"
    by (simp add: s line_distance_def label_sym_def sample_fix_env_def S_FORCE_RELOC_def bfd_is_com_section_def in_reach_def)
  define pc :: "nat \<Rightarrow> ulong" where "pc = (\<lambda>k. of_nat (length ([] :: byte list) + 4 * k) + x_address sample_fix_env (g_now sample_output))"
  have even: "\<forall>k < length ?prog. pc k AND 1 = 0"
    by (auto simp: pc_def sample_fix_env_def less_Suc_eq numeral_3_eq_3)
  have pc2: "pc 2 = 0x1008" by (simp add: pc_def sample_fix_env_def)
  have fi: "rigel_file (i_file rigel_info)" using rigel_object_file by (simp add: rigel_info_def)
  obtain st' g' chain fs' fst' where r: "assemble_lines sample_session (map code_text ?prog) sample_ip sample_output = Asm_ok st' g'"
      "fix_chain g' = Some chain" "fixup_segment sample_fix_env (Section 0) chain \<lparr>xs_literal = fr_literal (g_store g'),
        xs_syms = ?syms, xs_msgs = []\<rparr> = Some (0, fs', fst')" "xs_msgs fst' = []"
      "\<forall>k < length ?prog. \<exists>code dst' di. xs_literal fst' (g_now sample_output) = Some code
        \<and> dis_print_insn (\<lambda>a n. if a = pc k \<and> n = 4 then Inr (take 4 (drop (length ([] :: byte list) + 4 * k) code)) else Inl 1)
            False (x_big sample_fix_env) (pc k) initial_dis_state rigel_info = Inr (4, dst', di)
        \<and> i_stream di = i_stream rigel_info @ code_events (parse_mips_dis_options (di_options (i_file rigel_info))
            (set_default_mips_dis_options (i_file rigel_info) initial_dis_state)) (pc k) (?prog ! k)
            (line_displacement sample_fix_env (g_now sample_output) ?syms (length ([] :: byte list) + 4 * k) (?prog ! k))
        \<and> (\<forall>name off. code_label (?prog ! k) = Some (name, off) \<longrightarrow>
             last (i_stream di) = Put_address (off + sy_value (label_sym (Section 0) 0x1004)))"
    using labels_print_back [OF sample_session_ok ok sample_output_ok g(1) e l pc_def even initial_hint_ok initial_hash_ok fi,
      of sample_ip] by blast
  have "2 < length ?prog" by simp
  have eight: "length ([] :: byte list) + 4 * 2 = 8" by simp
  note r5 = r(5) [rule_format, OF \<open>2 < length ?prog\<close>, unfolded pc2 eight g(2)]
  obtain code dst' di where "xs_literal fst' 0 = Some code"
      "dis_print_insn (\<lambda>a n. if a = 0x1008 \<and> n = 4 then Inr (take 4 (drop 8 code)) else Inl 1) False True 0x1008
        initial_dis_state rigel_info = Inr (4, dst', di)" "last (i_stream di) = Put_address 0x1004"
    using r5 by (auto simp: pc2 g(2) s label_sym_def sample_fix_env_def)
  then show ?thesis using r(1-4) unfolding t by blast
qed

theorem far_label_reported_witness:
  "\<exists>st' g' chain f' fst'. assemble sample_session ''be $2,foo'' sample_ip sample_output = Asm_ok st' g' \<and> fix_chain g' = Some chain
    \<and> fixup_segment sample_fix_env (Section 0) chain \<lparr>xs_literal = fr_literal (g_store g'),
        xs_syms = (\<lambda>_. label_sym (Section 0) 0x41004), xs_msgs = []\<rparr> = Some (0, [f'], fst')
    \<and> Branch_out_of_range \<in> set (xs_msgs fst')"
proof -
  have t: "line_text 40 ([Reg_op 2] @ [Expr_op ''foo'' (symbol_expr ''foo'')]) = ''be $2,foo''"
    by (simp add: line_text_def rigel_entry_be) code_simp
  have g: "g_fixes sample_output = []" "g_now sample_output = 0" by (simp_all add: sample_output_def)
  have e: "a_reloc_size (s_aenv sample_session) BFD_RELOC_16_PCREL_S2 = 4" "x_big sample_fix_env = a_big (s_aenv sample_session)"
      "x_howto sample_fix_env BFD_RELOC_16_PCREL_S2" "\<not> x_linkrelax sample_fix_env"
    by (simp_all add: sample_session_def sample_fix_env_def)
  let ?syms = "\<lambda>_. label_sym (Section 0) 0x41004" and ?name = "the (X_add_symbol (symbol_expr ''foo''))"
  have l: "sy_segment (?syms (Named ?name)) = Section 0" "\<not> S_FORCE_RELOC (x_elf sample_fix_env) (?syms (Named ?name)) True"
      "\<not> in_reach (line_distance sample_fix_env (g_now sample_output) ?syms (length ([] :: byte list)) ?name
         (X_add_number (symbol_expr ''foo'')))"
    by (simp_all add: symbol_expr_def constant_expr_def line_distance_def label_sym_def sample_fix_env_def S_FORCE_RELOC_def
        bfd_is_com_section_def in_reach_def)
  show ?thesis
    using far_label_reported [OF sample_session_ok sample_branch sample_output_ok g(1) e refl l, of sample_ip]
    unfolding t by (elim exE conjE) (intro exI conjI; assumption)
qed

end
