(* ===== verification/Spec2Isabelle.thy ===== *)
theory Spec2Isabelle
  imports Opcode_Check Gas_Relax Gas_Hazards Dis_Entry Gas_Begin Gas_Relax16 Rigel_Limits Rigel_Lines Rigel_Source Rigel_Branch
begin

text \<open>
  A verification library for the Rigel port of the GNU binutils (\<open>binutils-2.18\<close>): the parts of the
  assembler \<open>gas\<close> and of the disassembler in \<open>libopcodes\<close> that know the Rigel instruction set. All paths
  below are relative to \<open>src/binutils-2.18\<close>.

  \<^bold>\<open>The program.\<close> Rigel replaces the MIPS back end. One table, \<open>mips_builtin_opcodes\<close>
  (\<open>include/rigel-isa.h\<close>), says for each mnemonic its operands, its encoding and the bits that are fixed.
  The assembler (\<open>gas/config/tc-mips.c\<close>) checks the table at start-up, hashes the mnemonics, fills
  operands into the encoding, keeps the history of what it emitted, inserts nops for hazards, relaxes
  branches and mips16 immediates, and writes bytes into frags. The disassembler (\<open>opcodes/mips-dis.c\<close>)
  reads a word, finds the entry and prints the operands; the names, the instruction set and the processor
  come from the object file and from the option string. mips16 code has a table and routines of its own.

  \<^bold>\<open>The theories.\<close> In the order in which they build on each other:
  \<^item> \<open>Rigel_Prelude\<close>: words of the host (\<open>ulong\<close>, \<open>uint\<close>, \<open>byte\<close>), C strings, \<open>find_index\<close>, the macros
    \<open>INSERT_BITS\<close> and \<open>EXTRACT_BITS\<close>, and the lemmas that a field reads back what was inserted and leaves
    every disjoint field alone.
  \<^item> \<open>Opcode_Mips\<close>: \<open>include/opcode/mips.h\<close>: fields, flags, ISA and processor numbers, \<open>struct mips_opcode\<close>
    as a record, \<open>OPCODE_IS_MEMBER\<close>.
  \<^item> \<open>Rigel_Isa\<close>: the 138 entries of the Rigel table in their order, as data; that their encodings exclude
    each other.
  \<^item> \<open>Byte_Order\<close>: \<open>number_to_chars_*\<close> (\<open>gas/write.c\<close>), \<open>md_number_to_chars\<close> and the readers
    \<open>bfd_get[bl]16\<close>, \<open>bfd_get[bl]32\<close> (\<open>bfd/libbfd.c\<close>). The locale \<open>byte_order\<close> is the contract of a writer
    and a reader; the four pairs of the code are its interpretations.
  \<^item> \<open>Bfd_Reloc\<close>: the names of the relocations that the code distinguishes.
  \<^item> \<open>Gas_Insn\<close>: \<open>struct mips_set_options\<close>, \<open>struct mips_cl_insn\<close>, \<open>create_insn\<close>, \<open>INSERT_OPERAND\<close>,
    \<open>install_insn\<close>, \<open>move_insn\<close>, \<open>add_fixed_insn\<close>. A store maps frags to their literal bytes; an access
    outside of them is \<open>None\<close>.
  \<^item> \<open>Opcode_Check\<close>: \<open>validate_mips_insn\<close>, letter by letter; every entry passes, and a table that passes is
    one whose words are reassembled from their fields.
  \<^item> \<open>Gas_Hash\<close>: the string hash table (\<open>gas/hash.c\<close>); the invariant, the partial map a table stands for, and
    the locale \<open>string_map\<close> that clients rest on.
  \<^item> \<open>Gas_Begin\<close>: the part of \<open>md_begin\<close> that fills the opcode tables, for any insertion that satisfies
    \<open>string_map\<close>, instantiated with \<open>hash_insert\<close>.
  \<^item> \<open>Gas_Regs\<close>: the tables of register names, their insertion into the symbol table (\<open>gas/symbols.c\<close>, two hash
    tables) and \<open>reg_lookup\<close>; the invariant \<open>registers_known\<close> says which names are registers.
  \<^item> \<open>Gas_Expr\<close>: expressions in operands: relocation operators, brackets, \<open>my_getSmallExpression\<close>, checks of
    constants. \<open>expression\<close> of \<open>gas/expr.c\<close> is a parameter.
  \<^item> \<open>Gas_Ip\<close>: \<open>mips_ip\<close>: the mnemonic, the entries of its name, and each operand letter as one step on the state
    of the parser; \<open>Rigel_Parse\<close>: what it comes to on the Rigel table, where each mnemonic has one entry.
  \<^item> \<open>Gas_Hazards\<close>: \<open>insn_uses_reg\<close>, \<open>insns_between\<close>, the VR4120 and VR4130 errata, \<open>nops_for_*\<close> and the
    history buffer.
  \<^item> \<open>Gas_Relax\<close>: the three packings of \<open>fr_subtype\<close>, the lengths of relaxed branches and the branch case of
    \<open>md_convert_frag\<close>.
  \<^item> \<open>Gas_Append\<close>: \<open>append_insn\<close>: nops, the choice of a frag, constants and fixups, register masks, delay slots,
    history and labels, and \<open>start_noreorder\<close>, \<open>end_noreorder\<close>, \<open>mips_emit_delays\<close>.
  \<^item> \<open>Rigel_Assemble\<close>, \<open>Rigel_Lines\<close>: \<open>md_assemble\<close>, from a line to bytes in a frag, for Rigel code.
  \<^item> \<open>Gas_Cpu\<close>: \<open>mips_cpu_info_table\<close>, the matching of names and \<open>mips_parse_cpu\<close>.
  \<^item> \<open>Gas_Options\<close>, \<open>Gas_Startup\<close>: the static variables that options set, \<open>md_longopts\<close>, \<open>md_parse_option\<close> and
    \<open>mips_after_parse_args\<close>; what they amount to for any command line, and for one that asks for Rigel.
  \<^item> \<open>Gas_Set\<close>, \<open>Rigel_Source\<close>: \<open>s_mipsset\<close> with its stack of options, and sources that mix directives and
    instructions. The locale \<open>set_invariant\<close> is the contract between a condition on the options and the directives;
    it is interpreted for the ISA levels that have a name and for the options of Rigel code.
  \<^item> \<open>Gas_Mips16\<close>, \<open>Gas_Relax16\<close>: \<open>mips16_immed\<close>, \<open>mips16_extended_frag\<close>, the mips16 steps of relaxation
    and conversion.
  \<^item> \<open>Gas_Fix\<close>: \<open>fixup_segment\<close> and \<open>generic_force_reloc\<close> (\<open>gas/write.c\<close>), the flags of symbols that they read
    (\<open>gas/symbols.c\<close>), \<open>md_pcrel_from\<close>, \<open>md_apply_fix\<close>, \<open>mips_force_relocation\<close>, \<open>mips_fix_adjustable\<close> and
    \<open>tc_gen_reloc\<close>: which fixups are resolved, which become relocations, and what a branch gets.
  \<^item> \<open>Rigel_Branch\<close>: branches and jumps to labels, from the line through the fixup to the text of the disassembler.
  \<^item> \<open>Rigel_Limits\<close>: what the analysis of register use, inherited from MIPS, sees of Rigel instructions.
  \<^item> \<open>Dis_Names\<close>, \<open>Dis_Options\<close>: the tables of register names, ABIs and architectures, the defaults for an
    object file and the option parser, with the cache of the last architecture.
  \<^item> \<open>Dis_Insn\<close>, \<open>Dis_Rigel\<close>: \<open>print_insn_args\<close> and \<open>print_insn_mips\<close>; output and addresses are events in a
    list, a name read out of bounds is \<open>None\<close>. On the Rigel table it never happens.
  \<^item> \<open>Mips16_Opc\<close>, \<open>Dis_Mips16\<close>: the mips16 table (\<open>opcodes/mips16-opc.c\<close>) and its disassembler, with the
    \<open>abort\<close>s as values.
  \<^item> \<open>Dis_Entry\<close>: \<open>_print_insn_mips\<close> and the two entry points. Memory is a function that answers a read with
    bytes or an error, as \<open>read_memory_func\<close> does.

  \<^bold>\<open>Conventions.\<close> \<open>unsigned long\<close> is a 64 bit word and \<open>unsigned int\<close> a 32 bit word, so that every wrap-around
  of the code is one of the model; a value the code computes in a signed type is an \<open>int\<close> taken with \<open>sint\<close>.
  A pointer to a table entry is its index, or the entry. A failed assertion, an \<open>abort\<close> and an access out of
  bounds are values (\<open>None\<close>, or an error in a sum), and the theorems show where they do not occur. Loops
  of the code are functions on lists, or recursion with a measure; nothing runs on fuel.

  \<^bold>\<open>The properties.\<close> They follow an instruction through the program. The table: entries exclude each other,
  pass the check, and describe words completely (\<open>Rigel_Isa\<close>, \<open>Opcode_Check\<close>). Start-up: the hash table refines a
  map and both opcode tables are filled with the first entry of each name (\<open>Gas_Hash\<close>, \<open>Gas_Begin\<close>), and the
  registers are known for good (\<open>Gas_Regs\<close>). Parsing: what any line leads to on the Rigel table, that well-formed
  lines become the words they mean, and which ill-formed lines pass or stop the assembler (\<open>Rigel_Lines\<close>). Options: any
  command line settles the processor and the sizes, one for Rigel gives the options of Rigel code, and without one
  its instructions are refused; \<open>.set\<close> directives never leave those options, and push and pop restore all of them
  (\<open>Gas_Startup\<close>, \<open>Gas_Set\<close>, \<open>Rigel_Source\<close>). Emission:
  what is emitted reads back, the history shifts, hazards never fail an assertion and Rigel code needs no
  nop (\<open>Gas_Insn\<close>, \<open>Gas_Hazards\<close>). Relaxation: subtypes read back, repeating a step settles, conversion writes
  what was decided (\<open>Gas_Relax\<close>, \<open>Gas_Relax16\<close>). Fixups: what is counted are relocations that can be made, labels in
  reach are resolved to the displacement that the disassembler prints as their address, and labels out of reach are
  always reported (\<open>Gas_Fix\<close>, \<open>Rigel_Branch\<close>). Disassembly: options keep the invariant of the state, the
  hashed scan finds what a linear scan would, every word is printed without a read out of bounds, and
  what was assembled is printed back (\<open>Dis_Options\<close>, \<open>Dis_Rigel\<close>, \<open>Dis_Mips16\<close>, \<open>Dis_Entry\<close>). The theorems of
  this theory close the circle, from operand values to bytes, from bytes to text, and from text to text.

  \<^bold>\<open>Not modelled.\<close> \<open>mips16_ip\<close>, so that a line in the MIPS16 mode is \<open>Asm_other\<close>; \<open>adjust_reloc_syms\<close> and
  \<open>mips_frob_file\<close>, which change and sort the fixups of a file; the relocations of bfd; and the directives other than
  \<open>.set\<close>. Macros of MIPS are not modelled: no entry of the Rigel table is one. \<open>append_insn\<close> leaves out the
  listing and the DWARF line table, and takes the room left in a frag as a parameter. The generic parts of gas,
  bfd and ld are GNU code that the port leaves as it is; the expressions, symbols and sections they provide are
  arguments of the definitions that use them. The LLVM back end beside the binutils is C++.
\<close>

section \<open>From operands to bytes and back\<close>

text \<open>C13: what the assembler writes into a frag is what the disassembler decodes. Create an
  instruction from an entry of the Rigel table, fill in operand values, and emit it: four bytes are
  appended to the frag, and the word read from them in the target's byte order is matched by that
  entry and no other, with the operand values, cut to the widths of their fields, in its fields.\<close>

theorem rigel_emit_decodes:
  assumes "mo \<in> set mips_builtin_opcodes" and "args_fields (op_args mo) = Some fs"
    and "length vs = length fs" and "o_mips16 opts = 0" and "fr_literal st fr = Some mem"
  shows "\<exists>insn' st' bs.
      add_fixed_insn opts big fr (fill_operands (create_insn opts mo) fs vs) st = Some (insn', st')
    \<and> fr_literal st' fr = Some (mem @ bs) \<and> length bs = 4
    \<and> (\<forall>mo'\<in>set mips_builtin_opcodes. opcode_matches mo' (bfd_get_32 big bs) \<longleftrightarrow> mo' = mo)
    \<and> map (\<lambda>f. op_get f (bfd_get_32 big bs)) fs = map2 (\<lambda>f v. v AND op_mask f) fs vs"
proof -
  let ?ip = "fill_operands (create_insn opts mo) fs vs"
  have w: "insn_opcode ?ip = encode_insn opts mo vs" using assms(2) by (simp add: encode_insn_def)
  have dec: "drop_bit 32 (encode_insn opts mo vs) = 0"
    "\<forall>mo'\<in>set mips_builtin_opcodes. opcode_matches mo' (encode_insn opts mo vs) \<longleftrightarrow> mo' = mo"
    "map (\<lambda>f. op_get f (encode_insn opts mo vs)) fs = map2 (\<lambda>f v. v AND op_mask f) fs vs"
    using encode_matches [OF rigel_well_formed [OF assms(1)] assms(2)]
      encode_reads [OF rigel_well_formed [OF assms(1)] assms(2,3)]
      rigel_entries_apart [OF _ assms(1)] by auto
  obtain insn' st' bs where "add_fixed_insn opts big fr ?ip st = Some (insn', st')"
      "fr_literal st' fr = Some (mem @ bs)" "length bs = 4"
      "bfd_get_32 big bs = take_bit 32 (encode_insn opts mo vs)"
    using add_fixed_insn_appends [OF assms(4,5), of big ?ip] w by auto
  moreover have "take_bit 32 (encode_insn opts mo vs) = encode_insn opts mo vs"
    using dec(1) by (rule low_half_word)
  ultimately show ?thesis using dec(2,3)
    by (intro exI [of _ insn'] exI [of _ st'] exI [of _ bs] conjI) simp_all
qed

theorem rigel_emit_decodes_witness:
  "\<exists>insn' st' bs.
      add_fixed_insn (initial_mips_opts\<lparr>o_mips16 := 0\<rparr>) True 0
        (fill_operands (create_insn (initial_mips_opts\<lparr>o_mips16 := 0\<rparr>) (mips_builtin_opcodes ! 4))
          [F_RD, F_RT, F_DELTA] [1, 2, 3]) \<lparr>fr_literal = [0 \<mapsto> []], fixes_of = Map.empty\<rparr>
        = Some (insn', st')
    \<and> map (\<lambda>f. op_get f (bfd_get_32 True bs)) [F_RD, F_RT, F_DELTA] = [1, 2, 3]"
proof -
  have a: "args_fields (op_args (mips_builtin_opcodes ! 4)) = Some [F_RD, F_RT, F_DELTA]"
    unfolding rigel_entry_addi by (simp only: opcode_sel rigel_args_fields)
  show ?thesis
    using rigel_emit_decodes [OF rigel_nth_mem a, of "[1, 2, 3]" "initial_mips_opts\<lparr>o_mips16 := 0\<rparr>"
        "\<lparr>fr_literal = [0 \<mapsto> []], fixes_of = Map.empty\<rparr>" 0 "[]" True]
    by (auto simp: F_RD_def F_RT_def F_DELTA_def)
qed

section \<open>From the assembler to the disassembler\<close>

text \<open>C14: the whole way round. The bytes the assembler appends to a frag for an entry of the Rigel table
  and operand values, placed at an even address of a Rigel object, are disassembled through the entry
  point of the target's byte order to the mnemonic of that entry and those operands: the registers by
  the names in force, the immediates, and the target addresses of branches and jumps.\<close>

theorem emitted_bytes_disassemble:
  assumes "mo \<in> set mips_builtin_opcodes" and "args_fields (op_args mo) = Some fs"
    and "length vs = length fs" and "o_mips16 opts = 0" and "fr_literal st fr = Some mem"
    and "hint_ok dst" and "rigel_hash_ok dst" and "rigel_file (i_file info)" and "memaddr AND 1 = 0"
  shows "\<exists>insn' st' bs dst' i.
      add_fixed_insn opts big fr (fill_operands (create_insn opts mo) fs vs) st = Some (insn', st')
    \<and> fr_literal st' fr = Some (mem @ bs)
    \<and> dis_print_insn (\<lambda>a n. if a = memaddr \<and> n = 4 then Inr bs else Inl 1) False big memaddr dst info
        = Inr (4, dst', i)
    \<and> i_stream i = i_stream info @ Put (op_name mo) # (if op_args mo = [] then [] else
        Put '' '' # operand_events (parse_mips_dis_options (di_options (i_file info))
            (set_default_mips_dis_options (i_file info) dst)) memaddr (op_args mo)
          (map2 (\<lambda>f v. v AND op_mask f) fs vs))"
proof -
  let ?ip = "fill_operands (create_insn opts mo) fs vs"
  have w: "insn_opcode ?ip = encode_insn opts mo vs" using assms(2) by (simp add: encode_insn_def)
  obtain insn' st' bs where e: "add_fixed_insn opts big fr ?ip st = Some (insn', st')"
      "fr_literal st' fr = Some (mem @ bs)" "length bs = 4"
      "bfd_get_32 big bs = take_bit 32 (encode_insn opts mo vs)"
    using add_fixed_insn_appends [OF assms(4,5), of big ?ip] w by auto
  have b: "bfd_get_32 big bs = encode_insn opts mo vs"
    using e(4) low_half_word [OF encode_matches(2) [OF rigel_well_formed [OF assms(1)] assms(2)]] by simp
  show ?thesis using e(1,2) word_disassembles [OF assms(1-3) b assms(6-9)] by blast
qed

theorem emitted_bytes_disassemble_witness:
  "\<exists>insn' st' bs dst' i.
      add_fixed_insn (initial_mips_opts\<lparr>o_mips16 := 0\<rparr>) True 0
        (fill_operands (create_insn (initial_mips_opts\<lparr>o_mips16 := 0\<rparr>) (mips_builtin_opcodes ! 40))
          [F_RT, F_DELTA] [2, 0xfffe]) \<lparr>fr_literal = [0 \<mapsto> []], fixes_of = Map.empty\<rparr> = Some (insn', st')
    \<and> dis_print_insn (\<lambda>a n. if a = 0x1000 \<and> n = 4 then Inr bs else Inl 1) False True 0x1000
        initial_dis_state rigel_info = Inr (4, dst', i)
    \<and> i_stream i = [Put ''be'', Put '' '', Put ''$r2'', Put '','', Put_address 0xffc]"
proof -
  have a: "op_args (mips_builtin_opcodes ! 40) = ''t,p''" "op_name (mips_builtin_opcodes ! 40) = ''be''"
    unfolding rigel_entry_be by simp_all
  have f: "args_fields (op_args (mips_builtin_opcodes ! 40)) = Some [F_RT, F_DELTA]"
    unfolding a by (simp only: rigel_args_fields)
  have n: "mips_gpr_names (set_default_mips_dis_options rigel_object initial_dis_state) = mips_gpr_names_rigel"
    using rigel_session_names by (simp add: rigel_session_def)
  have o: "i_file rigel_info = rigel_object" "i_stream rigel_info = []" "di_options rigel_object = None"
    by (simp_all add: rigel_info_def rigel_object_def)
  show ?thesis
    using emitted_bytes_disassemble [OF rigel_nth_mem f, of "[2, 0xfffe]"
        "initial_mips_opts\<lparr>o_mips16 := 0\<rparr>" "\<lparr>fr_literal = [0 \<mapsto> []], fixes_of = Map.empty\<rparr>" 0 "[]"
        initial_dis_state rigel_info "0x1000" True] rigel_object_file initial_hint_ok initial_hash_ok
    by (auto simp: a o n parse_mips_dis_options_def operand_event_def F_RT_def F_DELTA_def
        mips_gpr_names_rigel_def)
qed

section \<open>From text to text\<close>

text \<open>C1: a line of text goes round. A line that the Rigel assembler accepts with the operands its entry asks for
  is assembled into four bytes; at an even address of a Rigel object the disassembler prints for them the
  mnemonic of the line, a blank and its operands: the registers of those numbers, the constants cut to their
  fields, and for a branch or jump the address its constant stands for.\<close>

theorem assembled_line_disassembles:
  assumes "rigel_session_ok se" and "good_operands se i opds" and "output_ok g mem"
    and "args_fields (op_args (mips_builtin_opcodes ! i)) = Some fs"
    and "hint_ok dst" and "rigel_hash_ok dst" and "rigel_file (i_file info)" and "memaddr AND 1 = 0"
  shows "\<exists>st' g' bs dst' di. assemble se (line_text i opds) st g = Asm_ok st' g' \<and> output_ok g' (mem @ bs)
    \<and> dis_print_insn (\<lambda>a n. if a = memaddr \<and> n = 4 then Inr bs else Inl 1) False (a_big (s_aenv se)) memaddr dst info
        = Inr (4, dst', di)
    \<and> i_stream di = i_stream info @ Put (op_name (mips_builtin_opcodes ! i)) #
        (if op_args (mips_builtin_opcodes ! i) = [] then [] else
         Put '' '' # operand_events (parse_mips_dis_options (di_options (i_file info))
            (set_default_mips_dis_options (i_file info) dst)) memaddr (op_args (mips_builtin_opcodes ! i))
          (map2 (\<lambda>f v. v AND op_mask f) fs
             (map2 operand_value (operand_letters_of (op_args (mips_builtin_opcodes ! i))) opds)))"
proof -
  let ?mo = "mips_builtin_opcodes ! i"
  let ?vs = "map2 operand_value (operand_letters_of (op_args ?mo)) opds"
  have i: "i < 138" using assms(2) by (simp add: good_operands_def)
  obtain st' g' bs where a: "assemble se (line_text i opds) st g = Asm_ok st' g'" "output_ok g' (mem @ bs)"
      "bfd_get_32 (a_big (s_aenv se)) bs = encode_insn (s_opts se) ?mo ?vs"
    using line_assembled [OF assms(1-3), of st] unfolding line_word_of_def by blast
  have "length ?vs = length fs" by (rule operands_fields [OF assms(2,4)])
  then show ?thesis
    using a(1,2) word_disassembles [OF rigel_nth_mem [OF i] assms(4) _ a(3) assms(5-8)] by blast
qed

theorem assembled_line_disassembles_witness:
  "\<exists>st' g' bs dst' di. assemble sample_session ''addi $1,$29,5'' sample_ip sample_output = Asm_ok st' g' \<and> output_ok g' bs
    \<and> dis_print_insn (\<lambda>a n. if a = 0x1000 \<and> n = 4 then Inr bs else Inl 1) False True 0x1000 initial_dis_state rigel_info
        = Inr (4, dst', di)
    \<and> i_stream di = [Put ''addi'', Put '' '', Put ''$r1'', Put '','', Put ''$sp'', Put '','', Put ''5'']"
proof -
  have a: "op_args (mips_builtin_opcodes ! 4) = ''d,t,j''" "op_name (mips_builtin_opcodes ! 4) = ''addi''"
    unfolding rigel_entry_addi by simp_all
  have f: "args_fields (op_args (mips_builtin_opcodes ! 4)) = Some [F_RD, F_RT, F_DELTA]"
    unfolding a by (simp only: rigel_args_fields)
  have n: "mips_gpr_names (set_default_mips_dis_options rigel_object initial_dis_state) = mips_gpr_names_rigel"
    using rigel_session_names by (simp add: rigel_session_def)
  have o: "i_file rigel_info = rigel_object" "i_stream rigel_info = []" "di_options rigel_object = None"
    by (simp_all add: rigel_info_def rigel_object_def)
  show ?thesis
    using assembled_line_disassembles [OF sample_session_ok sample_addi sample_output_ok f initial_hint_ok initial_hash_ok,
        of rigel_info "0x1000" sample_ip] rigel_object_file
    by (simp add: a o n sample_addi_text sample_fields operand_letters_of_def constant_expr_def parse_mips_dis_options_def
        operand_event_def F_RD_def F_RT_def F_DELTA_def mips_gpr_names_rigel_def fmt_d_def show_base.simps digit_char_def
        char_of_def bit_0)
qed

end
